(* ===== verification/Prelude.thy ===== *)
theory Prelude imports Complex_Main "HOL-Library.Multiset" "HOL-Library.Sublist" begin

text \<open>
  Shared vocabulary of the development: the fact collections the component theories feed and
  use, the outcome type of fallible code, and generic lemmas on lists that several
  components need (Python slices, the stable descending sort, order-preserving
  de-duplication, keyed tables kept as lists of rows).
\<close>

section \<open>Collections of facts\<close>

named_theorems model_defs \<open>definitions of the model unfolded when a handler is evaluated\<close>
named_theorems guard_simps \<open>what a guard or an early return of the source gives\<close>
named_theorems db_simps \<open>how database operations read after one another\<close>

section \<open>Types and outcomes\<close>

type_synonym uuid = nat
type_synonym datetime = int
type_synonym money = real

text \<open>
  A Python function that may raise returns a value of a sum: \<open>Inl\<close> the exception, \<open>Inr\<close>
  the result. \<open>HTTPException\<close> carries the status code; every other exception carries its
  class name and message.
\<close>

datatype exn = HTTPException (exn_code: nat) (exn_detail: string) | PyError (exn_class: string) (exn_msg: string)

type_synonym 'a outcome = "exn + 'a"

fun is_ok :: "'a outcome \<Rightarrow> bool" where
  "is_ok (Inl e) = False"
| "is_ok (Inr x) = True"

section \<open>Python slices\<close>

text \<open>
  \<open>xs[a:b]\<close> of Python: negative bounds count from the end, and both bounds are clamped to
  the list.
\<close>

definition slice_bound :: "int \<Rightarrow> nat \<Rightarrow> nat" where
  "slice_bound i n = (if i < 0 then nat (int n + i) else min (nat i) n)"

definition py_slice :: "'a list \<Rightarrow> int \<Rightarrow> int \<Rightarrow> 'a list" where
  "py_slice xs a b =
     take (slice_bound b (length xs) - slice_bound a (length xs)) (drop (slice_bound a (length xs)) xs)"

lemma slice_bound_nonneg [simp]: "0 \<le> i \<Longrightarrow> slice_bound i n = min (nat i) n"
  by (simp add: slice_bound_def)

lemma py_slice_nonneg:
  assumes "0 \<le> a" and "0 \<le> b"
  shows "py_slice xs a b = take (nat b - nat a) (drop (nat a) xs)"
proof (cases "nat a \<le> length xs")
  case True
  then have "min (nat b) (length xs) - nat a = min (nat b - nat a) (length xs - nat a)"
    by linarith
  with True assms show ?thesis
    by (simp add: py_slice_def min_def)
next
  case False
  with assms show ?thesis by (simp add: py_slice_def)
qed

lemma set_py_slice: "set (py_slice xs a b) \<subseteq> set xs"
  unfolding py_slice_def by (meson set_drop_subset set_take_subset subset_trans)

section \<open>Windows of a list\<close>

text \<open>
  \<open>[xs[i : i + n] for i in range(0, len(xs), n)]\<close>. Python raises on a zero step, and every caller
  passes a positive one; a zero here is treated as one window.
\<close>

function windows :: "nat \<Rightarrow> 'a list \<Rightarrow> 'a list list" where
  "windows n xs = (if xs = [] then [] else if n = 0 then [xs] else take n xs # windows n (drop n xs))"
  by pat_completeness auto
termination
  by (relation "measure (\<lambda>(n, xs). length xs)") auto

declare windows.simps [simp del]

lemma windows_Nil [simp]: "windows n [] = []"
  by (simp add: windows.simps)

lemma windows_step: "0 < n \<Longrightarrow> xs \<noteq> [] \<Longrightarrow> windows n xs = take n xs # windows n (drop n xs)"
  by (simp add: windows.simps [of n xs])

lemma concat_windows [simp]: "concat (windows n xs) = xs"
proof (induction n xs rule: windows.induct)
  case (1 n xs)
  then show ?case by (cases "xs = []"; cases "n = 0") (auto simp: windows.simps [of n xs] windows.simps [of 0 xs])
qed

lemma windows_sizes:
  assumes "0 < n" and "w \<in> set (windows n xs)"
  shows "w \<noteq> [] \<and> length w \<le> n"
  using assms
proof (induction n xs rule: windows.induct)
  case (1 n xs)
  then show ?case by (cases "xs = []") (auto simp: windows.simps [of n xs])
qed

lemma windows_full:
  assumes "0 < n" and "Suc i < length (windows n xs)"
  shows "length (windows n xs ! i) = n"
  using assms
proof (induction n xs arbitrary: i rule: windows.induct)
  case (1 n xs)
  then have ne: "xs \<noteq> []" by auto
  have w: "windows n xs = take n xs # windows n (drop n xs)" using 1(2) ne by (rule windows_step)
  show ?case
  proof (cases i)
    case 0
    from 1(3) w 0 have "windows n (drop n xs) \<noteq> []" by auto
    then have "drop n xs \<noteq> []" by auto
    with w 0 show ?thesis by simp
  next
    case (Suc j)
    with 1 ne w show ?thesis by simp
  qed
qed

section \<open>Stable descending sort\<close>

text \<open>
  \<open>sorted(xs, key=f, reverse=True)\<close> of Python keeps the order of equal keys; so does
  \<open>sort_key\<close> on the negated key.
\<close>

definition sort_desc :: "('a \<Rightarrow> real) \<Rightarrow> 'a list \<Rightarrow> 'a list" where
  "sort_desc f xs = sort_key (\<lambda>x. - f x) xs"

definition sorted_desc :: "('a \<Rightarrow> real) \<Rightarrow> 'a list \<Rightarrow> bool" where
  "sorted_desc f xs = sorted_wrt (\<lambda>x y. f y \<le> f x) xs"

lemma sorted_desc_simps [simp]:
  "sorted_desc f []"
  "sorted_desc f (x # xs) \<longleftrightarrow> (\<forall>y\<in>set xs. f y \<le> f x) \<and> sorted_desc f xs"
  by (simp_all add: sorted_desc_def)

lemma sorted_desc_append:
  "sorted_desc f (xs @ ys) \<longleftrightarrow>
     sorted_desc f xs \<and> sorted_desc f ys \<and> (\<forall>x\<in>set xs. \<forall>y\<in>set ys. f y \<le> f x)"
  by (auto simp: sorted_desc_def sorted_wrt_append)

lemma sorted_desc_sort_desc: "sorted_desc f (sort_desc f xs)"
proof -
  have "sorted (map (\<lambda>x. - f x) (sort_desc f xs))"
    by (simp add: sort_desc_def)
  then show ?thesis
    by (simp add: sorted_desc_def sorted_wrt_map)
qed

lemma mset_sort_desc [simp]: "mset (sort_desc f xs) = mset xs"
  by (simp add: sort_desc_def)

lemma set_sort_desc [simp]: "set (sort_desc f xs) = set xs"
  by (simp add: sort_desc_def)

lemma length_sort_desc [simp]: "length (sort_desc f xs) = length xs"
  by (simp add: sort_desc_def)

lemma distinct_sort_desc [simp]: "distinct (sort_desc f xs) = distinct xs"
  by (simp add: sort_desc_def)

lemma distinct_map_sort_desc [simp]: "distinct (map g (sort_desc f xs)) = distinct (map g xs)"
proof -
  have "mset (map g (sort_desc f xs)) = mset (map g xs)" by simp
  then show ?thesis by (metis mset_eq_imp_distinct_iff)
qed

lemma sort_desc_sorted: "sorted_desc f xs \<Longrightarrow> sort_desc f xs = xs"
  unfolding sort_desc_def sorted_desc_def
  by (rule sort_key_id_if_sorted) (simp add: sorted_wrt_map)

lemma sort_desc_stable: "filter (\<lambda>y. f y = f x) (sort_desc f xs) = filter (\<lambda>y. f y = f x) xs"
proof -
  have "filter (\<lambda>y. - f y = - f x) (sort_key (\<lambda>x. - f x) xs) = filter (\<lambda>y. - f y = - f x) xs"
    by (rule sort_key_stable [of _ "- f x"])
  then show ?thesis by (simp add: sort_desc_def)
qed

lemma subseq_subset: "subseq xs ys \<Longrightarrow> set xs \<subseteq> set ys"
  by (induction rule: list_emb.induct) auto

lemma subseq_take: "subseq (take n xs) xs"
  by (metis append_take_drop_id append_Nil2 list_emb_append_mono list_emb_Nil subseq_order.order_refl)

lemma sorted_desc_subseq: "subseq xs ys \<Longrightarrow> sorted_desc f ys \<Longrightarrow> sorted_desc f xs"
  by (induction rule: list_emb.induct)
     (auto dest: list_emb_set)

lemma sorted_desc_filter: "sorted_desc f xs \<Longrightarrow> sorted_desc f (filter P xs)"
  by (rule sorted_desc_subseq [OF subseq_filter_left])

lemma sorted_desc_take: "sorted_desc f xs \<Longrightarrow> sorted_desc f (take n xs)"
  by (metis append_take_drop_id sorted_desc_append)

section \<open>Order-preserving de-duplication\<close>

text \<open>The keys of a Python dict filled by \<open>setdefault\<close>: first occurrences, in order.\<close>

fun first_occurrences :: "'a list \<Rightarrow> 'a list" where
  "first_occurrences [] = []"
| "first_occurrences (x # xs) = x # filter (\<lambda>y. y \<noteq> x) (first_occurrences xs)"

lemma set_first_occurrences [simp]: "set (first_occurrences xs) = set xs"
  by (induction xs) auto

lemma distinct_first_occurrences [simp]: "distinct (first_occurrences xs)"
  by (induction xs) auto

lemma first_occurrences_id: "distinct xs \<Longrightarrow> first_occurrences xs = xs"
proof (induction xs)
  case (Cons x xs)
  then have "filter (\<lambda>y. y \<noteq> x) xs = xs" by (auto intro: filter_True)
  with Cons show ?case by simp
qed simp

lemma subseq_first_occurrences: "subseq (first_occurrences xs) xs"
proof (induction xs)
  case (Cons x xs)
  have "subseq (filter (\<lambda>y. y \<noteq> x) (first_occurrences xs)) xs"
    using Cons subseq_filter_left subseq_order.trans by blast
  then show ?case by simp
qed simp

section \<open>Keyed tables\<close>

text \<open>
  A database table is a list of rows. A lookup by a unique column takes the first row with
  the key, an upsert replaces that row or appends one, a delete drops every row with the key.
\<close>

definition tbl_find :: "('r \<Rightarrow> 'k) \<Rightarrow> 'k \<Rightarrow> 'r list \<Rightarrow> 'r option" where
  "tbl_find key k rows = find (\<lambda>r. key r = k) rows"

fun tbl_put :: "('r \<Rightarrow> 'k) \<Rightarrow> 'r \<Rightarrow> 'r list \<Rightarrow> 'r list" where
  "tbl_put key r [] = [r]"
| "tbl_put key r (x # xs) = (if key x = key r then r # xs else x # tbl_put key r xs)"

definition tbl_del :: "('r \<Rightarrow> 'k) \<Rightarrow> 'k \<Rightarrow> 'r list \<Rightarrow> 'r list" where
  "tbl_del key k rows = filter (\<lambda>r. key r \<noteq> k) rows"

definition tbl_keys :: "('r \<Rightarrow> 'k) \<Rightarrow> 'r list \<Rightarrow> 'k set" where
  "tbl_keys key rows = key ` set rows"

lemma tbl_find_simps [simp]:
  "tbl_find key k [] = None"
  "tbl_find key k (x # xs) = (if key x = k then Some x else tbl_find key k xs)"
  by (simp_all add: tbl_find_def)

lemma tbl_find_put [db_simps]:
  "tbl_find key k (tbl_put key r rows) = (if key r = k then Some r else tbl_find key k rows)"
  by (induction rows) auto

lemma tbl_find_del [db_simps]:
  "tbl_find key k (tbl_del key k' rows) = (if k = k' then None else tbl_find key k rows)"
  by (induction rows) (auto simp: tbl_del_def)

lemma tbl_find_append [db_simps]:
  "tbl_find key k (xs @ ys) = (case tbl_find key k xs of None \<Rightarrow> tbl_find key k ys | Some r \<Rightarrow> Some r)"
  by (induction xs) auto

lemma tbl_find_map:
  "(\<And>r. r \<in> set rows \<Longrightarrow> key (f r) = key r) \<Longrightarrow> tbl_find key k (map f rows) = map_option f (tbl_find key k rows)"
  by (induction rows) auto

lemma tbl_find_None: "tbl_find key k rows = None \<longleftrightarrow> k \<notin> tbl_keys key rows"
  by (induction rows) (auto simp: tbl_keys_def)

lemma tbl_find_Some: "tbl_find key k rows = Some r \<Longrightarrow> r \<in> set rows \<and> key r = k"
  by (induction rows) (auto split: if_splits)

lemma tbl_find_in_set: "r \<in> set rows \<Longrightarrow> \<exists>r'. tbl_find key (key r) rows = Some r'"
  by (induction rows) auto

lemma set_tbl_put: "set (tbl_put key r rows) \<subseteq> insert r (set rows)"
  by (induction rows) auto

lemma tbl_keys_put [db_simps]: "tbl_keys key (tbl_put key r rows) = insert (key r) (tbl_keys key rows)"
  by (induction rows) (auto simp: tbl_keys_def)

lemma tbl_keys_del [db_simps]: "tbl_keys key (tbl_del key k rows) = tbl_keys key rows - {k}"
  by (auto simp: tbl_keys_def tbl_del_def)

lemma distinct_tbl_put: "distinct (map key rows) \<Longrightarrow> distinct (map key (tbl_put key r rows))"
proof (induction rows)
  case (Cons x xs)
  then show ?case
    using tbl_keys_put [of key r xs] by (auto simp: tbl_keys_def)
qed simp

lemma distinct_tbl_del: "distinct (map key rows) \<Longrightarrow> distinct (map key (tbl_del key k rows))"
  by (simp add: tbl_del_def distinct_map_filter)

lemma tbl_find_unique:
  "distinct (map key rows) \<Longrightarrow> r \<in> set rows \<Longrightarrow> tbl_find key (key r) rows = Some r"
  by (induction rows) auto

end
