(* ===== verification/PyStr.thy ===== *)
theory PyStr imports Prelude begin

text \<open>
  The string operations of the Python standard library that the source calls. A Python
  string is a list of code points; the type \<open>string\<close> carries the code points below 256, and
  every predicate here is Python's on that range (so whitespace includes the separators
  28--31 and the code points 133 and 160, and lower-casing covers the accented capitals).
\<close>

section \<open>Character classes\<close>

definition code :: "char \<Rightarrow> nat" where
  "code c = of_char c"

text \<open>\<open>str.isspace\<close>, also \<open>\s\<close> of \<open>re\<close> on strings.\<close>

definition is_space :: "char \<Rightarrow> bool" where
  "is_space c = (code c = 32 \<or> (9 \<le> code c \<and> code c \<le> 13) \<or> (28 \<le> code c \<and> code c \<le> 31)
                 \<or> code c = 133 \<or> code c = 160)"

text \<open>\<open>\d\<close> of \<open>re\<close>: the only decimal digits below 256 are the ASCII ones.\<close>

definition is_digit :: "char \<Rightarrow> bool" where
  "is_digit c = (48 \<le> code c \<and> code c \<le> 57)"

definition is_upper :: "char \<Rightarrow> bool" where
  "is_upper c = ((65 \<le> code c \<and> code c \<le> 90) \<or> (192 \<le> code c \<and> code c \<le> 222 \<and> code c \<noteq> 215))"

definition is_ascii_letter :: "char \<Rightarrow> bool" where
  "is_ascii_letter c = ((65 \<le> code c \<and> code c \<le> 90) \<or> (97 \<le> code c \<and> code c \<le> 122))"

text \<open>\<open>\w\<close> of \<open>re\<close>: \<open>str.isalnum\<close> or the underscore.\<close>

definition is_word :: "char \<Rightarrow> bool" where
  "is_word c = (is_ascii_letter c \<or> is_digit c \<or> code c = 95 \<or> code c = 170
     \<or> code c \<in> {178, 179, 181, 185, 186, 188, 189, 190}
     \<or> (192 \<le> code c \<and> code c \<noteq> 215 \<and> code c \<noteq> 247))"

definition lower_char :: "char \<Rightarrow> char" where
  "lower_char c = (if is_upper c then char_of (code c + 32) else c)"

definition py_lower :: "string \<Rightarrow> string" where
  "py_lower s = map lower_char s"

lemma code_lt: "code c < 256"
  unfolding code_def by (rule of_char_mod_256 [THEN subst]) simp

lemma code_lower: "is_upper c \<Longrightarrow> code (lower_char c) = code c + 32"
  unfolding lower_char_def code_def by (auto simp: is_upper_def code_def)

lemma not_is_upper_lower [simp]: "\<not> is_upper (lower_char c)"
proof (cases "is_upper c")
  case True
  then have "code (lower_char c) = code c + 32" by (rule code_lower)
  with True show ?thesis unfolding is_upper_def by linarith
qed (simp add: lower_char_def)

lemma lower_char_idem [simp]: "lower_char (lower_char c) = lower_char c"
  by (subst lower_char_def) simp

lemma py_lower_idem [simp]: "py_lower (py_lower s) = py_lower s"
  by (simp add: py_lower_def)

lemma is_space_lower [simp]: "is_space (lower_char c) = is_space c"
proof (cases "is_upper c")
  case True
  then have "code (lower_char c) = code c + 32" by (rule code_lower)
  with True show ?thesis unfolding is_space_def is_upper_def by linarith
qed (simp add: lower_char_def)

section \<open>Strip, split, join\<close>

definition py_lstrip :: "string \<Rightarrow> string" where
  "py_lstrip s = dropWhile is_space s"

definition py_rstrip :: "string \<Rightarrow> string" where
  "py_rstrip s = rev (dropWhile is_space (rev s))"

definition py_strip :: "string \<Rightarrow> string" where
  "py_strip s = py_rstrip (py_lstrip s)"

function py_split :: "string \<Rightarrow> string list" where
  "py_split s =
     (let t = dropWhile is_space s in
      if t = [] then []
      else takeWhile (\<lambda>c. \<not> is_space c) t # py_split (dropWhile (\<lambda>c. \<not> is_space c) t))"
  by pat_completeness auto
termination
proof (relation "measure length", simp)
  fix s t :: string
  assume t: "t = dropWhile is_space s" and "t \<noteq> []"
  then have "\<not> is_space (hd t)" by (metis hd_dropWhile)
  then have "length (dropWhile (\<lambda>c. \<not> is_space c) t) < length t"
    using \<open>t \<noteq> []\<close> by (cases t) (simp_all add: le_imp_less_Suc length_dropWhile_le)
  also have "length t \<le> length s" by (simp add: t length_dropWhile_le)
  finally show "(dropWhile (\<lambda>c. \<not> is_space c) t, s) \<in> measure length" by simp
qed

declare py_split.simps [simp del]

fun py_join :: "string \<Rightarrow> string list \<Rightarrow> string" where
  "py_join sep [] = []"
| "py_join sep [x] = x"
| "py_join sep (x # y # zs) = x @ sep @ py_join sep (y # zs)"

lemma py_join_Cons: "py_join sep (x # xs) = (if xs = [] then x else x @ sep @ py_join sep xs)"
  by (cases xs) auto

definition is_token :: "string \<Rightarrow> bool" where
  "is_token w = (w \<noteq> [] \<and> (\<forall>c\<in>set w. \<not> is_space c))"

lemma py_split_tokens: "w \<in> set (py_split s) \<Longrightarrow> is_token w"
proof (induction s rule: py_split.induct)
  case (1 s)
  show ?case
  proof (cases "dropWhile is_space s")
    case Nil
    with "1.prems" show ?thesis by (simp add: py_split.simps [of s])
  next
    case (Cons c cs)
    then have c: "\<not> is_space c" by (metis hd_dropWhile list.discI list.sel(1))
    have "is_token (takeWhile (\<lambda>c. \<not> is_space c) (c # cs))"
      using c by (auto simp: is_token_def dest: set_takeWhileD)
    with "1" Cons show ?thesis by (auto simp: py_split.simps [of s] Let_def)
  qed
qed

lemma py_split_Nil [simp]: "py_split [] = []"
  by (simp add: py_split.simps)

lemma py_split_space: "is_space c \<Longrightarrow> py_split (c # s) = py_split s"
  by (simp add: py_split.simps [of "c # s"] py_split.simps [of s])

lemma py_split_token:
  assumes "is_token w" and "s = [] \<or> is_space (hd s)"
  shows "py_split (w @ s) = w # py_split s"
proof -
  from assms(1) obtain c cs where w: "w = c # cs" and c: "\<not> is_space c"
    by (cases w) (auto simp: is_token_def)
  have all: "\<forall>x\<in>set w. \<not> is_space x" using assms(1) by (simp add: is_token_def)
  have 1: "dropWhile is_space (w @ s) = w @ s" by (simp add: w c)
  have 2: "takeWhile (\<lambda>c. \<not> is_space c) (w @ s) = w"
    using all assms(2) by (cases s) (auto simp: takeWhile_append)
  have 3: "dropWhile (\<lambda>c. \<not> is_space c) (w @ s) = s"
    using all assms(2) by (cases s) (auto simp: dropWhile_append)
  have "w @ s \<noteq> []" by (simp add: w)
  then show ?thesis by (simp add: py_split.simps [of "w @ s"] 1 2 3 Let_def)
qed

text \<open>Splitting what was joined with single spaces gives the words back.\<close>

lemma py_split_join: "\<forall>w\<in>set ws. is_token w \<Longrightarrow> py_split (py_join '' '' ws) = ws"
proof (induction ws)
  case Nil
  then show ?case by simp
next
  case (Cons w ws)
  have sp: "is_space CHR '' ''" by (simp add: is_space_def code_def)
  have w: "is_token w" using Cons.prems by simp
  show ?case
  proof (cases ws)
    case Nil
    then show ?thesis using py_split_token [OF w, of "[]"] by simp
  next
    case (Cons v vs)
    then have eq: "py_join '' '' (w # ws) = w @ CHR '' '' # py_join '' '' ws" by simp
    show ?thesis
      unfolding eq using py_split_token [OF w, of "CHR '' '' # py_join '' '' ws"]
      using Cons.IH Cons.prems sp by (simp add: py_split_space)
  qed
qed

lemma py_split_join_tokens: "py_split (py_join '' '' (py_split s)) = py_split s"
  by (rule py_split_join) (auto dest: py_split_tokens)

lemma py_lstrip_hd: "py_lstrip s = [] \<or> \<not> is_space (hd (py_lstrip s))"
  by (metis hd_dropWhile py_lstrip_def)

lemma py_rstrip_last: "py_rstrip s = [] \<or> \<not> is_space (last (py_rstrip s))"
  by (metis hd_dropWhile last_rev py_rstrip_def rev_is_Nil_conv)

lemma py_rstrip_prefix: "prefix (py_rstrip s) s"
  by (metis py_rstrip_def rev_rev_ident suffix_dropWhile suffix_to_prefix)

lemma py_strip_ends:
  assumes "py_strip s \<noteq> []"
  shows "\<not> is_space (hd (py_strip s)) \<and> \<not> is_space (last (py_strip s))"
proof
  have "prefix (py_strip s) (py_lstrip s)" by (simp add: py_strip_def py_rstrip_prefix)
  then have "hd (py_strip s) = hd (py_lstrip s)" and "py_lstrip s \<noteq> []"
    using assms by (auto simp: prefix_def)
  then show "\<not> is_space (hd (py_strip s))" using py_lstrip_hd by metis
  show "\<not> is_space (last (py_strip s))"
    using assms py_rstrip_last by (metis py_strip_def)
qed

lemma set_py_strip: "set (py_strip s) \<subseteq> set s"
  unfolding py_strip_def py_rstrip_def py_lstrip_def
  by (auto dest!: set_dropWhileD)

section \<open>Prefixes, suffixes, containment\<close>

definition py_startswith :: "string \<Rightarrow> string \<Rightarrow> bool" where
  "py_startswith s p = (take (length p) s = p)"

definition py_endswith :: "string \<Rightarrow> string \<Rightarrow> bool" where
  "py_endswith s p = (length p \<le> length s \<and> drop (length s - length p) s = p)"

definition py_removeprefix :: "string \<Rightarrow> string \<Rightarrow> string" where
  "py_removeprefix s p = (if py_startswith s p then drop (length p) s else s)"

fun py_contains :: "string \<Rightarrow> string \<Rightarrow> bool" where
  "py_contains p [] = (p = [])"
| "py_contains p (c # cs) = (py_startswith (c # cs) p \<or> py_contains p cs)"

lemma py_startswith_append [simp]: "py_startswith (p @ s) p"
  by (simp add: py_startswith_def)

lemma py_startswith_iff: "py_startswith s p \<longleftrightarrow> (\<exists>r. s = p @ r)"
  by (metis append_take_drop_id append_eq_conv_conj py_startswith_def)

lemma py_endswith_iff: "py_endswith s p \<longleftrightarrow> (\<exists>r. s = r @ p)"
proof
  assume "py_endswith s p"
  then have "s = take (length s - length p) s @ p"
    using append_take_drop_id [of "length s - length p" s] by (simp add: py_endswith_def)
  then show "\<exists>r. s = r @ p" ..
qed (auto simp: py_endswith_def)

lemma py_contains_append: "py_contains p (a @ p @ b)"
proof (induction a)
  case Nil
  show ?case
  proof (cases "p @ b")
    case (Cons x xs)
    then have "py_startswith (x # xs) p" using py_startswith_append [of p b] by simp
    with Cons show ?thesis by simp
  qed simp
qed simp

lemma py_contains_iff: "py_contains p s \<longleftrightarrow> (\<exists>a b. s = a @ p @ b)"
proof
  show "py_contains p s \<Longrightarrow> \<exists>a b. s = a @ p @ b"
  proof (induction s)
    case (Cons c cs)
    show ?case
    proof (cases "py_startswith (c # cs) p")
      case True
      then obtain r where "c # cs = [] @ p @ r" by (auto simp: py_startswith_iff)
      then show ?thesis by blast
    next
      case False
      with Cons obtain a b where "cs = a @ p @ b" by auto
      then have "c # cs = (c # a) @ p @ b" by simp
      then show ?thesis by blast
    qed
  qed simp
next
  show "\<exists>a b. s = a @ p @ b \<Longrightarrow> py_contains p s" by (auto intro: py_contains_append)
qed

section \<open>Decimal numerals\<close>

text \<open>\<open>str(n)\<close> and \<open>int(s)\<close> for non-negative integers.\<close>

definition digit_char :: "nat \<Rightarrow> char" where
  "digit_char d = char_of (48 + d)"

definition digit_val :: "char \<Rightarrow> nat" where
  "digit_val c = code c - 48"

fun str_of_nat :: "nat \<Rightarrow> string" where
  "str_of_nat n = (if n < 10 then [digit_char n] else str_of_nat (n div 10) @ [digit_char (n mod 10)])"

declare str_of_nat.simps [simp del]

definition int_of_digits :: "string \<Rightarrow> nat" where
  "int_of_digits s = foldl (\<lambda>n c. n * 10 + digit_val c) 0 s"

definition str_of_int :: "int \<Rightarrow> string" where
  "str_of_int i = (if i < 0 then CHR ''-'' # str_of_nat (nat (- i)) else str_of_nat (nat i))"

lemma code_digit_char: "d < 10 \<Longrightarrow> code (digit_char d) = 48 + d"
  by (simp add: code_def digit_char_def)

lemma is_digit_digit_char [simp]: "d < 10 \<Longrightarrow> is_digit (digit_char d)"
  by (simp add: is_digit_def code_digit_char)

lemma str_of_nat_digits: "c \<in> set (str_of_nat n) \<Longrightarrow> is_digit c"
proof (induction n rule: str_of_nat.induct)
  case (1 n)
  then show ?case by (cases "n < 10") (auto simp: str_of_nat.simps [of n])
qed

lemma str_of_nat_not_Nil [simp]: "str_of_nat n \<noteq> []"
  by (subst str_of_nat.simps) simp

lemma int_of_digits_str_of_nat [simp]: "int_of_digits (str_of_nat n) = n"
proof (induction n rule: str_of_nat.induct)
  case (1 n)
  show ?case
  proof (cases "n < 10")
    case True
    then show ?thesis
      by (simp add: str_of_nat.simps [of n] int_of_digits_def digit_val_def code_digit_char)
  next
    case False
    then have "int_of_digits (str_of_nat (n div 10)) = n div 10" by (rule "1.IH")
    then show ?thesis using False
      by (simp add: str_of_nat.simps [of n] int_of_digits_def digit_val_def code_digit_char)
  qed
qed

end
