(* ===== verification/DataModel.thy ===== *)
theory DataModel imports PyStr begin

text \<open>
  The persistence layer: one record per table of \<open>prorag/models.py\<close>, the database as a
  record of tables, and the transaction of an \<open>AsyncSession\<close> (what is committed and what the
  session sees). A table is the list of its rows in insertion order; surrogate serial keys
  that no code reads are left out. UUIDs are natural numbers, time stamps are microseconds
  since the epoch (UTC), floating-point columns are real numbers.
\<close>

section \<open>Rows\<close>

datatype doc_status = Pending | Processing | Ready | Failed

text \<open>The life cycle order of \<open>documents.status\<close>.\<close>

instantiation doc_status :: linorder
begin

primrec status_rank :: "doc_status \<Rightarrow> nat" where
  "status_rank Pending = 0"
| "status_rank Processing = 1"
| "status_rank Ready = 2"
| "status_rank Failed = 3"

definition less_eq_doc_status :: "doc_status \<Rightarrow> doc_status \<Rightarrow> bool" where
  "less_eq_doc_status a b = (status_rank a \<le> status_rank b)"

definition less_doc_status :: "doc_status \<Rightarrow> doc_status \<Rightarrow> bool" where
  "less_doc_status a b = (status_rank a < status_rank b)"

instance
proof
  fix x y z :: doc_status
  show "(x < y) = (x \<le> y \<and> \<not> y \<le> x)"
    by (auto simp: less_eq_doc_status_def less_doc_status_def)
  show "x \<le> x" by (simp add: less_eq_doc_status_def)
  show "x \<le> y \<Longrightarrow> y \<le> z \<Longrightarrow> x \<le> z" by (simp add: less_eq_doc_status_def)
  show "x \<le> y \<Longrightarrow> y \<le> x \<Longrightarrow> x = y"
    by (cases x; cases y) (simp_all add: less_eq_doc_status_def)
  show "x \<le> y \<or> y \<le> x" by (auto simp: less_eq_doc_status_def)
qed

end

record document =
  d_id :: uuid
  d_sha256 :: string
  d_filename :: string
  d_mime :: string
  d_blob_path :: string
  d_page_count :: "int option"
  d_title :: "string option"
  d_title_norm :: "string option"
  d_collection :: string
  d_status :: doc_status
  d_error :: "string option"
  d_created_at :: datetime

record chunk_row =
  c_id :: nat
  c_doc_id :: uuid
  c_ord :: nat
  c_kind :: string
  c_text :: string
  c_embed_text :: string
  c_heading_path :: "string list option"
  c_page_start :: "int option"
  c_page_end :: "int option"
  c_bbox :: "real list option"
  c_table_id :: "uuid option"
  c_token_count :: nat
  c_embedding :: "real list"

record table_rec =
  t_id :: uuid
  t_doc_id :: uuid
  t_caption :: "string option"
  t_columns :: "string list"
  t_row_count :: nat
  t_page_no :: "int option"
  t_bbox :: "real list option"

text \<open>A table row's JSONB \<open>data\<close>: column name and rendered cell, in column order.\<close>

type_synonym cells = "(string \<times> string) list"

record table_row =
  tr_table_id :: uuid
  tr_row_no :: nat
  tr_data :: cells

record message =
  m_id :: uuid
  m_chat_id :: uuid
  m_role :: string
  m_content :: string

record citation =
  ci_message_id :: uuid
  ci_n :: nat
  ci_doc_id :: uuid
  ci_page :: "int option"
  ci_bbox :: "real list option"

record user =
  u_id :: uuid
  u_external_subject :: "string option"
  u_email :: string
  u_display_name :: "string option"
  u_is_admin :: bool
  u_password_hash :: "string option"
  u_daily_cap_usd_override :: "money option"
  u_disabled_at :: "datetime option"

datatype group_source = SrcLocal | SrcIdp

record group_rec =
  g_id :: uuid
  g_name :: string
  g_source :: group_source
  g_external_id :: "string option"

record user_group =
  ug_user_id :: uuid
  ug_group_id :: uuid

datatype principal = PUser uuid | PGroup uuid | PPublic

text \<open>
  \<open>document_acl\<close>: the pair \<open>principal_type\<close>/\<open>principal_id\<close> is one value (the check constraint
  admits nothing else that the code writes); \<open>source\<close> is \<open>'local'\<close> or \<open>'rule:\<close>\<open>id\<close>\<open>'\<close>.
\<close>

datatype acl_source = AclLocal | AclRule uuid

record acl =
  a_doc_id :: uuid
  a_principal :: principal
  a_source :: acl_source

datatype rule_state = Draft | Confirmed

record access_rule =
  r_id :: uuid
  r_name :: string
  r_nl_query :: string
  r_group_id :: uuid
  r_state :: rule_state
  r_query_embedding :: "real list option"
  r_confirmed_at :: "datetime option"

record auth_session =
  s_token_hash :: string
  s_user_id :: uuid
  s_expires_at :: datetime
  s_revoked_at :: "datetime option"

record api_key =
  k_key_hash :: string
  k_name :: "string option"
  k_collection :: "string option"
  k_user_id :: "uuid option"

record usage =
  us_message_id :: "uuid option"
  us_model :: string
  us_prompt_tokens :: int
  us_completion_tokens :: int
  us_cost_usd :: money
  us_user_id :: "uuid option"
  us_created_at :: datetime

datatype rating = Up | Down

record feedback =
  f_message_id :: uuid
  f_rating :: rating
  f_comment :: "string option"

record connector =
  cn_id :: uuid
  cn_type :: string
  cn_name :: string
  cn_collection :: string
  cn_enabled :: bool
  cn_last_sync_at :: "datetime option"
  cn_last_full_sweep_at :: "datetime option"
  cn_last_error :: "string option"

datatype item_status = Synced | Skipped | Errored | Deleted

record connector_item =
  i_connector_id :: uuid
  i_external_id :: string
  i_etag :: "string option"
  i_size :: "int option"
  i_last_modified :: "datetime option"
  i_doc_id :: "uuid option"
  i_last_seen_at :: "datetime option"
  i_status :: item_status
  i_error :: "string option"

section \<open>The database\<close>

record db =
  documents :: "document list"
  chunks :: "chunk_row list"
  tables :: "table_rec list"
  table_rows :: "table_row list"
  chats :: "uuid list"
  messages :: "message list"
  citations :: "citation list"
  users :: "user list"
  groups :: "group_rec list"
  user_groups :: "user_group list"
  document_acl :: "acl list"
  access_rules :: "access_rule list"
  sessions :: "auth_session list"
  api_keys :: "api_key list"
  usages :: "usage list"
  feedbacks :: "feedback list"
  connectors :: "connector list"
  connector_items :: "connector_item list"

definition empty_db :: db where
  "empty_db = \<lparr>documents = [], chunks = [], tables = [], table_rows = [], chats = [], messages = [],
     citations = [], users = [], groups = [], user_groups = [], document_acl = [], access_rules = [],
     sessions = [], api_keys = [], usages = [], feedbacks = [], connectors = [], connector_items = []\<rparr>"

abbreviation find_document :: "db \<Rightarrow> uuid \<Rightarrow> document option" where
  "find_document s i \<equiv> tbl_find d_id i (documents s)"

abbreviation find_document_by_sha :: "db \<Rightarrow> string \<Rightarrow> document option" where
  "find_document_by_sha s h \<equiv> tbl_find d_sha256 h (documents s)"

abbreviation find_user :: "db \<Rightarrow> uuid \<Rightarrow> user option" where
  "find_user s i \<equiv> tbl_find u_id i (users s)"

abbreviation find_group :: "db \<Rightarrow> uuid \<Rightarrow> group_rec option" where
  "find_group s i \<equiv> tbl_find g_id i (groups s)"

text \<open>
  Deleting a document: the foreign keys of \<open>chunks\<close>, \<open>tables\<close> and \<open>document_acl\<close> (and of
  \<open>table_rows\<close> through \<open>tables\<close>) are \<open>ON DELETE CASCADE\<close>, the one of \<open>connector_items\<close> is
  \<open>ON DELETE SET NULL\<close>.
\<close>

definition delete_document :: "uuid \<Rightarrow> db \<Rightarrow> db" where
  "delete_document i s = s\<lparr>
     documents := tbl_del d_id i (documents s),
     chunks := filter (\<lambda>c. c_doc_id c \<noteq> i) (chunks s),
     table_rows := filter (\<lambda>r. \<not> (\<exists>t\<in>set (tables s). t_doc_id t = i \<and> t_id t = tr_table_id r)) (table_rows s),
     tables := filter (\<lambda>t. t_doc_id t \<noteq> i) (tables s),
     document_acl := filter (\<lambda>a. a_doc_id a \<noteq> i) (document_acl s),
     connector_items := map (\<lambda>x. if i_doc_id x = Some i then x\<lparr>i_doc_id := None\<rparr> else x) (connector_items s)\<rparr>"

lemma find_document_delete [db_simps]:
  "find_document (delete_document i s) j = (if j = i then None else find_document s j)"
  by (simp add: delete_document_def tbl_find_del)

lemma delete_document_acl [db_simps]:
  "document_acl (delete_document i s) = filter (\<lambda>a. a_doc_id a \<noteq> i) (document_acl s)"
  by (simp add: delete_document_def)

section \<open>Transactions\<close>

text \<open>
  A session sees its own uncommitted writes; \<open>commit()\<close> publishes them and \<open>rollback()\<close> drops
  them. Every function that takes a session is given, and returns, this pair.
\<close>

record txn =
  committed :: db
  working :: db

definition begin_txn :: "db \<Rightarrow> txn" where
  "begin_txn s = \<lparr>committed = s, working = s\<rparr>"

definition txn_update :: "(db \<Rightarrow> db) \<Rightarrow> txn \<Rightarrow> txn" where
  "txn_update f t = t\<lparr>working := f (working t)\<rparr>"

definition txn_commit :: "txn \<Rightarrow> txn" where
  "txn_commit t = t\<lparr>committed := working t\<rparr>"

definition txn_rollback :: "txn \<Rightarrow> txn" where
  "txn_rollback t = t\<lparr>working := committed t\<rparr>"

lemma txn_simps [simp]:
  "committed (begin_txn s) = s" "working (begin_txn s) = s"
  "committed (txn_update f t) = committed t" "working (txn_update f t) = f (working t)"
  "committed (txn_commit t) = working t" "working (txn_commit t) = working t"
  "committed (txn_rollback t) = committed t" "working (txn_rollback t) = committed t"
  by (simp_all add: begin_txn_def txn_update_def txn_commit_def txn_rollback_def)

section \<open>Retrieval hits\<close>

text \<open>
  The dict a retrieval arm returns for a chunk; keys that some producer leaves out are
  options. \<open>title_norm\<close>, \<open>doc_date\<close> and \<open>token_count\<close> are read by the crop and set by no arm.
\<close>

record hit =
  h_chunk_id :: nat
  h_doc_id :: "uuid option"
  h_text :: string
  h_page :: "int option"
  h_bbox :: "real list option"
  h_kind :: "string option"
  h_title :: "string option"
  h_score :: real
  h_title_norm :: "string option"
  h_doc_date :: "int option"
  h_token_count :: "nat option"

end
