(* ===== verification/Visibility.thy ===== *)
theory Visibility imports DataModel begin

text \<open>
  Query-time document visibility: \<open>prorag/retrieve/visibility.py\<close> and its raw-SQL twin in
  \<open>prorag/retrieve/arms.py\<close>, and the endpoints of \<open>prorag/files/router.py\<close> that guard single
  documents and tables with it. A SQL predicate correlated to a document is a function of the
  database and the document id; \<open>None\<close> is the source's \<open>None\<close>, no filtering.
\<close>

section \<open>The predicate\<close>

definition group_ids_of :: "db \<Rightarrow> uuid \<Rightarrow> uuid list" where
  "group_ids_of s uid = map ug_group_id (filter (\<lambda>ug. ug_user_id ug = uid) (user_groups s))"

definition acl_grants :: "db \<Rightarrow> uuid \<Rightarrow> acl \<Rightarrow> bool" where
  "acl_grants s uid a =
     (case a_principal a of
        PPublic \<Rightarrow> True
      | PUser i \<Rightarrow> i = uid
      | PGroup g \<Rightarrow> g \<in> set (group_ids_of s uid))"

definition visibility_clause :: "user option \<Rightarrow> (db \<Rightarrow> uuid \<Rightarrow> bool) option" where
  "visibility_clause user =
     (case user of
        None \<Rightarrow> None
      | Some u \<Rightarrow>
          if u_is_admin u then None
          else Some (\<lambda>s doc. list_ex (\<lambda>a. a_doc_id a = doc \<and> acl_grants s (u_id u) a) (document_acl s)))"

text \<open>
  The fragment \<open>_visibility_sql\<close> splices into the BM25 statement: no condition, or the same
  \<open>EXISTS\<close> with the user id as its only bound parameter.
\<close>

definition visibility_sql :: "user option \<Rightarrow> (db \<Rightarrow> uuid \<Rightarrow> bool) \<times> uuid option" where
  "visibility_sql user =
     (case user of
        None \<Rightarrow> (\<lambda>s doc. True, None)
      | Some u \<Rightarrow>
          if u_is_admin u then (\<lambda>s doc. True, None)
          else (\<lambda>s doc. list_ex (\<lambda>a. a_doc_id a = doc
                  \<and> (case a_principal a of
                       PPublic \<Rightarrow> True
                     | PUser i \<Rightarrow> i = u_id u
                     | PGroup g \<Rightarrow> list_ex (\<lambda>ug. ug_user_id ug = u_id u \<and> ug_group_id ug = g) (user_groups s)))
                (document_acl s), Some (u_id u)))"

text \<open>\<open>stmt.where(clause)\<close> when there is a clause.\<close>

definition sees :: "db \<Rightarrow> user option \<Rightarrow> uuid \<Rightarrow> bool" where
  "sees s user doc = (case visibility_clause user of None \<Rightarrow> True | Some p \<Rightarrow> p s doc)"

definition visible_doc_guard :: "db \<Rightarrow> user option \<Rightarrow> uuid \<Rightarrow> bool" where
  "visible_doc_guard s user doc = (find (\<lambda>d. d_id d = doc \<and> sees s user (d_id d)) (documents s) \<noteq> None)"

lemma visibility_sql_sees: "fst (visibility_sql user) s doc = sees s user doc"
proof -
  have "acl_grants s uid a = (case a_principal a of PPublic \<Rightarrow> True | PUser i \<Rightarrow> i = uid
      | PGroup g \<Rightarrow> list_ex (\<lambda>ug. ug_user_id ug = uid \<and> ug_group_id ug = g) (user_groups s))" for uid a
    by (auto simp: acl_grants_def group_ids_of_def list_ex_iff split: principal.split)
  then show ?thesis
    by (simp add: visibility_sql_def sees_def visibility_clause_def split: option.split)
qed

lemma sees_super [guard_simps]: "sees s None doc" "u_is_admin u \<Longrightarrow> sees s (Some u) doc"
  by (simp_all add: sees_def visibility_clause_def)

lemma sees_user:
  "\<not> u_is_admin u \<Longrightarrow> sees s (Some u) doc \<longleftrightarrow>
     (\<exists>a\<in>set (document_acl s). a_doc_id a = doc \<and> acl_grants s (u_id u) a)"
  by (simp add: sees_def visibility_clause_def list_ex_iff)

lemma visible_doc_guard_iff:
  "visible_doc_guard s user doc \<longleftrightarrow> find_document s doc \<noteq> None \<and> sees s user doc"
  by (induction "documents s") (auto simp: visible_doc_guard_def tbl_find_def find_None_iff)

section \<open>Files and tables\<close>

text \<open>What \<open>FileResponse\<close> is built from.\<close>

record file_response =
  fr_path :: string
  fr_mime :: string
  fr_headers :: "(string \<times> string) list"

definition get_original :: "db \<Rightarrow> user option \<Rightarrow> uuid \<Rightarrow> int \<Rightarrow> file_response outcome" where
  "get_original s user doc_id download =
     (if \<not> visible_doc_guard s user doc_id then Inl (HTTPException 404 ''document not found'')
      else case find_document s doc_id of
        None \<Rightarrow> Inl (HTTPException 404 ''document not found'')
      | Some doc \<Rightarrow>
          Inr \<lparr>fr_path = d_blob_path doc, fr_mime = d_mime doc,
               fr_headers = [(''Cache-Control'', ''public, max-age=31536000, immutable'')]
                 @ (if download \<noteq> 0 then [(''Content-Disposition'',
                       ''attachment; filename='' @ [CHR 0x22] @ d_filename doc @ [CHR 0x22])] else [])\<rparr>)"

text \<open>\<open>OFFSET\<close> and \<open>LIMIT\<close> reject negative values on the server, which no handler catches.\<close>

definition offset_limit :: "int \<Rightarrow> int \<Rightarrow> 'r list \<Rightarrow> 'r list outcome" where
  "offset_limit skip cnt rows =
     (if skip < 0 then Inl (PyError ''DBAPIError'' ''OFFSET must not be negative'')
      else if cnt < 0 then Inl (PyError ''DBAPIError'' ''LIMIT must not be negative'')
      else Inr (take (nat cnt) (drop (nat skip) rows)))"

definition get_table_rows :: "db \<Rightarrow> user option \<Rightarrow> uuid \<Rightarrow> int \<Rightarrow> int \<Rightarrow> (nat \<times> cells) list outcome" where
  "get_table_rows s user table_id limit offset =
     (case tbl_find t_id table_id (tables s) of
        None \<Rightarrow> Inl (HTTPException 404 ''table not found'')
      | Some t \<Rightarrow>
          if \<not> visible_doc_guard s user (t_doc_id t) then Inl (HTTPException 404 ''table not found'')
          else map_sum id (map (\<lambda>r. (tr_row_no r, tr_data r)))
                 (offset_limit offset limit
                   (sort_key tr_row_no (filter (\<lambda>r. tr_table_id r = table_id) (table_rows s)))))"

definition stats :: "db \<Rightarrow> nat \<times> nat" where
  "stats s = (length (documents s), length (filter (\<lambda>d. d_status d = Ready) (documents s)))"

section \<open>Properties\<close>

text \<open>
  C5. The two spellings of the access predicate cannot drift: the raw-SQL fragment of the BM25
  arm selects exactly the documents the ORM clause of every other arm selects, and both admit
  a non-admin to a document exactly when it has a public grant, a grant to the user, or a
  grant to a group the user is in.
\<close>

theorem visibility_twins:
  "fst (visibility_sql user) s doc = sees s user doc
   \<and> (sees s user doc \<longleftrightarrow>
        (case user of
           None \<Rightarrow> True
         | Some u \<Rightarrow> u_is_admin u
             \<or> list_ex (\<lambda>a. a_doc_id a = doc \<and>
                  (a_principal a = PPublic \<or> a_principal a = PUser (u_id u)
                   \<or> list_ex (\<lambda>ug. ug_user_id ug = u_id u \<and> a_principal a = PGroup (ug_group_id ug)) (user_groups s)))
                (document_acl s)))"
proof
  show "fst (visibility_sql user) s doc = sees s user doc" by (rule visibility_sql_sees)
  have g: "acl_grants s uid a \<longleftrightarrow> a_principal a = PPublic \<or> a_principal a = PUser uid
      \<or> list_ex (\<lambda>ug. ug_user_id ug = uid \<and> a_principal a = PGroup (ug_group_id ug)) (user_groups s)" for uid a
    by (auto simp: acl_grants_def group_ids_of_def list_ex_iff split: principal.split)
  show "sees s user doc \<longleftrightarrow> (case user of None \<Rightarrow> True | Some u \<Rightarrow> u_is_admin u
             \<or> list_ex (\<lambda>a. a_doc_id a = doc \<and>
                  (a_principal a = PPublic \<or> a_principal a = PUser (u_id u)
                   \<or> list_ex (\<lambda>ug. ug_user_id ug = u_id u \<and> a_principal a = PGroup (ug_group_id ug)) (user_groups s)))
                (document_acl s))"
    unfolding g [symmetric] by (auto simp: sees_def visibility_clause_def list_ex_iff split: option.split)
qed

text \<open>
  C26. Existence does not leak through the file and table endpoints: a user who cannot see a
  document gets, byte for byte, the answer of a database from which the document, its chunks,
  its tables and its grants have been deleted.
\<close>

lemma guard_delete:
  assumes "\<not> sees s user doc"
  shows "\<not> visible_doc_guard s user doc" and "\<not> visible_doc_guard (delete_document doc s) user doc"
  using assms by (simp_all add: visible_doc_guard_iff db_simps)

theorem hidden_document_unobservable:
  assumes "\<not> sees s user doc" and "distinct (map t_id (tables s))"
  shows "get_original s user doc download = get_original (delete_document doc s) user doc download
     \<and> list_all (\<lambda>t. t_doc_id t \<noteq> doc \<or> get_table_rows s user (t_id t) limit offset =
            get_table_rows (delete_document doc s) user (t_id t) limit offset) (tables s)"
proof
  show "get_original s user doc download = get_original (delete_document doc s) user doc download"
    using guard_delete [OF assms(1)] by (simp add: get_original_def)
  have "get_table_rows s user (t_id t) limit offset = get_table_rows (delete_document doc s) user (t_id t) limit offset"
    if t: "t \<in> set (tables s)" "t_doc_id t = doc" for t
  proof -
    have "tbl_find t_id (t_id t) (tables s) = Some t" by (rule tbl_find_unique [OF assms(2) t(1)])
    moreover have "tbl_find t_id (t_id t) (filter (\<lambda>t. t_doc_id t \<noteq> doc) (tables s)) = None"
    proof -
      have "t_id t \<notin> tbl_keys t_id (filter (\<lambda>t. t_doc_id t \<noteq> doc) (tables s))"
      proof
        assume "t_id t \<in> tbl_keys t_id (filter (\<lambda>t. t_doc_id t \<noteq> doc) (tables s))"
        then obtain t' where t': "t' \<in> set (tables s)" "t_doc_id t' \<noteq> doc" "t_id t' = t_id t"
          by (auto simp: tbl_keys_def)
        have "Some t' = Some t"
          unfolding tbl_find_unique [OF assms(2) t'(1), symmetric] t'(3)
          by (rule tbl_find_unique [OF assms(2) t(1)])
        with t'(2) t(2) show False by blast
      qed
      then show ?thesis by (simp add: tbl_find_None)
    qed
    ultimately show ?thesis
      using guard_delete(1) [OF assms(1)] t(2) by (simp add: get_table_rows_def delete_document_def)
  qed
  then show "list_all (\<lambda>t. t_doc_id t \<noteq> doc \<or> get_table_rows s user (t_id t) limit offset =
            get_table_rows (delete_document doc s) user (t_id t) limit offset) (tables s)"
    by (auto simp: list_all_iff)
qed

definition sample_user :: "uuid \<Rightarrow> user" where
  "sample_user i = \<lparr>u_id = i, u_external_subject = None, u_email = ''u@x'', u_display_name = None,
     u_is_admin = False, u_password_hash = None, u_daily_cap_usd_override = None, u_disabled_at = None\<rparr>"

definition sample_document :: "uuid \<Rightarrow> document" where
  "sample_document i = \<lparr>d_id = i, d_sha256 = ''ab'', d_filename = ''a.txt'', d_mime = ''text/plain'',
     d_blob_path = ''blobs/ab/ab'', d_page_count = Some 1, d_title = None, d_title_norm = None,
     d_collection = ''default'', d_status = Ready, d_error = None, d_created_at = 0\<rparr>"

theorem hidden_document_unobservable_witness:
  "get_original (empty_db\<lparr>documents := [sample_document 4]\<rparr>) (Some (sample_user 1)) 4 0
     = Inl (HTTPException 404 ''document not found'')"
proof -
  let ?s = "empty_db\<lparr>documents := [sample_document 4]\<rparr>"
  have "\<not> sees ?s (Some (sample_user 1)) 4"
    by (simp add: sees_def visibility_clause_def sample_user_def empty_db_def)
  then show ?thesis
    using hidden_document_unobservable [of ?s "Some (sample_user 1)" 4 0 1 0]
    by (simp add: get_original_def visible_doc_guard_def delete_document_def empty_db_def tbl_del_def sample_document_def)
qed

end
