(* ===== verification/Settings_Model.thy ===== *)
theory Settings_Model imports PyStr begin

text \<open>
  \<open>prorag/settings.py\<close>: every tunable as a field of one record, with the defaults of the
  class body, and the three validators that run when the settings are loaded. Connection
  strings, pool sizes, model names and time-outs that only reach third-party calls are left
  out of the record; a numeric setting keeps its Python type (\<open>int\<close> unbounded, \<open>float\<close> as a
  real number).
\<close>

record settings =
  embed_model :: string
  embed_dim :: int
  answer_model :: string
  planner_model :: string
  prefill_enabled :: bool
  prefill_model :: string
  openrouter_api_key :: "string option"
  blob_dir :: string
  max_upload_bytes :: int
  max_chunks_per_document :: int
  embed_batch_size :: int
  chunk_target_tokens :: int
  chunk_overlap_tokens :: int
  rerank_enabled :: bool
  rerank_flat_spread :: real
  rerank_top_n :: int
  crop_min_docs :: int
  crop_max_docs :: int
  crop_max_chunks_per_doc :: int
  crop_score_floor :: real
  crop_token_budget :: int
  structured_weight :: real
  auth_enabled :: bool
  daily_cost_cap_usd :: money
  user_daily_cap_usd :: money
  user_hard_cap_multiplier :: real
  session_cookie_secure :: bool
  session_ttl_days :: int
  oidc_issuer :: "string option"
  fallback_price_per_1k_usd :: money
  scheduler_enabled :: bool
  connector_poll_seconds :: int
  connector_sweep_hours :: int
  rule_similarity_floor :: real

definition default_settings :: settings where
  "default_settings = \<lparr>
     embed_model = ''text-embedding-3-small'',
     embed_dim = 1536,
     answer_model = ''gpt-4o-mini'',
     planner_model = ''gpt-4o-mini'',
     prefill_enabled = True,
     prefill_model = ''openrouter/google/gemma-4-26b-a4b-it:free'',
     openrouter_api_key = None,
     blob_dir = ''./blobs'',
     max_upload_bytes = 100 * 1024 * 1024,
     max_chunks_per_document = 20000,
     embed_batch_size = 64,
     chunk_target_tokens = 700,
     chunk_overlap_tokens = 100,
     rerank_enabled = True,
     rerank_flat_spread = 0.03,
     rerank_top_n = 40,
     crop_min_docs = 3,
     crop_max_docs = 12,
     crop_max_chunks_per_doc = 3,
     crop_score_floor = 0.02,
     crop_token_budget = 6000,
     structured_weight = 1.2,
     auth_enabled = False,
     daily_cost_cap_usd = 5,
     user_daily_cap_usd = 1,
     user_hard_cap_multiplier = 2,
     session_cookie_secure = True,
     session_ttl_days = 7,
     oidc_issuer = None,
     fallback_price_per_1k_usd = 0.002,
     scheduler_enabled = True,
     connector_poll_seconds = 900,
     connector_sweep_hours = 24,
     rule_similarity_floor = 0.35\<rparr>"

lemma default_settings_simps [simp]:
  "embed_model default_settings = ''text-embedding-3-small''"
  "embed_dim default_settings = 1536"
  "answer_model default_settings = ''gpt-4o-mini''"
  "planner_model default_settings = ''gpt-4o-mini''"
  "prefill_enabled default_settings = True"
  "prefill_model default_settings = ''openrouter/google/gemma-4-26b-a4b-it:free''"
  "openrouter_api_key default_settings = None"
  "blob_dir default_settings = ''./blobs''"
  "max_upload_bytes default_settings = 100 * 1024 * 1024"
  "max_chunks_per_document default_settings = 20000"
  "embed_batch_size default_settings = 64"
  "chunk_target_tokens default_settings = 700"
  "chunk_overlap_tokens default_settings = 100"
  "rerank_enabled default_settings = True"
  "rerank_flat_spread default_settings = 0.03"
  "rerank_top_n default_settings = 40"
  "crop_min_docs default_settings = 3"
  "crop_max_docs default_settings = 12"
  "crop_max_chunks_per_doc default_settings = 3"
  "crop_score_floor default_settings = 0.02"
  "crop_token_budget default_settings = 6000"
  "structured_weight default_settings = 1.2"
  "auth_enabled default_settings = False"
  "daily_cost_cap_usd default_settings = 5"
  "user_daily_cap_usd default_settings = 1"
  "user_hard_cap_multiplier default_settings = 2"
  "session_cookie_secure default_settings = True"
  "session_ttl_days default_settings = 7"
  "oidc_issuer default_settings = None"
  "fallback_price_per_1k_usd default_settings = 0.002"
  "scheduler_enabled default_settings = True"
  "connector_poll_seconds default_settings = 900"
  "connector_sweep_hours default_settings = 24"
  "rule_similarity_floor default_settings = 0.35"
  by (simp_all add: default_settings_def)

text \<open>The validators: the value, or the \<open>ValueError\<close> that stops the process at import.\<close>

definition daily_cost_cap_must_be_positive :: "money \<Rightarrow> money outcome" where
  "daily_cost_cap_must_be_positive v =
     (if v \<le> 0 then Inl (PyError ''ValueError'' ''daily_cost_cap_usd must be > 0'') else Inr v)"

definition session_ttl_must_be_positive :: "int \<Rightarrow> int outcome" where
  "session_ttl_must_be_positive v =
     (if v \<le> 0 then Inl (PyError ''ValueError'' ''session_ttl_days must be > 0'') else Inr v)"

definition blob_dir_must_not_be_empty :: "string \<Rightarrow> string outcome" where
  "blob_dir_must_not_be_empty v =
     (if py_strip v = [] then Inl (PyError ''ValueError'' ''blob_dir must not be empty'') else Inr v)"

end
