(* ===== verification/Arms.thy ===== *)
theory Arms imports Visibility Settings_Model begin

text \<open>
  \<open>prorag/retrieve/arms.py\<close>: the vector, keyword (BM25 and tsvector) and structured arms. What
  PostgreSQL and its extensions compute (cosine distance, text matching and ranking, the order
  in which an index scan visits rows) is the record \<open>engine\<close> of parameters; joins, filters,
  \<open>ORDER BY\<close>, \<open>LIMIT\<close>, the row-to-hit mapping and the fallback are the code's. Every arm meets
  one contract, the locale \<open>retrieval_arm\<close>.
\<close>

section \<open>The database engine\<close>

text \<open>
  \<open>eng_visit\<close> gives the positions of the candidate rows in the order the scan returns them: an
  approximate index may leave rows out, and ties of \<open>ORDER BY\<close> come in scan order.
  \<open>eng_bm25_failure\<close> says whether the BM25 statement raises: \<open>Some True\<close> when the server rejected
  it (which aborts the transaction), \<open>Some False\<close> when the client side did.
\<close>

type_synonym joined_row = "chunk_row \<times> document"

record engine =
  eng_visit :: "joined_row list \<Rightarrow> nat list"
  eng_distance :: "bool \<Rightarrow> real list \<Rightarrow> real list \<Rightarrow> real"
  eng_bm25_available :: bool
  eng_bm25_failure :: "string \<Rightarrow> bool option"
  eng_bm25_match :: "string \<Rightarrow> string \<Rightarrow> bool"
  eng_bm25_score :: "chunk_row list \<Rightarrow> string \<Rightarrow> chunk_row \<Rightarrow> real"
  eng_ts_match :: "string \<Rightarrow> string \<Rightarrow> bool"
  eng_ts_rank :: "string \<Rightarrow> string \<Rightarrow> real"
  eng_json_ilike :: "string \<Rightarrow> cells \<Rightarrow> bool"

definition visit :: "('r list \<Rightarrow> nat list) \<Rightarrow> 'r list \<Rightarrow> 'r list" where
  "visit order rows = map (nth rows) (filter (\<lambda>i. i < length rows) (first_occurrences (order rows)))"

text \<open>After a statement the server rejects, the transaction accepts no further statement.\<close>

datatype conn = Live | Aborted

definition aborted_error :: exn where
  "aborted_error = PyError ''InFailedSQLTransactionError'' ''current transaction is aborted''"

fun run_limit :: "int \<Rightarrow> conn \<Rightarrow> 'r list \<Rightarrow> 'r list outcome \<times> conn" where
  "run_limit k Aborted rows = (Inl aborted_error, Aborted)"
| "run_limit k Live rows =
     (if k < 0 then (Inl (PyError ''DBAPIError'' ''LIMIT must not be negative''), Aborted)
      else (Inr (take (nat k) rows), Live))"

section \<open>Joins and hits\<close>

definition joined :: "db \<Rightarrow> joined_row list" where
  "joined s = [(c, d). c \<leftarrow> chunks s, d \<leftarrow> documents s, c_doc_id c = d_id d]"

definition candidates :: "db \<Rightarrow> user option \<Rightarrow> joined_row list" where
  "candidates s user = filter (\<lambda>(c, d). d_status d = Ready \<and> sees s user (d_id d)) (joined s)"

definition title_or_filename :: "document \<Rightarrow> string" where
  "title_or_filename d = (case d_title d of None \<Rightarrow> d_filename d | Some t \<Rightarrow> if t = [] then d_filename d else t)"

definition row_hit :: "real \<Rightarrow> joined_row \<Rightarrow> hit" where
  "row_hit sc r = (case r of (c, d) \<Rightarrow>
     \<lparr>h_chunk_id = c_id c, h_doc_id = Some (c_doc_id c), h_text = c_text c, h_page = c_page_start c,
      h_bbox = c_bbox c, h_kind = Some (c_kind c), h_title = Some (title_or_filename d), h_score = sc,
      h_title_norm = None, h_doc_date = None, h_token_count = None\<rparr>)"

definition structured_hit :: "joined_row \<Rightarrow> hit" where
  "structured_hit r = (case r of (c, d) \<Rightarrow>
     \<lparr>h_chunk_id = c_id c, h_doc_id = Some (c_doc_id c), h_text = c_text c, h_page = c_page_start c,
      h_bbox = None, h_kind = None, h_title = Some (title_or_filename d), h_score = 1,
      h_title_norm = None, h_doc_date = None, h_token_count = None\<rparr>)"

section \<open>The arms\<close>

text \<open>Both sides are cast to \<open>halfvec\<close> above pgvector's limit of 2000 dimensions.\<close>

definition distance_expr :: "settings \<Rightarrow> engine \<Rightarrow> real list \<Rightarrow> joined_row \<Rightarrow> real" where
  "distance_expr cfg e emb r = eng_distance e (2000 < embed_dim cfg) (c_embedding (fst r)) emb"

definition vector_search :: "settings \<Rightarrow> engine \<Rightarrow> real list \<Rightarrow> db \<Rightarrow> user option \<Rightarrow> int \<Rightarrow> conn \<Rightarrow> hit list outcome \<times> conn" where
  "vector_search cfg e emb s user k cn =
     apfst (map_sum id (map (\<lambda>r. row_hit (1 - distance_expr cfg e emb r) r)))
       (run_limit k cn (sort_key (distance_expr cfg e emb) (visit (eng_visit e) (candidates s user))))"

definition bm25_search :: "engine \<Rightarrow> string \<Rightarrow> db \<Rightarrow> user option \<Rightarrow> int \<Rightarrow> conn \<Rightarrow> hit list outcome \<times> conn" where
  "bm25_search e query s user k cn =
     (case (cn, eng_bm25_failure e query) of
        (Live, Some True) \<Rightarrow> (Inl (PyError ''DBAPIError'' ''bm25 query''), Aborted)
      | (Live, Some False) \<Rightarrow> (Inl (PyError ''InterfaceError'' ''bm25 query''), Live)
      | _ \<Rightarrow>
        apfst (map_sum id (map (\<lambda>r. row_hit (eng_bm25_score e (chunks s) query (fst r)) r)))
          (run_limit k cn
            (sort_desc (\<lambda>r. eng_bm25_score e (chunks s) query (fst r))
              (visit (eng_visit e)
                (filter (\<lambda>(c, d). eng_bm25_match e query (c_text c) \<and> d_status d = Ready
                           \<and> fst (visibility_sql user) s (c_doc_id c)) (joined s))))))"

definition fts_search :: "engine \<Rightarrow> string \<Rightarrow> db \<Rightarrow> user option \<Rightarrow> int \<Rightarrow> conn \<Rightarrow> hit list outcome \<times> conn" where
  "fts_search e query s user k cn =
     apfst (map_sum id (map (\<lambda>r. row_hit (eng_ts_rank e query (c_text (fst r))) r)))
       (run_limit k cn
         (sort_desc (\<lambda>r. eng_ts_rank e query (c_text (fst r)))
           (visit (eng_visit e) (filter (\<lambda>(c, d). eng_ts_match e query (c_text c)) (candidates s user)))))"

text \<open>The probe for the index runs once per process; its answer is a constant of the engine.\<close>

definition keyword_search :: "engine \<Rightarrow> string \<Rightarrow> db \<Rightarrow> user option \<Rightarrow> int \<Rightarrow> conn \<Rightarrow> hit list outcome \<times> conn" where
  "keyword_search e query s user k cn =
     (if eng_bm25_available e
      then (case bm25_search e query s user k cn of
              (Inr hits, cn') \<Rightarrow> (Inr hits, cn')
            | (Inl err, cn') \<Rightarrow> fts_search e query s user k cn')
      else fts_search e query s user k cn)"

definition row_conditions :: "engine \<Rightarrow> string \<Rightarrow> (string \<times> string) list option \<Rightarrow> table_row \<Rightarrow> bool" where
  "row_conditions e query field_filters tr \<longleftrightarrow>
     eng_json_ilike e query (tr_data tr)
   \<and> (case field_filters of None \<Rightarrow> True
      | Some fs \<Rightarrow> list_all (\<lambda>(field, value). map_of (tr_data tr) field = Some value) fs)"

definition table_kinds :: "string list" where
  "table_kinds = [''row'', ''table_window'', ''table_summary'']"

text \<open>
  The join with the table rows, then \<open>DISTINCT\<close> on chunk and document: a chunk once, when some
  row of its table meets the conditions.
\<close>

definition build_structured_query ::
  "engine \<Rightarrow> string \<Rightarrow> (string \<times> string) list option \<Rightarrow> db \<Rightarrow> user option \<Rightarrow> joined_row list" where
  "build_structured_query e query field_filters s user =
     filter (\<lambda>(c, d). c_kind c \<in> set table_kinds
        \<and> list_ex (\<lambda>tr. c_table_id c = Some (tr_table_id tr) \<and> row_conditions e query field_filters tr) (table_rows s))
       (candidates s user)"

definition structured_search ::
  "engine \<Rightarrow> string \<Rightarrow> (string \<times> string) list option \<Rightarrow> db \<Rightarrow> user option \<Rightarrow> int \<Rightarrow> conn \<Rightarrow> hit list outcome \<times> conn" where
  "structured_search e query field_filters s user k cn =
     apfst (map_sum id (map structured_hit))
       (run_limit k cn (visit (eng_visit e) (build_structured_query e query field_filters s user)))"

section \<open>The contract of an arm\<close>

text \<open>A hit that stands for a chunk of a ready document the user may see.\<close>

definition legal_hit :: "db \<Rightarrow> user option \<Rightarrow> hit \<Rightarrow> bool" where
  "legal_hit s user h =
     list_ex (\<lambda>(c, d). c_doc_id c = d_id d \<and> d_status d = Ready \<and> sees s user (d_id d)
        \<and> h_chunk_id h = c_id c \<and> h_doc_id h = Some (d_id d) \<and> h_text h = c_text c) (joined s)"

lemma set_visit: "set (visit order rows) \<subseteq> set rows"
  by (auto simp: visit_def)

lemma in_visitD: "r \<in> set (visit order rows) \<Longrightarrow> r \<in> set rows"
  by (rule subsetD [OF set_visit])

lemma run_limit_Inr:
  "run_limit k cn rows = (Inr out, cn') \<Longrightarrow> out = take (nat k) rows \<and> cn = Live \<and> cn' = Live \<and> 0 \<le> k"
  by (cases cn) (auto split: if_splits)

lemma map_limit_Inr:
  assumes "apfst (map_sum id f) (run_limit k cn rows) = (Inr out, cn')"
  shows "out = f (take (nat k) rows) \<and> cn = Live \<and> cn' = Live \<and> 0 \<le> k"
  using assms run_limit_Inr [of k cn rows] by (cases "run_limit k cn rows"; cases "fst (run_limit k cn rows)") auto

lemma joined_iff: "(c, d) \<in> set (joined s) \<longleftrightarrow> c \<in> set (chunks s) \<and> d \<in> set (documents s) \<and> c_doc_id c = d_id d"
  by (auto simp: joined_def)

lemma candidates_legal:
  assumes "r \<in> set (candidates s user)"
  shows "legal_hit s user (row_hit sc r)" and "legal_hit s user (structured_hit r)"
  using assms
  by (auto simp: candidates_def legal_hit_def list_ex_iff row_hit_def structured_hit_def joined_iff
      intro!: bexI [of _ r])

locale retrieval_arm =
  fixes arm :: "db \<Rightarrow> user option \<Rightarrow> int \<Rightarrow> conn \<Rightarrow> hit list outcome \<times> conn"
  assumes legal: "arm s user k cn = (Inr hits, cn') \<Longrightarrow> h \<in> set hits \<Longrightarrow> legal_hit s user h"
    and at_most: "arm s user k cn = (Inr hits, cn') \<Longrightarrow> int (length hits) \<le> k"
    and stays_live: "arm s user k cn = (Inr hits, cn') \<Longrightarrow> cn' = Live"
    and aborted: "fst (arm s user k Aborted) = Inl aborted_error"
begin

lemma hidden_absent:
  assumes "arm s user k cn = (Inr hits, cn')" and "h \<in> set hits" and "h_doc_id h = Some doc"
  shows "sees s user doc"
  using legal [OF assms(1,2)] assms(3) by (auto simp: legal_hit_def list_ex_iff)

lemma result_visible:
  assumes "fst (arm s user k cn) = Inr hits"
  shows "list_all (legal_hit s user) hits \<and> int (length hits) \<le> k"
proof -
  from assms have "arm s user k cn = (Inr hits, snd (arm s user k cn))" by (metis prod.collapse)
  then show ?thesis using legal at_most by (auto simp: list_all_iff)
qed

lemma deterministic_failure: "\<exists>e. fst (arm s user k Aborted) = Inl e"
  using aborted by blast

end

text \<open>An arm that maps limited, visited rows of a legal table meets the contract.\<close>

lemma arm_of_rows:
  assumes rows: "\<And>s user. set (rows s user) \<subseteq> set (candidates s user)"
    and hit: "\<And>s user r. r \<in> set (candidates s user) \<Longrightarrow> legal_hit s user (f s r)"
  shows "retrieval_arm (\<lambda>s user k cn. apfst (map_sum id (map (f s))) (run_limit k cn (rows s user)))"
proof
  fix s user k cn hits cn' h
  assume "apfst (map_sum id (map (f s))) (run_limit k cn (rows s user)) = (Inr hits, cn')"
  from map_limit_Inr [OF this]
  have hits: "hits = map (f s) (take (nat k) (rows s user))" "cn' = Live" "0 \<le> k" by auto
  show "h \<in> set hits \<Longrightarrow> legal_hit s user h"
    using hits(1) rows [of s user] hit by (auto dest!: in_set_takeD)
  show "int (length hits) \<le> k" using hits by simp
  show "cn' = Live" by (rule hits(2))
qed simp

lemma set_sorted_visit: "set (sort_key f (visit order rows)) \<subseteq> set rows"
  using set_visit by simp

lemma bm25_rows:
  "filter (\<lambda>(c, d). eng_bm25_match e query (c_text c) \<and> d_status d = Ready
      \<and> fst (visibility_sql user) s (c_doc_id c)) (joined s)
   = filter (\<lambda>(c, d). eng_bm25_match e query (c_text c)) (candidates s user)"
  unfolding candidates_def filter_filter visibility_sql_sees
  by (rule filter_cong) (auto simp: joined_def)

lemma vector_arm: "retrieval_arm (vector_search cfg e emb)"
proof -
  have eq: "vector_search cfg e emb = (\<lambda>s user k cn. apfst (map_sum id (map (\<lambda>r. row_hit (1 - distance_expr cfg e emb r) r)))
      (run_limit k cn (sort_key (distance_expr cfg e emb) (visit (eng_visit e) (candidates s user)))))"
    by (intro ext) (simp add: vector_search_def)
  show ?thesis unfolding eq
    by (rule arm_of_rows [where f = "\<lambda>s r. row_hit (1 - distance_expr cfg e emb r) r"])
       (auto simp: candidates_legal dest!: in_visitD)
qed

interpretation vector: retrieval_arm "vector_search cfg e emb"
  by (rule vector_arm)

interpretation fts: retrieval_arm "fts_search e query"
proof -
  have eq: "fts_search e query = (\<lambda>s user k cn. apfst (map_sum id (map (\<lambda>r. row_hit (eng_ts_rank e query (c_text (fst r))) r)))
      (run_limit k cn (sort_desc (\<lambda>r. eng_ts_rank e query (c_text (fst r)))
        (visit (eng_visit e) (filter (\<lambda>(c, d). eng_ts_match e query (c_text c)) (candidates s user))))))"
    by (intro ext) (simp add: fts_search_def)
  show "retrieval_arm (fts_search e query)" unfolding eq
    by (rule arm_of_rows [where f = "\<lambda>s r. row_hit (eng_ts_rank e query (c_text (fst r))) r"])
       (auto simp: candidates_legal dest!: in_visitD)
qed

interpretation structured: retrieval_arm "structured_search e query field_filters"
proof -
  have eq: "structured_search e query field_filters = (\<lambda>s user k cn. apfst (map_sum id (map structured_hit))
      (run_limit k cn (visit (eng_visit e) (build_structured_query e query field_filters s user))))"
    by (intro ext) (simp add: structured_search_def)
  show "retrieval_arm (structured_search e query field_filters)" unfolding eq
    by (rule arm_of_rows [where f = "\<lambda>s r. structured_hit r"])
       (auto simp: candidates_legal build_structured_query_def dest!: in_visitD)
qed

text \<open>The BM25 statement when nothing fails, with the shared candidate rows.\<close>

definition bm25_rows_hits :: "engine \<Rightarrow> string \<Rightarrow> db \<Rightarrow> user option \<Rightarrow> int \<Rightarrow> conn \<Rightarrow> hit list outcome \<times> conn" where
  "bm25_rows_hits e query s user k cn =
     apfst (map_sum id (map (\<lambda>r. row_hit (eng_bm25_score e (chunks s) query (fst r)) r)))
       (run_limit k cn (sort_desc (\<lambda>r. eng_bm25_score e (chunks s) query (fst r))
         (visit (eng_visit e) (filter (\<lambda>(c, d). eng_bm25_match e query (c_text c)) (candidates s user)))))"

interpretation bm25_ok: retrieval_arm "bm25_rows_hits e query"
proof -
  have eq: "bm25_rows_hits e query = (\<lambda>s user k cn. apfst (map_sum id (map (\<lambda>r. row_hit (eng_bm25_score e (chunks s) query (fst r)) r)))
      (run_limit k cn (sort_desc (\<lambda>r. eng_bm25_score e (chunks s) query (fst r))
        (visit (eng_visit e) (filter (\<lambda>(c, d). eng_bm25_match e query (c_text c)) (candidates s user))))))"
    by (intro ext) (simp add: bm25_rows_hits_def)
  show "retrieval_arm (bm25_rows_hits e query)" unfolding eq
    by (rule arm_of_rows [where f = "\<lambda>s r. row_hit (eng_bm25_score e (chunks s) query (fst r)) r"])
       (auto simp: candidates_legal dest!: in_visitD)
qed

lemma bm25_search_eq:
  "bm25_search e query s user k cn =
     (case (cn, eng_bm25_failure e query) of
        (Live, Some True) \<Rightarrow> (Inl (PyError ''DBAPIError'' ''bm25 query''), Aborted)
      | (Live, Some False) \<Rightarrow> (Inl (PyError ''InterfaceError'' ''bm25 query''), Live)
      | _ \<Rightarrow> bm25_rows_hits e query s user k cn)"
  unfolding bm25_search_def bm25_rows_hits_def bm25_rows by (rule refl)

lemma bm25_search_Inr:
  "bm25_search e query s user k cn = (Inr hits, cn') \<Longrightarrow> bm25_rows_hits e query s user k cn = (Inr hits, cn')"
  by (auto simp: bm25_search_eq split: conn.splits option.splits bool.splits)

interpretation bm25: retrieval_arm "bm25_search e query"
proof
  fix s user k cn hits cn' h
  assume "bm25_search e query s user k cn = (Inr hits, cn')"
  note r = bm25_search_Inr [OF this]
  show "h \<in> set hits \<Longrightarrow> legal_hit s user h" by (rule bm25_ok.legal [OF r])
  show "int (length hits) \<le> k" by (rule bm25_ok.at_most [OF r])
  show "cn' = Live" by (rule bm25_ok.stays_live [OF r])
qed (simp add: bm25_search_eq bm25_ok.aborted)

lemma keyword_search_cases:
  obtains (bm25) "keyword_search e query s user k cn = bm25_search e query s user k cn"
      "\<exists>hits. fst (bm25_search e query s user k cn) = Inr hits"
    | (fts) cn' where "keyword_search e query s user k cn = fts_search e query s user k cn'"
      "cn' = cn \<or> cn' = snd (bm25_search e query s user k cn)"
  unfolding keyword_search_def
  by (cases "eng_bm25_available e"; cases "bm25_search e query s user k cn"; cases "fst (bm25_search e query s user k cn)") auto

lemma bm25_aborted_conn: "bm25_search e query s user k Aborted = (Inl aborted_error, Aborted)"
  by (simp add: bm25_search_eq bm25_rows_hits_def)

interpretation keyword: retrieval_arm "keyword_search e query"
proof
  fix s user k cn hits cn' h
  assume a: "keyword_search e query s user k cn = (Inr hits, cn')"
  have r: "(\<exists>c1 c2. fts_search e query s user k c1 = (Inr hits, c2) \<and> c2 = cn')
      \<or> bm25_search e query s user k cn = (Inr hits, cn')"
    by (rule keyword_search_cases [of e query s user k cn]) (use a in auto)
  then show "h \<in> set hits \<Longrightarrow> legal_hit s user h" using fts.legal bm25.legal by blast
  from r show "int (length hits) \<le> k" using fts.at_most bm25.at_most by blast
  from r show "cn' = Live" using fts.stays_live bm25.stays_live by blast
next
  fix s user k
  show "fst (keyword_search e query s user k Aborted) = Inl aborted_error"
    by (simp add: keyword_search_def bm25_aborted_conn fts.aborted)
qed

section \<open>Properties\<close>

text \<open>
  Every arm returns only legal hits, and at most \<open>k\<close> of them: whatever the engine's ranking
  and scan order, a hit of the vector, keyword or structured arm is a chunk of a ready document
  the user may see.
\<close>

lemma arms_return_legal_hits:
  "(case fst (vector_search cfg e emb s user k cn) of Inl _ \<Rightarrow> True
     | Inr hs \<Rightarrow> list_all (legal_hit s user) hs \<and> int (length hs) \<le> k)
   \<and> (case fst (keyword_search e query s user k cn) of Inl _ \<Rightarrow> True
     | Inr hs \<Rightarrow> list_all (legal_hit s user) hs \<and> int (length hs) \<le> k)
   \<and> (case fst (structured_search e query fs s user k cn) of Inl _ \<Rightarrow> True
     | Inr hs \<Rightarrow> list_all (legal_hit s user) hs \<and> int (length hs) \<le> k)"
  using vector.result_visible keyword.result_visible structured.result_visible by (auto split: sum.split)

text \<open>
  Hidden documents do not influence the arms: two databases in which the user can reach the
  same ready chunks (and which have the same table rows) give the same hits in the vector, the
  tsvector and the structured arm, scores and order included. The limit applies after the
  access predicate, so invisible documents never use up places.
\<close>

lemma arms_noninterference:
  assumes "candidates s user = candidates s' user" and "table_rows s = table_rows s'"
  shows "vector_search cfg e emb s user k cn = vector_search cfg e emb s' user k cn
     \<and> fts_search e query s user k cn = fts_search e query s' user k cn
     \<and> structured_search e query fs s user k cn = structured_search e query fs s' user k cn"
  using assms by (simp add: vector_search_def fts_search_def structured_search_def build_structured_query_def)

definition sample_chunk :: "nat \<Rightarrow> uuid \<Rightarrow> chunk_row" where
  "sample_chunk i doc = \<lparr>c_id = i, c_doc_id = doc, c_ord = 0, c_kind = ''text'', c_text = ''fire drill'',
     c_embed_text = ''fire drill'', c_heading_path = None, c_page_start = Some 1, c_page_end = Some 1,
     c_bbox = None, c_table_id = None, c_token_count = 2, c_embedding = [1, 0]\<rparr>"

definition sample_engine :: engine where
  "sample_engine = \<lparr>eng_visit = (\<lambda>rows. [0..<length rows]), eng_distance = (\<lambda>half a b. 0),
     eng_bm25_available = True, eng_bm25_failure = (\<lambda>q. None), eng_bm25_match = (\<lambda>q t. True),
     eng_bm25_score = (\<lambda>cs q c. 1), eng_ts_match = (\<lambda>q t. True), eng_ts_rank = (\<lambda>q t. 1),
     eng_json_ilike = (\<lambda>q cells. True)\<rparr>"

definition public_grant :: "uuid \<Rightarrow> acl" where
  "public_grant doc = \<lparr>a_doc_id = doc, a_principal = PPublic, a_source = AclLocal\<rparr>"

definition sample_db :: db where
  "sample_db = empty_db\<lparr>documents := [sample_document 4, sample_document 5],
     chunks := [sample_chunk 1 4, sample_chunk 2 5], document_acl := [public_grant 5]\<rparr>"

lemma arms_noninterference_witness:
  "vector_search default_settings sample_engine [1, 0] sample_db (Some (sample_user 1)) 1 Live
   = vector_search default_settings sample_engine [1, 0]
       (sample_db\<lparr>documents := [sample_document 5], chunks := [sample_chunk 2 5]\<rparr>) (Some (sample_user 1)) 1 Live"
  by (rule arms_noninterference [THEN conjunct1])
     (simp_all add: candidates_def joined_def sample_db_def sees_def visibility_clause_def sample_user_def
        sample_document_def sample_chunk_def public_grant_def acl_grants_def empty_db_def)

text \<open>
  The keyword fallback: when BM25 is unavailable or its statement fails in the client the
  tsvector arm answers instead, but when the server rejects the BM25 statement the transaction
  is aborted and the fallback fails too, so the request is not saved.
\<close>

lemma keyword_fallback:
  "keyword_search e query s user k Live =
     (if eng_bm25_available e then
        (case eng_bm25_failure e query of
           None \<Rightarrow> (if k < 0 then (Inl aborted_error, Aborted) else bm25_rows_hits e query s user k Live)
         | Some True \<Rightarrow> (Inl aborted_error, Aborted)
         | Some False \<Rightarrow> fts_search e query s user k Live)
      else fts_search e query s user k Live)"
  by (auto simp: keyword_search_def bm25_search_eq bm25_rows_hits_def fts_search_def
      split: option.split bool.split)

end
