(* ===== verification/Fusion.thy ===== *)
theory Fusion imports DataModel begin

text \<open>
  \<open>prorag/retrieve/fuse.py\<close>: reciprocal rank fusion. The Python dict \<open>fused\<close> is a keyed table
  of hits (insertion order, one row per \<open>chunk_id\<close>); the score of a chunk is specified
  directly as the weighted sum over all its ranks, and the loop is shown to compute it.
\<close>

section \<open>The fusion loop\<close>

definition RRF_K :: nat where
  "RRF_K = 60"

definition contribution :: "real \<Rightarrow> nat \<Rightarrow> real" where
  "contribution w rank = w / real (RRF_K + rank)"

definition fuse_hit :: "real \<Rightarrow> nat \<Rightarrow> hit \<Rightarrow> hit list \<Rightarrow> hit list" where
  "fuse_hit w rank h fused =
     (case tbl_find h_chunk_id (h_chunk_id h) fused of
        None \<Rightarrow> fused @ [h\<lparr>h_score := contribution w rank\<rparr>]
      | Some f \<Rightarrow> tbl_put h_chunk_id (f\<lparr>h_score := h_score f + contribution w rank\<rparr>) fused)"

text \<open>\<open>for rank, hit in enumerate(hits, start=1)\<close>, one list.\<close>

fun fuse_list :: "real \<Rightarrow> nat \<Rightarrow> hit list \<Rightarrow> hit list \<Rightarrow> hit list" where
  "fuse_list w rank [] fused = fused"
| "fuse_list w rank (h # hs) fused = fuse_list w (Suc rank) hs (fuse_hit w rank h fused)"

text \<open>\<open>zip(ranked_lists, weights, strict=True)\<close> raises when one side ends before the other.\<close>

fun fuse_lists :: "hit list list \<Rightarrow> real list \<Rightarrow> hit list \<Rightarrow> hit list outcome" where
  "fuse_lists [] [] fused = Inr fused"
| "fuse_lists (hs # hss) (w # ws) fused = fuse_lists hss ws (fuse_list w 1 hs fused)"
| "fuse_lists [] (w # ws) fused = Inl (PyError ''ValueError'' ''zip() argument 2 is longer than argument 1'')"
| "fuse_lists (hs # hss) [] fused = Inl (PyError ''ValueError'' ''zip() argument 2 is shorter than argument 1'')"

definition rrf_fuse :: "hit list list \<Rightarrow> real list option \<Rightarrow> hit list outcome" where
  "rrf_fuse ranked_lists weights =
     (let ws = (case weights of None \<Rightarrow> replicate (length ranked_lists) 1 | Some ws \<Rightarrow> ws) in
      case fuse_lists ranked_lists ws [] of
        Inl e \<Rightarrow> Inl e
      | Inr fused \<Rightarrow> Inr (sort_desc h_score fused))"

section \<open>Specification\<close>

text \<open>The score of a chunk: its contribution at every rank it holds, over all lists.\<close>

fun list_score :: "nat \<Rightarrow> real \<Rightarrow> nat \<Rightarrow> hit list \<Rightarrow> real" where
  "list_score c w rank [] = 0"
| "list_score c w rank (h # hs) =
     (if h_chunk_id h = c then contribution w rank else 0) + list_score c w (Suc rank) hs"

definition total_score :: "nat \<Rightarrow> hit list list \<Rightarrow> real list \<Rightarrow> real" where
  "total_score c hss ws = sum_list (map (\<lambda>(hs, w). list_score c w 1 hs) (zip hss ws))"

text \<open>The first hit that carries a chunk, in list order.\<close>

definition first_hit :: "nat \<Rightarrow> hit list list \<Rightarrow> hit option" where
  "first_hit c hss = tbl_find h_chunk_id c (concat hss)"

text \<open>
  What the fused table holds after some input: for each chunk the first hit seen, with the
  score so far.
\<close>

definition fused_ok :: "hit list \<Rightarrow> (nat \<Rightarrow> real) \<Rightarrow> hit list \<Rightarrow> bool" where
  "fused_ok seen sc fused \<longleftrightarrow>
     distinct (map h_chunk_id fused)
   \<and> (\<forall>c. tbl_find h_chunk_id c fused =
          map_option (\<lambda>h. h\<lparr>h_score := sc c\<rparr>) (tbl_find h_chunk_id c seen))"

declare tbl_find_append [simp]

lemma fused_ok_step:
  assumes ok: "fused_ok seen sc fused"
    and zero: "tbl_find h_chunk_id (h_chunk_id h) seen = None \<Longrightarrow> sc (h_chunk_id h) = 0"
  shows "fused_ok (seen @ [h]) (\<lambda>c. sc c + (if h_chunk_id h = c then contribution w rank else 0))
           (fuse_hit w rank h fused)"
proof (cases "tbl_find h_chunk_id (h_chunk_id h) fused")
  case None
  then have new: "tbl_find h_chunk_id (h_chunk_id h) seen = None"
    using ok by (simp add: fused_ok_def)
  from None have "h_chunk_id h \<notin> set (map h_chunk_id fused)"
    by (simp add: tbl_find_None tbl_keys_def)
  with None ok new zero show ?thesis
    by (auto simp: fused_ok_def fuse_hit_def split: option.split)
next
  case (Some f)
  then obtain h0 where h0: "tbl_find h_chunk_id (h_chunk_id h) seen = Some h0"
    and f: "f = h0\<lparr>h_score := sc (h_chunk_id h)\<rparr>"
    using ok by (auto simp: fused_ok_def)
  have "h_chunk_id f = h_chunk_id h" using tbl_find_Some [OF Some] by simp
  with Some ok h0 f show ?thesis
    by (auto simp: fused_ok_def fuse_hit_def tbl_find_put distinct_tbl_put split: option.split)
qed

lemma list_score_absent: "tbl_find h_chunk_id c hs = None \<Longrightarrow> list_score c w rank hs = 0"
  by (induction hs arbitrary: rank) (auto split: if_splits)

lemma fused_ok_list:
  assumes "fused_ok seen sc fused" and "\<And>c. tbl_find h_chunk_id c seen = None \<Longrightarrow> sc c = 0"
  shows "fused_ok (seen @ hs) (\<lambda>c. sc c + list_score c w rank hs) (fuse_list w rank hs fused)"
  using assms
proof (induction hs arbitrary: seen sc fused rank)
  case (Cons h hs)
  let ?sc = "\<lambda>c. sc c + (if h_chunk_id h = c then contribution w rank else 0)"
  have "fused_ok (seen @ [h]) ?sc (fuse_hit w rank h fused)"
    using Cons.prems by (intro fused_ok_step) auto
  moreover have "\<And>c. tbl_find h_chunk_id c (seen @ [h]) = None \<Longrightarrow> ?sc c = 0"
    using Cons.prems(2) by (auto split: option.splits if_splits)
  ultimately show ?case
    using Cons.IH [where seen = "seen @ [h]" and sc = ?sc and rank = "Suc rank"] by (simp add: add.assoc)
qed simp

lemma fused_ok_lists:
  assumes "length hss = length ws" and "fused_ok seen sc fused"
    and "\<And>c. tbl_find h_chunk_id c seen = None \<Longrightarrow> sc c = 0"
  shows "\<exists>out. fuse_lists hss ws fused = Inr out
      \<and> fused_ok (seen @ concat hss) (\<lambda>c. sc c + total_score c hss ws) out"
  using assms
proof (induction hss ws arbitrary: seen sc fused rule: list_induct2)
  case Nil
  then show ?case by (simp add: total_score_def)
next
  case (Cons hs hss w ws)
  let ?sc = "\<lambda>c. sc c + list_score c w 1 hs"
  have "fused_ok (seen @ hs) ?sc (fuse_list w 1 hs fused)"
    using Cons.prems by (rule fused_ok_list)
  moreover have "\<And>c. tbl_find h_chunk_id c (seen @ hs) = None \<Longrightarrow> ?sc c = 0"
    using Cons.prems(2) by (auto simp: list_score_absent split: option.splits)
  ultimately show ?case
    using Cons.IH [where seen = "seen @ hs" and sc = ?sc] by (simp add: total_score_def add.assoc)
qed

lemma fuse_lists_error: "length hss \<noteq> length ws \<Longrightarrow> \<exists>m. fuse_lists hss ws fused = Inl (PyError ''ValueError'' m)"
  by (induction hss ws fused rule: fuse_lists.induct) auto

lemma rrf_fuse_Some: "rrf_fuse hss (Some ws) = (case fuse_lists hss ws [] of Inl e \<Rightarrow> Inl e | Inr f \<Rightarrow> Inr (sort_desc h_score f))"
  by (simp add: rrf_fuse_def)

lemma rrf_fuse_lengths: "rrf_fuse hss (Some ws) = Inr out \<Longrightarrow> length ws = length hss"
  using fuse_lists_error [of hss ws "[]"] by (cases "length hss = length ws") (auto simp: rrf_fuse_Some)

lemma rrf_fuse_default: "rrf_fuse hss None = rrf_fuse hss (Some (replicate (length hss) 1))"
  by (simp add: rrf_fuse_def)

lemma tbl_find_perm:
  assumes "mset xs = mset ys" and "distinct (map key xs)"
  shows "tbl_find key k xs = tbl_find key k ys"
proof -
  have d: "distinct (map key ys)" using assms by (metis mset_map mset_eq_imp_distinct_iff)
  have s: "set xs = set ys" using assms(1) by (metis mset_eq_setD)
  show ?thesis
  proof (cases "tbl_find key k xs")
    case None
    then show ?thesis using s by (metis tbl_find_None tbl_keys_def)
  next
    case (Some r)
    then have "r \<in> set ys" "key r = k" using s by (auto dest: tbl_find_Some)
    then show ?thesis using tbl_find_unique [OF d, of r] Some by auto
  qed
qed

text \<open>What fusion returns, in the form the later stages use.\<close>

lemma rrf_fuse_result:
  assumes "length ws = length hss"
  shows "\<exists>out. rrf_fuse hss (Some ws) = Inr out \<and> sorted_desc h_score out
     \<and> distinct (map h_chunk_id out)
     \<and> (\<forall>c. tbl_find h_chunk_id c out = map_option (\<lambda>h. h\<lparr>h_score := total_score c hss ws\<rparr>) (first_hit c hss))"
proof -
  obtain f where f: "fuse_lists hss ws [] = Inr f" "fused_ok (concat hss) (\<lambda>c. total_score c hss ws) f"
    using fused_ok_lists [of hss ws "[]" "\<lambda>_. 0" "[]"] assms by (auto simp: fused_ok_def)
  have "tbl_find h_chunk_id c (sort_desc h_score f) = tbl_find h_chunk_id c f" for c
    by (rule tbl_find_perm) (use f(2) in \<open>simp_all add: fused_ok_def\<close>)
  with f show ?thesis
    by (simp add: rrf_fuse_Some sorted_desc_sort_desc fused_ok_def first_hit_def)
qed

lemma rrf_fuse_members:
  assumes "rrf_fuse hss (Some ws) = Inr out" and "h \<in> set out"
  shows "\<exists>h0 \<in> set (concat hss). \<exists>s. h = h0\<lparr>h_score := s\<rparr>"
proof -
  have len: "length ws = length hss" using assms(1) by (rule rrf_fuse_lengths)
  have d: "distinct (map h_chunk_id out)"
    and find: "tbl_find h_chunk_id c out = map_option (\<lambda>h. h\<lparr>h_score := total_score c hss ws\<rparr>) (first_hit c hss)" for c
    using rrf_fuse_result [OF len] assms(1) by auto
  obtain h0 where "first_hit (h_chunk_id h) hss = Some h0" "h = h0\<lparr>h_score := total_score (h_chunk_id h) hss ws\<rparr>"
    using tbl_find_unique [OF d assms(2)] find by auto
  then show ?thesis using tbl_find_Some unfolding first_hit_def by metis
qed

section \<open>Properties\<close>

text \<open>
  C17. Reciprocal rank fusion is exact: with one weight per list it returns, best score first,
  every chunk of the input exactly once, carrying the fields of the hit that was seen first
  and the sum of \<open>weight / (60 + rank)\<close> over all its ranks; with any other number of weights
  it raises \<open>ValueError\<close>.
\<close>

theorem rrf_fuse_exact:
  "(\<exists>out. rrf_fuse hss (Some ws) = Inr out \<and> length ws = length hss
       \<and> sorted_desc h_score out \<and> distinct (map h_chunk_id out)
       \<and> (\<forall>c. tbl_find h_chunk_id c out =
              map_option (\<lambda>h. h\<lparr>h_score := total_score c hss ws\<rparr>) (first_hit c hss)))
   \<or> (length ws \<noteq> length hss \<and> (\<exists>m. rrf_fuse hss (Some ws) = Inl (PyError ''ValueError'' m)))"
  using rrf_fuse_result [of ws hss] fuse_lists_error [of hss ws "[]"]
  by (cases "length ws = length hss") (auto simp: rrf_fuse_Some)

text \<open>Chunk \<open>a\<close> is ahead of chunk \<open>b\<close> in a list: every place of \<open>b\<close> has an earlier one of \<open>a\<close>.\<close>

definition ranks_of :: "nat \<Rightarrow> hit list \<Rightarrow> nat list" where
  "ranks_of c hs = map fst (filter (\<lambda>(i, h). h_chunk_id h = c) (enumerate 1 hs))"

definition ahead_in :: "nat \<Rightarrow> nat \<Rightarrow> hit list \<Rightarrow> bool" where
  "ahead_in a b hs \<longleftrightarrow>
     distinct (map h_chunk_id hs) \<and> list_all (\<lambda>j. list_ex (\<lambda>i. i < j) (ranks_of a hs)) (ranks_of b hs)"

lemma list_score_ranks:
  "list_score c w n hs = sum_list (map (contribution w) (map fst (filter (\<lambda>(i, h). h_chunk_id h = c) (enumerate n hs))))"
  by (induction hs arbitrary: n) auto

lemma list_score_rank_sum: "list_score c w 1 hs = sum_list (map (contribution w) (ranks_of c hs))"
  by (simp add: list_score_ranks ranks_of_def)

lemma ranks_of_distinct:
  assumes "distinct (map h_chunk_id hs)"
  shows "ranks_of c hs = [] \<or> (\<exists>i. ranks_of c hs = [i])"
proof -
  have "map fst (filter (\<lambda>(i, h). h_chunk_id h = c) (enumerate n hs)) = []
      \<or> (\<exists>i. map fst (filter (\<lambda>(i, h). h_chunk_id h = c) (enumerate n hs)) = [i])" for n
    using assms
  proof (induction hs arbitrary: n)
    case (Cons h hs)
    show ?case
    proof (cases "h_chunk_id h = c")
      case True
      have "filter (\<lambda>(i, h). h_chunk_id h = c) (enumerate (Suc n) hs) = []"
        using Cons.prems True by (fastforce simp: filter_empty_conv enumerate_eq_zip image_iff dest!: set_zip_rightD)
      with True show ?thesis by simp
    qed (use Cons in auto)
  qed simp
  then show ?thesis by (simp add: ranks_of_def)
qed

lemma contribution_mono: "0 < w \<Longrightarrow> i < j \<Longrightarrow> contribution w j < contribution w i"
  by (simp add: contribution_def RRF_K_def divide_strict_left_mono)

lemma contribution_pos: "0 < w \<Longrightarrow> 0 < contribution w i"
  by (simp add: contribution_def RRF_K_def)

lemma list_score_ahead:
  assumes "ahead_in a b hs" and "0 < w"
  shows "list_score b w 1 hs \<le> list_score a w 1 hs"
    and "ranks_of a hs \<noteq> [] \<Longrightarrow> list_score b w 1 hs < list_score a w 1 hs"
proof -
  have d: "distinct (map h_chunk_id hs)" using assms(1) by (simp add: ahead_in_def)
  from ranks_of_distinct [OF d, of a] ranks_of_distinct [OF d, of b] assms
  show "list_score b w 1 hs \<le> list_score a w 1 hs"
    and "ranks_of a hs \<noteq> [] \<Longrightarrow> list_score b w 1 hs < list_score a w 1 hs"
    unfolding list_score_rank_sum
    by (auto simp: ahead_in_def contribution_pos less_imp_le contribution_mono)
qed

lemma total_score_ahead:
  assumes "length ws = length hss" and "list_all (\<lambda>hs. ahead_in a b hs) hss" and "list_all (\<lambda>w. 0 < w) ws"
  shows "total_score b hss ws \<le> total_score a hss ws
     \<and> (list_ex (\<lambda>hs. ranks_of a hs \<noteq> []) hss \<longrightarrow> total_score b hss ws < total_score a hss ws)"
  using assms(1) [symmetric] assms(2,3)
proof (induction hss ws rule: list_induct2)
  case (Cons hs hss w ws)
  have "list_score b w 1 hs \<le> list_score a w 1 hs"
    and "ranks_of a hs \<noteq> [] \<longrightarrow> list_score b w 1 hs < list_score a w 1 hs"
    using list_score_ahead [of a b hs w] Cons.prems by auto
  with Cons show ?case by (auto simp: total_score_def)
qed (simp add: total_score_def)

text \<open>
  Fusion respects unanimity: with positive weights, a chunk that every arm ranks ahead of
  another one ends up with a strictly greater fused score, so it is never cut before it.
\<close>

lemma rrf_fuse_unanimous:
  assumes "rrf_fuse hss (Some ws) = Inr out" and "list_all (\<lambda>w. 0 < w) ws"
    and "list_all (\<lambda>hs. ahead_in a b hs) hss"
    and "tbl_find h_chunk_id a out = Some ha" and "tbl_find h_chunk_id b out = Some hb"
  shows "h_score hb < h_score ha"
proof -
  have len: "length ws = length hss" using assms(1) by (rule rrf_fuse_lengths)
  have find: "tbl_find h_chunk_id c out = map_option (\<lambda>h. h\<lparr>h_score := total_score c hss ws\<rparr>) (first_hit c hss)" for c
    using rrf_fuse_result [OF len] assms(1) by auto
  from assms(4,5) find have s: "h_score ha = total_score a hss ws" "h_score hb = total_score b hss ws"
    by (auto simp: option.map_sel)
  obtain h where "first_hit a hss = Some h" using assms(4) find by auto
  then have "h \<in> set (concat hss)" "h_chunk_id h = a" by (auto simp: first_hit_def dest: tbl_find_Some)
  then obtain hs where hs: "hs \<in> set hss" "h \<in> set hs" by auto
  then obtain i where i: "i < length hs" "hs ! i = h" by (auto simp: in_set_conv_nth)
  then have "(Suc i, h) \<in> set (enumerate 1 hs)" by (auto simp: in_set_enumerate_eq)
  then have "ranks_of a hs \<noteq> []" using \<open>h_chunk_id h = a\<close> by (auto simp: ranks_of_def filter_empty_conv)
  then have "list_ex (\<lambda>hs. ranks_of a hs \<noteq> []) hss" using hs(1) by (auto simp: list_ex_iff)
  with total_score_ahead [OF len assms(3,2)] s show ?thesis by simp
qed

definition plain_hit :: "nat \<Rightarrow> hit" where
  "plain_hit c = \<lparr>h_chunk_id = c, h_doc_id = Some 1, h_text = ''text'', h_page = None, h_bbox = None,
     h_kind = None, h_title = None, h_score = 0, h_title_norm = None, h_doc_date = None, h_token_count = None\<rparr>"

lemma rrf_fuse_unanimous_witness:
  "total_score 8 [[plain_hit 7, plain_hit 8], [plain_hit 7]] [1, 2] < total_score 7 [[plain_hit 7, plain_hit 8], [plain_hit 7]] [1, 2]"
proof -
  let ?hss = "[[plain_hit 7, plain_hit 8], [plain_hit 7]]"
  obtain out where out: "rrf_fuse ?hss (Some [1, 2]) = Inr out"
    "\<forall>c. tbl_find h_chunk_id c out = map_option (\<lambda>h. h\<lparr>h_score := total_score c ?hss [1, 2]\<rparr>) (first_hit c ?hss)"
    using rrf_fuse_result [of "[1, 2]" ?hss] by auto
  have a: "list_all (\<lambda>hs. ahead_in 7 8 hs) ?hss" by (simp add: ahead_in_def ranks_of_def plain_hit_def)
  have "tbl_find h_chunk_id 7 out = Some ((plain_hit 7)\<lparr>h_score := total_score 7 ?hss [1, 2]\<rparr>)"
    "tbl_find h_chunk_id 8 out = Some ((plain_hit 8)\<lparr>h_score := total_score 8 ?hss [1, 2]\<rparr>)"
    using out(2) by (simp_all add: first_hit_def plain_hit_def)
  from rrf_fuse_unanimous [OF out(1) _ a this] show ?thesis by simp
qed

end
