(* ===== verification/Rerank.thy ===== *)
theory Rerank imports DataModel Settings_Model begin

text \<open>
  \<open>prorag/retrieve/rerank.py\<close>: the hosted cross-encoder with its flatness guard. The HTTP call
  is a parameter \<open>api\<close>: the query and the documents give either an exception (transport, HTTP
  status, malformed body) or the entries under \<open>"results"\<close>. Everything inside the \<open>try\<close> is an
  outcome, and the handler turns an exception into the unchanged input.
\<close>

section \<open>The reply of the endpoint\<close>

text \<open>
  One entry of \<open>results\<close>. \<open>r.get("index", -1)\<close> may be absent, an integer, a float (which passes
  the range test but cannot index a list), or something that cannot be compared with a
  number. \<open>rr_relevance\<close> is what \<open>float(r["relevance_score"])\<close> gives, \<open>None\<close> when it raises.
\<close>

datatype rr_index = IdxAbsent | IdxInt int | IdxFloat real | IdxOther

datatype rr_result = NotAnObject | RResult (rr_index: rr_index) (rr_relevance: "real option")

type_synonym rerank_endpoint = "string \<Rightarrow> string list \<Rightarrow> rr_result list outcome"

text \<open>\<open>0 <= r.get("index", -1) < len(hits)\<close>.\<close>

fun index_in_range :: "nat \<Rightarrow> rr_result \<Rightarrow> bool outcome" where
  "index_in_range n NotAnObject = Inl (PyError ''AttributeError'' ''get'')"
| "index_in_range n (RResult IdxAbsent sc) = Inr False"
| "index_in_range n (RResult (IdxInt i) sc) = Inr (0 \<le> i \<and> i < int n)"
| "index_in_range n (RResult (IdxFloat x) sc) = Inr (0 \<le> x \<and> x < real n)"
| "index_in_range n (RResult IdxOther sc) = Inl (PyError ''TypeError'' ''<='')"

fun valid_results :: "nat \<Rightarrow> rr_result list \<Rightarrow> rr_result list outcome" where
  "valid_results n [] = Inr []"
| "valid_results n (r # rs) =
     (case index_in_range n r of
        Inl e \<Rightarrow> Inl e
      | Inr b \<Rightarrow> (case valid_results n rs of
                   Inl e \<Rightarrow> Inl e
                 | Inr vs \<Rightarrow> Inr (if b then r # vs else vs)))"

text \<open>The pair \<open>(r["index"], float(r["relevance_score"]))\<close>, or the exception using it raises.\<close>

fun score_entry :: "rr_result \<Rightarrow> (nat \<times> real) outcome" where
  "score_entry (RResult (IdxInt i) (Some x)) = Inr (nat i, x)"
| "score_entry (RResult (IdxInt i) None) = Inl (PyError ''KeyError'' ''relevance_score'')"
| "score_entry _ = Inl (PyError ''TypeError'' ''list indices must be integers'')"

fun score_entries :: "rr_result list \<Rightarrow> (nat \<times> real) list outcome" where
  "score_entries [] = Inr []"
| "score_entries (r # rs) =
     (case score_entry r of
        Inl e \<Rightarrow> Inl e
      | Inr p \<Rightarrow> (case score_entries rs of Inl e \<Rightarrow> Inl e | Inr ps \<Rightarrow> Inr (p # ps)))"

section \<open>The guard and the call\<close>

definition assign_scores :: "hit list \<Rightarrow> real list \<Rightarrow> hit list" where
  "assign_scores hits ordered = map (\<lambda>(h, s). h\<lparr>h_score := s\<rparr>) (zip hits ordered)"

definition flat_guard :: "real \<Rightarrow> hit list \<Rightarrow> real list \<Rightarrow> hit list option" where
  "flat_guard spread hits input_scores =
     (let top = take 5 (sort_desc (\<lambda>x. x) input_scores) in
      if 2 \<le> length top \<and> Max (set top) - Min (set top) < spread
      then Some (assign_scores hits (sort_desc (\<lambda>x. x) input_scores))
      else None)"

text \<open>\<open>input_scores[r["index"]] = float(...)\<close> for every valid result, in order.\<close>

definition input_scores_of :: "nat \<Rightarrow> (nat \<times> real) list \<Rightarrow> real list" where
  "input_scores_of n ps = fold (\<lambda>(i, x) scores. scores[i := x]) ps (replicate n 0)"

definition rerank_scored :: "hit list \<Rightarrow> (nat \<times> real) list \<Rightarrow> hit list" where
  "rerank_scored hits ps = sort_desc h_score (map (\<lambda>(i, x). (hits ! i)\<lparr>h_score := x\<rparr>) ps)"

text \<open>The body of the \<open>try\<close>.\<close>

definition rerank_try :: "settings \<Rightarrow> rerank_endpoint \<Rightarrow> string \<Rightarrow> hit list \<Rightarrow> hit list outcome" where
  "rerank_try cfg api query hits =
     (case api query (map h_text hits) of
        Inl e \<Rightarrow> Inl e
      | Inr results \<Rightarrow>
          (case valid_results (length hits) results of
             Inl e \<Rightarrow> Inl e
           | Inr [] \<Rightarrow> Inr hits
           | Inr (v # vs) \<Rightarrow>
               (case score_entries (v # vs) of
                  Inl e \<Rightarrow> Inl e
                | Inr ps \<Rightarrow>
                    (case flat_guard (rerank_flat_spread cfg) hits (input_scores_of (length hits) ps) of
                       Some guarded \<Rightarrow> Inr guarded
                     | None \<Rightarrow> Inr (rerank_scored hits ps)))))"

definition truthy_str :: "string option \<Rightarrow> string option" where
  "truthy_str o_str = (case o_str of None \<Rightarrow> None | Some s \<Rightarrow> if s = [] then None else Some s)"

text \<open>\<open>settings.openrouter_api_key or os.environ.get("OPENROUTER_API_KEY")\<close>.\<close>

definition rerank_api_key :: "settings \<Rightarrow> string option \<Rightarrow> string option" where
  "rerank_api_key cfg env_key =
     (case truthy_str (openrouter_api_key cfg) of Some k \<Rightarrow> Some k | None \<Rightarrow> truthy_str env_key)"

definition rerank_api :: "settings \<Rightarrow> string option \<Rightarrow> rerank_endpoint \<Rightarrow> string \<Rightarrow> hit list \<Rightarrow> hit list" where
  "rerank_api cfg env_key api query hits =
     (case rerank_api_key cfg env_key of
        None \<Rightarrow> hits
      | Some k \<Rightarrow> (case rerank_try cfg api query hits of Inl e \<Rightarrow> hits | Inr out \<Rightarrow> out))"

definition rerank :: "settings \<Rightarrow> string option \<Rightarrow> rerank_endpoint \<Rightarrow> string \<Rightarrow> hit list \<Rightarrow> hit list" where
  "rerank cfg env_key api query hits =
     (if \<not> rerank_enabled cfg \<or> hits = [] then hits else rerank_api cfg env_key api query hits)"

section \<open>Lemmas\<close>

lemma sort_desc_id_sorted: "sorted_wrt (\<lambda>x y. y \<le> x) (sort_desc (\<lambda>x. x) xs)"
  using sorted_desc_sort_desc [of "\<lambda>x. x" xs] by (simp add: sorted_desc_def)

lemma length_input_scores: "length (input_scores_of n ps) = n"
proof -
  have "length (fold (\<lambda>(i, x) scores. scores[i := x]) ps xs) = length xs" for xs :: "real list"
    by (induction ps arbitrary: xs) auto
  then show ?thesis by (simp add: input_scores_of_def)
qed

lemma assign_scores_ids:
  "length hits = length xs \<Longrightarrow> map h_chunk_id (assign_scores hits xs) = map h_chunk_id hits"
  by (induction hits xs rule: list_induct2) (auto simp: assign_scores_def)

lemma assign_scores_scores:
  "length hits = length xs \<Longrightarrow> map h_score (assign_scores hits xs) = xs"
  by (induction hits xs rule: list_induct2) (auto simp: assign_scores_def)

lemma valid_results_range:
  assumes "valid_results n rs = Inr vs" and "score_entries vs = Inr ps"
  shows "\<forall>(i, x)\<in>set ps. i < n"
  using assms
proof (induction rs arbitrary: vs ps)
  case (Cons r rs)
  then obtain b us where b: "index_in_range n r = Inr b" "valid_results n rs = Inr us"
    and vs: "vs = (if b then r # us else us)" by (auto split: sum.splits)
  show ?case
  proof (cases b)
    case True
    then obtain p qs where p: "score_entry r = Inr p" "score_entries us = Inr qs" "ps = p # qs"
      using Cons.prems vs by (auto split: sum.splits)
    have "fst p < n"
      using b(1) p(1) True by (cases "(n, r)" rule: index_in_range.cases; cases r rule: score_entry.cases) auto
    with Cons.IH [OF b(2) p(2)] p(3) show ?thesis by auto
  next
    case False
    with Cons vs b show ?thesis by simp
  qed
qed simp

text \<open>A hit up to its score.\<close>

definition same_hit :: "hit \<Rightarrow> hit \<Rightarrow> bool" where
  "same_hit h h' = (h\<lparr>h_score := 0\<rparr> = h'\<lparr>h_score := 0\<rparr>)"

lemma same_hit_refl [simp]: "same_hit h h"
  by (simp add: same_hit_def)

lemma same_hit_score [simp]: "same_hit (h\<lparr>h_score := x\<rparr>) h"
  by (simp add: same_hit_def)

lemma same_hit_doc: "same_hit h h' \<Longrightarrow> h_doc_id h = h_doc_id h' \<and> h_chunk_id h = h_chunk_id h' \<and> h_text h = h_text h'"
  unfolding same_hit_def by (cases h; cases h') simp

lemma rerank_try_cases:
  assumes "rerank_try cfg api query hits = Inr out"
  shows "out = hits
   \<or> (\<exists>results vs ps. valid_results (length hits) results = Inr vs \<and> vs \<noteq> [] \<and> score_entries vs = Inr ps
        \<and> out = (case flat_guard (rerank_flat_spread cfg) hits (input_scores_of (length hits) ps) of
               Some guarded \<Rightarrow> guarded | None \<Rightarrow> rerank_scored hits ps))"
proof -
  obtain results where r: "api query (map h_text hits) = Inr results"
    using assms by (auto simp: rerank_try_def split: sum.splits)
  obtain vs where v: "valid_results (length hits) results = Inr vs"
    using assms r by (auto simp: rerank_try_def split: sum.splits)
  show ?thesis
  proof (cases vs)
    case Nil
    with assms r v show ?thesis by (simp add: rerank_try_def)
  next
    case (Cons w ws)
    then obtain ps where "score_entries vs = Inr ps"
      using assms r v by (auto simp: rerank_try_def split: sum.splits)
    with assms r v Cons show ?thesis by (fastforce simp: rerank_try_def split: option.splits)
  qed
qed

lemma rerank_cases:
  "rerank cfg env_key api query hits = hits
   \<or> (\<exists>results vs ps. valid_results (length hits) results = Inr vs \<and> vs \<noteq> [] \<and> score_entries vs = Inr ps
        \<and> rerank cfg env_key api query hits =
            (case flat_guard (rerank_flat_spread cfg) hits (input_scores_of (length hits) ps) of
               Some guarded \<Rightarrow> guarded | None \<Rightarrow> rerank_scored hits ps))"
proof -
  have "rerank cfg env_key api query hits = hits
      \<or> rerank_try cfg api query hits = Inr (rerank cfg env_key api query hits)"
    by (auto simp: rerank_def rerank_api_def split: option.split sum.split)
  then show ?thesis using rerank_try_cases by blast
qed

lemma score_entries_length: "score_entries vs = Inr ps \<Longrightarrow> length ps = length vs"
  by (induction vs arbitrary: ps) (auto split: sum.splits)

lemma flat_guard_SomeD:
  "flat_guard spread hits xs = Some g \<Longrightarrow> g = assign_scores hits (sort_desc (\<lambda>x. x) xs)"
  by (auto simp: flat_guard_def Let_def split: if_splits)

text \<open>Whatever the endpoint does, the hits that come back are hits that went in.\<close>

lemma rerank_members:
  "h \<in> set (rerank cfg env_key api query hits) \<Longrightarrow> \<exists>h0\<in>set hits. same_hit h h0"
proof -
  assume h: "h \<in> set (rerank cfg env_key api query hits)"
  consider "rerank cfg env_key api query hits = hits"
    | results vs ps where "valid_results (length hits) results = Inr vs" "score_entries vs = Inr ps"
        "rerank cfg env_key api query hits =
            (case flat_guard (rerank_flat_spread cfg) hits (input_scores_of (length hits) ps) of
               Some guarded \<Rightarrow> guarded | None \<Rightarrow> rerank_scored hits ps)"
    using rerank_cases [of cfg env_key api query hits] by blast
  then show ?thesis
  proof cases
    case 1
    with h show ?thesis by (intro bexI [of _ h]) auto
  next
    case 2
    have r: "\<forall>(i, x)\<in>set ps. i < length hits" by (rule valid_results_range [OF 2(1,2)])
    show ?thesis
    proof (cases "flat_guard (rerank_flat_spread cfg) hits (input_scores_of (length hits) ps)")
      case None
      with 2 h obtain i x where ix: "(i, x) \<in> set ps" "h = (hits ! i)\<lparr>h_score := x\<rparr>"
        by (auto simp: rerank_scored_def)
      with r have "hits ! i \<in> set hits" by (auto intro!: nth_mem)
      with ix show ?thesis by (intro bexI [of _ "hits ! i"]) simp_all
    next
      case (Some g)
      from flat_guard_SomeD [OF this] 2 h Some obtain h0 x where "(h0, x) \<in> set (zip hits (sort_desc (\<lambda>x. x) (input_scores_of (length hits) ps)))"
          "h = h0\<lparr>h_score := x\<rparr>"
        by (auto simp: assign_scores_def)
      then show ?thesis by (intro bexI [of _ h0]) (auto dest: set_zip_leftD)
    qed
  qed
qed

lemma rerank_nonempty: "hits \<noteq> [] \<Longrightarrow> rerank cfg env_key api query hits \<noteq> []"
proof -
  assume ne: "hits \<noteq> []"
  consider "rerank cfg env_key api query hits = hits"
    | vs ps where "vs \<noteq> []" "score_entries vs = Inr ps"
        "rerank cfg env_key api query hits =
            (case flat_guard (rerank_flat_spread cfg) hits (input_scores_of (length hits) ps) of
               Some guarded \<Rightarrow> guarded | None \<Rightarrow> rerank_scored hits ps)"
    using rerank_cases [of cfg env_key api query hits] by blast
  then show ?thesis
  proof cases
    case 2
    have "ps \<noteq> []" using 2(1,2) score_entries_length by fastforce
    moreover have "length (rerank_scored hits ps) = length ps" by (simp add: rerank_scored_def)
    ultimately have r: "rerank_scored hits ps \<noteq> []" by (metis length_0_conv)
    have a: "assign_scores hits xs \<noteq> []" if "length xs = length hits" for xs
      using that ne by (cases hits; cases xs) (auto simp: assign_scores_def)
    show ?thesis
    proof (cases "flat_guard (rerank_flat_spread cfg) hits (input_scores_of (length hits) ps)")
      case (Some g)
      from flat_guard_SomeD [OF this] have "g \<noteq> []" by (auto intro!: a simp: length_input_scores)
      with Some 2(3) show ?thesis by simp
    qed (use 2(3) r in simp)
  qed (use ne in simp)
qed

section \<open>Properties\<close>

text \<open>
  C29. Reranking never raises, never loses the whole context and never invents a hit: for every
  behaviour of the endpoint (no key, exception, malformed or partial reply) each returned hit
  is an input hit up to its score, and a non-empty input gives a non-empty output.
\<close>

theorem rerank_safe:
  "list_all (\<lambda>h. list_ex (same_hit h) hits) (rerank cfg env_key api query hits)
   \<and> (rerank cfg env_key api query hits = [] \<longleftrightarrow> hits = [])"
proof
  show "list_all (\<lambda>h. list_ex (same_hit h) hits) (rerank cfg env_key api query hits)"
    using rerank_members by (auto simp: list_all_iff list_ex_iff)
  show "rerank cfg env_key api query hits = [] \<longleftrightarrow> hits = []"
    using rerank_nonempty [of hits cfg env_key api query] by (cases "hits = []") (auto simp: rerank_def)
qed

text \<open>
  The flatness guard keeps the fused order: when the endpoint scores every hit once and the
  five best scores lie within the spread, the hits come back in exactly the order they went
  in, with the multiset of scores of the endpoint in descending order, so that the crop's
  stable sort leaves them where they are.
\<close>

definition full_reply :: "real list \<Rightarrow> rr_result list" where
  "full_reply xs = map (\<lambda>(i, x). RResult (IdxInt (int i)) (Some x)) (enumerate 0 xs)"

lemma valid_full:
  "m + length xs \<le> n \<Longrightarrow> valid_results n (map (\<lambda>(i, x). RResult (IdxInt (int i)) (Some x)) (enumerate m xs))
     = Inr (map (\<lambda>(i, x). RResult (IdxInt (int i)) (Some x)) (enumerate m xs))"
  by (induction xs arbitrary: m) auto

lemma score_entries_full:
  "score_entries (map (\<lambda>(i, x). RResult (IdxInt (int i)) (Some x)) (enumerate m xs)) = Inr (enumerate m xs)"
  by (induction xs arbitrary: m) auto

lemma fold_update_enumerate:
  "length ys = m + length xs \<Longrightarrow> fold (\<lambda>(i, x) s. s[i := x]) (enumerate m xs) ys = take m ys @ xs"
proof (induction xs arbitrary: m ys)
  case (Cons x xs)
  then have "take (Suc m) (ys[m := x]) = take m ys @ [x]"
    by (simp add: take_Suc_conv_app_nth)
  with Cons show ?case by simp
qed simp

lemma input_scores_full: "input_scores_of (length xs) (enumerate 0 xs) = xs"
  by (simp add: input_scores_of_def fold_update_enumerate)

lemma rerank_full_reply:
  assumes "rerank_enabled cfg" and "rerank_api_key cfg env_key \<noteq> None" and "hits \<noteq> []"
    and "api query (map h_text hits) = Inr (full_reply xs)" and "length xs = length hits"
  shows "rerank cfg env_key api query hits =
     (case flat_guard (rerank_flat_spread cfg) hits xs of
        Some guarded \<Rightarrow> guarded | None \<Rightarrow> rerank_scored hits (enumerate 0 xs))"
proof -
  let ?f = "\<lambda>(i, x). RResult (IdxInt (int i)) (Some (x::real))"
  have v: "valid_results (length hits) (map ?f (enumerate 0 xs)) = Inr (map ?f (enumerate 0 xs))"
    by (rule valid_full) (simp add: assms(5))
  have ne: "map ?f (enumerate 0 xs) \<noteq> []" using assms(3,5) by (cases xs) auto
  then obtain v vs where c: "map ?f (enumerate 0 xs) = v # vs" by (cases "map ?f (enumerate 0 xs)") auto
  have "score_entries (v # vs) = Inr (enumerate 0 xs)" unfolding c [symmetric] by (rule score_entries_full)
  then have "rerank_try cfg api query hits =
      (case flat_guard (rerank_flat_spread cfg) hits xs of
         Some guarded \<Rightarrow> Inr guarded | None \<Rightarrow> Inr (rerank_scored hits (enumerate 0 xs)))"
    unfolding rerank_try_def assms(4) full_reply_def using v c input_scores_full [of xs]
    by (simp add: assms(5) [symmetric])
  then show ?thesis using assms(1-3) by (auto simp: rerank_def rerank_api_def split: option.splits)
qed

lemma rerank_flat_keeps_order:
  assumes "rerank_enabled cfg" and "rerank_api_key cfg env_key \<noteq> None"
    and "api query (map h_text hits) = Inr (full_reply xs)"
    and "length xs = length hits" and "2 \<le> length hits"
    and "Max (set (take 5 (sort_desc (\<lambda>x. x) xs))) - Min (set (take 5 (sort_desc (\<lambda>x. x) xs))) < rerank_flat_spread cfg"
  shows "map h_chunk_id (rerank cfg env_key api query hits) = map h_chunk_id hits
     \<and> map h_score (rerank cfg env_key api query hits) = sort_desc (\<lambda>x. x) xs
     \<and> sort_desc h_score (rerank cfg env_key api query hits) = rerank cfg env_key api query hits"
proof -
  let ?o = "sort_desc (\<lambda>x. x) xs"
  have ne: "hits \<noteq> []" using assms(5) by auto
  have g: "flat_guard (rerank_flat_spread cfg) hits xs = Some (assign_scores hits ?o)"
    using assms(4-6) by (simp add: flat_guard_def Let_def)
  have r: "rerank cfg env_key api query hits = assign_scores hits ?o"
    using rerank_full_reply [of cfg env_key hits api query xs] assms ne g by simp
  have len: "length hits = length ?o" using assms(4) by simp
  have "sorted_wrt (\<lambda>x y. y \<le> x) (map h_score (assign_scores hits ?o))"
    unfolding assign_scores_scores [OF len] by (rule sort_desc_id_sorted)
  then have "sorted_desc h_score (assign_scores hits ?o)" by (simp add: sorted_desc_def sorted_wrt_map)
  with r len show ?thesis by (simp add: assign_scores_ids assign_scores_scores sort_desc_sorted)
qed

definition sample_hit :: "nat \<Rightarrow> hit" where
  "sample_hit c = \<lparr>h_chunk_id = c, h_doc_id = Some 1, h_text = ''t'', h_page = None, h_bbox = None,
     h_kind = None, h_title = None, h_score = 0, h_title_norm = None, h_doc_date = None, h_token_count = None\<rparr>"

lemma rerank_flat_keeps_order_witness:
  "map h_chunk_id (rerank default_settings (Some ''key'') (\<lambda>q ds. Inr (full_reply [0.5, 0.51]))
     ''q'' [sample_hit 4, sample_hit 9]) = [4, 9]"
proof -
  have "rerank_enabled default_settings" "rerank_api_key default_settings (Some ''key'') \<noteq> None"
    by (simp_all add: default_settings_def rerank_api_key_def truthy_str_def)
  moreover have "sort_desc (\<lambda>x. x) [0.5, 0.51::real] = [0.51, 0.5]" by (simp add: sort_desc_def)
  then have "Max (set (take 5 (sort_desc (\<lambda>x. x) [0.5, 0.51::real])))
      - Min (set (take 5 (sort_desc (\<lambda>x. x) [0.5, 0.51::real]))) < rerank_flat_spread default_settings"
    by (simp add: default_settings_def)
  ultimately show ?thesis
    using rerank_flat_keeps_order [of default_settings "Some ''key''" "\<lambda>q ds. Inr (full_reply [0.5, 0.51])"
        "''q''" "[sample_hit 4, sample_hit 9]" "[0.5, 0.51]"]
    by (simp add: sample_hit_def)
qed

text \<open>
  When the scores do discriminate, reranking is a permutation of its input by the endpoint's
  scores: every chunk exactly once, each with the score given to it, best score first.
\<close>

lemma rerank_orders_by_score:
  assumes "rerank_enabled cfg" and "rerank_api_key cfg env_key \<noteq> None" and "hits \<noteq> []"
    and "api query (map h_text hits) = Inr (full_reply xs)" and "length xs = length hits"
    and "flat_guard (rerank_flat_spread cfg) hits xs = None"
  shows "mset (rerank cfg env_key api query hits) = mset (map (\<lambda>(h, x). h\<lparr>h_score := x\<rparr>) (zip hits xs))
     \<and> sorted_desc h_score (rerank cfg env_key api query hits)"
proof -
  have r: "rerank cfg env_key api query hits = rerank_scored hits (enumerate 0 xs)"
    using rerank_full_reply [of cfg env_key hits api query xs] assms by simp
  have "map (\<lambda>(i, x). (hits ! i)\<lparr>h_score := x\<rparr>) (enumerate 0 xs) = map (\<lambda>(h, x). h\<lparr>h_score := x\<rparr>) (zip hits xs)"
    using assms(5) by (intro nth_equalityI) (auto simp: nth_enumerate_eq)
  then show ?thesis unfolding r by (simp add: rerank_scored_def sorted_desc_sort_desc)
qed

lemma rerank_orders_by_score_witness:
  "mset (rerank default_settings (Some ''key'') (\<lambda>q ds. Inr (full_reply [0.1, 0.9])) ''q'' [sample_hit 4, sample_hit 9])
     = {# (sample_hit 4)\<lparr>h_score := 0.1\<rparr>, (sample_hit 9)\<lparr>h_score := 0.9\<rparr> #}"
proof -
  have "rerank_enabled default_settings" "rerank_api_key default_settings (Some ''key'') \<noteq> None"
    by (simp_all add: default_settings_def rerank_api_key_def truthy_str_def)
  moreover have "flat_guard (rerank_flat_spread default_settings) [sample_hit 4, sample_hit 9] [0.1, 0.9] = None"
    by (simp add: flat_guard_def sort_desc_def default_settings_def)
  ultimately show ?thesis
    using rerank_orders_by_score [of default_settings "Some ''key''" "[sample_hit 4, sample_hit 9]"
        "\<lambda>q ds. Inr (full_reply [0.1, 0.9])" "''q''" "[0.1, 0.9]"] by simp
qed

end
