(* ===== verification/Regex.thy ===== *)
theory Regex imports PyStr begin

text \<open>
  The part of Python's \<open>re\<close> module that the source uses: a backtracking matcher over the
  constructs its patterns are built of. A match attempt returns every way to match, in the
  order in which the backtracking search tries them, so the first one is the match
  that \<open>re\<close> reports. The scanners below are \<open>pattern.sub\<close>, \<open>pattern.finditer\<close> and
  \<open>pattern.match\<close>. No pattern of the source matches the empty string, which is the one case
  where \<open>sub\<close> and \<open>finditer\<close> here would differ from Python's.
\<close>

section \<open>Patterns and the matcher\<close>

datatype rx =
    REps
  | RCls "char \<Rightarrow> bool"
  | RSeq rx rx
  | RAlt rx rx
  | ROpt rx
  | RStar rx
  | RLazy rx
  | RGroup rx
  | RWordB
  | REnd

text \<open>A position of the search: the character before it, the rest of the subject, the groups.\<close>

type_synonym rpos = "char option \<times> string \<times> string list"

fun rest_len :: "rpos \<Rightarrow> nat" where
  "rest_len (p, s, g) = length s"

text \<open>
  Greedy repetition: one more round first, the current position last. A round that consumes
  nothing is not repeated, so as many rounds as characters left are enough.
\<close>

fun rx_rounds :: "nat \<Rightarrow> (rpos \<Rightarrow> rpos list) \<Rightarrow> rpos \<Rightarrow> rpos list" where
  "rx_rounds 0 f x = [x]"
| "rx_rounds (Suc n) f x = concat (map (rx_rounds n f) (filter (\<lambda>y. rest_len y < rest_len x) (f x))) @ [x]"

text \<open>Lazy repetition: the current position first.\<close>

fun rx_lazy_rounds :: "nat \<Rightarrow> (rpos \<Rightarrow> rpos list) \<Rightarrow> rpos \<Rightarrow> rpos list" where
  "rx_lazy_rounds 0 f x = [x]"
| "rx_lazy_rounds (Suc n) f x = x # concat (map (rx_lazy_rounds n f) (filter (\<lambda>y. rest_len y < rest_len x) (f x)))"

definition at_word_boundary :: "char option \<Rightarrow> string \<Rightarrow> bool" where
  "at_word_boundary p s =
     ((case p of None \<Rightarrow> False | Some c \<Rightarrow> is_word c) \<noteq> (case s of [] \<Rightarrow> False | c # _ \<Rightarrow> is_word c))"

fun rx_step :: "(char \<Rightarrow> bool) \<Rightarrow> rpos \<Rightarrow> rpos list" where
  "rx_step q (p, [], g) = []"
| "rx_step q (p, c # s, g) = (if q c then [(Some c, s, g)] else [])"

fun add_group :: "rpos \<Rightarrow> rpos \<Rightarrow> rpos" where
  "add_group (p, s, g) (p', s', g') = (p', s', g' @ [take (length s - length s') s])"

primrec rx_match :: "rx \<Rightarrow> rpos \<Rightarrow> rpos list" where
  "rx_match REps x = [x]"
| "rx_match (RCls q) x = rx_step q x"
| "rx_match (RSeq r1 r2) x = concat (map (rx_match r2) (rx_match r1 x))"
| "rx_match (RAlt r1 r2) x = rx_match r1 x @ rx_match r2 x"
| "rx_match (ROpt r) x = rx_match r x @ [x]"
| "rx_match (RStar r) x = rx_rounds (rest_len x) (rx_match r) x"
| "rx_match (RLazy r) x = rx_lazy_rounds (rest_len x) (rx_match r) x"
| "rx_match (RGroup r) x = map (add_group x) (rx_match r x)"
| "rx_match RWordB x = (case x of (p, s, g) \<Rightarrow> if at_word_boundary p s then [x] else [])"
| "rx_match REnd x = (case x of (p, s, g) \<Rightarrow> if s = [] \<or> s = [CHR 0x0A] then [x] else [])"

lemma rx_match_RCls [simp]: "rx_match (RCls q) = rx_step q"
  by (rule ext) simp

definition rx_first :: "rx \<Rightarrow> char option \<Rightarrow> string \<Rightarrow> rpos option" where
  "rx_first r p s = (case rx_match r (p, s, []) of [] \<Rightarrow> None | y # _ \<Rightarrow> Some y)"

section \<open>Derived patterns\<close>

definition rchar :: "char \<Rightarrow> rx" where
  "rchar c = RCls (\<lambda>x. x = c)"

text \<open>A literal character under \<open>re.IGNORECASE\<close>.\<close>

definition rchar_i :: "char \<Rightarrow> rx" where
  "rchar_i c = RCls (\<lambda>x. lower_char x = lower_char c)"

fun rstr :: "string \<Rightarrow> rx" where
  "rstr [] = REps"
| "rstr (c # cs) = RSeq (rchar c) (rstr cs)"

fun rstr_i :: "string \<Rightarrow> rx" where
  "rstr_i [] = REps"
| "rstr_i (c # cs) = RSeq (rchar_i c) (rstr_i cs)"

definition rplus :: "rx \<Rightarrow> rx" where
  "rplus r = RSeq r (RStar r)"

fun rtimes :: "nat \<Rightarrow> rx \<Rightarrow> rx" where
  "rtimes 0 r = REps"
| "rtimes (Suc n) r = RSeq r (rtimes n r)"

text \<open>\<open>r{m,n}\<close>, greedy.\<close>

fun rupto :: "nat \<Rightarrow> rx \<Rightarrow> rx" where
  "rupto 0 r = REps"
| "rupto (Suc n) r = ROpt (RSeq r (rupto n r))"

definition rrange :: "nat \<Rightarrow> nat \<Rightarrow> rx \<Rightarrow> rx" where
  "rrange m n r = RSeq (rtimes m r) (rupto (n - m) r)"

fun ralts :: "rx list \<Rightarrow> rx" where
  "ralts [] = RCls (\<lambda>_. False)"
| "ralts [r] = r"
| "ralts (r # rs) = RAlt r (ralts rs)"

section \<open>Substitution and scanning\<close>

function rx_sub :: "rx \<Rightarrow> (string list \<Rightarrow> string) \<Rightarrow> char option \<Rightarrow> string \<Rightarrow> string" where
  "rx_sub r f p [] = []"
| "rx_sub r f p (c # cs) =
     (case rx_first r p (c # cs) of
        None \<Rightarrow> c # rx_sub r f (Some c) cs
      | Some (p', s', gs) \<Rightarrow>
          (if length s' < length (c # cs) then f gs @ rx_sub r f p' s'
           else c # rx_sub r f (Some c) cs))"
  by pat_completeness auto
termination
  by (relation "measure (\<lambda>(r, f, p, s). length s)") auto

function rx_findall :: "rx \<Rightarrow> char option \<Rightarrow> string \<Rightarrow> string list list" where
  "rx_findall r p [] = []"
| "rx_findall r p (c # cs) =
     (case rx_first r p (c # cs) of
        None \<Rightarrow> rx_findall r (Some c) cs
      | Some (p', s', gs) \<Rightarrow>
          (if length s' < length (c # cs) then gs # rx_findall r p' s'
           else rx_findall r (Some c) cs))"
  by pat_completeness auto
termination
  by (relation "measure (\<lambda>(r, p, s). length s)") auto

text \<open>\<open>pattern.match(s)\<close>: anchored at the start of the subject.\<close>

definition rx_at_start :: "rx \<Rightarrow> string \<Rightarrow> (string list) option" where
  "rx_at_start r s = map_option (\<lambda>(p, rest, gs). gs) (rx_first r None s)"

section \<open>Runs of one character class\<close>

text \<open>
  The search for \<open>q*\<close> returns every shorter run too, longest first; where what follows
  starts with a character outside the class, only the longest run can go on.
\<close>

definition run_last :: "char option \<Rightarrow> string \<Rightarrow> char option" where
  "run_last p w = (if w = [] then p else Some (last w))"

lemma rx_star_then:
  assumes "\<And>p c s g. q c \<Longrightarrow> rx_match r (p, c # s, g) = []" and "length s \<le> n"
  shows "concat (map (rx_match r) (rx_rounds n (rx_step q) (p, s, g))) =
         rx_match r (run_last p (takeWhile q s), dropWhile q s, g)"
  using assms(2)
proof (induction n arbitrary: p s)
  case 0
  then show ?case by (simp add: run_last_def)
next
  case (Suc n)
  show ?case
  proof (cases s)
    case Nil
    then show ?thesis by (simp add: run_last_def)
  next
    case (Cons c cs)
    then have "length cs \<le> n" using Suc.prems by simp
    from Suc.IH [OF this, of "Some c"] show ?thesis
      using Cons assms(1) by (cases "q c") (auto simp: run_last_def)
  qed
qed

lemma rx_plus_then:
  assumes "\<And>p c s g. q c \<Longrightarrow> rx_match r (p, c # s, g) = []"
  shows "rx_match (RSeq (rplus (RCls q)) r) (p, s, g) =
         (if takeWhile q s = [] then []
          else rx_match r (run_last p (takeWhile q s), dropWhile q s, g))"
proof (cases s)
  case Nil
  then show ?thesis by (simp add: rplus_def)
next
  case (Cons c cs)
  show ?thesis
  proof (cases "q c")
    case True
    have "run_last (Some c) (takeWhile q cs) = run_last p (takeWhile q (c # cs))"
      using True by (simp add: run_last_def)
    then show ?thesis
      using rx_star_then [where q = q and r = r and s = cs and n = "length cs" and p = "Some c" and g = g] assms Cons True
      by (simp add: rplus_def map_concat comp_def)
  next
    case False
    then show ?thesis using Cons by (simp add: rplus_def)
  qed
qed

text \<open>A literal under \<open>IGNORECASE\<close>: what is left after it, if the subject starts with it.\<close>

fun lit_i :: "string \<Rightarrow> string \<Rightarrow> string option" where
  "lit_i [] s = Some s"
| "lit_i (c # cs) [] = None"
| "lit_i (c # cs) (x # xs) = (if lower_char x = lower_char c then lit_i cs xs else None)"

fun lit_prev :: "char option \<Rightarrow> string \<Rightarrow> string \<Rightarrow> char option" where
  "lit_prev p [] s = p"
| "lit_prev p (c # cs) [] = p"
| "lit_prev p (c # cs) (x # xs) = lit_prev (Some x) cs xs"

lemma rx_match_rstr_i:
  "rx_match (rstr_i w) (p, s, g) = (case lit_i w s of None \<Rightarrow> [] | Some r \<Rightarrow> [(lit_prev p w s, r, g)])"
proof (induction w arbitrary: p s)
  case (Cons c w)
  then show ?case by (cases s) (auto simp: rchar_i_def split: option.split)
qed simp

lemma lit_i_iff: "lit_i w s = Some r \<longleftrightarrow> (\<exists>u. s = u @ r \<and> py_lower u = py_lower w)"
proof (induction w arbitrary: s)
  case Nil
  then show ?case by (auto simp: py_lower_def)
next
  case (Cons c w)
  show ?case
  proof (cases s)
    case Nil
    then show ?thesis by (auto simp: py_lower_def)
  next
    case (Cons x xs)
    show ?thesis
    proof
      assume "lit_i (c # w) s = Some r"
      then have x: "lower_char x = lower_char c" and "lit_i w xs = Some r"
        using Cons by (auto split: if_splits)
      then obtain u where "xs = u @ r" "py_lower u = py_lower w" using Cons.IH by blast
      then have "s = (x # u) @ r \<and> py_lower (x # u) = py_lower (c # w)"
        using Cons x by (simp add: py_lower_def)
      then show "\<exists>u. s = u @ r \<and> py_lower u = py_lower (c # w)" by blast
    next
      assume "\<exists>u. s = u @ r \<and> py_lower u = py_lower (c # w)"
      then obtain u where "s = u @ r" "py_lower u = py_lower (c # w)" by blast
      then obtain u' where "u = x # u'" "xs = u' @ r" "lower_char x = lower_char c" "py_lower u' = py_lower w"
        using Cons by (cases u) (auto simp: py_lower_def)
      then show "lit_i (c # w) s = Some r" using Cons Cons.IH by auto
    qed
  qed
qed

text \<open>A captured run \<open>(q+)\<close> followed by a character outside the class.\<close>

fun rx_after_run :: "(char \<Rightarrow> bool) \<Rightarrow> string list \<Rightarrow> string \<Rightarrow> string \<Rightarrow> rpos list" where
  "rx_after_run t g w [] = []"
| "rx_after_run t g w (c # r) = (if t c then [(Some c, r, g @ [w])] else [])"

lemma rx_rounds_group:
  assumes q: "\<And>c. q c \<Longrightarrow> \<not> t c" and "length s \<le> n"
  shows "concat (map (\<lambda>y. rx_step t (add_group (pa, wa @ s, g) y)) (rx_rounds n (rx_step q) (p, s, g))) =
         rx_after_run t g (wa @ takeWhile q s) (dropWhile q s)"
  using assms(2)
proof (induction n arbitrary: p s wa)
  case 0
  then show ?case by simp
next
  case (Suc n)
  show ?case
  proof (cases s)
    case Nil
    then show ?thesis by simp
  next
    case (Cons c cs)
    then have "length cs \<le> n" using Suc.prems by simp
    from Suc.IH [OF this, where p = "Some c" and wa = "wa @ [c]"] show ?thesis
      using Cons q by (cases "q c") simp_all
  qed
qed

lemma rx_group_run_then:
  assumes q: "\<And>c. q c \<Longrightarrow> \<not> t c"
  shows "rx_match (RSeq (RGroup (rplus (RCls q))) (RCls t)) (p, s, g) =
    (if takeWhile q s = [] then [] else rx_after_run t g (takeWhile q s) (dropWhile q s))"
proof (cases s)
  case Nil
  then show ?thesis by (simp add: rplus_def)
next
  case (Cons c cs)
  have "concat (map (\<lambda>y. rx_step t (add_group (p, [c] @ cs, g) y)) (rx_rounds (length cs) (rx_step q) (Some c, cs, g)))
        = rx_after_run t g ([c] @ takeWhile q cs) (dropWhile q cs)"
    by (rule rx_rounds_group) (use q in auto)
  then show ?thesis using Cons
    by (cases "q c") (simp_all add: rplus_def map_concat comp_def)
qed

end
