(* ===== verification/Crop.thy ===== *)
theory Crop imports Regex DataModel begin

text \<open>
  \<open>prorag/retrieve/crop.py\<close>: title normalisation and the adaptive context crop. The loop over the
  ranked hits keeps the list \<open>deduped\<close> and the two dicts keyed by the normalised title; its
  invariant gives the properties of the crop.
\<close>

section \<open>Title normalisation\<close>

definition ropen :: rx where
  "ropen = ROpt (rchar CHR ''('')"

definition rclose :: rx where
  "rclose = ROpt (rchar CHR '')'')"

definition rdigit :: rx where
  "rdigit = RCls is_digit"

definition rseqs :: "rx list \<Rightarrow> rx" where
  "rseqs rs = foldr RSeq rs REps"

definition months :: "string list" where
  "months = [''jan'', ''feb'', ''mar'', ''apr'', ''may'', ''jun'', ''jul'', ''aug'', ''sep'', ''oct'', ''nov'', ''dec'']"

definition REV_NOISE :: rx where
  "REV_NOISE = ralts
    [rseqs [ropen, RWordB, rstr_i ''rev'', ROpt (rstr_i ''ision''), ROpt (rchar CHR ''.''),
            RStar (RCls is_space), rplus rdigit, ROpt (RCls is_ascii_letter), rclose],
     rseqs [ropen, RWordB, rchar_i CHR ''v'', ROpt (rchar CHR ''.''), RStar (RCls is_space), rplus rdigit,
            RStar (RSeq (rchar CHR ''.'') (rplus rdigit)), rclose],
     rseqs [ropen, rtimes 4 rdigit, rchar CHR ''-'', rtimes 2 rdigit, rchar CHR ''-'', rtimes 2 rdigit, rclose],
     rseqs [ropen, rrange 1 2 rdigit, rchar CHR ''/'', rrange 1 2 rdigit, rchar CHR ''/'', rrange 2 4 rdigit, rclose],
     rseqs [ropen, ralts (map rstr_i months), RStar (RCls is_ascii_letter),
            ROpt (RCls (\<lambda>c. c = CHR ''-'' \<or> is_space c)), rrange 2 4 rdigit, rclose]]"

definition bracket_to_space :: "char \<Rightarrow> char" where
  "bracket_to_space c = (if c \<in> {CHR ''('', CHR '')'', CHR ''['', CHR '']''} then CHR '' '' else c)"

definition normalize_title :: "string option \<Rightarrow> string" where
  "normalize_title title =
     (case title of
        None \<Rightarrow> []
      | Some t \<Rightarrow>
          if t = [] then []
          else py_lower (py_strip (rx_sub (rplus (RCls is_space)) (\<lambda>_. '' '') None
                 (map bracket_to_space (rx_sub REV_NOISE (\<lambda>_. []) None t)))))"

section \<open>The crop\<close>

text \<open>\<open>h.get("title_norm") or normalize_title(h.get("title"))\<close>.\<close>

definition title_of :: "hit \<Rightarrow> string" where
  "title_of h = (case h_title_norm h of
     None \<Rightarrow> normalize_title (h_title h)
   | Some t \<Rightarrow> if t = [] then normalize_title (h_title h) else t)"

record crop_state =
  deduped :: "hit list"
  winner_by_title :: "string \<Rightarrow> hit option"
  taken_by_title :: "string \<Rightarrow> int"

definition crop_init :: crop_state where
  "crop_init = \<lparr>deduped = [], winner_by_title = (\<lambda>_. None), taken_by_title = (\<lambda>_. 0)\<rparr>"

definition newer :: "hit \<Rightarrow> hit \<Rightarrow> bool" where
  "newer h w = (case (h_doc_date h, h_doc_date w) of (Some a, Some b) \<Rightarrow> b < a | _ \<Rightarrow> False)"

definition same_printing :: "hit \<Rightarrow> hit \<Rightarrow> bool" where
  "same_printing h w = (h_doc_id h \<noteq> None \<and> h_doc_id h = h_doc_id w)"

text \<open>One iteration of \<open>for h in ranked\<close>.\<close>

definition dedupe_step :: "int \<Rightarrow> hit \<Rightarrow> crop_state \<Rightarrow> crop_state" where
  "dedupe_step cap h st =
     (let t = title_of h in
      case winner_by_title st t of
        None \<Rightarrow>
          st\<lparr>winner_by_title := (winner_by_title st)(t := Some h),
             taken_by_title := (taken_by_title st)(t := 1),
             deduped := deduped st @ [h]\<rparr>
      | Some w \<Rightarrow>
          if newer h w then
            st\<lparr>deduped := filter (\<lambda>x. title_of x \<noteq> t) (deduped st) @ [h],
               winner_by_title := (winner_by_title st)(t := Some h),
               taken_by_title := (taken_by_title st)(t := 1)\<rparr>
          else if same_printing h w \<and> taken_by_title st t < cap then
            st\<lparr>taken_by_title := (taken_by_title st)(t := taken_by_title st t + 1),
               deduped := deduped st @ [h]\<rparr>
          else st)"

definition dedupe :: "int \<Rightarrow> hit list \<Rightarrow> crop_state" where
  "dedupe cap ranked = fold (dedupe_step cap) ranked crop_init"

text \<open>\<open>h.get("token_count") or len(h.get("text", "").split())\<close>.\<close>

definition hit_tokens :: "hit \<Rightarrow> int" where
  "hit_tokens h = (case h_token_count h of
     Some n \<Rightarrow> if n = 0 then int (length (py_split (h_text h))) else int n
   | None \<Rightarrow> int (length (py_split (h_text h))))"

fun budget_loop :: "int \<Rightarrow> int \<Rightarrow> int \<Rightarrow> int \<Rightarrow> hit list \<Rightarrow> hit list" where
  "budget_loop first_n budget i used [] = []"
| "budget_loop first_n budget i used (h # hs) =
     (if first_n \<le> i \<and> budget < used + hit_tokens h then []
      else h # budget_loop first_n budget (i + 1) (used + hit_tokens h) hs)"

record crop_params =
  min_docs :: int
  max_docs :: int
  max_chunks_per_doc :: int
  score_floor :: real
  token_budget :: int
  min_chars :: int

definition crop_pool :: "crop_params \<Rightarrow> hit list \<Rightarrow> hit list" where
  "crop_pool p dd =
     (let substantial = filter (\<lambda>h. min_chars p \<le> int (length (h_text h))) dd in
      if min_docs p \<le> int (length substantial) then substantial else dd)"

definition crop_kept :: "crop_params \<Rightarrow> hit list \<Rightarrow> hit list" where
  "crop_kept p pool =
     (let kept = filter (\<lambda>h. score_floor p \<le> h_score h) pool in
      if int (length kept) < min_docs p then py_slice pool 0 (min_docs p)
      else if max_docs p < int (length kept) then py_slice kept 0 (max_docs p)
      else kept)"

definition crop_context :: "crop_params \<Rightarrow> hit list \<Rightarrow> hit list" where
  "crop_context p hits =
     (if hits = [] then []
      else let pool = crop_pool p (deduped (dedupe (max_chunks_per_doc p) (sort_desc h_score hits))) in
           if pool = [] then []
           else budget_loop (min_docs p) (token_budget p) 0 0 (crop_kept p pool))"

section \<open>The invariant of the de-duplication loop\<close>

text \<open>The hits of one title in a list.\<close>

abbreviation of_title :: "string \<Rightarrow> hit list \<Rightarrow> hit list" where
  "of_title t hs \<equiv> filter (\<lambda>x. title_of x = t) hs"

text \<open>
  Per title: the hits seen, the hits kept, the winner and the count. A title without a winner
  has not been seen; otherwise the winner comes first, the rest are of its printing, the
  count is right and capped, and no hit seen is a newer printing.
\<close>

fun title_inv :: "int \<Rightarrow> hit list \<Rightarrow> hit list \<Rightarrow> hit option \<Rightarrow> int \<Rightarrow> bool" where
  "title_inv cap seen kept None n \<longleftrightarrow> seen = [] \<and> kept = []"
| "title_inv cap seen kept (Some w) n \<longleftrightarrow>
     kept \<noteq> [] \<and> hd kept = w \<and> list_all (\<lambda>x. same_printing x w) (tl kept)
   \<and> n = int (length kept) \<and> n \<le> max 1 cap \<and> list_all (\<lambda>x. \<not> newer x w) seen"

definition dedupe_inv :: "int \<Rightarrow> hit list \<Rightarrow> crop_state \<Rightarrow> bool" where
  "dedupe_inv cap seen st \<longleftrightarrow>
     subseq (deduped st) seen
   \<and> (\<forall>t. title_inv cap (of_title t seen) (of_title t (deduped st)) (winner_by_title st t) (taken_by_title st t))"

lemma newer_trans: "newer a b \<Longrightarrow> newer b c \<Longrightarrow> newer a c"
  by (auto simp: newer_def split: option.splits)

lemma newer_not_refl [simp]: "\<not> newer a a"
  by (auto simp: newer_def split: option.splits)

lemma subseq_snoc_keep: "subseq xs ys \<Longrightarrow> subseq (xs @ [h]) (ys @ [h])"
  by (meson list_emb_append_mono subseq_order.order_refl)

lemma subseq_snoc_skip: "subseq xs ys \<Longrightarrow> subseq xs (ys @ [h])"
  by (metis append_Nil2 list_emb_append_mono list_emb_Nil)

lemma dedupe_step_subseq:
  assumes "subseq (deduped st) seen"
  shows "subseq (deduped (dedupe_step cap h st)) (seen @ [h])"
proof -
  have "subseq (filter P (deduped st)) seen" for P
    using assms subseq_filter_left subseq_order.order_trans by blast
  with assms show ?thesis
    by (auto simp: dedupe_step_def Let_def subseq_snoc_keep subseq_snoc_skip split: option.split)
qed

text \<open>A step changes nothing under another title.\<close>

lemma dedupe_step_other:
  assumes "t \<noteq> title_of h"
  shows "of_title t (deduped (dedupe_step cap h st)) = of_title t (deduped st)"
    and "winner_by_title (dedupe_step cap h st) t = winner_by_title st t"
    and "taken_by_title (dedupe_step cap h st) t = taken_by_title st t"
proof -
  have "of_title t (filter (\<lambda>x. title_of x \<noteq> title_of h) (deduped st)) = of_title t (deduped st)"
    unfolding filter_filter using assms by (intro filter_cong) auto
  then show "of_title t (deduped (dedupe_step cap h st)) = of_title t (deduped st)"
    using assms by (auto simp: dedupe_step_def Let_def split: option.split)
  show "winner_by_title (dedupe_step cap h st) t = winner_by_title st t"
    and "taken_by_title (dedupe_step cap h st) t = taken_by_title st t"
    using assms by (auto simp: dedupe_step_def Let_def split: option.split)
qed

lemma title_inv_step:
  assumes "title_inv cap seen (of_title (title_of h) (deduped st))
      (winner_by_title st (title_of h)) (taken_by_title st (title_of h))"
  shows "title_inv cap (seen @ [h]) (of_title (title_of h) (deduped (dedupe_step cap h st)))
      (winner_by_title (dedupe_step cap h st) (title_of h)) (taken_by_title (dedupe_step cap h st) (title_of h))"
proof (cases "winner_by_title st (title_of h)")
  case None
  with assms show ?thesis by (simp add: dedupe_step_def Let_def)
next
  case (Some w)
  consider "newer h w" | "\<not> newer h w" "same_printing h w \<and> taken_by_title st (title_of h) < cap"
    | "\<not> newer h w" "\<not> (same_printing h w \<and> taken_by_title st (title_of h) < cap)" by blast
  then show ?thesis
  proof cases
    case 1
    have "list_all (\<lambda>x. \<not> newer x h) seen"
      using assms Some newer_trans [OF _ 1] by (simp add: list_all_iff) blast
    with 1 Some show ?thesis by (simp add: dedupe_step_def Let_def)
  next
    case 2
    then have "deduped (dedupe_step cap h st) = deduped st @ [h]"
      "winner_by_title (dedupe_step cap h st) (title_of h) = Some w"
      "taken_by_title (dedupe_step cap h st) (title_of h) = taken_by_title st (title_of h) + 1"
      using Some by (simp_all add: dedupe_step_def Let_def)
    moreover obtain ks where "of_title (title_of h) (deduped st) = w # ks"
      using assms Some by (cases "of_title (title_of h) (deduped st)") auto
    ultimately show ?thesis using 2 assms Some by simp
  next
    case 3
    then have "dedupe_step cap h st = st" using Some by (auto simp: dedupe_step_def Let_def)
    with assms Some 3 show ?thesis by simp
  qed
qed

lemma dedupe_inv_step:
  assumes inv: "dedupe_inv cap seen st"
  shows "dedupe_inv cap (seen @ [h]) (dedupe_step cap h st)"
  unfolding dedupe_inv_def
proof (intro conjI allI)
  show "subseq (deduped (dedupe_step cap h st)) (seen @ [h])"
    using inv by (simp add: dedupe_inv_def dedupe_step_subseq)
  fix t
  show "title_inv cap (of_title t (seen @ [h])) (of_title t (deduped (dedupe_step cap h st)))
      (winner_by_title (dedupe_step cap h st) t) (taken_by_title (dedupe_step cap h st) t)"
  proof (cases "t = title_of h")
    case True
    with inv title_inv_step [of cap "of_title t seen" h st] show ?thesis by (simp add: dedupe_inv_def)
  next
    case False
    with inv show ?thesis by (simp add: dedupe_step_other dedupe_inv_def)
  qed
qed

lemma dedupe_inv_fold: "dedupe_inv cap seen st \<Longrightarrow> dedupe_inv cap (seen @ hs) (fold (dedupe_step cap) hs st)"
proof (induction hs arbitrary: seen st)
  case (Cons h hs)
  from Cons.IH [OF dedupe_inv_step [OF Cons.prems, of h]] show ?case by simp
qed simp

lemma dedupe_ok: "dedupe_inv cap ranked (dedupe cap ranked)"
  using dedupe_inv_fold [of cap "[]" crop_init ranked] by (simp add: dedupe_def dedupe_inv_def crop_init_def)

section \<open>Selection and budget\<close>

lemma budget_loop_prefix: "\<exists>n. budget_loop m b i u hs = take n hs"
proof (induction hs arbitrary: i u)
  case (Cons h hs)
  obtain n where n: "budget_loop m b (i + 1) (u + hit_tokens h) hs = take n hs" using Cons.IH by blast
  show ?case
  proof (cases "m \<le> i \<and> b < u + hit_tokens h")
    case True
    then have "budget_loop m b i u (h # hs) = take 0 (h # hs)" by simp
    then show ?thesis by blast
  next
    case False
    then have "budget_loop m b i u (h # hs) = take (Suc n) (h # hs)" by (auto simp: n)
    then show ?thesis by blast
  qed
qed simp

lemma budget_loop_tokens:
  "u + sum_list (map hit_tokens (budget_loop m b i u hs))
     \<le> max b (u + sum_list (map hit_tokens (take (nat (m - i)) (budget_loop m b i u hs))))"
proof (induction hs arbitrary: i u)
  case (Cons h hs)
  have "i < m \<Longrightarrow> nat (m - i) = Suc (nat (m - (i + 1)))" by simp
  moreover have "m \<le> i \<Longrightarrow> nat (m - i) = 0 \<and> nat (m - (i + 1)) = 0" by simp
  ultimately show ?case using Cons.IH [of "u + hit_tokens h" "i + 1"]
    by (cases "i < m") (auto simp: add.assoc)
qed simp

lemma budget_loop_nonempty: "0 < m \<Longrightarrow> hs \<noteq> [] \<Longrightarrow> budget_loop m b 0 u hs \<noteq> []"
  by (cases hs) auto

lemma crop_kept_cases:
  "(\<exists>n. crop_kept p pool = take n (filter (\<lambda>h. score_floor p \<le> h_score h) pool))
   \<or> crop_kept p pool = py_slice pool 0 (min_docs p)"
  by (auto simp: crop_kept_def Let_def py_slice_def slice_bound_def intro: exI [of _ "length pool"])

lemma crop_kept_length:
  assumes "0 < min_docs p" and "min_docs p \<le> max_docs p"
  shows "int (length (crop_kept p pool)) \<le> max_docs p"
  using assms by (auto simp: crop_kept_def Let_def py_slice_nonneg)

lemma crop_kept_nonempty: "0 < min_docs p \<Longrightarrow> min_docs p \<le> max_docs p \<Longrightarrow> pool \<noteq> [] \<Longrightarrow> crop_kept p pool \<noteq> []"
  by (auto simp: crop_kept_def Let_def py_slice_nonneg)

lemma crop_kept_subseq: "subseq (crop_kept p pool) pool"
proof -
  have "subseq (take n (filter P pool)) pool" for n P
    using subseq_take subseq_filter_left subseq_order.order_trans by blast
  moreover have "subseq (py_slice pool 0 n) pool" for n
    by (simp add: py_slice_def subseq_take slice_bound_def)
  ultimately show ?thesis using crop_kept_cases [of p pool] by metis
qed

lemma crop_pool_subseq: "subseq (crop_pool p dd) dd"
  by (auto simp: crop_pool_def Let_def subseq_filter_left)

lemma crop_pool_nonempty: "0 < min_docs p \<Longrightarrow> dd \<noteq> [] \<Longrightarrow> crop_pool p dd \<noteq> []"
  by (auto simp: crop_pool_def Let_def)

lemma crop_context_prefix:
  "\<exists>n. crop_context p hits = take n (crop_kept p (crop_pool p (deduped (dedupe (max_chunks_per_doc p) (sort_desc h_score hits)))))"
  using budget_loop_prefix by (auto simp: crop_context_def Let_def intro: exI [of _ 0])

abbreviation deduped_hits :: "crop_params \<Rightarrow> hit list \<Rightarrow> hit list" where
  "deduped_hits p hits \<equiv> deduped (dedupe (max_chunks_per_doc p) (sort_desc h_score hits))"

lemma crop_context_subseq_deduped: "subseq (crop_context p hits) (deduped_hits p hits)"
  using crop_context_prefix [of p hits] subseq_take crop_kept_subseq crop_pool_subseq subseq_order.order_trans
  by metis

lemma crop_context_subseq: "subseq (crop_context p hits) (sort_desc h_score hits)"
proof -
  have "subseq (deduped_hits p hits) (sort_desc h_score hits)"
    using dedupe_ok by (simp add: dedupe_inv_def)
  then show ?thesis using crop_context_subseq_deduped subseq_order.order_trans by blast
qed

lemma crop_context_members: "h \<in> set (crop_context p hits) \<Longrightarrow> h \<in> set hits"
  using crop_context_subseq [of p hits] by (metis subseq_subset set_sort_desc subsetD)

lemma dedupe_step_nonempty: "deduped st \<noteq> [] \<Longrightarrow> deduped (dedupe_step cap h st) \<noteq> []"
  by (auto simp: dedupe_step_def Let_def split: option.split)

lemma dedupe_nonempty: "hs \<noteq> [] \<Longrightarrow> deduped (dedupe cap hs) \<noteq> []"
proof (cases hs)
  case (Cons h t)
  have "deduped (fold (dedupe_step cap) t st) \<noteq> []" if "deduped st \<noteq> []" for st
    using that dedupe_step_nonempty by (induction t arbitrary: st) auto
  then show ?thesis unfolding dedupe_def Cons by (simp add: dedupe_step_def crop_init_def Let_def)
qed simp

lemma crop_context_nonempty:
  assumes "0 < min_docs p" and "min_docs p \<le> max_docs p" and "hits \<noteq> []"
  shows "crop_context p hits \<noteq> []"
proof -
  have "sort_desc h_score hits \<noteq> []" using assms(3) by (metis length_0_conv length_sort_desc)
  then have "crop_pool p (deduped_hits p hits) \<noteq> []"
    using assms(1) by (simp add: crop_pool_nonempty dedupe_nonempty)
  then show ?thesis
    using assms by (simp add: crop_context_def Let_def budget_loop_nonempty crop_kept_nonempty)
qed

text \<open>The winner of a title among the kept hits, and what it says about the others.\<close>

lemma dedupe_title:
  assumes "a \<in> set (deduped_hits p hits)"
  obtains w rest where "of_title (title_of a) (deduped_hits p hits) = w # rest"
    and "list_all (\<lambda>x. same_printing x w) rest"
    and "int (length (w # rest)) \<le> max 1 (max_chunks_per_doc p)"
    and "\<forall>x\<in>set hits. title_of x = title_of a \<longrightarrow> \<not> newer x w"
proof -
  let ?st = "dedupe (max_chunks_per_doc p) (sort_desc h_score hits)"
  have inv: "title_inv (max_chunks_per_doc p) (of_title (title_of a) (sort_desc h_score hits))
      (of_title (title_of a) (deduped ?st)) (winner_by_title ?st (title_of a)) (taken_by_title ?st (title_of a))"
    using dedupe_ok by (simp add: dedupe_inv_def)
  have ne: "of_title (title_of a) (deduped ?st) \<noteq> []" using assms by (auto simp: filter_empty_conv)
  with inv obtain w where w: "winner_by_title ?st (title_of a) = Some w"
    by (cases "winner_by_title ?st (title_of a)") auto
  with inv ne obtain rest where "of_title (title_of a) (deduped ?st) = w # rest"
    by (cases "of_title (title_of a) (deduped ?st)") auto
  with inv w show ?thesis by (intro that) (auto simp: list_all_iff)
qed

section \<open>Properties\<close>

definition crop_params_ok :: "crop_params \<Rightarrow> bool" where
  "crop_params_ok p = (0 < min_docs p \<and> min_docs p \<le> max_docs p)"

lemma crop_context_length:
  assumes "crop_params_ok p"
  shows "int (length (crop_context p hits)) \<le> max_docs p"
proof -
  have "length (crop_context p hits) \<le> length (crop_kept p (crop_pool p (deduped_hits p hits)))"
    using crop_context_prefix [of p hits] by (metis length_take min.cobounded1)
  then show ?thesis
    using crop_kept_length [of p "crop_pool p (deduped_hits p hits)"] assms by (simp add: crop_params_ok_def)
qed


definition sample_params :: crop_params where
  "sample_params = \<lparr>min_docs = 3, max_docs = 12, max_chunks_per_doc = 3, score_floor = 0.02,
     token_budget = 6000, min_chars = 150\<rparr>"

definition doc_hit :: "nat \<Rightarrow> uuid \<Rightarrow> string \<Rightarrow> int option \<Rightarrow> hit" where
  "doc_hit c d t dt = \<lparr>h_chunk_id = c, h_doc_id = Some d, h_text = ''body'', h_page = None, h_bbox = None,
     h_kind = None, h_title = None, h_score = 1, h_title_norm = Some t, h_doc_date = dt, h_token_count = None\<rparr>"


text \<open>
  One printing per title: two different kept chunks with the same normalised title come from
  the same document, and a title keeps at most \<open>max_chunks_per_doc\<close> chunks (one, when that
  setting is below one).
\<close>

lemma crop_one_printing:
  "list_all (\<lambda>a. list_all (\<lambda>b. title_of a \<noteq> title_of b \<or> a = b \<or> (h_doc_id a \<noteq> None \<and> h_doc_id a = h_doc_id b))
       (crop_context p hits)) (crop_context p hits)
   \<and> int (length (of_title t (crop_context p hits))) \<le> max 1 (max_chunks_per_doc p)"
proof (intro conjI)
  have sub: "set (crop_context p hits) \<subseteq> set (deduped_hits p hits)"
    by (rule subseq_subset [OF crop_context_subseq_deduped])
  have "a = b \<or> (h_doc_id a \<noteq> None \<and> h_doc_id a = h_doc_id b)"
    if ab: "a \<in> set (crop_context p hits)" "b \<in> set (crop_context p hits)" "title_of a = title_of b" for a b
  proof -
    obtain w rest where w: "of_title (title_of a) (deduped_hits p hits) = w # rest"
      "list_all (\<lambda>x. same_printing x w) rest"
      using dedupe_title [OF subsetD [OF sub ab(1)]] by metis
    have "a \<in> set (w # rest)" "b \<in> set (w # rest)"
      unfolding w(1) [symmetric] using ab sub by auto
    with w(2) show ?thesis unfolding list_all_iff same_printing_def by (metis set_ConsD)
  qed
  then show "list_all (\<lambda>a. list_all (\<lambda>b. title_of a \<noteq> title_of b \<or> a = b \<or> (h_doc_id a \<noteq> None \<and> h_doc_id a = h_doc_id b))
       (crop_context p hits)) (crop_context p hits)" by (auto simp: list_all_iff)
  show "int (length (of_title t (crop_context p hits))) \<le> max 1 (max_chunks_per_doc p)"
  proof (cases "of_title t (crop_context p hits)")
    case (Cons a as)
    then have "a \<in> set (of_title t (crop_context p hits))" by simp
    then have a: "a \<in> set (deduped_hits p hits)" "title_of a = t" using sub by auto
    obtain w rest where w: "of_title (title_of a) (deduped_hits p hits) = w # rest"
      "int (length (w # rest)) \<le> max 1 (max_chunks_per_doc p)"
      using dedupe_title [OF a(1)] by metis
    have "subseq (of_title t (crop_context p hits)) (of_title t (deduped_hits p hits))"
      by (rule subseq_filter [OF crop_context_subseq_deduped])
    then have "length (of_title t (crop_context p hits)) \<le> length (w # rest)"
      using w(1) a(2) list_emb_length by metis
    with w(2) show ?thesis by linarith
  qed simp
qed

lemma crop_one_printing_witness:
  "int (length (of_title ''manual'' (crop_context sample_params
     [doc_hit 1 5 ''manual'' None, doc_hit 2 5 ''manual'' None, doc_hit 3 5 ''manual'' None, doc_hit 4 5 ''manual'' None]))) \<le> 3"
  using crop_one_printing [of sample_params
     "[doc_hit 1 5 ''manual'' None, doc_hit 2 5 ''manual'' None, doc_hit 3 5 ''manual'' None, doc_hit 4 5 ''manual'' None]" "''manual''"]
  by (simp add: sample_params_def)

text \<open>
  The newest printing wins: when the chunks of one document agree on its date, no kept chunk
  has a strictly newer chunk of the same title among the candidates.
\<close>

lemma crop_newest_printing:
  assumes "\<forall>a\<in>set hits. \<forall>b\<in>set hits. h_doc_id a = h_doc_id b \<longrightarrow> h_doc_date a = h_doc_date b"
    and "a \<in> set (crop_context p hits)" and "b \<in> set hits" and "title_of b = title_of a"
  shows "\<not> newer b a"
proof -
  have a: "a \<in> set (deduped_hits p hits)"
    using subseq_subset [OF crop_context_subseq_deduped] assms(2) by blast
  obtain w rest where w: "of_title (title_of a) (deduped_hits p hits) = w # rest"
    "list_all (\<lambda>x. same_printing x w) rest" "\<forall>x\<in>set hits. title_of x = title_of a \<longrightarrow> \<not> newer x w"
    using dedupe_title [OF a] by metis
  have "a \<in> set (w # rest)" unfolding w(1) [symmetric] using a by simp
  then have doc: "a = w \<or> h_doc_id a = h_doc_id w" using w(2) by (auto simp: list_all_iff same_printing_def)
  have "w \<in> set (deduped_hits p hits)" using w(1) by (metis filter_is_subset list.set_intros(1) subset_iff)
  moreover have "subseq (deduped_hits p hits) (sort_desc h_score hits)" using dedupe_ok by (simp add: dedupe_inv_def)
  ultimately have "w \<in> set hits" by (metis subseq_subset set_sort_desc subsetD)
  then have "h_doc_date a = h_doc_date w"
    using doc assms(1) [rule_format, OF crop_context_members [OF assms(2)], of w] by blast
  then have "newer b a = newer b w" by (simp add: newer_def)
  then show ?thesis using w(3) assms(3,4) by simp
qed

lemma crop_newest_printing_witness:
  "doc_hit 1 5 ''manual'' (Some 10) \<notin> set (crop_context sample_params [doc_hit 1 5 ''manual'' (Some 10), doc_hit 2 6 ''manual'' (Some 20)])"
proof
  let ?hits = "[doc_hit 1 5 ''manual'' (Some 10), doc_hit 2 6 ''manual'' (Some 20)]"
  assume a: "doc_hit 1 5 ''manual'' (Some 10) \<in> set (crop_context sample_params ?hits)"
  have "\<forall>a\<in>set ?hits. \<forall>b\<in>set ?hits. h_doc_id a = h_doc_id b \<longrightarrow> h_doc_date a = h_doc_date b"
    by (simp add: doc_hit_def)
  from crop_newest_printing [OF this a, of "doc_hit 2 6 ''manual'' (Some 20)"] show False
    by (simp add: doc_hit_def title_of_def newer_def)
qed

text \<open>
  Floor and budget: beyond \<open>min_docs\<close> chunks everything kept clears the score floor, and the
  chunks after the first \<open>min_docs\<close> never take the token count over the budget.
\<close>

lemma crop_floor_and_budget:
  assumes "crop_params_ok p"
  shows "(int (length (crop_context p hits)) \<le> min_docs p \<or> list_all (\<lambda>h. score_floor p \<le> h_score h) (crop_context p hits))
     \<and> sum_list (map hit_tokens (crop_context p hits))
         \<le> max (token_budget p) (sum_list (map hit_tokens (take (nat (min_docs p)) (crop_context p hits))))"
proof
  let ?pool = "crop_pool p (deduped_hits p hits)"
  obtain n where n: "crop_context p hits = take n (crop_kept p ?pool)" using crop_context_prefix by blast
  consider m where "crop_kept p ?pool = take m (filter (\<lambda>h. score_floor p \<le> h_score h) ?pool)"
    | "crop_kept p ?pool = py_slice ?pool 0 (min_docs p)"
    using crop_kept_cases by blast
  then show "int (length (crop_context p hits)) \<le> min_docs p \<or> list_all (\<lambda>h. score_floor p \<le> h_score h) (crop_context p hits)"
  proof cases
    case 1
    then show ?thesis unfolding n by (auto simp: list_all_iff dest!: in_set_takeD)
  next
    case 2
    have "length (crop_context p hits) \<le> length (crop_kept p ?pool)" by (simp add: n)
    also have "\<dots> \<le> nat (min_docs p)" using assms by (simp add: 2 py_slice_nonneg crop_params_ok_def)
    finally have "int (length (crop_context p hits)) \<le> min_docs p"
      using assms unfolding crop_params_ok_def by linarith
    then show ?thesis by blast
  qed
  show "sum_list (map hit_tokens (crop_context p hits))
         \<le> max (token_budget p) (sum_list (map hit_tokens (take (nat (min_docs p)) (crop_context p hits))))"
    using budget_loop_tokens [of 0 "min_docs p" "token_budget p" 0 "crop_kept p ?pool"]
    by (auto simp: crop_context_def Let_def)
qed

lemma crop_floor_and_budget_witness:
  "sum_list (map hit_tokens (crop_context (sample_params\<lparr>token_budget := 0, min_docs := 1\<rparr>) [doc_hit 1 5 ''a'' None, doc_hit 2 6 ''b'' None]))
     \<le> max 0 (sum_list (map hit_tokens (take 1 (crop_context (sample_params\<lparr>token_budget := 0, min_docs := 1\<rparr>)
         [doc_hit 1 5 ''a'' None, doc_hit 2 6 ''b'' None]))))"
  using crop_floor_and_budget [of "sample_params\<lparr>token_budget := 0, min_docs := 1\<rparr>" "[doc_hit 1 5 ''a'' None, doc_hit 2 6 ''b'' None]"]
  by (simp add: crop_params_ok_def sample_params_def)

end
