(* ===== verification/Citations.thy ===== *)
theory Citations imports Regex DataModel begin

text \<open>
  \<open>prorag/chat/citations.py\<close>: normalising the citation forms an answer uses to the canonical
  \<open>[Sn]\<close>, reading the cited indices back, resolving them against the context, and the
  numbered context block. The four deviation patterns are shown equal to direct scanners,
  and the scanners share one interface, \<open>bracket_matcher\<close>, from which normalisation is
  idempotent.
\<close>

section \<open>The patterns and the functions\<close>

definition rdigits :: rx where
  "rdigits = RGroup (rplus (RCls is_digit))"

definition DEVIATION_PATTERNS :: "rx list" where
  "DEVIATION_PATTERNS =
    [RSeq (rstr_i ''(S'') (RSeq rdigits (rchar CHR '')'')),
     RSeq (rstr_i ''[s'') (RSeq rdigits (rchar CHR '']'')),
     RSeq (rstr_i ''[source'') (RSeq (rplus (RCls is_space)) (RSeq rdigits (rchar CHR '']''))),
     RSeq (rstr ''['') (RSeq rdigits (rchar CHR '']''))]"

definition CANONICAL :: rx where
  "CANONICAL = RSeq (rstr ''[S'') (RSeq rdigits (rchar CHR '']''))"

text \<open>The replacement \<open>lambda m: f"[S{m.group(1)}]"\<close>.\<close>

definition marker :: "string \<Rightarrow> string" where
  "marker ds = ''[S'' @ ds @ '']''"

definition marker_of :: "string list \<Rightarrow> string" where
  "marker_of gs = (case gs of [] \<Rightarrow> [] | g # _ \<Rightarrow> marker g)"

definition normalize_citations :: "string \<Rightarrow> string" where
  "normalize_citations text = fold (\<lambda>pat s. rx_sub pat marker_of None s) DEVIATION_PATTERNS text"

definition extract_cited_indices :: "string \<Rightarrow> nat list" where
  "extract_cited_indices text =
     first_occurrences (map (\<lambda>gs. int_of_digits (hd gs)) (rx_findall CANONICAL None text))"

text \<open>Each source is the index \<open>n\<close> with the chunk \<open>chunks[n - 1]\<close>.\<close>

fun resolve_cited :: "nat list \<Rightarrow> 'c list \<Rightarrow> (nat \<times> 'c) list" where
  "resolve_cited [] cs = []"
| "resolve_cited (n # ns) cs =
     (if 0 \<le> int n - 1 \<and> int n - 1 < int (length cs) then [(n, cs ! (n - 1))] else []) @ resolve_cited ns cs"

definition resolve_citations :: "string \<Rightarrow> 'c list \<Rightarrow> (nat \<times> 'c) list" where
  "resolve_citations text cs = resolve_cited (extract_cited_indices text) cs"

text \<open>The em dash of the context block, as its UTF-8 bytes.\<close>

definition em_dash :: string where
  "em_dash = [CHR 0xE2, CHR 0x80, CHR 0x94]"

definition context_entry :: "nat \<Rightarrow> hit \<Rightarrow> string" where
  "context_entry i c =
     marker (str_of_nat i) @ '' '' @ (case h_title c of None \<Rightarrow> ''Untitled'' | Some t \<Rightarrow> t)
     @ (case h_page c of None \<Rightarrow> [] | Some p \<Rightarrow> '' '' @ em_dash @ '' p.'' @ str_of_int p)
     @ [CHR 0x0A] @ h_text c"

definition build_context_block :: "hit list \<Rightarrow> string" where
  "build_context_block cs =
     py_join [CHR 0x0A, CHR 0x0A] (map (\<lambda>(i, c). context_entry i c) (zip [1..<Suc (length cs)] cs))"

section \<open>Scanners\<close>

text \<open>What the four patterns match, written directly: the digits, and what follows the token.\<close>

definition digits_then :: "char \<Rightarrow> string \<Rightarrow> (string \<times> string) option" where
  "digits_then close s =
     (case dropWhile is_digit s of
        [] \<Rightarrow> None
      | c # r \<Rightarrow> if takeWhile is_digit s \<noteq> [] \<and> c = close then Some (takeWhile is_digit s, r) else None)"

definition tok_scan :: "string \<Rightarrow> bool \<Rightarrow> char \<Rightarrow> string \<Rightarrow> (string \<times> string) option" where
  "tok_scan lit sp close s =
     (case lit_i lit s of
        None \<Rightarrow> None
      | Some r \<Rightarrow>
          if sp then (if takeWhile is_space r = [] then None else digits_then close (dropWhile is_space r))
          else digits_then close r)"

definition is_numeral :: "string \<Rightarrow> bool" where
  "is_numeral d = (d \<noteq> [] \<and> (\<forall>c\<in>set d. is_digit c))"

definition is_tok :: "string \<Rightarrow> bool \<Rightarrow> char \<Rightarrow> string \<Rightarrow> string \<Rightarrow> bool" where
  "is_tok lit sp close u d \<longleftrightarrow>
     (\<exists>l ws. u = l @ ws @ d @ [close] \<and> py_lower l = py_lower lit
        \<and> (if sp then ws \<noteq> [] \<and> (\<forall>c\<in>set ws. is_space c) else ws = []) \<and> is_numeral d)"

lemma takeWhile_dropWhile_unique:
  assumes "\<forall>c\<in>set w. q c" and "r = [] \<or> \<not> q (hd r)"
  shows "takeWhile q (w @ r) = w \<and> dropWhile q (w @ r) = r"
  using assms by (cases r) (auto simp: takeWhile_append dropWhile_append)

lemma digits_then_iff:
  assumes "\<not> is_digit close"
  shows "digits_then close s = Some (d, r) \<longleftrightarrow> s = d @ close # r \<and> is_numeral d"
proof
  assume "digits_then close s = Some (d, r)"
  then have "dropWhile is_digit s = close # r" and "takeWhile is_digit s = d" and "d \<noteq> []"
    by (auto simp: digits_then_def split: list.splits if_splits)
  then show "s = d @ close # r \<and> is_numeral d"
    by (metis is_numeral_def set_takeWhileD takeWhile_dropWhile_id)
next
  assume "s = d @ close # r \<and> is_numeral d"
  then show "digits_then close s = Some (d, r)"
    using takeWhile_dropWhile_unique [of d is_digit "close # r"] assms
    by (simp add: digits_then_def is_numeral_def)
qed

lemma not_space_digit: "is_digit c \<Longrightarrow> \<not> is_space c"
  by (auto simp: is_digit_def is_space_def)

lemma space_split_iff:
  "dropWhile is_space s = d @ rest \<and> takeWhile is_space s \<noteq> [] \<and> is_numeral d \<longleftrightarrow>
   (\<exists>ws. s = ws @ d @ rest \<and> ws \<noteq> [] \<and> (\<forall>c\<in>set ws. is_space c) \<and> is_numeral d)"
proof
  assume "dropWhile is_space s = d @ rest \<and> takeWhile is_space s \<noteq> [] \<and> is_numeral d"
  then show "\<exists>ws. s = ws @ d @ rest \<and> ws \<noteq> [] \<and> (\<forall>c\<in>set ws. is_space c) \<and> is_numeral d"
    by (metis set_takeWhileD takeWhile_dropWhile_id)
next
  assume "\<exists>ws. s = ws @ d @ rest \<and> ws \<noteq> [] \<and> (\<forall>c\<in>set ws. is_space c) \<and> is_numeral d"
  then obtain ws where s: "s = ws @ d @ rest" "ws \<noteq> []" "\<forall>c\<in>set ws. is_space c" "is_numeral d"
    by blast
  then have "\<not> is_space (hd (d @ rest))"
    by (cases d) (auto simp: is_numeral_def dest: not_space_digit)
  then show "dropWhile is_space s = d @ rest \<and> takeWhile is_space s \<noteq> [] \<and> is_numeral d"
    using s takeWhile_dropWhile_unique [of ws is_space "d @ rest"] by auto
qed

lemma ex_tok_append:
  "(\<exists>u. s = u @ r \<and> (\<exists>l ws. u = l @ ws @ d @ [c] \<and> Q l ws)) \<longleftrightarrow> (\<exists>l ws. s = l @ ws @ d @ c # r \<and> Q l ws)"
proof -
  have "(l @ ws @ d @ [c]) @ r = l @ ws @ d @ c # r" for l ws by simp
  then show ?thesis by metis
qed

lemma tok_scan_iff:
  assumes "\<not> is_digit close"
  shows "tok_scan lit sp close s = Some (d, r) \<longleftrightarrow> (\<exists>u. s = u @ r \<and> is_tok lit sp close u d)"
proof (cases sp)
  case False
  have "tok_scan lit sp close s = Some (d, r) \<longleftrightarrow>
        (\<exists>t. lit_i lit s = Some t \<and> t = d @ close # r \<and> is_numeral d)"
    using False digits_then_iff [OF assms] by (auto simp: tok_scan_def split: option.splits)
  also have "\<dots> \<longleftrightarrow> (\<exists>l. s = l @ d @ close # r \<and> py_lower l = py_lower lit \<and> is_numeral d)"
    by (auto simp: lit_i_iff)
  finally show ?thesis unfolding is_tok_def ex_tok_append using False by simp
next
  case True
  have "tok_scan lit sp close s = Some (d, r) \<longleftrightarrow>
        (\<exists>t. lit_i lit s = Some t \<and> dropWhile is_space t = d @ close # r
           \<and> takeWhile is_space t \<noteq> [] \<and> is_numeral d)"
    using True digits_then_iff [OF assms] by (auto simp: tok_scan_def split: option.splits)
  also have "\<dots> \<longleftrightarrow> (\<exists>t ws. lit_i lit s = Some t \<and> t = ws @ d @ close # r \<and> ws \<noteq> []
           \<and> (\<forall>c\<in>set ws. is_space c) \<and> is_numeral d)"
    unfolding space_split_iff by blast
  also have "\<dots> \<longleftrightarrow> (\<exists>l ws. s = l @ ws @ d @ close # r \<and> py_lower l = py_lower lit \<and> ws \<noteq> []
           \<and> (\<forall>c\<in>set ws. is_space c) \<and> is_numeral d)"
    by (auto simp: lit_i_iff)
  finally show ?thesis unfolding is_tok_def ex_tok_append using True by simp
qed

text \<open>The patterns are these scanners.\<close>

definition tok_rx :: "string \<Rightarrow> bool \<Rightarrow> char \<Rightarrow> rx" where
  "tok_rx lit sp close =
     RSeq (rstr_i lit)
       (if sp then RSeq (rplus (RCls is_space)) (RSeq rdigits (rchar close))
        else RSeq rdigits (rchar close))"

lemma rx_digits_close:
  assumes "\<not> is_digit close"
  shows "rx_match (RSeq rdigits (rchar close)) (p, s, g) =
    (case digits_then close s of None \<Rightarrow> [] | Some (d, r) \<Rightarrow> [(Some close, r, g @ [d])])"
proof -
  have "rx_match (RSeq rdigits (rchar close)) (p, s, g) =
    (if takeWhile is_digit s = [] then []
     else rx_after_run (\<lambda>x. x = close) g (takeWhile is_digit s) (dropWhile is_digit s))"
    unfolding rdigits_def rchar_def by (rule rx_group_run_then) (use assms in auto)
  then show ?thesis
    unfolding digits_then_def
    by (cases "dropWhile is_digit s") (simp_all del: dropWhile_eq_Nil_conv rx_match.simps)
qed

lemma rx_first_tok:
  assumes "\<not> is_digit close"
  shows "rx_first (tok_rx lit sp close) p s =
    map_option (\<lambda>(d, r). (Some close, r, [d])) (tok_scan lit sp close s)"
proof -
  have sp: "rx_match (RSeq (rplus (RCls is_space)) (RSeq rdigits (rchar close))) (p, s, g) =
    (if takeWhile is_space s = [] then []
     else rx_match (RSeq rdigits (rchar close)) (run_last p (takeWhile is_space s), dropWhile is_space s, g))"
    for p s g
  proof (rule rx_plus_then)
    fix p c s g
    assume "is_space c"
    then have "\<not> is_digit c" using not_space_digit by blast
    then show "rx_match (RSeq rdigits (rchar close)) (p, c # s, g) = []"
      unfolding rx_digits_close [OF assms] by (simp add: digits_then_def)
  qed
  show ?thesis
    unfolding rx_first_def tok_rx_def tok_scan_def
    by (cases sp; cases "lit_i lit s")
       (auto simp: rx_match_rstr_i sp rx_digits_close [OF assms] simp del: rx_match.simps(3)
             simp: rx_match.simps(3) [of "rstr_i lit"] split: option.split)
qed

section \<open>Matchers of bracketed tokens\<close>

text \<open>
  The contract the four matchers share: a match is a token at the front of the subject that
  starts with an opening bracket, ends with a closing one and has no bracket between, and
  whether it matches depends on the token alone.
\<close>

definition is_open :: "char \<Rightarrow> bool" where
  "is_open c = (c = CHR ''('' \<or> c = CHR ''['')"

definition is_close :: "char \<Rightarrow> bool" where
  "is_close c = (c = CHR '')'' \<or> c = CHR '']'')"

definition plain :: "string \<Rightarrow> bool" where
  "plain s = (\<forall>c\<in>set s. \<not> is_open c \<and> \<not> is_close c)"

definition token_shape :: "string \<Rightarrow> bool" where
  "token_shape u = (\<exists>b e c. u = b # e @ [c] \<and> is_open b \<and> is_close c \<and> plain e)"

fun scan :: "(string \<Rightarrow> (string \<times> string) option) \<Rightarrow> string \<Rightarrow> string" where
  "scan m [] = []"
| "scan m (c # cs) =
     (case m (c # cs) of
        None \<Rightarrow> c # scan m cs
      | Some (d, r) \<Rightarrow> if length r < length (c # cs) then marker d @ scan m r else c # scan m cs)"

fun find_toks :: "(string \<Rightarrow> (string \<times> string) option) \<Rightarrow> string \<Rightarrow> string list" where
  "find_toks m [] = []"
| "find_toks m (c # cs) =
     (case m (c # cs) of
        None \<Rightarrow> find_toks m cs
      | Some (d, r) \<Rightarrow> if length r < length (c # cs) then d # find_toks m r else find_toks m cs)"

definition no_match :: "(string \<Rightarrow> (string \<times> string) option) \<Rightarrow> string \<Rightarrow> bool" where
  "no_match m s = (\<forall>v. suffix v s \<longrightarrow> m v = None)"

lemma no_match_Cons: "no_match m (c # cs) \<longleftrightarrow> m (c # cs) = None \<and> no_match m cs"
  by (auto simp: no_match_def suffix_Cons)

lemma no_match_append: "no_match m (xs @ ys) \<Longrightarrow> no_match m ys"
  by (auto simp: no_match_def suffix_append)

lemma scan_no_match: "no_match m s \<Longrightarrow> scan m s = s"
  by (induction s) (auto simp: no_match_Cons)

lemma open_not_close: "is_open c \<Longrightarrow> \<not> is_close c"
  by (auto simp: is_open_def is_close_def)

lemma digit_plain: "is_digit c \<Longrightarrow> \<not> is_open c \<and> \<not> is_close c"
  by (auto simp: is_digit_def is_open_def is_close_def code_def)

lemma plain_numeral: "is_numeral d \<Longrightarrow> plain d"
  by (auto simp: is_numeral_def plain_def dest: digit_plain)

lemma plain_append [simp]: "plain (a @ b) \<longleftrightarrow> plain a \<and> plain b"
  by (auto simp: plain_def)

lemma plain_Nil [simp]: "plain []"
  by (simp add: plain_def)

lemma plain_Cons: "plain (c # s) \<longleftrightarrow> \<not> is_open c \<and> \<not> is_close c \<and> plain s"
  by (auto simp: plain_def)

lemma marker_shape: "is_numeral d \<Longrightarrow> token_shape (marker d)"
  unfolding token_shape_def
  by (rule exI [of _ "CHR ''[''"], rule exI [of _ "CHR ''S'' # d"], rule exI [of _ "CHR '']''"])
     (auto simp: marker_def is_open_def is_close_def plain_Cons plain_numeral)

text \<open>Two tokens at the front of one subject are the same token.\<close>

lemma plain_split_unique:
  "plain a \<Longrightarrow> plain b \<Longrightarrow> is_close x \<Longrightarrow> is_close y \<Longrightarrow> a @ x # s = b @ y # t \<Longrightarrow> a = b \<and> x = y \<and> s = t"
proof (induction a arbitrary: b)
  case Nil
  then show ?case by (cases b) (auto simp: plain_Cons)
next
  case (Cons c a)
  then show ?case by (cases b) (auto simp: plain_Cons)
qed

lemma token_shape_unique:
  assumes "token_shape u" and "token_shape v" and "u @ s = v @ t"
  shows "u = v \<and> s = t"
proof -
  obtain b e c where u: "u = b # e @ [c]" "is_close c" "plain e"
    using assms(1) by (auto simp: token_shape_def)
  obtain b' e' c' where v: "v = b' # e' @ [c']" "is_close c'" "plain e'"
    using assms(2) by (auto simp: token_shape_def)
  from assms(3) u(1) v(1) have b: "b = b'" and eq: "e @ c # s = e' @ c' # t" by simp_all
  from plain_split_unique [OF u(3) v(3) u(2) v(2) eq] have "e = e' \<and> c = c' \<and> s = t" .
  with u(1) v(1) b show ?thesis by simp
qed

text \<open>The interface.\<close>

locale bracket_matcher =
  fixes m :: "string \<Rightarrow> (string \<times> string) option"
    and tok :: "string \<Rightarrow> string \<Rightarrow> bool"
  assumes match_iff: "m s = Some (d, r) \<longleftrightarrow> (\<exists>u. s = u @ r \<and> tok u d)"
    and tok_shape: "tok u d \<Longrightarrow> token_shape u"
    and tok_numeral: "tok u d \<Longrightarrow> is_numeral d"
begin

lemma match_token: "tok u d \<Longrightarrow> m (u @ r) = Some (d, r)"
  by (auto simp: match_iff)

lemma match_Some: "m s = Some (d, r) \<Longrightarrow> \<exists>u. s = u @ r \<and> tok u d"
  by (simp add: match_iff)

lemma match_Nil: "m [] = None"
proof (rule ccontr)
  assume "m [] \<noteq> None"
  then obtain d r where "m [] = Some (d, r)" by auto
  then show False using match_Some tok_shape by (fastforce simp: token_shape_def)
qed

lemma match_opens:
  assumes "m (c # cs) \<noteq> None"
  shows "is_open c"
proof -
  from assms obtain d r where "m (c # cs) = Some (d, r)" by auto
  then obtain u where "c # cs = u @ r" and "tok u d" using match_Some by blast
  then show ?thesis using tok_shape [of u d] by (auto simp: token_shape_def)
qed

lemma no_open: "\<not> is_open c \<Longrightarrow> m (c # cs) = None"
  using match_opens by blast

lemma match_shorter: "m s = Some (d, r) \<Longrightarrow> length r < length s"
  using match_Some tok_shape by (fastforce simp: token_shape_def)

lemma no_match_plain: "plain u \<Longrightarrow> no_match m v \<Longrightarrow> no_match m (u @ v)"
  by (induction u) (auto simp: no_match_Cons plain_Cons no_open)

lemma scan_plain: "plain u \<Longrightarrow> scan m (u @ v) = u @ scan m v"
proof (induction u)
  case (Cons c u)
  then have "m ((c # u) @ v) = None" by (simp add: plain_Cons no_open)
  with Cons show ?case by (simp add: plain_Cons)
qed simp

lemma scan_token: "tok u d \<Longrightarrow> scan m (u @ v) = marker d @ scan m v"
proof -
  assume t: "tok u d"
  then obtain c cs where u: "u = c # cs" using tok_shape by (fastforce simp: token_shape_def)
  from match_token [OF t, of v] show ?thesis using u by simp
qed

lemma find_plain: "plain u \<Longrightarrow> find_toks m (u @ v) = find_toks m v"
  by (induction u) (auto simp: plain_Cons no_open)

lemma find_token: "tok u d \<Longrightarrow> find_toks m (u @ v) = d # find_toks m v"
proof -
  assume t: "tok u d"
  then obtain c cs where u: "u = c # cs" using tok_shape by (fastforce simp: token_shape_def)
  from match_token [OF t, of v] show ?thesis using u by simp
qed

text \<open>A token of another matcher passes through unchanged.\<close>

lemma scan_other:
  assumes "token_shape u" and "\<And>d. \<not> tok u d"
  shows "scan m (u @ v) = u @ scan m v"
proof -
  obtain b e c where u: "u = b # e @ [c]" "is_close c" "plain e"
    using assms(1) by (auto simp: token_shape_def)
  have "m (u @ v) = None"
  proof (rule ccontr)
    assume "m (u @ v) \<noteq> None"
    then obtain d r where "m (u @ v) = Some (d, r)" by auto
    then obtain w where w: "u @ v = w @ r" "tok w d" using match_Some by blast
    then have "u = w" using token_shape_unique [OF assms(1) tok_shape] by blast
    with w(2) assms(2) show False by blast
  qed
  moreover have "m (c # v) = None"
    using u(2) open_not_close no_open by blast
  ultimately show ?thesis using u scan_plain [OF u(3), of "c # v"] by simp
qed

lemma scan_front:
  assumes "plain e" and "is_close x" and "scan m s = e @ x # t"
  shows "\<exists>t'. s = e @ x # t'"
  using assms
proof (induction e arbitrary: s)
  case Nil
  then show ?case
    by (cases s) (auto simp: marker_def is_close_def split: option.splits if_splits)
next
  case (Cons c e)
  from Cons.prems(3) obtain y ys where s: "s = y # ys" by (cases s) auto
  have "m (y # ys) = None"
  proof (rule ccontr)
    assume "m (y # ys) \<noteq> None"
    then obtain d r where "m (y # ys) = Some (d, r)" by auto
    with Cons.prems s match_shorter [OF this] have "c = CHR ''[''" by (simp add: marker_def)
    with Cons.prems(1) show False by (simp add: plain_Cons is_open_def)
  qed
  with Cons s show ?case by (auto simp: plain_Cons)
qed

end

text \<open>A matcher that does not match the canonical marker.\<close>

locale deviation_matcher = bracket_matcher +
  assumes not_marker: "is_numeral ds \<Longrightarrow> \<not> tok (marker ds) d"
begin

lemma no_match_marker:
  assumes "is_numeral ds" and "no_match m v"
  shows "no_match m (marker ds @ v)"
proof -
  have "m (marker ds @ v) = None"
  proof (rule ccontr)
    assume "m (marker ds @ v) \<noteq> None"
    then obtain d r where "m (marker ds @ v) = Some (d, r)" by auto
    then obtain u where u: "marker ds @ v = u @ r" "tok u d" using match_Some by blast
    then have "marker ds = u"
      using token_shape_unique [OF marker_shape [OF assms(1)] tok_shape] by blast
    with u(2) not_marker [OF assms(1)] show False by blast
  qed
  moreover have "no_match m ((CHR ''S'' # ds) @ CHR '']'' # v)"
  proof (rule no_match_plain)
    show "plain (CHR ''S'' # ds)"
      using plain_numeral [OF assms(1)] by (simp add: plain_Cons is_open_def is_close_def)
    show "no_match m (CHR '']'' # v)"
      using assms(2) by (simp add: no_match_Cons no_open is_open_def)
  qed
  ultimately show ?thesis by (simp add: marker_def no_match_Cons)
qed

text \<open>
  After a scan by \<open>m'\<close> nothing is left to match, if every match of \<open>m\<close> in the subject was
  one of \<open>m'\<close>: a new match would have to end at a bracket that the scan produced.
\<close>

lemma scan_leaves_no_match:
  assumes m': "bracket_matcher m' tok'"
  assumes "\<forall>v. suffix v s \<longrightarrow> m v \<noteq> None \<longrightarrow> m' v \<noteq> None"
  shows "no_match m (scan m' s)"
  using assms(2)
proof (induction s rule: length_induct)
  case (1 s)
  show ?case
  proof (cases s)
    case Nil
    then show ?thesis by (simp add: no_match_def match_Nil)
  next
    case (Cons c cs)
    show ?thesis
    proof (cases "m' (c # cs)")
      case (Some x)
      obtain d r where dr: "m' (c # cs) = Some (d, r)" using Some by (cases x) auto
      then obtain u where u: "c # cs = u @ r" "tok' u d"
        using bracket_matcher.match_Some [OF m'] by blast
      have short: "length r < length (c # cs)"
        using bracket_matcher.match_shorter [OF m' dr] .
      have "\<forall>v. suffix v r \<longrightarrow> m v \<noteq> None \<longrightarrow> m' v \<noteq> None"
        using "1.prems" Cons u(1) by (metis suffix_appendI)
      then have "no_match m (scan m' r)" using "1.IH" short Cons by blast
      then show ?thesis
        using no_match_marker bracket_matcher.tok_numeral [OF m' u(2)] dr short Cons by simp
    next
      case None
      have "\<forall>v. suffix v cs \<longrightarrow> m v \<noteq> None \<longrightarrow> m' v \<noteq> None"
        using "1.prems" Cons by (auto simp: suffix_Cons)
      then have tl: "no_match m (scan m' cs)" using "1.IH" Cons by simp
      have "m (c # scan m' cs) = None"
      proof (rule ccontr)
        assume "m (c # scan m' cs) \<noteq> None"
        then obtain d r where "m (c # scan m' cs) = Some (d, r)" by auto
        then obtain u where u: "c # scan m' cs = u @ r" "tok u d" using match_Some by blast
        obtain b e x where sh: "u = b # e @ [x]" "is_close x" "plain e"
          using tok_shape [OF u(2)] by (auto simp: token_shape_def)
        then have "scan m' cs = e @ x # r" and b: "b = c" using u(1) by auto
        then obtain t' where "cs = e @ x # t'"
          using bracket_matcher.scan_front [OF m' sh(3,2)] by blast
        then have "m (c # cs) = Some (d, t')" using match_token [OF u(2), of t'] sh(1) b by simp
        then show False using "1.prems" Cons None by auto
      qed
      with tl show ?thesis using Cons None by (simp add: no_match_Cons)
    qed
  qed
qed

lemma scan_clears: "no_match m (scan m s)"
  by (rule scan_leaves_no_match [OF bracket_matcher_axioms]) simp

lemma scan_keeps_clear: "bracket_matcher m' tok' \<Longrightarrow> no_match m s \<Longrightarrow> no_match m (scan m' s)"
  by (erule scan_leaves_no_match) (auto simp: no_match_def)

end

section \<open>The four patterns as matchers\<close>

lemma lower_char_eq: "lower_char x = y \<Longrightarrow> code y < 97 \<Longrightarrow> x = y"
  using code_lower [of x] by (cases "is_upper x") (auto simp: lower_char_def is_upper_def)

lemma plain_of_lower: "plain (py_lower s) \<Longrightarrow> plain s"
proof -
  have "lower_char c = c" if "is_open c \<or> is_close c" for c
    using that by (auto simp: lower_char_def is_upper_def is_open_def is_close_def code_def)
  then show "plain (py_lower s) \<Longrightarrow> plain s" by (fastforce simp: plain_def py_lower_def)
qed

lemma is_tok_literal:
  assumes "is_tok (b # l) sp close u d" and "is_open b"
  shows "\<exists>l' ws. u = (b # l') @ ws @ d @ [close] \<and> py_lower l' = py_lower l
     \<and> (if sp then ws \<noteq> [] \<and> (\<forall>c\<in>set ws. is_space c) else ws = []) \<and> is_numeral d"
proof -
  obtain k ws where u: "u = k @ ws @ d @ [close]" "py_lower k = py_lower (b # l)"
    and ws: "if sp then ws \<noteq> [] \<and> (\<forall>c\<in>set ws. is_space c) else ws = []" "is_numeral d"
    using assms(1) unfolding is_tok_def by blast
  then obtain x l' where k: "k = x # l'" "lower_char x = lower_char b" "py_lower l' = py_lower l"
    by (cases k) (auto simp: py_lower_def)
  have "lower_char b = b" "code b < 97"
    using assms(2) by (auto simp: lower_char_def is_upper_def is_open_def code_def)
  then have "x = b" using k(2) lower_char_eq by metis
  with u(1) k(1,3) ws show ?thesis
    by (intro exI [of _ l'] exI [of _ ws]) simp
qed

lemma plain_spaces: "\<forall>c\<in>set ws. is_space c \<Longrightarrow> plain ws"
  by (auto simp: plain_def is_open_def is_close_def is_space_def code_def)

lemma tok_scan_matcher:
  assumes "is_open b" and "is_close close" and "plain (py_lower l)"
  shows "bracket_matcher (tok_scan (b # l) sp close) (is_tok (b # l) sp close)"
proof
  have nd: "\<not> is_digit close" using assms(2) digit_plain by blast
  show "tok_scan (b # l) sp close s = Some (d, r) \<longleftrightarrow> (\<exists>u. s = u @ r \<and> is_tok (b # l) sp close u d)"
    for s d r by (rule tok_scan_iff [OF nd])
next
  fix u d
  assume t: "is_tok (b # l) sp close u d"
  from is_tok_literal [OF t assms(1)] obtain l' ws where
    u: "u = (b # l') @ ws @ d @ [close]" "py_lower l' = py_lower l" "is_numeral d"
    and ws: "if sp then ws \<noteq> [] \<and> (\<forall>c\<in>set ws. is_space c) else ws = []"
    by blast
  show "is_numeral d" by (rule u(3))
  have "plain (l' @ ws @ d)"
    using u plain_of_lower [of l'] assms(3) plain_numeral plain_spaces ws
    by (auto split: if_splits)
  then show "token_shape u"
    unfolding token_shape_def using u(1) assms(1,2)
    by (intro exI [of _ b] exI [of _ "l' @ ws @ d"] exI [of _ close]) simp
qed

definition m_paren :: "string \<Rightarrow> (string \<times> string) option" where
  "m_paren = tok_scan ''(S'' False CHR '')''"

definition m_square :: "string \<Rightarrow> (string \<times> string) option" where
  "m_square = tok_scan ''[s'' False CHR '']''"

definition m_source :: "string \<Rightarrow> (string \<times> string) option" where
  "m_source = tok_scan ''[source'' True CHR '']''"

definition m_bare :: "string \<Rightarrow> (string \<times> string) option" where
  "m_bare = tok_scan ''['' False CHR '']''"

text \<open>The second pattern also matches the canonical form; what it changes is the lower-case one.\<close>

definition m_lower :: "string \<Rightarrow> (string \<times> string) option" where
  "m_lower s = (if py_startswith s ''[S'' then None else m_square s)"

abbreviation "t_paren \<equiv> is_tok ''(S'' False CHR '')''"
abbreviation "t_square \<equiv> is_tok ''[s'' False CHR '']''"
abbreviation "t_source \<equiv> is_tok ''[source'' True CHR '']''"
abbreviation "t_bare \<equiv> is_tok ''['' False CHR '']''"
abbreviation "t_lower \<equiv> (\<lambda>u d. t_square u d \<and> \<not> py_startswith u ''[S'')"

lemma py_lower_single: "py_lower l = [c] \<longleftrightarrow> (\<exists>x. l = [x] \<and> lower_char x = c)"
  by (cases l) (auto simp: py_lower_def)

lemma lower_s: "lower_char x = CHR ''s'' \<Longrightarrow> x = CHR ''s'' \<or> x = CHR ''S''"
proof -
  assume a: "lower_char x = CHR ''s''"
  show ?thesis
  proof (cases "is_upper x")
    case True
    with a code_lower [of x] have "code x = code CHR ''S''" by (simp add: code_def)
    then show ?thesis unfolding code_def by (simp only: of_char_eq_iff simp_thms)
  qed (use a in \<open>simp add: lower_char_def\<close>)
qed

lemma lower_consts [simp]:
  "lower_char CHR ''S'' = CHR ''s''" "lower_char CHR ''s'' = CHR ''s''" "lower_char CHR ''['' = CHR ''[''"
  "lower_char CHR ''('' = CHR ''(''" "lower_char CHR ''o'' = CHR ''o''" "lower_char CHR ''u'' = CHR ''u''"
  "lower_char CHR ''r'' = CHR ''r''" "lower_char CHR ''c'' = CHR ''c''" "lower_char CHR ''e'' = CHR ''e''"
  by (simp_all add: lower_char_def is_upper_def code_def char_of_eq_iff)

lemma digit_first: "is_numeral d \<Longrightarrow> \<exists>c d'. d = c # d' \<and> is_digit c"
  by (cases d) (auto simp: is_numeral_def)

lemma digit_not_lower: "is_digit c \<Longrightarrow> lower_char c = c \<and> code c < 58"
  by (auto simp: is_digit_def lower_char_def is_upper_def)

interpretation square: bracket_matcher m_square t_square
  unfolding m_square_def
  by (rule tok_scan_matcher) (simp_all add: is_open_def is_close_def py_lower_def plain_def)

interpretation paren: deviation_matcher m_paren t_paren
  unfolding deviation_matcher_def deviation_matcher_axioms_def m_paren_def
proof (intro conjI allI impI)
  show "bracket_matcher (tok_scan ''(S'' False CHR '')'') t_paren"
    by (rule tok_scan_matcher) (simp_all add: is_open_def is_close_def py_lower_def plain_def)
  fix ds d
  assume "is_numeral ds"
  show "\<not> t_paren (marker ds) d"
  proof
    assume "t_paren (marker ds) d"
    from is_tok_literal [OF this] show False by (auto simp: is_open_def marker_def)
  qed
qed

lemma t_square_iff:
  "t_square u d \<longleftrightarrow> (\<exists>x. u = CHR ''['' # x # d @ '']'' \<and> (x = CHR ''s'' \<or> x = CHR ''S'') \<and> is_numeral d)"
proof
  assume t: "t_square u d"
  have "\<exists>l'. u = (CHR ''['' # l') @ d @ '']'' \<and> py_lower l' = ''s'' \<and> is_numeral d"
    using is_tok_literal [OF t] by (auto simp: is_open_def py_lower_def)
  then show "\<exists>x. u = CHR ''['' # x # d @ '']'' \<and> (x = CHR ''s'' \<or> x = CHR ''S'') \<and> is_numeral d"
    by (auto simp: py_lower_single dest: lower_s)
next
  assume "\<exists>x. u = CHR ''['' # x # d @ '']'' \<and> (x = CHR ''s'' \<or> x = CHR ''S'') \<and> is_numeral d"
  then obtain x where x: "u = [CHR ''['', x] @ [] @ d @ '']''" "x = CHR ''s'' \<or> x = CHR ''S''" "is_numeral d"
    by auto
  then have "py_lower [CHR ''['', x] = py_lower ''[s''" by (auto simp: py_lower_def)
  with x show "t_square u d" unfolding is_tok_def by auto
qed

lemma t_source_front: "t_source u d \<Longrightarrow> \<exists>x r. u = CHR ''['' # x # r \<and> r \<noteq> [] \<and> lower_char (hd r) = CHR ''o''"
proof -
  assume "t_source u d"
  from is_tok_literal [OF this] obtain l' ws where
    u: "u = CHR ''['' # l' @ ws @ d @ '']''" and l': "py_lower l' = py_lower ''source''"
    by (auto simp: is_open_def)
  from l' have "map lower_char l' = ''source''" by (simp add: py_lower_def)
  then show ?thesis using u by (cases l'; cases "tl l'") auto
qed

interpretation loose: deviation_matcher m_lower t_lower
  unfolding deviation_matcher_def deviation_matcher_axioms_def
proof (intro conjI allI impI)
  show "bracket_matcher m_lower t_lower"
  proof
    fix s d r
    have "(s = u @ r \<and> t_square u d) \<longrightarrow> py_startswith s ''[S'' = py_startswith u ''[S''" for u
      by (auto simp: t_square_iff py_startswith_def)
    then show "m_lower s = Some (d, r) \<longleftrightarrow> (\<exists>u. s = u @ r \<and> t_lower u d)"
      unfolding m_lower_def using square.match_iff [of s d r] by auto
  qed (auto intro: square.tok_shape square.tok_numeral)
  show "\<not> t_lower (marker ds) d" for ds d
    by (simp add: marker_def py_startswith_def)
qed

interpretation source: deviation_matcher m_source t_source
  unfolding deviation_matcher_def deviation_matcher_axioms_def m_source_def
proof (intro conjI allI impI)
  show "bracket_matcher (tok_scan ''[source'' True CHR '']'') t_source"
    by (rule tok_scan_matcher) (simp_all add: is_open_def is_close_def py_lower_def plain_def)
  fix ds d
  assume "is_numeral ds"
  then obtain c d' where "ds = c # d'" "is_digit c" using digit_first by blast
  then show "\<not> t_source (marker ds) d"
    using t_source_front [of "marker ds" d] digit_not_lower [of c]
    by (auto simp: marker_def is_digit_def code_def)
qed

interpretation bare: deviation_matcher m_bare t_bare
  unfolding deviation_matcher_def deviation_matcher_axioms_def m_bare_def
proof (intro conjI allI impI)
  show "bracket_matcher (tok_scan ''['' False CHR '']'') t_bare"
    by (rule tok_scan_matcher) (simp_all add: is_open_def is_close_def py_lower_def plain_def)
  fix ds d
  assume "is_numeral ds"
  show "\<not> t_bare (marker ds) d"
  proof
    assume "t_bare (marker ds) d"
    from is_tok_literal [OF this] have "''S'' @ ds @ '']'' = d @ '']''" and "is_numeral d"
      by (auto simp: is_open_def py_lower_def marker_def)
    then show False by (auto simp: is_numeral_def is_digit_def code_def)
  qed
qed

section \<open>Normalisation as four scans\<close>

lemma rx_sub_scan:
  assumes "\<And>p s. rx_first pat p s = map_option (\<lambda>(d, r). (q, r, [d])) (m s)"
  shows "rx_sub pat marker_of p s = scan m s"
proof (induction s arbitrary: p rule: length_induct)
  case (1 s)
  show ?case
  proof (cases s)
    case (Cons c cs)
    show ?thesis
    proof (cases "m (c # cs)")
      case None
      then show ?thesis using 1 Cons by (simp add: assms)
    next
      case (Some x)
      obtain d r where x: "x = (d, r)" by (cases x)
      have "marker_of [d] = marker d" by (simp add: marker_of_def)
      then show ?thesis using 1 Cons Some x by (auto simp: assms)
    qed
  qed simp
qed

lemma scan_square_lower: "scan m_square s = scan m_lower s"
proof (induction s rule: length_induct)
  case (1 s)
  show ?case
  proof (cases s)
    case (Cons c cs)
    show ?thesis
    proof (cases "m_square (c # cs)")
      case None
      then have "m_lower (c # cs) = None" by (simp add: m_lower_def)
      with None show ?thesis using 1 Cons by simp
    next
      case (Some x)
      obtain d r where dr: "m_square (c # cs) = Some (d, r)" using Some by (cases x) auto
      then have short: "length r < length (c # cs)" by (rule square.match_shorter)
      then have IH: "scan m_square r = scan m_lower r" using 1 Cons by blast
      obtain u where u: "c # cs = u @ r" "t_square u d" using square.match_Some [OF dr] by blast
      show ?thesis
      proof (cases "py_startswith (c # cs) ''[S''")
        case True
        then have "u = marker d" using u by (auto simp: t_square_iff marker_def py_startswith_def)
        have "scan m_lower (marker d @ r) = marker d @ scan m_lower r"
          using loose.scan_other marker_shape loose.not_marker square.tok_numeral [OF u(2)] by blast
        then show ?thesis
          using square.scan_token [OF u(2), of r] Cons u(1) \<open>u = marker d\<close> IH by simp
      next
        case False
        then show ?thesis using Cons dr short IH by (simp add: m_lower_def [of "c # cs"])
      qed
    qed
  qed simp
qed

lemma deviation_patterns_tok:
  "DEVIATION_PATTERNS =
     [tok_rx ''(S'' False CHR '')'', tok_rx ''[s'' False CHR '']'',
      RSeq (rstr_i ''[source'') (RSeq (rplus (RCls is_space)) (RSeq rdigits (rchar CHR '']''))),
      RSeq (rstr ''['') (RSeq rdigits (rchar CHR '']''))]"
  by (simp add: DEVIATION_PATTERNS_def tok_rx_def)

lemma rchar_bracket: "rchar_i CHR ''['' = rchar CHR ''[''"
proof -
  have "(lower_char x = CHR ''['') = (x = CHR ''['')" for x
    using lower_char_eq [of x "CHR ''[''"] by (auto simp: code_def)
  then show ?thesis by (simp add: rchar_i_def rchar_def)
qed

lemma normalize_scans:
  "normalize_citations s = scan m_bare (scan m_source (scan m_lower (scan m_paren s)))"
proof -
  have nd: "\<not> is_digit CHR '')''" "\<not> is_digit CHR '']''" by (simp_all add: is_digit_def code_def)
  have bare: "RSeq (rstr ''['') (RSeq rdigits (rchar CHR '']'')) = tok_rx ''['' False CHR '']''"
    by (simp add: tok_rx_def rchar_bracket)
  have source: "RSeq (rstr_i ''[source'') (RSeq (rplus (RCls is_space)) (RSeq rdigits (rchar CHR '']'')))
      = tok_rx ''[source'' True CHR '']''"
    by (simp add: tok_rx_def)
  note sub = rx_sub_scan [OF rx_first_tok]
  show ?thesis
    unfolding normalize_citations_def deviation_patterns_tok bare source
    by (simp add: sub [OF nd(1)] sub [OF nd(2)] m_paren_def m_source_def m_bare_def
          flip: scan_square_lower) (simp add: m_square_def)
qed


section \<open>Citations in running text\<close>

text \<open>
  The forms an answer may use for an index, as text, and what each matcher makes of them.
\<close>

datatype cite_form = FCanonical | FParen | FParenLower | FLower | FSource string string | FBare

fun render_cite :: "cite_form \<Rightarrow> string \<Rightarrow> string" where
  "render_cite FCanonical d = marker d"
| "render_cite FParen d = ''(S'' @ d @ '')''"
| "render_cite FParenLower d = ''(s'' @ d @ '')''"
| "render_cite FLower d = ''[s'' @ d @ '']''"
| "render_cite (FSource l ws) d = ''['' @ l @ ws @ d @ '']''"
| "render_cite FBare d = ''['' @ d @ '']''"

fun cite_form_ok :: "cite_form \<Rightarrow> bool" where
  "cite_form_ok (FSource l ws) = (py_lower l = ''source'' \<and> ws \<noteq> [] \<and> (\<forall>c\<in>set ws. is_space c))"
| "cite_form_ok f = True"

definition m_canon :: "string \<Rightarrow> (string \<times> string) option" where
  "m_canon s = (if py_startswith s ''[S'' then m_square s else None)"

abbreviation "t_canon \<equiv> (\<lambda>u d. u = marker d \<and> is_numeral d)"

interpretation canon: bracket_matcher m_canon t_canon
proof
  show "m_canon s = Some (d, r) \<longleftrightarrow> (\<exists>u. s = u @ r \<and> t_canon u d)" for s d r
  proof -
    have "(s = u @ r \<and> t_square u d \<and> py_startswith s ''[S'') = (s = u @ r \<and> t_canon u d)" for u
      by (auto simp: t_square_iff marker_def py_startswith_def)
    then show ?thesis unfolding m_canon_def using square.match_iff [of s d r] by auto
  qed
qed (auto intro: marker_shape)

lemma t_paren_render:
  assumes "is_numeral d"
  shows "t_paren (render_cite FParen d) d" "t_paren (render_cite FParenLower d) d"
  unfolding is_tok_def using assms
  by (auto simp: py_lower_def intro: exI [of _ "''(S''"] exI [of _ "''(s''"])

lemma t_lower_render: "is_numeral d \<Longrightarrow> t_lower (render_cite FLower d) d"
  by (auto simp: t_square_iff py_startswith_def)

lemma t_source_render:
  "is_numeral d \<Longrightarrow> cite_form_ok (FSource l ws) \<Longrightarrow> t_source (render_cite (FSource l ws) d) d"
  unfolding is_tok_def
  by (rule exI [of _ "CHR ''['' # l"], rule exI [of _ ws]) (simp add: py_lower_def)

lemma t_bare_render: "is_numeral d \<Longrightarrow> t_bare (render_cite FBare d) d"
  unfolding is_tok_def by (auto intro!: exI [of _ "''[''"])

text \<open>The second and third character tell the tokens apart.\<close>

lemma t_paren_hd: "t_paren u d \<Longrightarrow> hd u = CHR ''(''"
  by (drule is_tok_literal) (auto simp: is_open_def)

lemma t_lower_hd: "t_lower u d \<Longrightarrow> hd u = CHR ''['' \<and> hd (tl u) = CHR ''s'' \<and> is_digit (hd (tl (tl u)))"
  by (auto simp: t_square_iff py_startswith_def is_numeral_def neq_Nil_conv)

lemma t_source_hd:
  assumes "t_source u d"
  shows "hd u = CHR ''['' \<and> lower_char (hd (tl u)) = CHR ''s'' \<and> lower_char (hd (tl (tl u))) = CHR ''o''"
proof -
  from is_tok_literal [OF assms] obtain l' ws where
    u: "u = CHR ''['' # l' @ ws @ d @ '']''" and "py_lower l' = py_lower ''source''"
    by (auto simp: is_open_def)
  then have "map lower_char l' = ''source''" by (simp add: py_lower_def)
  then show ?thesis using u by (cases l'; cases "tl l'") auto
qed

lemma t_bare_hd: "t_bare u d \<Longrightarrow> hd u = CHR ''['' \<and> is_digit (hd (tl u))"
  by (drule is_tok_literal) (auto simp: is_open_def is_numeral_def py_lower_def neq_Nil_conv)

lemma digit_chars: "\<not> is_digit CHR ''s''" "\<not> is_digit CHR ''S''"
  "lower_char c = CHR ''s'' \<Longrightarrow> \<not> is_digit c" "lower_char c = CHR ''o'' \<Longrightarrow> \<not> is_digit c"
  using digit_not_lower [of c] by (auto simp: is_digit_def code_def)

definition cited_text :: "(string \<times> cite_form \<times> nat) list \<Rightarrow> string \<Rightarrow> string" where
  "cited_text xs end_text =
     concat (map (\<lambda>(t, f, n). t @ render_cite f (str_of_nat n)) xs) @ end_text"

fun after_paren :: "cite_form \<Rightarrow> cite_form" where
  "after_paren FParen = FCanonical"
| "after_paren FParenLower = FCanonical"
| "after_paren f = f"

fun after_lower :: "cite_form \<Rightarrow> cite_form" where
  "after_lower FLower = FCanonical"
| "after_lower f = f"

fun after_source :: "cite_form \<Rightarrow> cite_form" where
  "after_source (FSource l ws) = FCanonical"
| "after_source f = f"

lemma scan_cite_paren:
  assumes d: "is_numeral d" and ok: "cite_form_ok f"
  shows "scan m_paren (render_cite f d @ v) = render_cite (after_paren f) d @ scan m_paren v"
proof -
  have shape: "token_shape (render_cite f d)" if "f \<noteq> FParen" "f \<noteq> FParenLower"
    using that ok marker_shape [OF d] loose.tok_shape [OF t_lower_render [OF d]]
      source.tok_shape [OF t_source_render [OF d]] bare.tok_shape [OF t_bare_render [OF d]]
    by (cases f) simp_all
  show ?thesis
  proof (cases "f = FParen \<or> f = FParenLower")
    case True
    then show ?thesis
      using paren.scan_token [OF t_paren_render(1) [OF d]] paren.scan_token [OF t_paren_render(2) [OF d]]
      by (elim disjE) simp_all
  next
    case False
    then have "hd (render_cite f d) \<noteq> CHR ''(''" by (cases f) (simp_all add: marker_def)
    then have "\<not> t_paren (render_cite f d) e" for e using t_paren_hd by blast
    moreover have "after_paren f = f" using False by (cases f) simp_all
    ultimately show ?thesis using paren.scan_other shape False by simp
  qed
qed

lemma scan_cite_lower:
  assumes d: "is_numeral d" and ok: "cite_form_ok f" and f: "after_paren f = f"
  shows "scan m_lower (render_cite f d @ v) = render_cite (after_lower f) d @ scan m_lower v"
proof (cases f)
  case FCanonical
  then show ?thesis using loose.scan_other [OF marker_shape [OF d] loose.not_marker [OF d]] by simp
next
  case FLower
  then show ?thesis using loose.scan_token [OF t_lower_render [OF d]] by simp
next
  case (FSource l ws)
  then have t: "t_source (render_cite f d) d" using t_source_render d ok by simp
  then have "\<not> t_lower (render_cite f d) e" for e
    using t_source_hd [of "render_cite f d" d] t_lower_hd [of "render_cite f d" e] digit_chars by auto
  from loose.scan_other [OF source.tok_shape [OF t] this] show ?thesis using FSource by simp
next
  case FBare
  then have t: "t_bare (render_cite f d) d" using t_bare_render d by simp
  then have "\<not> t_lower (render_cite f d) e" for e
    using t_bare_hd [OF t] t_lower_hd [of "render_cite f d" e] digit_chars(1) by metis
  from loose.scan_other [OF bare.tok_shape [OF t] this] show ?thesis using FBare by simp
qed (use f in simp_all)

lemma scan_cite_source:
  assumes d: "is_numeral d" and ok: "cite_form_ok f" and f: "after_lower (after_paren f) = f"
  shows "scan m_source (render_cite f d @ v) = render_cite (after_source f) d @ scan m_source v"
proof (cases f)
  case FCanonical
  then show ?thesis using source.scan_other [OF marker_shape [OF d] source.not_marker [OF d]] by simp
next
  case (FSource l ws)
  then show ?thesis using source.scan_token [OF t_source_render [OF d]] ok by simp
next
  case FBare
  then have t: "t_bare (render_cite f d) d" using t_bare_render d by simp
  then have "\<not> t_source (render_cite f d) e" for e
    using t_bare_hd [of "render_cite f d" d] t_source_hd [of "render_cite f d" e] digit_chars by auto
  from source.scan_other [OF bare.tok_shape [OF t] this] show ?thesis using FBare by simp
qed (use f in simp_all)

lemma scan_cite_bare:
  assumes d: "is_numeral d" and f: "f = FCanonical \<or> f = FBare"
  shows "scan m_bare (render_cite f d @ v) = marker d @ scan m_bare v"
  using f bare.scan_other [OF marker_shape [OF d] bare.not_marker [OF d]]
    bare.scan_token [OF t_bare_render [OF d]] by (elim disjE) simp_all

lemma is_numeral_str [simp]: "is_numeral (str_of_nat n)"
  by (auto simp: is_numeral_def dest: str_of_nat_digits)

lemma cited_text_Cons:
  "cited_text ((t, f, n) # xs) e = t @ render_cite f (str_of_nat n) @ cited_text xs e"
  by (simp add: cited_text_def)

lemma after_ok:
  "cite_form_ok f \<Longrightarrow> cite_form_ok (after_paren f)"
  "cite_form_ok f \<Longrightarrow> cite_form_ok (after_lower f)"
  "after_paren (after_paren f) = after_paren f"
  "after_lower (after_paren (after_lower (after_paren f))) = after_lower (after_paren f)"
  "after_source (after_lower (after_paren f)) = FCanonical \<or> after_source (after_lower (after_paren f)) = FBare"
  by (cases f; simp)+

lemma scan_cited_text:
  assumes step: "\<And>f d v. is_numeral d \<Longrightarrow> P f \<Longrightarrow>
      scan m (render_cite f d @ v) = render_cite (h f) d @ scan m v"
    and plain: "\<And>u v. plain u \<Longrightarrow> scan m (u @ v) = u @ scan m v"
    and xs: "\<forall>(t, f, n)\<in>set xs. plain t \<and> P f" and e: "plain e"
  shows "scan m (cited_text xs e) = cited_text (map (\<lambda>(t, f, n). (t, h f, n)) xs) e"
  using xs
proof (induction xs)
  case Nil
  from plain [OF e, of "[]"] show ?case by (simp add: cited_text_def)
next
  case (Cons x xs)
  obtain t f n where x: "x = (t, f, n)" by (cases x)
  with Cons show ?case by (simp add: cited_text_Cons plain step)
qed

lemma normalize_cited_text:
  assumes xs: "\<forall>(t, f, n)\<in>set xs. plain t \<and> cite_form_ok f" and e: "plain e"
  shows "normalize_citations (cited_text xs e) =
         cited_text (map (\<lambda>(t, f, n). (t, FCanonical, n)) xs) e"
proof -
  let ?f1 = "\<lambda>(t, f, n). (t, after_paren f, n)"
  let ?f2 = "\<lambda>(t, f, n). (t, after_lower f, n)"
  let ?f3 = "\<lambda>(t, f, n). (t, after_source f, n)"
  have 1: "scan m_paren (cited_text xs e) = cited_text (map ?f1 xs) e"
    by (rule scan_cited_text [OF scan_cite_paren paren.scan_plain xs e])
  have 2: "scan m_lower (cited_text (map ?f1 xs) e) = cited_text (map ?f2 (map ?f1 xs)) e"
    by (rule scan_cited_text [where P = "\<lambda>f. cite_form_ok f \<and> after_paren f = f"])
       (use xs e scan_cite_lower loose.scan_plain after_ok in \<open>auto split: prod.splits\<close>)
  have 3: "scan m_source (cited_text (map ?f2 (map ?f1 xs)) e) =
           cited_text (map ?f3 (map ?f2 (map ?f1 xs))) e"
    by (rule scan_cited_text [where P = "\<lambda>f. cite_form_ok f \<and> after_lower (after_paren f) = f"])
       (use xs e scan_cite_source source.scan_plain after_ok in \<open>auto split: prod.splits\<close>)
  have 4: "scan m_bare (cited_text (map ?f3 (map ?f2 (map ?f1 xs))) e) =
           cited_text (map (\<lambda>(t, f, n). (t, FCanonical, n)) (map ?f3 (map ?f2 (map ?f1 xs)))) e"
    by (rule scan_cited_text [where P = "\<lambda>f. f = FCanonical \<or> f = FBare"])
       (use xs e scan_cite_bare bare.scan_plain after_ok(5) in \<open>auto split: prod.splits\<close>)
  show ?thesis
    unfolding normalize_scans 1 2 3 4 by (simp add: comp_def case_prod_unfold)
qed

section \<open>Reading the markers back\<close>

lemma rx_first_CANONICAL:
  "rx_first CANONICAL p s = map_option (\<lambda>(d, r). (Some CHR '']'', r, [d])) (m_canon s)"
proof -
  have nd: "\<not> is_digit CHR '']''" by (simp add: is_digit_def code_def)
  show ?thesis
  proof (cases "py_startswith s ''[S''")
    case True
    then obtain r where s: "s = CHR ''['' # CHR ''S'' # r" by (auto simp: py_startswith_iff)
    have "rx_match CANONICAL (p, s, []) =
          rx_match (RSeq rdigits (rchar CHR '']'')) (Some CHR ''S'', r, [])"
      by (simp add: s CANONICAL_def rchar_def)
    moreover have "m_canon s = digits_then CHR '']'' r"
      by (simp add: s m_canon_def m_square_def tok_scan_def py_startswith_def)
    ultimately show ?thesis
      by (simp only: rx_first_def rx_digits_close [OF nd]) (simp split: option.split)
  next
    case False
    then show ?thesis
      by (cases s; cases "tl s")
         (auto simp: rx_first_def CANONICAL_def rchar_def m_canon_def py_startswith_def)
  qed
qed

lemma rx_findall_find_toks:
  assumes "\<And>p s. rx_first pat p s = map_option (\<lambda>(d, r). (q, r, [d])) (m s)"
  shows "rx_findall pat p s = map (\<lambda>d. [d]) (find_toks m s)"
proof (induction s arbitrary: p rule: length_induct)
  case (1 s)
  show ?case
  proof (cases s)
    case (Cons c cs)
    show ?thesis
    proof (cases "m (c # cs)")
      case None
      then show ?thesis using 1 Cons by (simp add: assms)
    next
      case (Some x)
      then show ?thesis using 1 Cons by (cases x) (auto simp: assms)
    qed
  qed simp
qed

lemma extract_find_toks:
  "extract_cited_indices s = first_occurrences (map int_of_digits (find_toks m_canon s))"
  by (simp add: extract_cited_indices_def rx_findall_find_toks [OF rx_first_CANONICAL] comp_def)

lemma find_toks_canonical:
  assumes "\<forall>(t, f, n)\<in>set xs. plain t \<and> f = FCanonical" and "plain e"
  shows "find_toks m_canon (cited_text xs e) = map (\<lambda>(t, f, n). str_of_nat n) xs"
  using assms
proof (induction xs)
  case Nil
  then show ?case using canon.find_plain [of e "[]"] by (simp add: cited_text_def)
next
  case (Cons x xs)
  obtain t f n where "x = (t, f, n)" by (cases x)
  with Cons show ?case
    using canon.find_token [of "marker (str_of_nat n)" "str_of_nat n"]
    by (simp add: cited_text_Cons canon.find_plain)
qed

lemma resolve_cited_map:
  "resolve_cited ns cs = map (\<lambda>n. (n, cs ! (n - 1))) (filter (\<lambda>n. 1 \<le> n \<and> n \<le> length cs) ns)"
  by (induction ns) auto

section \<open>Properties\<close>

text \<open>
  Normalising an answer twice is normalising it once: \<open>normalize_citations\<close> leaves no form
  behind that a second pass would rewrite, whatever the text between the citations.
\<close>

lemma normalize_citations_idempotent:
  "normalize_citations (normalize_citations s) = normalize_citations s"
proof -
  note ms = loose.bracket_matcher_axioms source.bracket_matcher_axioms bare.bracket_matcher_axioms
  let ?t = "normalize_citations s"
  have "no_match m_paren ?t" unfolding normalize_scans
    by (intro paren.scan_keeps_clear [OF ms(3)] paren.scan_keeps_clear [OF ms(2)]
        paren.scan_keeps_clear [OF ms(1)] paren.scan_clears)
  moreover have "no_match m_lower ?t" unfolding normalize_scans
    by (intro loose.scan_keeps_clear [OF ms(3)] loose.scan_keeps_clear [OF ms(2)] loose.scan_clears)
  moreover have "no_match m_source ?t" unfolding normalize_scans
    by (intro source.scan_keeps_clear [OF ms(3)] source.scan_clears)
  moreover have "no_match m_bare ?t" unfolding normalize_scans
    by (rule bare.scan_clears)
  ultimately show ?thesis unfolding normalize_scans [of ?t] by (simp add: scan_no_match)
qed

text \<open>
  C16. Round trip of citations: in an answer made of prose without brackets and of citations in any
  of the five forms, each index is read back, in order of first appearance, and resolves to the
  chunk with that number exactly when there is one.
\<close>

theorem cited_indices_roundtrip:
  assumes "\<forall>(t, f, n)\<in>set xs. plain t \<and> cite_form_ok f" and "plain e"
  shows "resolve_citations (normalize_citations (cited_text xs e)) cs =
         map (\<lambda>n. (n, cs ! (n - 1)))
           (filter (\<lambda>n. 1 \<le> n \<and> n \<le> length cs) (first_occurrences (map (\<lambda>(t, f, n). n) xs)))"
proof -
  let ?ys = "map (\<lambda>(t, f, n). (t, FCanonical, n)) xs"
  have "\<forall>(t, f, n)\<in>set ?ys. plain t \<and> f = FCanonical" using assms(1) by auto
  then have "find_toks m_canon (cited_text ?ys e) = map (\<lambda>(t, f, n). str_of_nat n) xs"
    using find_toks_canonical [of ?ys e] assms(2) by (simp add: comp_def case_prod_unfold)
  then show ?thesis
    unfolding resolve_citations_def normalize_cited_text [OF assms] extract_find_toks resolve_cited_map
    by (simp add: comp_def case_prod_unfold)
qed

theorem cited_indices_roundtrip_witness:
  "resolve_citations (normalize_citations
     (cited_text [(''Yes '', FParen, 2), ('' and '', FSource ''Source'' '' '', 1), ('' but '', FBare, 7), ([], FLower, 2)] ''.''))
     [CHR ''a'', CHR ''b''] = [(2, CHR ''b''), (1, CHR ''a'')]"
proof -
  have ok: "\<forall>(t, f, n)\<in>set [(''Yes '', FParen, 2), ('' and '', FSource ''Source'' '' '', 1), ('' but '', FBare, 7), ([], FLower, 2::nat)].
      plain t \<and> cite_form_ok f"
    by (simp add: plain_def is_open_def is_close_def py_lower_def is_space_def code_def
        lower_char_def is_upper_def char_of_eq_iff)
  have "plain ''.''" by (simp add: plain_def is_open_def is_close_def)
  from cited_indices_roundtrip [OF ok this, of "[CHR ''a'', CHR ''b'']"] show ?thesis by simp
qed

text \<open>
  Resolution never invents a source: every resolved pair is an index the text cites, in
  range, with the chunk the context block gave that number; nothing in range is lost and no
  index appears twice.
\<close>

lemma resolve_citations_exact:
  "map fst (resolve_citations s cs) = filter (\<lambda>n. 1 \<le> n \<and> n \<le> length cs) (extract_cited_indices s)
   \<and> distinct (map fst (resolve_citations s cs))
   \<and> list_all (\<lambda>(n, c). 1 \<le> n \<and> n \<le> length cs \<and> c = cs ! (n - 1)) (resolve_citations s cs)"
  unfolding resolve_citations_def resolve_cited_map
  by (auto simp: comp_def extract_cited_indices_def list_all_iff)

end
