(* ===== verification/Cost_Budget.thy ===== *)
theory Cost_Budget imports DataModel Settings_Model begin

text \<open>
  \<open>prorag/cost.py\<close> and \<open>prorag/operations/budget.py\<close>: pricing a call, staging its usage row, the
  spending windows that start at UTC midnight, and the gate that runs before every LLM call.
  The price list of litellm is a parameter. The last section is the gate as a transition
  system with several requests in flight.
\<close>

section \<open>Money as text\<close>

text \<open>The format specification \<open>.2f\<close>: two decimals, ties to even.\<close>

definition round_half_even :: "real \<Rightarrow> int" where
  "round_half_even x =
     (let f = \<lfloor>x\<rfloor>; r = x - of_int f in
      if r < 1 / 2 \<or> (r = 1 / 2 \<and> even f) then f else f + 1)"

definition fmt2 :: "money \<Rightarrow> string" where
  "fmt2 x =
     (let n = nat \<bar>round_half_even (x * 100)\<bar> in
      (if x < 0 then ''-'' else []) @ str_of_nat (n div 100) @ ''.''
      @ str_of_nat (n mod 100 div 10) @ str_of_nat (n mod 10))"

section \<open>Cost tracking\<close>

text \<open>\<open>litellm.completion_cost\<close>: an exception, no price, or a price.\<close>

type_synonym price_list = "string \<Rightarrow> int \<Rightarrow> int \<Rightarrow> money option outcome"

definition compute_cost :: "settings \<Rightarrow> price_list \<Rightarrow> string \<Rightarrow> int \<Rightarrow> int \<Rightarrow> money" where
  "compute_cost cfg prices model prompt_tokens completion_tokens =
     (case prices model prompt_tokens completion_tokens of
        Inr (Some cost) \<Rightarrow> cost
      | _ \<Rightarrow> real_of_int (prompt_tokens + completion_tokens) / 1000 * fallback_price_per_1k_usd cfg)"

text \<open>
  \<open>session.add(Usage(...))\<close> stages the row; \<open>created_at\<close> is \<open>now()\<close> of the transaction. Without a
  session nothing is tracked.
\<close>

definition track_usage ::
  "settings \<Rightarrow> price_list \<Rightarrow> datetime \<Rightarrow> txn option \<Rightarrow> string \<Rightarrow> int \<Rightarrow> int \<Rightarrow> uuid option \<Rightarrow> uuid option
     \<Rightarrow> money option \<times> txn option" where
  "track_usage cfg prices now session model prompt_tokens completion_tokens message_id user_id =
     (case session of
        None \<Rightarrow> (None, None)
      | Some t \<Rightarrow>
          (let cost = compute_cost cfg prices model prompt_tokens completion_tokens in
           (Some cost,
            Some (txn_update (\<lambda>s. s\<lparr>usages := usages s @
              [\<lparr>us_message_id = message_id, us_model = model, us_prompt_tokens = prompt_tokens,
                us_completion_tokens = completion_tokens, us_cost_usd = cost, us_user_id = user_id,
                us_created_at = now\<rparr>]\<rparr>) t))))"

section \<open>Windows and decisions\<close>

definition day_micros :: int where
  "day_micros = 24 * 60 * 60 * 1000000"

definition utc_day_start :: "datetime \<Rightarrow> datetime" where
  "utc_day_start now = now - now mod day_micros"

definition today_cost_usd :: "db \<Rightarrow> datetime \<Rightarrow> money" where
  "today_cost_usd s now =
     sum_list (map us_cost_usd (filter (\<lambda>u. utc_day_start now \<le> us_created_at u) (usages s)))"

definition today_user_cost_usd :: "db \<Rightarrow> uuid \<Rightarrow> datetime \<Rightarrow> money" where
  "today_user_cost_usd s uid now =
     sum_list (map us_cost_usd
       (filter (\<lambda>u. us_user_id u = Some uid \<and> utc_day_start now \<le> us_created_at u) (usages s)))"

definition over_daily_cap :: "money \<Rightarrow> money \<Rightarrow> bool" where
  "over_daily_cap today_total cap = (cap \<le> today_total)"

datatype decision = Ok | Warn | Block

definition budget_decision :: "money \<Rightarrow> money \<Rightarrow> real \<Rightarrow> decision" where
  "budget_decision spent cap hard_multiplier =
     (if cap * hard_multiplier \<le> spent then Block else if cap \<le> spent then Warn else Ok)"

definition user_cap :: "settings \<Rightarrow> user \<Rightarrow> money" where
  "user_cap cfg u = (case u_daily_cap_usd_override u of Some c \<Rightarrow> c | None \<Rightarrow> user_daily_cap_usd cfg)"

definition used_of :: "money \<Rightarrow> money \<Rightarrow> string" where
  "used_of spent cap =
     ''you have used $'' @ fmt2 spent @ '' of $'' @ fmt2 cap @ '' today, resets at midnight UTC''"

definition check_daily_cap :: "settings \<Rightarrow> db \<Rightarrow> user option \<Rightarrow> datetime \<Rightarrow> string option outcome" where
  "check_daily_cap cfg s user now =
     (let spent = today_cost_usd s now in
      if over_daily_cap spent (daily_cost_cap_usd cfg)
      then Inl (HTTPException 429 (''daily cost cap of $'' @ fmt2 (daily_cost_cap_usd cfg) @ '' reached ($''
             @ fmt2 spent @ '' spent today)''))
      else case user of
        None \<Rightarrow> Inr None
      | Some u \<Rightarrow>
          (let cap = user_cap cfg u; user_spent = today_user_cost_usd s (u_id u) now in
           case budget_decision user_spent cap (user_hard_cap_multiplier cfg) of
             Block \<Rightarrow> Inl (HTTPException 429 (used_of user_spent (cap * user_hard_cap_multiplier cfg)))
           | Warn \<Rightarrow> Inr (Some (used_of user_spent cap))
           | Ok \<Rightarrow> Inr None))"

section \<open>Lemmas\<close>

lemma utc_day_start_le: "utc_day_start now \<le> now"
  by (simp add: utc_day_start_def day_micros_def)

lemma utc_day_start_next: "now < utc_day_start now + day_micros"
  using pos_mod_bound [of day_micros now] by (simp add: utc_day_start_def day_micros_def)

lemma utc_day_start_dvd: "day_micros dvd utc_day_start now"
  by (simp add: utc_day_start_def dvd_minus_mod)

text \<open>The start of the day is the only multiple of a day within the last day.\<close>

lemma utc_day_start_unique:
  assumes "day_micros dvd d" and "d \<le> now" and "now < d + day_micros"
  shows "utc_day_start now = d"
proof -
  obtain k where k: "d = day_micros * k" using assms(1) by auto
  have "now mod day_micros = now - d"
  proof -
    have "(now - d + k * day_micros) mod day_micros = (now - d) mod day_micros"
      by (rule mod_mult_self1)
    moreover have "now - d + k * day_micros = now" using k by simp
    moreover have "(now - d) mod day_micros = now - d"
      using assms(2,3) by (intro mod_pos_pos_trivial) auto
    ultimately show ?thesis by simp
  qed
  then show ?thesis by (simp add: utc_day_start_def)
qed

lemma utc_day_start_idem: "utc_day_start (utc_day_start now) = utc_day_start now"
proof (rule utc_day_start_unique)
  show "utc_day_start now < utc_day_start now + day_micros" by (simp add: day_micros_def)
qed (simp_all add: utc_day_start_dvd)

lemma budget_decision_cases:
  "budget_decision spent cap m = Block \<longleftrightarrow> cap * m \<le> spent"
  "budget_decision spent cap m = Warn \<longleftrightarrow> spent < cap * m \<and> cap \<le> spent"
  "budget_decision spent cap m = Ok \<longleftrightarrow> spent < cap * m \<and> spent < cap"
  by (auto simp: budget_decision_def)

definition admits :: "settings \<Rightarrow> db \<Rightarrow> user option \<Rightarrow> datetime \<Rightarrow> bool" where
  "admits cfg s user now \<longleftrightarrow>
     today_cost_usd s now < daily_cost_cap_usd cfg
   \<and> (case user of None \<Rightarrow> True
      | Some u \<Rightarrow> today_user_cost_usd s (u_id u) now < user_cap cfg u * user_hard_cap_multiplier cfg)"

lemma check_daily_cap_admits: "is_ok (check_daily_cap cfg s user now) = admits cfg s user now"
  by (auto simp: check_daily_cap_def over_daily_cap_def admits_def Let_def budget_decision_cases
      split: option.split decision.split)

lemma check_daily_cap_error:
  "check_daily_cap cfg s user now = Inl e \<Longrightarrow> \<exists>m. e = HTTPException 429 m"
  by (auto simp: check_daily_cap_def Let_def split: option.splits decision.splits if_splits)

section \<open>Requests in flight\<close>

text \<open>
  The gate reads the spending, the answer's usage row is written later. A state is the database
  and the number of admitted requests whose cost is not recorded yet; at most \<open>n\<close> run at a time
  and none costs more than \<open>cmax\<close>. All of it happens within one UTC day \<open>d\<close>.
\<close>

type_synonym budget_state = "db \<times> nat"

inductive budget_step :: "settings \<Rightarrow> nat \<Rightarrow> money \<Rightarrow> datetime \<Rightarrow> budget_state \<Rightarrow> budget_state \<Rightarrow> bool"
  for cfg :: settings and n :: nat and cmax :: money and d :: datetime where
  admit: "utc_day_start now = d \<Longrightarrow> is_ok (check_daily_cap cfg s user now) \<Longrightarrow> k < n \<Longrightarrow>
     budget_step cfg n cmax d (s, k) (s, Suc k)"
| finish: "0 \<le> us_cost_usd u \<Longrightarrow> us_cost_usd u \<le> cmax \<Longrightarrow>
     budget_step cfg n cmax d (s, Suc k) (s\<lparr>usages := usages s @ [u]\<rparr>, k)"

inductive_cases budget_step_elim: "budget_step cfg n cmax d x y"

lemma today_cost_append:
  "today_cost_usd (s\<lparr>usages := usages s @ [u]\<rparr>) now
     = today_cost_usd s now + (if utc_day_start now \<le> us_created_at u then us_cost_usd u else 0)"
  by (simp add: today_cost_usd_def)

lemma today_cost_day: "utc_day_start now = utc_day_start now' \<Longrightarrow> today_cost_usd s now = today_cost_usd s now'"
  by (simp add: today_cost_usd_def)

lemma budget_step_invariant:
  assumes "budget_step cfg n cmax (utc_day_start t0) x y" and "0 \<le> cmax"
    and "today_cost_usd (fst x) t0 + real (snd x) * cmax < daily_cost_cap_usd cfg + real n * cmax"
  shows "today_cost_usd (fst y) t0 + real (snd y) * cmax < daily_cost_cap_usd cfg + real n * cmax"
  using assms(1)
proof (cases rule: budget_step.cases)
  case (admit now s user k)
  have "today_cost_usd s t0 < daily_cost_cap_usd cfg"
    using admit(3,4) today_cost_day [of now t0 s] by (simp add: check_daily_cap_admits admits_def)
  moreover have "real (Suc k) * cmax \<le> real n * cmax"
    using admit(5) assms(2) by (intro mult_right_mono) auto
  ultimately show ?thesis using admit(2) by simp
next
  case (finish u s k)
  then show ?thesis using assms(3) by (auto simp: today_cost_append algebra_simps)
qed

section \<open>Properties\<close>


definition sample_usage :: "money \<Rightarrow> usage" where
  "sample_usage c = \<lparr>us_message_id = None, us_model = ''m'', us_prompt_tokens = 1, us_completion_tokens = 1,
     us_cost_usd = c, us_user_id = None, us_created_at = 5\<rparr>"


text \<open>
  The gate is exactly the caps: a request passes if and only if the install's spending of the
  UTC day is below its cap and the user's (when there is one) below the hard cap; it carries a
  warning exactly when the user's spending has also reached the soft cap; every refusal is a
  429; and spending of earlier days has no say.
\<close>

lemma check_daily_cap_exact:
  "is_ok (check_daily_cap cfg s user now) = admits cfg s user now
   \<and> (case check_daily_cap cfg s user now of
        Inl e \<Rightarrow> exn_code e = 429
      | Inr w \<Rightarrow> (w \<noteq> None) = (case user of None \<Rightarrow> False | Some u \<Rightarrow> user_cap cfg u \<le> today_user_cost_usd s (u_id u) now))
   \<and> check_daily_cap cfg (s\<lparr>usages := filter (\<lambda>u. utc_day_start now \<le> us_created_at u) (usages s)\<rparr>) user now
       = check_daily_cap cfg s user now"
proof (intro conjI)
  show "is_ok (check_daily_cap cfg s user now) = admits cfg s user now"
    by (rule check_daily_cap_admits)
  show "case check_daily_cap cfg s user now of
        Inl e \<Rightarrow> exn_code e = 429
      | Inr w \<Rightarrow> (w \<noteq> None) = (case user of None \<Rightarrow> False | Some u \<Rightarrow> user_cap cfg u \<le> today_user_cost_usd s (u_id u) now)"
    by (auto simp: check_daily_cap_def Let_def budget_decision_cases split: option.split decision.split)
  let ?s = "s\<lparr>usages := filter (\<lambda>u. utc_day_start now \<le> us_created_at u) (usages s)\<rparr>"
  have a: "today_cost_usd ?s now = today_cost_usd s now"
    by (simp add: today_cost_usd_def conj_commute)
  have b: "today_user_cost_usd ?s uid now = today_user_cost_usd s uid now" for uid
    by (simp add: today_user_cost_usd_def conj_ac)
  show "check_daily_cap cfg ?s user now = check_daily_cap cfg s user now"
    unfolding check_daily_cap_def a b by (rule refl)
qed

end
