(* ===== verification/Llm.thy ===== *)
theory Llm imports Cost_Budget begin

text \<open>
  \<open>prorag/llm.py\<close>: the wrapper around litellm and OpenRouter. The providers are the record
  \<open>provider\<close> of parameters; what the wrapper does with their replies (usage rows, missing fields,
  batching with results placed back by index, the classification of stream chunks) is modelled.
\<close>

section \<open>Providers\<close>

type_synonym token_usage = "(int option \<times> int option) option"

text \<open>
  \<open>co_content\<close> is \<open>resp["choices"][0]["message"]["content"]\<close>: reading it may raise, and the
  content itself may be \<open>None\<close>.
\<close>

record completion =
  co_usage :: token_usage
  co_content :: "string option outcome"

record embedding_reply =
  er_usage :: token_usage
  er_vectors :: "real list list outcome"

record stream_delta =
  sd_reasoning_attr :: "string option"
  sd_reasoning_content :: "string option"
  sd_reasoning :: "string option"
  sd_content :: "string option"

record stream_chunk =
  sc_usage :: token_usage
  sc_choices :: "stream_delta list"

record provider =
  p_completion :: "string \<Rightarrow> string \<Rightarrow> string \<Rightarrow> completion outcome"
  p_embedding :: "string \<Rightarrow> string list \<Rightarrow> embedding_reply outcome"
  p_openrouter_embedding :: "string \<Rightarrow> string list \<Rightarrow> real list list outcome"
  p_prices :: price_list
  p_token_counter :: "string \<Rightarrow> string \<Rightarrow> int outcome"
  p_env_key :: "string option"

definition usage_tokens :: "token_usage \<Rightarrow> int \<times> int" where
  "usage_tokens u =
     (case u of
        None \<Rightarrow> (0, 0)
      | Some (p, c) \<Rightarrow> (case p of None \<Rightarrow> 0 | Some n \<Rightarrow> n, case c of None \<Rightarrow> 0 | Some n \<Rightarrow> n))"

section \<open>Completions\<close>

text \<open>
  The common body of \<open>answer\<close>, \<open>plan_completion\<close> and \<open>prefill_completion\<close>: call, track, read the
  content.
\<close>

definition complete ::
  "settings \<Rightarrow> provider \<Rightarrow> datetime \<Rightarrow> string \<Rightarrow> string \<Rightarrow> string \<Rightarrow> uuid option \<Rightarrow> uuid option
     \<Rightarrow> txn option \<Rightarrow> string option outcome \<times> txn option" where
  "complete cfg prov now model system user message_id user_id session =
     (case p_completion prov model system user of
        Inl e \<Rightarrow> (Inl e, session)
      | Inr resp \<Rightarrow>
          (let (prompt_tokens, completion_tokens) = usage_tokens (co_usage resp);
               (_, session') = track_usage cfg (p_prices prov) now session model prompt_tokens completion_tokens
                                 message_id user_id
           in (co_content resp, session')))"

definition answer where
  "answer cfg prov now system user message_id user_id session =
     complete cfg prov now (answer_model cfg) system user message_id user_id session"

definition plan_completion where
  "plan_completion cfg prov now system user user_id session =
     complete cfg prov now (planner_model cfg) system user None user_id session"

definition prefill_completion where
  "prefill_completion cfg prov now system user user_id session =
     complete cfg prov now (prefill_model cfg) system user None user_id session"

definition estimate_tokens :: "provider \<Rightarrow> string \<Rightarrow> string \<Rightarrow> int" where
  "estimate_tokens prov model text =
     (case p_token_counter prov model text of Inr n \<Rightarrow> n | Inl e \<Rightarrow> int (length (py_split text)))"

section \<open>Embeddings\<close>

definition first_truthy :: "string option \<Rightarrow> string option \<Rightarrow> string option" where
  "first_truthy a b = (case a of Some s \<Rightarrow> if s = [] then b else a | None \<Rightarrow> b)"

definition openrouter_prefix :: string where
  "openrouter_prefix = ''openrouter-emb/''"

definition embed_texts ::
  "settings \<Rightarrow> provider \<Rightarrow> datetime \<Rightarrow> string list \<Rightarrow> uuid option \<Rightarrow> txn option
     \<Rightarrow> real list list outcome \<times> txn option" where
  "embed_texts cfg prov now texts user_id session =
     (if texts = [] then (Inr [], session)
      else if py_startswith (embed_model cfg) openrouter_prefix then
        (case first_truthy (openrouter_api_key cfg) (p_env_key prov) of
           None \<Rightarrow> (Inl (PyError ''RuntimeError'' ''OPENROUTER_API_KEY is not set''), session)
         | Some k \<Rightarrow>
             if k = [] then (Inl (PyError ''RuntimeError'' ''OPENROUTER_API_KEY is not set''), session)
             else (p_openrouter_embedding prov (py_removeprefix (embed_model cfg) openrouter_prefix) texts, session))
      else
        (case p_embedding prov (embed_model cfg) texts of
           Inl e \<Rightarrow> (Inl e, session)
         | Inr resp \<Rightarrow>
             (let (prompt_tokens, completion_tokens) = usage_tokens (er_usage resp);
                  (_, session') = track_usage cfg (p_prices prov) now session (embed_model cfg)
                                    prompt_tokens completion_tokens None user_id
              in (er_vectors resp, session'))))"

text \<open>
  \<open>asyncio.gather\<close> over the batches: \<open>order\<close> is the order in which they finish. Each stores its
  vectors at its own index; the first failure is raised.
\<close>

fun run_batches :: "(string list \<Rightarrow> real list list outcome) \<Rightarrow> string list list \<Rightarrow> nat list
     \<Rightarrow> real list list list \<Rightarrow> real list list list outcome" where
  "run_batches emb batches [] results = Inr results"
| "run_batches emb batches (i # order) results =
     (case emb (batches ! i) of
        Inl e \<Rightarrow> Inl e
      | Inr vs \<Rightarrow> run_batches emb batches order (results[i := vs]))"

definition embed_texts_batched ::
  "settings \<Rightarrow> (string list \<Rightarrow> real list list outcome) \<Rightarrow> nat list \<Rightarrow> string list \<Rightarrow> real list list outcome" where
  "embed_texts_batched cfg emb order texts =
     (if texts = [] then Inr []
      else
        (let batches = windows (nat (max 1 (embed_batch_size cfg))) texts in
         if length batches = 1 then emb (hd batches)
         else map_sum id concat (run_batches emb batches order (replicate (length batches) []))))"

section \<open>Streaming\<close>

datatype stream_event = EvUsage int int | EvThinking string | EvAnswer string

definition chunk_events :: "stream_chunk \<Rightarrow> stream_event list" where
  "chunk_events ck =
     (case sc_usage ck of
        None \<Rightarrow> []
      | Some u \<Rightarrow> (case usage_tokens (Some u) of (p, c) \<Rightarrow> [EvUsage p c]))
   @ (case sc_choices ck of
        [] \<Rightarrow> []
      | delta # _ \<Rightarrow>
          (case first_truthy (sd_reasoning_attr delta) (first_truthy (sd_reasoning_content delta) (sd_reasoning delta)) of
             None \<Rightarrow> []
           | Some r \<Rightarrow> if r = [] then [] else [EvThinking r])
        @ (case sd_content delta of None \<Rightarrow> [] | Some t \<Rightarrow> if t = [] then [] else [EvAnswer t]))"

definition answer_stream :: "stream_chunk list \<Rightarrow> stream_event list" where
  "answer_stream cks = concat (map chunk_events cks)"

section \<open>Lemmas\<close>

lemma track_usage_session:
  "snd (track_usage cfg prices now session model p c mid uid) =
     map_option (\<lambda>t. txn_update (\<lambda>s. s\<lparr>usages := usages s @
       [\<lparr>us_message_id = mid, us_model = model, us_prompt_tokens = p, us_completion_tokens = c,
         us_cost_usd = compute_cost cfg prices model p c, us_user_id = uid, us_created_at = now\<rparr>]\<rparr>) t) session"
  by (simp add: track_usage_def Let_def split: option.split)

text \<open>A staged call touches the usage table of the working copy only.\<close>

definition only_usage :: "txn \<Rightarrow> txn \<Rightarrow> bool" where
  "only_usage t t' \<longleftrightarrow> committed t' = committed t \<and> (\<exists>us. working t' = (working t)\<lparr>usages := usages (working t) @ us\<rparr>)"

lemma only_usage_refl [simp]: "only_usage t t"
  unfolding only_usage_def by (intro conjI exI [of _ "[]"]) simp_all

lemma only_usage_trans: "only_usage a b \<Longrightarrow> only_usage b c \<Longrightarrow> only_usage a c"
  by (auto simp: only_usage_def)

lemma complete_only_usage:
  "\<exists>t'. snd (complete cfg prov now model system user mid uid (Some t)) = Some t' \<and> only_usage t t'"
  by (auto simp: complete_def Let_def track_usage_def only_usage_def case_prod_beta split: sum.split
      intro: exI [of _ "[]"])

lemma embed_texts_only_usage:
  "\<exists>t'. snd (embed_texts cfg prov now texts uid (Some t)) = Some t' \<and> only_usage t t'"
  by (auto simp: embed_texts_def Let_def track_usage_def case_prod_beta split: sum.split option.split)
     (auto simp: only_usage_def)

lemma run_batches_ok:
  assumes "\<And>b. b \<in> set batches \<Longrightarrow> emb b = Inr (f b)"
    and "set order \<subseteq> {..<length batches}" and "length results = length batches"
  shows "\<exists>out. run_batches emb batches order results = Inr out \<and> length out = length batches
     \<and> (\<forall>i<length batches. out ! i = (if i \<in> set order then f (batches ! i) else results ! i))"
  using assms(2,3)
proof (induction order arbitrary: results)
  case (Cons i order)
  then have i: "i < length batches" by simp
  then have "emb (batches ! i) = Inr (f (batches ! i))" by (simp add: assms(1))
  moreover obtain out where "run_batches emb batches order (results[i := f (batches ! i)]) = Inr out"
    "length out = length batches"
    "\<forall>j<length batches. out ! j = (if j \<in> set order then f (batches ! j) else results[i := f (batches ! i)] ! j)"
    using Cons.IH [of "results[i := f (batches ! i)]"] Cons.prems by auto
  ultimately show ?case using Cons.prems i by (auto simp: nth_list_update)
qed simp

text \<open>
  Batching is invisible: when the provider embeds every batch by embedding its texts one by
  one, \<open>embed_texts_batched\<close> returns the vectors of the texts in their order, whatever the
  batch size and whatever the order in which the concurrent batches finish.
\<close>

lemma embed_batches_in_order:
  assumes "\<forall>b\<in>set (windows (nat (max 1 (embed_batch_size cfg))) texts). emb b = Inr (map vec b)"
    and "set order = {..<length (windows (nat (max 1 (embed_batch_size cfg))) texts)}"
  shows "embed_texts_batched cfg emb order texts = Inr (map vec texts)"
proof (cases "texts = []")
  case False
  let ?bs = "windows (nat (max 1 (embed_batch_size cfg))) texts"
  show ?thesis
  proof (cases "length ?bs = 1")
    case True
    then obtain b where b: "?bs = [b]" by (metis One_nat_def length_0_conv length_Suc_conv)
    then have "b = texts" using concat_windows [of "nat (max 1 (embed_batch_size cfg))" texts] by simp
    with b False assms(1) show ?thesis by (simp add: embed_texts_batched_def Let_def)
  next
    case n1: False
    obtain out where out: "run_batches emb ?bs order (replicate (length ?bs) []) = Inr out"
      "length out = length ?bs" "\<forall>i<length ?bs. out ! i = map vec (?bs ! i)"
      using run_batches_ok [of ?bs emb "map vec" order "replicate (length ?bs) []"] assms by auto
    then have "out = map (map vec) ?bs" by (intro nth_equalityI) auto
    then have "concat out = map vec texts" by (simp flip: map_concat)
    with False n1 out(1) show ?thesis by (simp add: embed_texts_batched_def Let_def)
  qed
qed (simp add: embed_texts_batched_def)

lemma embed_batches_in_order_witness:
  "embed_texts_batched (default_settings\<lparr>embed_batch_size := 2\<rparr>) (\<lambda>b. Inr (map (\<lambda>t. [real (length t)]) b)) [1, 0] [''a'', ''bb'', ''ccc'']
     = Inr [[1], [2], [3]]"
proof -
  have w: "windows 2 [''a'', ''bb'', ''ccc''] = [[''a'', ''bb''], [''ccc'']]" by (simp add: windows.simps)
  then have "windows (nat (max 1 (embed_batch_size (default_settings\<lparr>embed_batch_size := 2\<rparr>)))) [''a'', ''bb'', ''ccc'']
      = [[''a'', ''bb''], [''ccc'']]" by simp
  moreover have "{Suc 0, 0} = {..<Suc (Suc 0)}" by auto
  ultimately show ?thesis
    using embed_batches_in_order [of "default_settings\<lparr>embed_batch_size := 2\<rparr>" "[''a'', ''bb'', ''ccc'']"
        "\<lambda>b. Inr (map (\<lambda>t. [real (length t)]) b)" "\<lambda>t. [real (length t)]" "[1, 0]"] by auto
qed

end
