(* ===== verification/Planning.thy ===== *)
theory Planning imports Llm Regex begin

text \<open>
  \<open>prorag/retrieve/plan.py\<close> and \<open>prorag/retrieve/prefill.py\<close>: turning the text a model returned
  into a retrieval plan and a refined prompt. \<open>json.loads\<close> is a parameter (a text gives a JSON
  value or some exception, \<open>RecursionError\<close> for deep nesting included), and so are the
  \<open>repr\<close> of floats and containers and the texts of the two system prompts.
\<close>

section \<open>JSON values\<close>

datatype json =
    JNull
  | JBool bool
  | JInt int
  | JFloat real
  | JStr string
  | JList "json list"
  | JObj "(string \<times> json) list"

text \<open>A repeated key keeps its last value.\<close>

definition jget :: "string \<Rightarrow> (string \<times> json) list \<Rightarrow> json option" where
  "jget k kvs = map_of (rev kvs) k"

fun truthy :: "json \<Rightarrow> bool" where
  "truthy JNull = False"
| "truthy (JBool b) = b"
| "truthy (JInt i) = (i \<noteq> 0)"
| "truthy (JFloat x) = (x \<noteq> 0)"
| "truthy (JStr s) = (s \<noteq> [])"
| "truthy (JList xs) = (xs \<noteq> [])"
| "truthy (JObj kvs) = (kvs \<noteq> [])"

record plan_env =
  pe_loads :: "string \<Rightarrow> json outcome"
  pe_repr :: "json \<Rightarrow> string"
  pe_plan_prompt :: string
  pe_prefill_prompt :: string

fun py_str :: "(json \<Rightarrow> string) \<Rightarrow> json \<Rightarrow> string" where
  "py_str rep JNull = ''None''"
| "py_str rep (JBool b) = (if b then ''True'' else ''False'')"
| "py_str rep (JInt i) = str_of_int i"
| "py_str rep (JStr s) = s"
| "py_str rep v = rep v"

section \<open>Code fences\<close>

text \<open>The pattern of both parsers, with \<open>re.DOTALL\<close>.\<close>

definition FENCE :: rx where
  "FENCE = RSeq (rstr ''```'') (RSeq (ROpt (rstr ''json'')) (RSeq (RStar (RCls is_space))
     (RSeq (RGroup (RLazy (RCls (\<lambda>_. True)))) (RSeq (RStar (RCls is_space)) (RSeq (rstr ''```'') REnd)))))"

definition unfence :: "string \<Rightarrow> string" where
  "unfence raw =
     (let text = py_strip raw in
      case rx_at_start FENCE text of Some (g # _) \<Rightarrow> py_strip g | _ \<Rightarrow> text)"

text \<open>The content of a reply may be \<open>None\<close>, which has no \<open>strip\<close>.\<close>

definition extract_json :: "(string \<Rightarrow> json outcome) \<Rightarrow> string option \<Rightarrow> json outcome" where
  "extract_json loads raw =
     (case raw of
        None \<Rightarrow> Inl (PyError ''AttributeError'' ''NoneType object has no attribute strip'')
      | Some t \<Rightarrow> loads (unfence t))"

section \<open>The planner\<close>

record plan_result =
  pr_search_needed :: bool
  pr_queries :: "string list"
  pr_mode :: string

definition fallback :: "string \<Rightarrow> plan_result" where
  "fallback query = \<lparr>pr_search_needed = True, pr_queries = [query, query], pr_mode = ''default''\<rparr>"

fun caught_by_plan :: "exn \<Rightarrow> bool" where
  "caught_by_plan (PyError c m) = (c = ''JSONDecodeError'' \<or> c = ''TypeError'')"
| "caught_by_plan (HTTPException n m) = False"

text \<open>Exactly two queries: the first two, or the first one twice.\<close>

fun pad_two :: "string list \<Rightarrow> string list" where
  "pad_two [] = []"
| "pad_two [q] = [q, q]"
| "pad_two (q1 # q2 # qs) = [q1, q2]"

definition plan_mode :: "(string \<times> json) list \<Rightarrow> string" where
  "plan_mode kvs =
     (case jget ''mode'' kvs of
        Some (JStr m) \<Rightarrow> if m \<in> {''default'', ''table''} then m else ''default''
      | _ \<Rightarrow> ''default'')"

definition plan_search_needed :: "(string \<times> json) list \<Rightarrow> bool" where
  "plan_search_needed kvs = (case jget ''search_needed'' kvs of None \<Rightarrow> True | Some v \<Rightarrow> truthy v)"

definition plan_of_data :: "plan_env \<Rightarrow> string \<Rightarrow> json \<Rightarrow> plan_result" where
  "plan_of_data env query data =
     (case data of
        JObj kvs \<Rightarrow>
          (case jget ''queries'' kvs of
             Some (JList (q # qs)) \<Rightarrow>
               \<lparr>pr_search_needed = plan_search_needed kvs,
                pr_queries = pad_two (map (py_str (pe_repr env)) (q # qs)),
                pr_mode = plan_mode kvs\<rparr>
           | _ \<Rightarrow> fallback query)
      | _ \<Rightarrow> fallback query)"

definition plan_of_raw :: "plan_env \<Rightarrow> string \<Rightarrow> string option \<Rightarrow> plan_result outcome" where
  "plan_of_raw env query raw =
     (case extract_json (pe_loads env) raw of
        Inl e \<Rightarrow> if caught_by_plan e then Inr (fallback query) else Inl e
      | Inr data \<Rightarrow> Inr (plan_of_data env query data))"

definition plan ::
  "settings \<Rightarrow> provider \<Rightarrow> plan_env \<Rightarrow> datetime \<Rightarrow> string \<Rightarrow> uuid option \<Rightarrow> txn option
     \<Rightarrow> plan_result outcome \<times> txn option" where
  "plan cfg prov env now query user_id session =
     (case plan_completion cfg prov now (pe_plan_prompt env) query user_id session of
        (Inl e, session') \<Rightarrow> (Inr (fallback query), session')
      | (Inr raw, session') \<Rightarrow> (plan_of_raw env query raw, session'))"

section \<open>The prefill agent\<close>

text \<open>\<open>data["cleaned"]\<close> and the tests after it; \<open>None\<close> where the code falls back to the query.\<close>

definition prefill_of_data :: "json \<Rightarrow> string option" where
  "prefill_of_data data =
     (case data of
        JObj kvs \<Rightarrow>
          (case jget ''cleaned'' kvs of
             Some (JStr cleaned) \<Rightarrow>
               if py_strip cleaned = [] then None
               else (case jget ''changed'' kvs of
                       Some v \<Rightarrow> if truthy v then Some cleaned else None
                     | None \<Rightarrow> None)
           | _ \<Rightarrow> None)
      | _ \<Rightarrow> None)"

definition prefill ::
  "settings \<Rightarrow> provider \<Rightarrow> plan_env \<Rightarrow> datetime \<Rightarrow> string \<Rightarrow> uuid option \<Rightarrow> txn option \<Rightarrow> string \<times> txn option" where
  "prefill cfg prov env now query user_id session =
     (if py_strip query = [] then (query, session)
      else
        (case prefill_completion cfg prov now (pe_prefill_prompt env) query user_id session of
           (Inl e, session') \<Rightarrow> (query, session')
         | (Inr raw, session') \<Rightarrow>
             (case extract_json (pe_loads env) raw of
                Inl e \<Rightarrow> (query, session')
              | Inr data \<Rightarrow> (case prefill_of_data data of None \<Rightarrow> query | Some c \<Rightarrow> c, session'))))"

section \<open>Lemmas\<close>

lemma pad_two_length: "qs \<noteq> [] \<Longrightarrow> length (pad_two qs) = 2"
  by (cases qs rule: pad_two.cases) auto

lemma plan_mode_range: "plan_mode kvs = ''default'' \<or> plan_mode kvs = ''table''"
  by (auto simp: plan_mode_def split: option.split json.split)

lemma plan_of_data_shape:
  "length (pr_queries (plan_of_data env query data)) = 2
   \<and> (pr_mode (plan_of_data env query data) = ''default'' \<or> pr_mode (plan_of_data env query data) = ''table'')"
  using plan_mode_range pad_two_length
  by (auto simp: plan_of_data_def fallback_def split: json.split option.split list.split)

lemma plan_Inr_shape:
  "fst (plan cfg prov env now query uid session) = Inr pr \<Longrightarrow>
     length (pr_queries pr) = 2 \<and> (pr_mode pr = ''default'' \<or> pr_mode pr = ''table'')"
  using plan_of_data_shape
  by (auto simp: plan_def plan_of_raw_def fallback_def split: prod.splits sum.splits if_splits)

lemma plan_only_usage:
  "\<exists>t'. snd (plan cfg prov env now query uid (Some t)) = Some t' \<and> only_usage t t'"
  using complete_only_usage [of cfg prov now "planner_model cfg" "pe_plan_prompt env" query None uid t]
  by (auto simp: plan_def plan_completion_def split: prod.split sum.split)

lemma prefill_only_usage:
  "\<exists>t'. snd (prefill cfg prov env now query uid (Some t)) = Some t' \<and> only_usage t t'"
  using complete_only_usage [of cfg prov now "prefill_model cfg" "pe_prefill_prompt env" query None uid t]
  by (auto simp: prefill_def prefill_completion_def split: prod.split sum.split)

section \<open>Properties\<close>

text \<open>
  The planner always yields a runnable plan: whatever the model returns, either the plan has
  exactly two queries and one of the two modes, or an exception escapes, and that happens only
  when the reply had no content (\<open>None\<close>) or when \<open>json.loads\<close> raised something other than
  \<open>JSONDecodeError\<close> and \<open>TypeError\<close>. Apart from the usage row the session is untouched.
\<close>

lemma plan_two_queries:
  "(case fst (plan cfg prov env now query uid (Some t)) of
      Inr pr \<Rightarrow> length (pr_queries pr) = 2 \<and> (pr_mode pr = ''default'' \<or> pr_mode pr = ''table'')
    | Inl e \<Rightarrow>
        fst (plan_completion cfg prov now (pe_plan_prompt env) query uid (Some t)) = Inr None
        \<or> (\<exists>raw. fst (plan_completion cfg prov now (pe_plan_prompt env) query uid (Some t)) = Inr (Some raw)
             \<and> pe_loads env (unfence raw) = Inl e \<and> \<not> caught_by_plan e))
   \<and> (\<exists>t'. snd (plan cfg prov env now query uid (Some t)) = Some t' \<and> only_usage t t')"
proof
  show "\<exists>t'. snd (plan cfg prov env now query uid (Some t)) = Some t' \<and> only_usage t t'"
    by (rule plan_only_usage)
  show "case fst (plan cfg prov env now query uid (Some t)) of
      Inr pr \<Rightarrow> length (pr_queries pr) = 2 \<and> (pr_mode pr = ''default'' \<or> pr_mode pr = ''table'')
    | Inl e \<Rightarrow>
        fst (plan_completion cfg prov now (pe_plan_prompt env) query uid (Some t)) = Inr None
        \<or> (\<exists>raw. fst (plan_completion cfg prov now (pe_plan_prompt env) query uid (Some t)) = Inr (Some raw)
             \<and> pe_loads env (unfence raw) = Inl e \<and> \<not> caught_by_plan e)"
  proof (cases "fst (plan cfg prov env now query uid (Some t))")
    case (Inr pr)
    with plan_Inr_shape [OF Inr] show ?thesis by simp
  next
    case (Inl e)
    then show ?thesis
      by (auto simp: plan_def plan_of_raw_def extract_json_def
          split: prod.splits sum.splits option.splits if_splits)
  qed
qed

text \<open>
  Prefill never worsens the request: the prompt it returns is the original one, or a
  non-blank text the model marked as changed; no reply and no exception of the model or of the
  parser escapes it.
\<close>

lemma prefill_safe:
  "fst (prefill cfg prov env now query uid session) = query
   \<or> (py_strip (fst (prefill cfg prov env now query uid session)) \<noteq> []
      \<and> (\<exists>raw kvs v. fst (prefill_completion cfg prov now (pe_prefill_prompt env) query uid session) = Inr (Some raw)
           \<and> pe_loads env (unfence raw) = Inr (JObj kvs)
           \<and> jget ''cleaned'' kvs = Some (JStr (fst (prefill cfg prov env now query uid session)))
           \<and> jget ''changed'' kvs = Some v \<and> truthy v))"
proof (cases "prefill_completion cfg prov now (pe_prefill_prompt env) query uid session")
  case (Pair r session')
  show ?thesis
  proof (cases "py_strip query = [] \<or> (\<exists>e. r = Inl e) \<or> r = Inr None")
    case True
    then show ?thesis using Pair by (auto simp: prefill_def extract_json_def)
  next
    case False
    then obtain raw where r: "r = Inr (Some raw)" "py_strip query \<noteq> []" by (cases r) auto
    show ?thesis
    proof (cases "pe_loads env (unfence raw)")
      case (Inr data)
      then have eq: "fst (prefill cfg prov env now query uid session) = (case prefill_of_data data of None \<Rightarrow> query | Some c \<Rightarrow> c)"
        using Pair r by (simp add: prefill_def extract_json_def)
      show ?thesis
      proof (cases "prefill_of_data data")
        case (Some c)
        then have "\<exists>kvs v. data = JObj kvs \<and> jget ''cleaned'' kvs = Some (JStr c) \<and> py_strip c \<noteq> []
            \<and> jget ''changed'' kvs = Some v \<and> truthy v"
          by (auto simp: prefill_of_data_def split: json.splits option.splits if_splits)
        then show ?thesis using eq Some Pair r(1) Inr by auto
      qed (use eq in simp)
    qed (use Pair r in \<open>simp add: prefill_def extract_json_def\<close>)
  qed
qed

text \<open>The planner's contract says it never raises; a reply without content shows it can.\<close>

lemma plan_raises_without_content:
  "plan_of_raw env query None = Inl (PyError ''AttributeError'' ''NoneType object has no attribute strip'')"
  by (simp add: plan_of_raw_def extract_json_def)

end
