(* ===== verification/Retrieval.thy ===== *)
theory Retrieval imports Arms Fusion Rerank Crop Citations Planning begin

text \<open>
  The hybrid pipeline: \<open>prorag/operations/retrieval.py\<close> (\<open>gather_hits\<close>, \<open>retrieve\<close>, \<open>to_source\<close>,
  \<open>build_prompt\<close>) and the debug endpoint of \<open>prorag/retrieve/router.py\<close>. The stages between the
  arms and the prompt share one interface, \<open>hit_stage\<close>: they return input hits, up to the
  score. From it and the contract of the arms every hit of an answer is one the user may see.
\<close>

section \<open>Gathering\<close>

text \<open>One arm over the planner's queries (or embeddings), in order; the first exception ends it.\<close>

fun run_arm :: "('q \<Rightarrow> conn \<Rightarrow> hit list outcome \<times> conn) \<Rightarrow> 'q list \<Rightarrow> conn \<Rightarrow> hit list list outcome \<times> conn" where
  "run_arm arm [] cn = (Inr [], cn)"
| "run_arm arm (q # qs) cn =
     (case arm q cn of
        (Inl err, cn') \<Rightarrow> (Inl err, cn')
      | (Inr hs, cn') \<Rightarrow>
          (case run_arm arm qs cn' of
             (Inl err, cn'') \<Rightarrow> (Inl err, cn'')
           | (Inr hss, cn'') \<Rightarrow> (Inr (hs # hss), cn'')))"

record gathered =
  ga_queries :: "string list"
  ga_vector :: "hit list list"
  ga_fts :: "hit list list"
  ga_structured :: "hit list list"
  ga_fused :: "hit list"

definition arm_weights :: "settings \<Rightarrow> hit list list \<Rightarrow> hit list list \<Rightarrow> hit list list \<Rightarrow> real list" where
  "arm_weights cfg vs fs ss =
     replicate (length vs) 1 @ replicate (length fs) 1 @ replicate (length ss) (structured_weight cfg)"

definition gather_hits ::
  "settings \<Rightarrow> engine \<Rightarrow> db \<Rightarrow> user option \<Rightarrow> plan_result \<Rightarrow> real list list \<Rightarrow> conn \<Rightarrow> gathered outcome \<times> conn" where
  "gather_hits cfg e s user pr embeddings cn =
     (let queries = pr_queries pr; k = rerank_top_n cfg in
      case run_arm (\<lambda>emb c. vector_search cfg e emb s user k c) embeddings cn of
        (Inl err, cn1) \<Rightarrow> (Inl err, cn1)
      | (Inr vs, cn1) \<Rightarrow>
          (case run_arm (\<lambda>q c. keyword_search e q s user k c) queries cn1 of
             (Inl err, cn2) \<Rightarrow> (Inl err, cn2)
           | (Inr fs, cn2) \<Rightarrow>
               (case (if pr_mode pr = ''table''
                      then run_arm (\<lambda>q c. structured_search e q None s user k c) queries cn2
                      else (Inr [], cn2)) of
                  (Inl err, cn3) \<Rightarrow> (Inl err, cn3)
                | (Inr ss, cn3) \<Rightarrow>
                    (case rrf_fuse (vs @ fs @ ss) (Some (arm_weights cfg vs fs ss)) of
                       Inl err \<Rightarrow> (Inl err, cn3)
                     | Inr fused \<Rightarrow>
                         (Inr \<lparr>ga_queries = queries, ga_vector = vs, ga_fts = fs, ga_structured = ss,
                               ga_fused = fused\<rparr>, cn3)))))"

section \<open>Retrieval\<close>

text \<open>What a request talks to besides the database rows.\<close>

record backend =
  be_provider :: provider
  be_env :: plan_env
  be_engine :: engine
  be_rerank :: rerank_endpoint

definition crop_params_of :: "settings \<Rightarrow> int \<Rightarrow> crop_params" where
  "crop_params_of cfg per_doc =
     \<lparr>min_docs = crop_min_docs cfg, max_docs = crop_max_docs cfg, max_chunks_per_doc = per_doc,
      score_floor = crop_score_floor cfg, token_budget = crop_token_budget cfg, min_chars = 150\<rparr>"

definition rank_and_crop :: "settings \<Rightarrow> backend \<Rightarrow> int \<Rightarrow> string \<Rightarrow> hit list \<Rightarrow> hit list \<times> hit list" where
  "rank_and_crop cfg be per_doc query fused =
     (let reranked = rerank cfg (p_env_key (be_provider be)) (be_rerank be) query
                       (py_slice fused 0 (rerank_top_n cfg)) in
      (reranked, crop_context (crop_params_of cfg per_doc) reranked))"

text \<open>
  From the plan on: embed, gather, rank and crop. Staged usage is committed at the end; an
  exception leaves the transaction to the caller.
\<close>

definition retrieve_planned ::
  "settings \<Rightarrow> backend \<Rightarrow> datetime \<Rightarrow> user option \<Rightarrow> string \<Rightarrow> plan_result \<Rightarrow> txn
     \<Rightarrow> (hit list \<times> string) outcome \<times> txn" where
  "retrieve_planned cfg be now user cleaned pr t =
     (let (embedded, t') = apsnd the (embed_texts cfg (be_provider be) now (pr_queries pr) (map_option u_id user) (Some t)) in
      case embedded of
        Inl err \<Rightarrow> (Inl err, t')
      | Inr embeddings \<Rightarrow>
          (case fst (gather_hits cfg (be_engine be) (working t') user pr embeddings Live) of
             Inl err \<Rightarrow> (Inl err, t')
           | Inr g \<Rightarrow>
               (Inr (snd (rank_and_crop cfg be (crop_max_chunks_per_doc cfg) (hd (ga_queries g)) (ga_fused g)), cleaned),
                txn_commit t')))"

definition retrieve ::
  "settings \<Rightarrow> backend \<Rightarrow> datetime \<Rightarrow> string \<Rightarrow> user option \<Rightarrow> txn \<Rightarrow> (hit list \<times> string) outcome \<times> txn" where
  "retrieve cfg be now message user t =
     (let user_id = map_option u_id user;
          (cleaned, t1) = (if prefill_enabled cfg
                           then apsnd the (prefill cfg (be_provider be) (be_env be) now message user_id (Some t))
                           else (message, t));
          (planned, t2) = apsnd the (plan cfg (be_provider be) (be_env be) now cleaned user_id (Some t1))
      in case planned of
        Inl err \<Rightarrow> (Inl err, t2)
      | Inr pr \<Rightarrow> retrieve_planned cfg be now user cleaned pr t2)"

section \<open>Sources and the prompt\<close>

record source =
  so_n :: nat
  so_doc_id :: uuid
  so_page :: "int option"
  so_file_url :: string
  so_snippet :: string
  so_score :: real
  so_title :: "string option"
  so_kind :: "string option"
  so_bbox :: "real list option"

text \<open>\<open>str(uuid)\<close>: 32 hexadecimal digits in groups of 8, 4, 4, 4 and 12.\<close>

definition hex_digit :: "nat \<Rightarrow> char" where
  "hex_digit n = ''0123456789abcdef'' ! (n mod 16)"

definition hex_text :: "nat \<Rightarrow> nat \<Rightarrow> string" where
  "hex_text width n = map (\<lambda>i. hex_digit (n div 16 ^ (width - 1 - i))) [0..<width]"

definition uuid_text :: "uuid \<Rightarrow> string" where
  "uuid_text u =
     (let h = hex_text 32 u in
      take 8 h @ ''-'' @ take 4 (drop 8 h) @ ''-'' @ take 4 (drop 12 h) @ ''-'' @ take 4 (drop 16 h) @ ''-'' @ drop 20 h)"

text \<open>A hit without a document id fails the validation of \<open>Source\<close>.\<close>

definition to_source :: "nat \<Rightarrow> hit \<Rightarrow> source outcome" where
  "to_source n h =
     (case h_doc_id h of
        None \<Rightarrow> Inl (PyError ''ValidationError'' ''doc_id'')
      | Some doc \<Rightarrow>
          Inr \<lparr>so_n = n, so_doc_id = doc, so_page = h_page h,
               so_file_url = ''/files/'' @ uuid_text doc @ ''/original''
                 @ (case h_page h of None \<Rightarrow> [] | Some p \<Rightarrow> if p = 0 then [] else ''#page='' @ str_of_int p),
               so_snippet = take 300 (h_text h), so_score = h_score h, so_title = h_title h,
               so_kind = h_kind h, so_bbox = h_bbox h\<rparr>)"

definition build_prompt :: "string \<Rightarrow> hit list \<Rightarrow> string" where
  "build_prompt message hits =
     ''Context:'' @ [CHR 0x0A] @ build_context_block hits @ [CHR 0x0A, CHR 0x0A] @ ''Question: '' @ message"

section \<open>The search endpoint\<close>

record search_response =
  sr_plan :: plan_result
  sr_gathered :: gathered
  sr_fused :: "hit list"
  sr_reranked :: "hit list"
  sr_cropped :: "hit list"

text \<open>
  \<open>GET /search\<close>: the cost of its calls has no user, the crop has its default of three chunks per
  document, and the request's session is closed at the end without a commit.
\<close>

definition search ::
  "settings \<Rightarrow> backend \<Rightarrow> datetime \<Rightarrow> string \<Rightarrow> int \<Rightarrow> user option \<Rightarrow> txn \<Rightarrow> search_response outcome \<times> txn" where
  "search cfg be now q k user t =
     (let prov = be_provider be;
          (planned, t1) = apsnd the (plan cfg prov (be_env be) now q None (Some t))
      in case planned of
        Inl err \<Rightarrow> (Inl err, txn_rollback t1)
      | Inr pr \<Rightarrow>
          (let (embedded, t2) = apsnd the (embed_texts cfg prov now (pr_queries pr) None (Some t1)) in
           case embedded of
             Inl err \<Rightarrow> (Inl err, txn_rollback t2)
           | Inr embeddings \<Rightarrow>
               (case fst (gather_hits cfg (be_engine be) (working t2) user pr embeddings Live) of
                  Inl err \<Rightarrow> (Inl err, txn_rollback t2)
                | Inr g \<Rightarrow>
                    (let (reranked, cropped) = rank_and_crop cfg be 3 (hd (ga_queries g)) (ga_fused g) in
                     (Inr \<lparr>sr_plan = pr, sr_gathered = g, sr_fused = py_slice (ga_fused g) 0 k,
                           sr_reranked = py_slice reranked 0 k, sr_cropped = cropped\<rparr>, txn_rollback t2)))))"

section \<open>Stages\<close>

lemma same_hit_trans: "same_hit a b \<Longrightarrow> same_hit b c \<Longrightarrow> same_hit a c"
  by (simp add: same_hit_def)

locale hit_stage =
  fixes stage :: "hit list \<Rightarrow> hit list"
  assumes members: "h \<in> set (stage hs) \<Longrightarrow> \<exists>h0\<in>set hs. same_hit h h0"
begin

lemma keeps:
  assumes "list_all P hs" and "\<And>h h0. same_hit h h0 \<Longrightarrow> P h0 \<Longrightarrow> P h"
  shows "list_all P (stage hs)"
  using assms members by (metis list_all_iff)

lemma of_empty: "stage [] = []"
  using members [of _ "[]"] by (cases "stage []") auto

end

locale hit_pipeline = first: hit_stage f + second: hit_stage g
  for f g :: "hit list \<Rightarrow> hit list"

sublocale hit_pipeline \<subseteq> both: hit_stage "\<lambda>hs. g (f hs)"
  by unfold_locales (meson first.members second.members same_hit_trans)

interpretation reranking: hit_stage "rerank cfg env_key api query"
  by unfold_locales (rule rerank_members)

interpretation cropping: hit_stage "crop_context p"
proof
  fix h hs
  assume "h \<in> set (crop_context p hs)"
  then have "h \<in> set hs" by (rule crop_context_members)
  then show "\<exists>h0\<in>set hs. same_hit h h0" by (intro bexI [of _ h]) simp_all
qed

interpretation slicing: hit_stage "\<lambda>hs. py_slice hs a b"
proof
  fix h :: hit and hs
  assume "h \<in> set (py_slice hs a b)"
  then have "h \<in> set hs" by (rule subsetD [OF set_py_slice])
  then show "\<exists>h0\<in>set hs. same_hit h h0" by (intro bexI [of _ h]) simp_all
qed

interpretation rank_slice: hit_pipeline "\<lambda>hs. py_slice hs a b" "rerank cfg env_key api query"
  by unfold_locales

interpretation full: hit_pipeline "\<lambda>hs. rerank cfg env_key api query (py_slice hs a b)" "crop_context p"
  by (intro hit_pipeline.intro rank_slice.both.hit_stage_axioms cropping.hit_stage_axioms)

lemma rank_and_crop_keeps:
  assumes "list_all P fused" and "\<And>h h0. same_hit h h0 \<Longrightarrow> P h0 \<Longrightarrow> P h"
  shows "list_all P (fst (rank_and_crop cfg be n q fused)) \<and> list_all P (snd (rank_and_crop cfg be n q fused))"
  unfolding rank_and_crop_def Let_def fst_conv snd_conv
  using full.both.keeps [of P fused] rank_slice.both.keeps [of P fused] assms by blast

section \<open>What the gathering stage returns\<close>

lemma legal_same_hit: "same_hit h h0 \<Longrightarrow> legal_hit s user h0 \<Longrightarrow> legal_hit s user h"
  using same_hit_doc [of h h0] by (simp add: legal_hit_def)

lemma run_arm_all:
  assumes "\<And>q cn hs cn'. arm q cn = (Inr hs, cn') \<Longrightarrow> list_all P hs"
    and "fst (run_arm arm qs cn) = Inr hss"
  shows "list_all (list_all P) hss \<and> length hss = length qs"
  using assms(2)
proof (induction qs arbitrary: cn hss)
  case (Cons q qs)
  obtain r cn1 where r: "arm q cn = (r, cn1)" by (cases "arm q cn")
  obtain r2 cn2 where r2: "run_arm arm qs cn1 = (r2, cn2)" by (cases "run_arm arm qs cn1")
  from Cons.prems r r2 obtain hs hss' where eqs: "r = Inr hs" "r2 = Inr hss'" "hss = hs # hss'"
    by (cases r; cases r2) auto
  then have "list_all P hs" using r assms(1) by blast
  moreover have "list_all (list_all P) hss' \<and> length hss' = length qs"
    using Cons.IH [of cn1 hss'] r2 eqs by simp
  ultimately show ?case using eqs by simp
qed simp

lemma gather_hits_Inr:
  assumes "fst (gather_hits cfg e s user pr embeddings cn) = Inr g"
  shows "\<exists>vs fs ss c1 c2.
      fst (run_arm (\<lambda>emb c. vector_search cfg e emb s user (rerank_top_n cfg) c) embeddings cn) = Inr vs
    \<and> fst (run_arm (\<lambda>q c. keyword_search e q s user (rerank_top_n cfg) c) (pr_queries pr) c1) = Inr fs
    \<and> (ss = [] \<or> fst (run_arm (\<lambda>q c. structured_search e q None s user (rerank_top_n cfg) c) (pr_queries pr) c2) = Inr ss)
    \<and> rrf_fuse (vs @ fs @ ss) (Some (arm_weights cfg vs fs ss)) = Inr (ga_fused g)
    \<and> ga_queries g = pr_queries pr \<and> ga_vector g = vs \<and> ga_fts g = fs \<and> ga_structured g = ss"
proof -
  obtain vs c1 where v: "run_arm (\<lambda>emb c. vector_search cfg e emb s user (rerank_top_n cfg) c) embeddings cn = (Inr vs, c1)"
    using assms by (auto simp: gather_hits_def Let_def split: prod.splits sum.splits)
  obtain fs c2 where f: "run_arm (\<lambda>q c. keyword_search e q s user (rerank_top_n cfg) c) (pr_queries pr) c1 = (Inr fs, c2)"
    using assms v by (auto simp: gather_hits_def Let_def split: prod.splits sum.splits)
  obtain ss c3 where st: "(if pr_mode pr = ''table''
      then run_arm (\<lambda>q c. structured_search e q None s user (rerank_top_n cfg) c) (pr_queries pr) c2
      else (Inr [], c2)) = (Inr ss, c3)"
    using assms v f by (auto simp: gather_hits_def Let_def split: prod.splits sum.splits)
  obtain fused where r: "rrf_fuse (vs @ fs @ ss) (Some (arm_weights cfg vs fs ss)) = Inr fused"
    using assms v f st by (auto simp: gather_hits_def Let_def split: sum.splits)
  have "g = \<lparr>ga_queries = pr_queries pr, ga_vector = vs, ga_fts = fs, ga_structured = ss, ga_fused = fused\<rparr>"
    using assms v f st r by (simp add: gather_hits_def Let_def)
  moreover have "ss = [] \<or> fst (run_arm (\<lambda>q c. structured_search e q None s user (rerank_top_n cfg) c) (pr_queries pr) c2) = Inr ss"
    using st by (cases "pr_mode pr = ''table''") auto
  ultimately show ?thesis using v f r
    by (intro exI [of _ vs] exI [of _ fs] exI [of _ ss] exI [of _ c1] exI [of _ c2]) simp
qed

lemma gather_hits_legal:
  assumes "fst (gather_hits cfg e s user pr embeddings cn) = Inr g"
  shows "list_all (legal_hit s user) (ga_fused g)"
    and "list_all (list_all (legal_hit s user)) (ga_vector g @ ga_fts g @ ga_structured g)"
proof -
  obtain vs fs ss c1 c2 where g:
    "fst (run_arm (\<lambda>emb c. vector_search cfg e emb s user (rerank_top_n cfg) c) embeddings cn) = Inr vs"
    "fst (run_arm (\<lambda>q c. keyword_search e q s user (rerank_top_n cfg) c) (pr_queries pr) c1) = Inr fs"
    "ss = [] \<or> fst (run_arm (\<lambda>q c. structured_search e q None s user (rerank_top_n cfg) c) (pr_queries pr) c2) = Inr ss"
    "rrf_fuse (vs @ fs @ ss) (Some (arm_weights cfg vs fs ss)) = Inr (ga_fused g)"
    "ga_vector g = vs" "ga_fts g = fs" "ga_structured g = ss"
    using gather_hits_Inr [OF assms] by blast
  have "list_all (list_all (legal_hit s user)) vs"
    using run_arm_all [OF _ g(1), of "legal_hit s user"] vector.legal by (auto simp: list_all_iff)
  moreover have "list_all (list_all (legal_hit s user)) fs"
    using run_arm_all [OF _ g(2), of "legal_hit s user"] keyword.legal by (auto simp: list_all_iff)
  moreover have "list_all (list_all (legal_hit s user)) ss"
    using g(3) run_arm_all [of "\<lambda>q c. structured_search e q None s user (rerank_top_n cfg) c" "legal_hit s user" "pr_queries pr" c2 ss]
      structured.legal by (auto simp: list_all_iff)
  ultimately have all: "list_all (list_all (legal_hit s user)) (vs @ fs @ ss)" by simp
  then show "list_all (list_all (legal_hit s user)) (ga_vector g @ ga_fts g @ ga_structured g)"
    by (simp add: g(5-7))
  show "list_all (legal_hit s user) (ga_fused g)"
    unfolding list_all_iff
  proof
    fix h
    assume "h \<in> set (ga_fused g)"
    from rrf_fuse_members [OF g(4) this] obtain h0 x where
      "h0 \<in> set (concat (vs @ fs @ ss))" "h = h0\<lparr>h_score := x\<rparr>" by blast
    moreover from this(1) have "legal_hit s user h0" using all by (auto simp: list_all_iff)
    ultimately show "legal_hit s user h" using legal_same_hit [OF same_hit_score] by simp
  qed
qed

text \<open>Usage rows play no part in visibility.\<close>

lemma legal_hit_usages [db_simps]: "legal_hit (s\<lparr>usages := us\<rparr>) user h = legal_hit s user h"
proof -
  have a: "acl_grants (s\<lparr>usages := us\<rparr>) = acl_grants s"
    by (intro ext) (simp add: acl_grants_def group_ids_of_def split: principal.split)
  have "sees (s\<lparr>usages := us\<rparr>) user doc = sees s user doc" for doc
    by (cases user) (simp_all add: sees_def visibility_clause_def a)
  moreover have "joined (s\<lparr>usages := us\<rparr>) = joined s" by (simp add: joined_def)
  ultimately show ?thesis by (simp add: legal_hit_def)
qed

lemma legal_hit_only_usage: "only_usage t t' \<Longrightarrow> legal_hit (working t') user h = legal_hit (working t) user h"
  by (auto simp: only_usage_def legal_hit_usages)

text \<open>The LLM steps of a request only stage usage rows.\<close>

lemma prefill_step:
  assumes "(cleaned, t1) = (if b then apsnd the (prefill cfg prov env now q uid (Some t)) else (q, t))"
  shows "only_usage t t1"
  using assms prefill_only_usage [of cfg prov env now q uid t]
  by (cases b; cases "prefill cfg prov env now q uid (Some t)") auto

lemma plan_step:
  assumes "(planned, t2) = apsnd the (plan cfg prov env now q uid (Some t1))"
  shows "only_usage t1 t2 \<and> planned = fst (plan cfg prov env now q uid (Some t1))"
  using assms plan_only_usage [of cfg prov env now q uid t1]
  by (cases "plan cfg prov env now q uid (Some t1)") auto

lemma embed_step:
  assumes "(embedded, t3) = apsnd the (embed_texts cfg prov now qs uid (Some t2))"
  shows "only_usage t2 t3"
  using assms embed_texts_only_usage [of cfg prov now qs uid t2]
  by (cases "embed_texts cfg prov now qs uid (Some t2)") auto

text \<open>The course of a retrieval: it fails with staged usage only, or commits after the crop.\<close>

lemma retrieve_planned_cases:
  obtains (fails) err t3 where "retrieve_planned cfg be now user cleaned pr t = (Inl err, t3)" "only_usage t t3"
    | (ok) t3 embeddings g where
      "retrieve_planned cfg be now user cleaned pr t =
         (Inr (snd (rank_and_crop cfg be (crop_max_chunks_per_doc cfg) (hd (ga_queries g)) (ga_fused g)), cleaned), txn_commit t3)"
      "only_usage t t3"
      "fst (gather_hits cfg (be_engine be) (working t3) user pr embeddings Live) = Inr g"
proof -
  obtain embedded t3 where s3: "(embedded, t3) =
      apsnd the (embed_texts cfg (be_provider be) now (pr_queries pr) (map_option u_id user) (Some t))"
    by (metis surj_pair)
  note r = retrieve_planned_def [of cfg be now user cleaned pr t, unfolded s3 [symmetric] Let_def prod.case]
  show ?thesis
  proof (cases embedded)
    case (Inl err)
    then show ?thesis using fails [of err t3] r embed_step [OF s3] by simp
  next
    case (Inr embeddings)
    then show ?thesis
      using fails ok [of g t3 embeddings for g] r embed_step [OF s3]
      by (cases "fst (gather_hits cfg (be_engine be) (working t3) user pr embeddings Live)") auto
  qed
qed

lemma retrieve_cases:
  obtains (fails) err t3 where "retrieve cfg be now message user t = (Inl err, t3)" "only_usage t t3"
    | (ok) t3 pr embeddings g cleaned where
      "retrieve cfg be now message user t =
         (Inr (snd (rank_and_crop cfg be (crop_max_chunks_per_doc cfg) (hd (ga_queries g)) (ga_fused g)), cleaned), txn_commit t3)"
      "only_usage t t3" "length (pr_queries pr) = 2"
      "fst (gather_hits cfg (be_engine be) (working t3) user pr embeddings Live) = Inr g"
proof -
  let ?prov = "be_provider be" and ?env = "be_env be" and ?uid = "map_option u_id user"
  obtain cl t1 where s1: "(cl, t1) = (if prefill_enabled cfg
      then apsnd the (prefill cfg ?prov ?env now message ?uid (Some t)) else (message, t))"
    by (metis surj_pair)
  obtain planned t2 where s2: "(planned, t2) = apsnd the (plan cfg ?prov ?env now cl ?uid (Some t1))"
    by (metis surj_pair)
  have r: "retrieve cfg be now message user t = (case planned of
        Inl err \<Rightarrow> (Inl err, t2) | Inr pr \<Rightarrow> retrieve_planned cfg be now user cl pr t2)"
    unfolding retrieve_def Let_def s1 [symmetric] prod.case s2 [symmetric] ..
  have u: "only_usage t t2" using prefill_step [OF s1] plan_step [OF s2] only_usage_trans by blast
  show ?thesis
  proof (cases planned)
    case (Inl err)
    then show ?thesis using fails [of err t2] r u by simp
  next
    case (Inr pr)
    have two: "length (pr_queries pr) = 2"
      using plan_Inr_shape [of cfg ?prov ?env now cl ?uid "Some t1" pr] plan_step [OF s2] Inr by simp
    show ?thesis
    proof (cases rule: retrieve_planned_cases [of cfg be now user cl pr t2])
      case (fails err t3)
      then show ?thesis using that(1) [of err t3] r Inr u only_usage_trans by simp
    next
      case (ok t3 embeddings g)
      then show ?thesis using that(2) [where pr = pr and embeddings = embeddings and g = g and cleaned = cl and ?t3.0 = t3]
          r Inr u two only_usage_trans [OF u] by simp
    qed
  qed
qed

section \<open>Sources\<close>

lemma legal_hit_doc: "legal_hit s user h \<Longrightarrow> h_doc_id h \<noteq> None"
  by (auto simp: legal_hit_def list_ex_iff)

lemma to_source_ok: "h_doc_id h = Some doc \<Longrightarrow> \<exists>so. to_source n h = Inr so \<and> so_n so = n \<and> so_doc_id so = doc \<and> so_score so = h_score h"
  by (simp add: to_source_def)

section \<open>Properties\<close>

text \<open>
  C1. Access control holds end to end: whatever the models, the embedding provider, the search
  engine and the reranker answer, every chunk that \<open>retrieve\<close> hands to the prompt belongs to a
  ready document the user may see, and has the document id its source needs.
\<close>

theorem retrieve_only_visible:
  "case fst (retrieve cfg be now message user t) of
     Inl _ \<Rightarrow> True
   | Inr (hits, cleaned) \<Rightarrow>
       list_all (\<lambda>h. legal_hit (working t) user h \<and> is_ok (to_source n h)) hits"
proof (cases rule: retrieve_cases [of cfg be now message user t])
  case (ok t3 pr embeddings g cleaned)
  let ?hits = "snd (rank_and_crop cfg be (crop_max_chunks_per_doc cfg) (hd (ga_queries g)) (ga_fused g))"
  have "list_all (legal_hit (working t3) user) ?hits"
    using rank_and_crop_keeps [OF gather_hits_legal(1) [OF ok(4)] legal_same_hit] by simp
  moreover have "legal_hit (working t3) user = legal_hit (working t) user"
    by (intro ext) (rule legal_hit_only_usage [OF ok(2)])
  ultimately have "list_all (legal_hit (working t) user) ?hits" by simp
  then have "list_all (\<lambda>h. legal_hit (working t) user h \<and> is_ok (to_source n h)) ?hits"
    using legal_hit_doc by (fastforce simp: list_all_iff to_source_def split: option.split)
  with ok(1) show ?thesis by simp
qed simp

text \<open>
  Retrieval is read-only up to cost tracking: on success the transaction is committed and the
  database has changed by appended usage rows only, so the cost of planning survives a failed
  answer; on an exception nothing is committed. The context has at most \<open>crop_max_docs\<close> chunks.
\<close>

lemma retrieve_commits_usage:
  assumes "crop_params_ok (crop_params_of cfg (crop_max_chunks_per_doc cfg))"
  shows "case retrieve cfg be now message user t of
     (Inl e, t') \<Rightarrow> committed t' = committed t
   | (Inr (hits, cleaned), t') \<Rightarrow>
       (\<exists>us. committed t' = (working t)\<lparr>usages := usages (working t) @ us\<rparr>) \<and> working t' = committed t'
       \<and> int (length hits) \<le> crop_max_docs cfg"
proof (cases rule: retrieve_cases [of cfg be now message user t])
  case (fails err t3)
  then show ?thesis by (simp add: only_usage_def)
next
  case (ok t3 pr embeddings g cleaned)
  have "int (length (snd (rank_and_crop cfg be (crop_max_chunks_per_doc cfg) (hd (ga_queries g)) (ga_fused g))))
      \<le> max_docs (crop_params_of cfg (crop_max_chunks_per_doc cfg))"
    unfolding rank_and_crop_def Let_def snd_conv using assms by (rule crop_context_length)
  with ok(1,2) show ?thesis by (auto simp: only_usage_def crop_params_of_def)
qed

definition silent_provider :: provider where
  "silent_provider = \<lparr>p_completion = (\<lambda>m s u. Inl (PyError ''Timeout'' [])),
     p_embedding = (\<lambda>m ts. Inr \<lparr>er_usage = Some (Some 2, None), er_vectors = Inr (map (\<lambda>_. [1, 0]) ts)\<rparr>),
     p_openrouter_embedding = (\<lambda>m ts. Inl (PyError ''Timeout'' [])), p_prices = (\<lambda>m p c. Inr None),
     p_token_counter = (\<lambda>m t. Inr 0), p_env_key = None\<rparr>"

definition sample_backend :: backend where
  "sample_backend = \<lparr>be_provider = silent_provider,
     be_env = \<lparr>pe_loads = (\<lambda>t. Inl (PyError ''JSONDecodeError'' [])), pe_repr = (\<lambda>_. []),
       pe_plan_prompt = [], pe_prefill_prompt = []\<rparr>,
     be_engine = sample_engine, be_rerank = (\<lambda>q ds. Inl (PyError ''Timeout'' []))\<rparr>"

lemma retrieve_commits_usage_witness:
  "crop_params_ok (crop_params_of default_settings (crop_max_chunks_per_doc default_settings))
   \<and> (case retrieve default_settings sample_backend 0 ''drills'' None (begin_txn sample_db) of
     (Inl e, t') \<Rightarrow> committed t' = sample_db
   | (Inr (hits, cleaned), t') \<Rightarrow>
       (\<exists>us. committed t' = sample_db\<lparr>usages := usages sample_db @ us\<rparr>) \<and> working t' = committed t'
       \<and> int (length hits) \<le> crop_max_docs default_settings)"
proof
  show ok: "crop_params_ok (crop_params_of default_settings (crop_max_chunks_per_doc default_settings))"
    by (simp add: crop_params_ok_def crop_params_of_def default_settings_def)
  show "case retrieve default_settings sample_backend 0 ''drills'' None (begin_txn sample_db) of
     (Inl e, t') \<Rightarrow> committed t' = sample_db
   | (Inr (hits, cleaned), t') \<Rightarrow>
       (\<exists>us. committed t' = sample_db\<lparr>usages := usages sample_db @ us\<rparr>) \<and> working t' = committed t'
       \<and> int (length hits) \<le> crop_max_docs default_settings"
    using retrieve_commits_usage [OF ok, where be = sample_backend and now = 0 and message = "''drills''"
        and user = None and t = "begin_txn sample_db"]
    by (cases "retrieve default_settings sample_backend 0 ''drills'' None (begin_txn sample_db)"; cases "fst (retrieve default_settings sample_backend 0 ''drills'' None (begin_txn sample_db))")
       (auto split: prod.split)
qed

text \<open>
  The search endpoint shows nothing the user may not see, in any of its lists: the arms, the
  fused, the reranked and the cropped hits are all legal. It leaves the database as it was: the
  usage rows staged for its planner and embedding calls are dropped with the session.
\<close>

lemma search_only_visible:
  "(case fst (search cfg be now q k user t) of
      Inl _ \<Rightarrow> True
    | Inr r \<Rightarrow>
        list_all (legal_hit (working t) user)
          (concat (ga_vector (sr_gathered r) @ ga_fts (sr_gathered r) @ ga_structured (sr_gathered r))
           @ sr_fused r @ sr_reranked r @ sr_cropped r))
   \<and> committed (snd (search cfg be now q k user t)) = committed t
   \<and> working (snd (search cfg be now q k user t)) = committed t"
proof -
  let ?prov = "be_provider be" and ?env = "be_env be"
  obtain planned t1 where s1: "(planned, t1) = apsnd the (plan cfg ?prov ?env now q None (Some t))"
    by (metis surj_pair)
  have u1: "only_usage t t1" using plan_step [OF s1] by blast
  note r1 = search_def [of cfg be now q k user t, unfolded s1 [symmetric] Let_def prod.case]
  show ?thesis
  proof (cases planned)
    case (Inl err)
    with r1 u1 show ?thesis by (simp add: only_usage_def)
  next
    case (Inr pr)
    obtain embedded t2 where s2: "(embedded, t2) = apsnd the (embed_texts cfg ?prov now (pr_queries pr) None (Some t1))"
      by (metis surj_pair)
    have u2: "only_usage t t2" using u1 embed_step [OF s2] only_usage_trans by blast
    then have c2: "committed t2 = committed t" by (simp add: only_usage_def)
    note r2 = r1 [unfolded Inr sum.case s2 [symmetric] Let_def prod.case]
    show ?thesis
    proof (cases embedded)
      case (Inl err)
      with r2 c2 show ?thesis by simp
    next
      case em: (Inr embeddings)
      show ?thesis
      proof (cases "fst (gather_hits cfg (be_engine be) (working t2) user pr embeddings Live)")
        case (Inl err)
        with r2 em c2 show ?thesis by simp
      next
        case g: (Inr g)
        note legal = gather_hits_legal [OF g]
        have k: "list_all (legal_hit (working t2) user) (fst (rank_and_crop cfg be 3 q' (ga_fused g)))
            \<and> list_all (legal_hit (working t2) user) (snd (rank_and_crop cfg be 3 q' (ga_fused g)))" for q'
          by (rule rank_and_crop_keeps [OF legal(1) legal_same_hit])
        have sl: "list_all (legal_hit (working t2) user) hs \<Longrightarrow> list_all (legal_hit (working t2) user) (py_slice hs 0 k)" for hs
          using slicing.keeps [of "legal_hit (working t2) user" hs 0 k] legal_same_hit by blast
        have eq: "legal_hit (working t2) user = legal_hit (working t) user"
          by (intro ext) (rule legal_hit_only_usage [OF u2])
        have "list_all (legal_hit (working t2) user)
          (concat (ga_vector g @ ga_fts g @ ga_structured g) @ py_slice (ga_fused g) 0 k
           @ py_slice (fst (rank_and_crop cfg be 3 (hd (ga_queries g)) (ga_fused g))) 0 k
           @ snd (rank_and_crop cfg be 3 (hd (ga_queries g)) (ga_fused g)))"
          using legal sl [OF legal(1)] sl [OF conjunct1 [OF k]] k by (auto simp: list_all_iff)
        then show ?thesis unfolding eq using r2 em g c2 by (simp add: case_prod_beta)
      qed
    qed
  qed
qed

end
