(* ===== verification/Token_Guard.thy ===== *)
theory Token_Guard imports PyStr begin

text \<open>
  \<open>prorag/chat/stream.py\<close>: the SSE framing and the guard that decides which part of a streamed
  answer is safe to emit. The guard is compared with a direct description of its output as a
  function of the whole text, from which splitting, losslessness and truncation follow.
\<close>

section \<open>Framing\<close>

definition newline :: char where
  "newline = CHR 0x0A"

text \<open>\<open>json.dumps\<close> of the payload is an argument.\<close>

definition sse_event :: "string \<Rightarrow> string \<Rightarrow> string" where
  "sse_event event dumped = ''event: '' @ event @ [newline] @ ''data: '' @ dumped @ [newline, newline]"

definition sse_retry :: "nat \<Rightarrow> string" where
  "sse_retry ms = ''retry: '' @ str_of_nat ms @ [newline, newline]"

definition sse_comment :: "string \<Rightarrow> string" where
  "sse_comment text = '': '' @ text @ [newline, newline]"

section \<open>The guard\<close>

definition WHITESPACE_RUNAWAY_LIMIT :: int where
  "WHITESPACE_RUNAWAY_LIMIT = 200"

definition TRUNCATION_NOTICE :: string where
  "TRUNCATION_NOTICE = [newline, newline] @ ''_[response truncated: repeated whitespace]_''"

record guard =
  whitespace_limit :: int
  pending :: string
  ws_run :: int
  finished :: bool

definition new_guard :: "int \<Rightarrow> guard" where
  "new_guard n = \<lparr>whitespace_limit = n, pending = [], ws_run = 0, finished = False\<rparr>"

lemma new_guard_simps [simp]:
  "whitespace_limit (new_guard n) = n" "pending (new_guard n) = []"
  "ws_run (new_guard n) = 0" "\<not> finished (new_guard n)"
  by (simp_all add: new_guard_def)

text \<open>\<open>self.pending.lstrip().startswith("|")\<close>.\<close>

definition looks_like_row :: "string \<Rightarrow> bool" where
  "looks_like_row s = py_startswith (py_lstrip s) ''|''"

text \<open>The loop over the characters of one token: what is emitted and the state after it.\<close>

fun feed_chars :: "string \<Rightarrow> guard \<Rightarrow> string \<times> guard" where
  "feed_chars [] g = ([], g)"
| "feed_chars (ch # cs) g =
     (let p = pending g @ [ch]; r = (if is_space ch then ws_run g + 1 else 0) in
      if whitespace_limit g \<le> r then
        (p @ TRUNCATION_NOTICE, g\<lparr>pending := [], ws_run := r, finished := True\<rparr>)
      else if ch = newline \<or> \<not> looks_like_row p then
        apfst ((@) p) (feed_chars cs (g\<lparr>pending := [], ws_run := r\<rparr>))
      else feed_chars cs (g\<lparr>pending := p, ws_run := r\<rparr>))"

definition feed :: "guard \<Rightarrow> string \<Rightarrow> string \<times> guard" where
  "feed g token = (if finished g \<or> token = [] then ([], g) else feed_chars token g)"

definition flush :: "guard \<Rightarrow> string \<times> guard" where
  "flush g = (pending g, g\<lparr>pending := []\<rparr>)"

fun feed_all :: "guard \<Rightarrow> string list \<Rightarrow> string \<times> guard" where
  "feed_all g [] = ([], g)"
| "feed_all g (t # ts) = (let (out, g') = feed g t; (out', g'') = feed_all g' ts in (out @ out', g''))"

section \<open>Specification\<close>

text \<open>The text up to the character at which the whitespace run reaches the limit.\<close>

fun runaway :: "int \<Rightarrow> int \<Rightarrow> string \<Rightarrow> string option" where
  "runaway n r [] = None"
| "runaway n r (c # cs) =
     (let r' = (if is_space c then r + 1 else 0) in
      if n \<le> r' then Some [c] else map_option (Cons c) (runaway n r' cs))"

definition current_line :: "string \<Rightarrow> string" where
  "current_line s = rev (takeWhile (\<lambda>c. c \<noteq> newline) (rev s))"

text \<open>The part held back: the current line from its first bar on.\<close>

definition held :: "string \<Rightarrow> string" where
  "held s = dropWhile (\<lambda>c. c \<noteq> CHR ''|'') (current_line s)"

section \<open>Lemmas\<close>

lemma feed_chars_append:
  "feed_chars (s @ t) g =
     (let (out, g') = feed_chars s g in
      if finished g' then (out, g') else apfst ((@) out) (feed_chars t g'))"
  if "\<not> finished g"
  using that
proof (induction s arbitrary: g)
  case (Cons c cs)
  let ?r = "if is_space c then ws_run g + 1 else 0"
  show ?case
    using Cons.IH [of "g\<lparr>pending := [], ws_run := ?r\<rparr>"] Cons.IH [of "g\<lparr>pending := pending g @ [c], ws_run := ?r\<rparr>"]
      Cons.prems
    by (auto simp: Let_def case_prod_beta apfst_def map_prod_def)
qed (simp add: apfst_def map_prod_def)

lemma feed_live: "\<not> finished g \<Longrightarrow> feed g t = feed_chars t g"
  by (cases t) (auto simp: feed_def)

lemma feed_finished [simp]: "finished g \<Longrightarrow> feed g t = ([], g)"
  by (simp add: feed_def)

lemma feed_all_finished: "finished g \<Longrightarrow> feed_all g ts = ([], g)"
  by (induction ts) simp_all

lemma feed_all_concat:
  "\<not> finished g \<Longrightarrow> feed_all g ts = feed_chars (concat ts) g"
proof (induction ts arbitrary: g)
  case (Cons t ts)
  have f: "feed g t = feed_chars t g" using Cons.prems by (rule feed_live)
  show ?case
  proof (cases "finished (snd (feed_chars t g))")
    case True
    then show ?thesis using Cons.prems f feed_all_finished
      by (simp add: feed_chars_append case_prod_beta Let_def)
  next
    case False
    then show ?thesis using Cons.prems f Cons.IH [OF False]
      by (simp add: feed_chars_append case_prod_beta Let_def apfst_def map_prod_def)
  qed
qed simp

lemma looks_like_row_single: "looks_like_row [c] = (c = CHR ''|'')"
  by (auto simp: looks_like_row_def py_lstrip_def py_startswith_def is_space_def code_def)

lemma looks_like_row_bar: "looks_like_row (CHR ''|'' # s)"
  by (simp add: looks_like_row_def py_lstrip_def py_startswith_def is_space_def code_def)

text \<open>What is pending is empty or starts with a bar, so the test depends on the next character only then.\<close>

definition pending_ok :: "guard \<Rightarrow> bool" where
  "pending_ok g = (pending g = [] \<or> hd (pending g) = CHR ''|'')"

lemma held_step:
  "c \<noteq> newline \<Longrightarrow> held (s @ [c]) = (if held s = [] \<and> c \<noteq> CHR ''|'' then [] else held s @ [c])"
  "held (s @ [newline]) = []"
  by (auto simp: held_def current_line_def dropWhile_append dropWhile_eq_Nil_conv)

lemma newline_space: "is_space newline"
  by (simp add: is_space_def newline_def code_def)

lemma bar_not_newline: "CHR ''|'' \<noteq> newline"
  by (simp add: newline_def)

lemma held_hd: "held s = [] \<or> hd (held s) = CHR ''|''"
  using hd_dropWhile [of "\<lambda>c. c \<noteq> CHR ''|''" "current_line s"] by (auto simp: held_def)

text \<open>The loop, started with the held part of an earlier text \<open>s\<close> pending.\<close>

lemma feed_chars_spec:
  assumes "pending g = held s" and "\<not> finished g"
  shows "(case runaway (whitespace_limit g) (ws_run g) t of
      None \<Rightarrow> fst (feed_chars t g) @ held (s @ t) = held s @ t
        \<and> pending (snd (feed_chars t g)) = held (s @ t) \<and> \<not> finished (snd (feed_chars t g))
    | Some p \<Rightarrow> fst (feed_chars t g) = held s @ p @ TRUNCATION_NOTICE
        \<and> pending (snd (feed_chars t g)) = [] \<and> finished (snd (feed_chars t g)))"
  using assms
proof (induction t arbitrary: s g)
  case (Cons c t)
  define r where r: "r = (if is_space c then ws_run g + 1 else 0)"
  let ?emit = "g\<lparr>pending := [], ws_run := r\<rparr>" let ?hold = "g\<lparr>pending := pending g @ [c], ws_run := r\<rparr>"
  show ?case
  proof (cases "whitespace_limit g \<le> r")
    case True
    then show ?thesis using Cons.prems by (simp add: Let_def r)
  next
    case False
    note lim = False
    then have run: "runaway (whitespace_limit g) (ws_run g) (c # t)
        = map_option (Cons c) (runaway (whitespace_limit g) r t)" by (simp add: Let_def r)
    show ?thesis
    proof (cases "c = newline \<or> \<not> looks_like_row (pending g @ [c])")
      case True
      have h: "held (s @ [c]) = []"
      proof (cases "c = newline")
        case False
        then have "held s = [] \<and> c \<noteq> CHR ''|''"
          using True Cons.prems(1) held_hd [of s] looks_like_row_single looks_like_row_bar
          by (cases "held s") auto
        with False show ?thesis by (simp add: held_step)
      qed (simp add: held_step(2))
      have fc: "feed_chars (c # t) g = apfst ((@) (pending g @ [c])) (feed_chars t ?emit)"
        using lim True by (simp add: Let_def r)
      have "case runaway (whitespace_limit g) r t of
          None \<Rightarrow> fst (feed_chars t ?emit) @ held (s @ c # t) = t
            \<and> pending (snd (feed_chars t ?emit)) = held (s @ c # t) \<and> \<not> finished (snd (feed_chars t ?emit))
        | Some p \<Rightarrow> fst (feed_chars t ?emit) = p @ TRUNCATION_NOTICE
            \<and> pending (snd (feed_chars t ?emit)) = [] \<and> finished (snd (feed_chars t ?emit))"
        using Cons.IH [of ?emit "s @ [c]"] Cons.prems(2) h
        by (cases "runaway (whitespace_limit g) r t") simp_all
      then show ?thesis unfolding run fc using Cons.prems(1)
        by (cases "runaway (whitespace_limit g) r t") simp_all
    next
      case False
      then have c: "c \<noteq> newline" and row: "looks_like_row (pending g @ [c])" by auto
      then have h: "held (s @ [c]) = held s @ [c]"
        using Cons.prems(1) looks_like_row_single [of c] held_step(1) [OF c, of s] by (cases "held s = []") simp_all
      have fc: "feed_chars (c # t) g = feed_chars t ?hold"
        using lim False by (simp add: Let_def r)
      have "case runaway (whitespace_limit g) r t of
          None \<Rightarrow> fst (feed_chars t ?hold) @ held (s @ c # t) = held s @ c # t
            \<and> pending (snd (feed_chars t ?hold)) = held (s @ c # t) \<and> \<not> finished (snd (feed_chars t ?hold))
        | Some p \<Rightarrow> fst (feed_chars t ?hold) = held s @ c # p @ TRUNCATION_NOTICE
            \<and> pending (snd (feed_chars t ?hold)) = [] \<and> finished (snd (feed_chars t ?hold))"
        using Cons.IH [of ?hold "s @ [c]"] Cons.prems h
        by (cases "runaway (whitespace_limit g) r t") simp_all
      then show ?thesis unfolding run fc
        by (cases "runaway (whitespace_limit g) r t") simp_all
    qed
  qed
qed simp

text \<open>A run that reaches the limit ends the prefix with that much whitespace.\<close>

lemma runaway_prefix:
  "runaway n r s = Some p \<Longrightarrow> \<exists>q. s = p @ q"
  by (induction s arbitrary: r p) (auto simp: Let_def split: if_splits)

lemma runaway_tail:
  assumes "runaway n r s = Some p" and "0 \<le> r" and "r < n"
  shows "(\<exists>w. suffix w p \<and> int (length w) = n \<and> list_all is_space w)
      \<or> (r + int (length p) = n \<and> list_all is_space p)"
  using assms
proof (induction s arbitrary: r p)
  case (Cons c cs)
  let ?r = "if is_space c then r + 1 else 0"
  show ?case
  proof (cases "n \<le> ?r")
    case True
    then show ?thesis using Cons.prems by (auto simp: Let_def split: if_splits)
  next
    case False
    then obtain p' where p': "runaway n ?r cs = Some p'" "p = c # p'"
      using Cons.prems(1) by (auto simp: Let_def)
    have "(\<exists>w. suffix w p' \<and> int (length w) = n \<and> list_all is_space w)
      \<or> (?r + int (length p') = n \<and> list_all is_space p')"
      by (rule Cons.IH [OF p'(1)]) (use Cons.prems False in auto)
    then show ?thesis
    proof
      assume "\<exists>w. suffix w p' \<and> int (length w) = n \<and> list_all is_space w"
      then show ?thesis using p'(2) by (auto intro: suffix_ConsI)
    next
      assume r: "?r + int (length p') = n \<and> list_all is_space p'"
      show ?thesis
      proof (cases "is_space c")
        case True
        with r p'(2) show ?thesis by auto
      next
        case False
        with r p'(2) have "suffix p' p \<and> int (length p') = n \<and> list_all is_space p'"
          by (auto intro: suffix_ConsI)
        then show ?thesis by blast
      qed
    qed
  qed
qed simp

section \<open>Properties\<close>

text \<open>
  Splitting does not matter: feeding an answer in any number of deltas emits, in total, the
  same text and leaves the same state as feeding it in one piece.
\<close>

lemma guard_split_independent:
  "feed_all (new_guard n) ts = feed (new_guard n) (concat ts)"
proof -
  have "feed_all (new_guard n) ts = feed_chars (concat ts) (new_guard n)"
    by (rule feed_all_concat) simp
  then show ?thesis by (simp add: feed_live)
qed

text \<open>
  The guard is lossless and holds exactly the started row: as long as no whitespace run
  reaches the limit, what has been emitted followed by what is held is the text fed so far,
  and what is held is the current line from its first bar on (so an incomplete table row is
  never emitted, and \<open>flush\<close> completes the text).
\<close>

lemma guard_lossless:
  assumes "runaway n 0 (concat ts) = None"
  shows "fst (feed_all (new_guard n) ts) @ held (concat ts) = concat ts
     \<and> fst (flush (snd (feed_all (new_guard n) ts))) = held (concat ts)
     \<and> \<not> finished (snd (feed_all (new_guard n) ts))"
proof -
  have f: "feed_all (new_guard n) ts = feed_chars (concat ts) (new_guard n)"
    by (rule feed_all_concat) simp
  have "held [] = []" by (simp add: held_def current_line_def)
  with feed_chars_spec [of "new_guard n" "[]" "concat ts"] assms show ?thesis
    by (simp add: f flush_def)
qed

lemma guard_lossless_witness:
  "fst (feed_all (new_guard 200) [''a '', ''|x'']) @ ''|x'' = ''a |x''"
proof -
  have "runaway 200 0 (concat [''a '', ''|x'']) = None"
    by (simp add: is_space_def code_def)
  from guard_lossless [OF this] show ?thesis
    by (simp add: held_def current_line_def newline_def)
qed

text \<open>
  Runaway whitespace stops the stream: when a run reaches the (positive) limit, the emitted
  text is the input up to the end of that run, which is \<open>limit\<close> whitespace characters long,
  followed by the notice, and everything after it is ignored.
\<close>

lemma guard_truncates:
  assumes "runaway n 0 (concat ts) = Some p" and "0 < n"
  shows "fst (feed_all (new_guard n) (ts @ later)) = p @ TRUNCATION_NOTICE
     \<and> finished (snd (feed_all (new_guard n) (ts @ later)))
     \<and> prefix p (concat ts)
     \<and> (\<exists>w. suffix w p \<and> int (length w) = n \<and> list_all is_space w)"
proof -
  have pre: "runaway n r s = Some q \<Longrightarrow> runaway n r (s @ t) = Some q" for r s t q
    by (induction s arbitrary: r q) (auto simp: Let_def split: if_splits)
  have f: "feed_all (new_guard n) (ts @ later) = feed_chars (concat (ts @ later)) (new_guard n)"
    by (rule feed_all_concat) simp
  have "runaway n 0 (concat (ts @ later)) = Some p" using pre [OF assms(1)] by simp
  moreover have "held [] = []" by (simp add: held_def current_line_def)
  ultimately have "fst (feed_all (new_guard n) (ts @ later)) = p @ TRUNCATION_NOTICE
     \<and> finished (snd (feed_all (new_guard n) (ts @ later)))"
    using feed_chars_spec [of "new_guard n" "[]" "concat (ts @ later)"] by (simp add: f)
  moreover have "prefix p (concat ts)" using runaway_prefix [OF assms(1)] by auto
  moreover have "\<exists>w. suffix w p \<and> int (length w) = n \<and> list_all is_space w"
    using runaway_tail [OF assms(1)] assms(2) by auto
  ultimately show ?thesis by blast
qed

lemma guard_truncates_witness:
  "fst (feed_all (new_guard 2) ([''a '', '' b''] @ [''c''])) = ''a  '' @ TRUNCATION_NOTICE"
proof -
  have "runaway 2 0 (concat [''a '', '' b'']) = Some ''a  ''"
    by (simp add: is_space_def code_def)
  from guard_truncates [OF this, of "[''c'']"] show ?thesis by simp
qed

end
