(* ===== verification/Chat_Flow.thy ===== *)
theory Chat_Flow imports Retrieval Token_Guard begin

text \<open>
  The chat surface: \<open>prorag/chat/router.py\<close> and \<open>prorag/operations/chat.py\<close>. A request is a
  function of the transaction it is given; the streaming endpoint returns the frames it sends.
  The provider's stream is a list of arrivals, where \<open>Silence\<close> is a gap longer than the
  heartbeat interval: \<open>asyncio.wait_for\<close> then cancels the pending \<open>__anext__()\<close>, which ends the
  generator, so the next turn of the loop sees \<open>StopAsyncIteration\<close>.
\<close>

section \<open>Persistence\<close>

text \<open>The identifiers that \<open>uuid4()\<close> will give to the rows.\<close>

record fresh_ids =
  id_chat :: uuid
  id_user_message :: uuid
  id_assistant_message :: uuid

definition persist_exchange ::
  "fresh_ids \<Rightarrow> uuid option \<Rightarrow> string \<Rightarrow> string \<Rightarrow> source list \<Rightarrow> txn \<Rightarrow> (uuid \<times> uuid) outcome \<times> txn" where
  "persist_exchange ids chat_id user_message answer_text cited_sources t =
     (let t1 = (case chat_id of
                  None \<Rightarrow> txn_update (\<lambda>s. s\<lparr>chats := chats s @ [id_chat ids]\<rparr>) t
                | Some c \<Rightarrow> t);
          cid = (case chat_id of None \<Rightarrow> id_chat ids | Some c \<Rightarrow> c);
          mid = id_assistant_message ids
      in if cid \<notin> set (chats (working t1))
         then (Inl (PyError ''IntegrityError'' ''messages.chat_id''), txn_rollback t1)
         else (Inr (cid, mid),
               txn_commit (txn_update (\<lambda>s. s\<lparr>
                 messages := messages s @
                   [\<lparr>m_id = id_user_message ids, m_chat_id = cid, m_role = ''user'', m_content = user_message\<rparr>,
                    \<lparr>m_id = mid, m_chat_id = cid, m_role = ''assistant'', m_content = answer_text\<rparr>],
                 citations := citations s @
                   map (\<lambda>so. \<lparr>ci_message_id = mid, ci_n = so_n so, ci_doc_id = so_doc_id so,
                              ci_page = so_page so, ci_bbox = so_bbox so\<rparr>) cited_sources\<rparr>) t1)))"

section \<open>The synchronous endpoint\<close>

definition apostrophe :: char where
  "apostrophe = CHR 0x27"

definition SYSTEM_PROMPT :: string where
  "SYSTEM_PROMPT =
     ''You are a helpful assistant that answers strictly from the numbered context ''
   @ ''blocks below. Cite every claim inline immediately after the sentence it ''
   @ ''supports using bracketed numbers like [S1], [S2] '' @ em_dash @ '' never a separate ''
   @ [apostrophe] @ ''Sources'' @ [apostrophe] @ '' section, never markdown links. If the context does not contain ''
   @ ''the answer, say so plainly.''"

record chat_request =
  rq_message :: string
  rq_chat_id :: "uuid option"

record chat_response =
  cr_answer :: string
  cr_sources :: "source list"
  cr_message_id :: uuid
  cr_budget_warning :: "string option"

fun collect :: "'a outcome list \<Rightarrow> 'a list outcome" where
  "collect [] = Inr []"
| "collect (x # xs) =
     (case x of Inl e \<Rightarrow> Inl e
      | Inr y \<Rightarrow> (case collect xs of Inl e \<Rightarrow> Inl e | Inr ys \<Rightarrow> Inr (y # ys)))"

text \<open>From the context on: answer, normalise, resolve, persist.\<close>

definition chat_answer ::
  "settings \<Rightarrow> backend \<Rightarrow> fresh_ids \<Rightarrow> datetime \<Rightarrow> chat_request \<Rightarrow> user option \<Rightarrow> string option
     \<Rightarrow> hit list \<Rightarrow> string \<Rightarrow> txn \<Rightarrow> chat_response outcome \<times> txn" where
  "chat_answer cfg be ids now req user warning hits cleaned t =
     (let (raw, t') = apsnd the (answer cfg (be_provider be) now SYSTEM_PROMPT (build_prompt cleaned hits)
                                   None (map_option u_id user) (Some t)) in
      case raw of
        Inl e \<Rightarrow> (Inl e, t')
      | Inr None \<Rightarrow> (Inl (PyError ''TypeError'' ''expected string or bytes-like object''), t')
      | Inr (Some raw_answer) \<Rightarrow>
          (let normalized = normalize_citations raw_answer in
           case collect (map (\<lambda>(n, h). to_source n h) (resolve_citations normalized hits)) of
             Inl e \<Rightarrow> (Inl e, t')
           | Inr sources \<Rightarrow>
               (case persist_exchange ids (rq_chat_id req) (rq_message req) normalized sources t' of
                  (Inl e, t'') \<Rightarrow> (Inl e, t'')
                | (Inr (cid, mid), t'') \<Rightarrow>
                    (Inr \<lparr>cr_answer = normalized, cr_sources = sources, cr_message_id = mid,
                          cr_budget_warning = warning\<rparr>, t''))))"

definition chat ::
  "settings \<Rightarrow> backend \<Rightarrow> fresh_ids \<Rightarrow> datetime \<Rightarrow> chat_request \<Rightarrow> user option \<Rightarrow> txn \<Rightarrow> chat_response outcome \<times> txn" where
  "chat cfg be ids now req user t =
     (case check_daily_cap cfg (working t) user now of
        Inl e \<Rightarrow> (Inl e, t)
      | Inr warning \<Rightarrow>
          (case retrieve cfg be now (rq_message req) user t of
             (Inl e, t1) \<Rightarrow> (Inl e, t1)
           | (Inr (hits, cleaned), t1) \<Rightarrow> chat_answer cfg be ids now req user warning hits cleaned t1))"

section \<open>The streaming endpoint\<close>

datatype arrival = Chunk stream_chunk | Silence | Broken exn

datatype stream_item = Item stream_event | Pause | Fail exn

fun items_of :: "arrival list \<Rightarrow> stream_item list" where
  "items_of [] = []"
| "items_of (Chunk ck # as) = map Item (chunk_events ck) @ items_of as"
| "items_of (Silence # as) = Pause # items_of as"
| "items_of (Broken e # as) = Fail e # items_of as"

datatype frame =
    FRetry
  | FPing
  | FSources "source list"
  | FPrefill string
  | FBudget string
  | FToken string
  | FCitation nat
  | FMeta uuid uuid "nat list"
  | FError
  | FDone

record stream_state =
  ss_guard :: guard
  ss_raw :: string
  ss_cited :: "nat list"
  ss_usage :: "(int \<times> int) option"

definition token_frame :: "string \<Rightarrow> frame list" where
  "token_frame s = (if s = [] then [] else [FToken s])"

definition new_citations :: "nat list \<Rightarrow> string \<Rightarrow> nat list" where
  "new_citations seen raw = filter (\<lambda>n. n \<notin> set seen) (extract_cited_indices (normalize_citations raw))"

text \<open>One answer delta: the state after it and the frames it sends.\<close>

definition answer_state :: "stream_state \<Rightarrow> string \<Rightarrow> stream_state" where
  "answer_state st delta =
     st\<lparr>ss_guard := snd (feed (ss_guard st) delta), ss_raw := ss_raw st @ delta,
        ss_cited := ss_cited st @ new_citations (ss_cited st) (ss_raw st @ delta)\<rparr>"

definition answer_frames :: "stream_state \<Rightarrow> string \<Rightarrow> frame list" where
  "answer_frames st delta =
     token_frame (fst (feed (ss_guard st) delta))
     @ map FCitation (new_citations (ss_cited st) (ss_raw st @ delta))"

fun stream_loop :: "stream_item list \<Rightarrow> stream_state \<Rightarrow> frame list \<times> stream_state outcome" where
  "stream_loop [] st = ([], Inr st)"
| "stream_loop (Fail e # items) st = ([], Inl e)"
| "stream_loop (Pause # items) st = ([FPing], Inr st)"
| "stream_loop (Item (EvUsage p c) # items) st = stream_loop items (st\<lparr>ss_usage := Some (p, c)\<rparr>)"
| "stream_loop (Item (EvThinking r) # items) st = stream_loop items st"
| "stream_loop (Item (EvAnswer delta) # items) st =
     (if finished (ss_guard (answer_state st delta)) then (answer_frames st delta, Inr (answer_state st delta))
      else apfst ((@) (answer_frames st delta)) (stream_loop items (answer_state st delta)))"

definition stream_start :: stream_state where
  "stream_start = \<lparr>ss_guard = new_guard WHITESPACE_RUNAWAY_LIMIT, ss_raw = [], ss_cited = [], ss_usage = None\<rparr>"

text \<open>The tail of the stream: held text, usage, persistence, meta, done.\<close>

definition stream_finish ::
  "settings \<Rightarrow> backend \<Rightarrow> fresh_ids \<Rightarrow> datetime \<Rightarrow> chat_request \<Rightarrow> user option \<Rightarrow> source list \<Rightarrow> string
     \<Rightarrow> stream_state \<Rightarrow> txn \<Rightarrow> frame list \<times> unit outcome \<times> txn" where
  "stream_finish cfg be ids now req user all_sources prompt st t =
     (let tail = fst (flush (ss_guard st));
          prov = be_provider be;
          (p, c) = (case ss_usage st of
                      Some u \<Rightarrow> u
                    | None \<Rightarrow> (estimate_tokens prov (answer_model cfg) (SYSTEM_PROMPT @ prompt),
                              estimate_tokens prov (answer_model cfg) (ss_raw st)));
          t1 = the (snd (track_usage cfg (p_prices prov) now (Some t) (answer_model cfg) p c None (map_option u_id user)));
          cited_sources = filter (\<lambda>so. so_n so \<in> set (ss_cited st)) all_sources
      in case persist_exchange ids (rq_chat_id req) (rq_message req) (normalize_citations (ss_raw st)) cited_sources t1 of
           (Inl e, t2) \<Rightarrow> (token_frame tail, Inl e, t2)
         | (Inr (cid, mid), t2) \<Rightarrow> (token_frame tail @ [FMeta mid cid (ss_cited st), FDone], Inr (), t2))"

definition stream_frames ::
  "settings \<Rightarrow> backend \<Rightarrow> (string \<Rightarrow> string \<Rightarrow> arrival list) \<Rightarrow> fresh_ids \<Rightarrow> datetime \<Rightarrow> chat_request
     \<Rightarrow> user option \<Rightarrow> string option \<Rightarrow> txn \<Rightarrow> frame list \<times> unit outcome \<times> txn" where
  "stream_frames cfg be source_stream ids now req user warning t =
     (case retrieve cfg be now (rq_message req) user t of
        (Inl e, t1) \<Rightarrow> ([], Inl e, t1)
      | (Inr (hits, cleaned), t1) \<Rightarrow>
          (case collect (map (\<lambda>(i, h). to_source i h) (enumerate 1 hits)) of
             Inl e \<Rightarrow> ([], Inl e, t1)
           | Inr all_sources \<Rightarrow>
               (let prompt = build_prompt cleaned hits;
                    opening_frames = [FSources all_sources]
                      @ (if cleaned \<noteq> rq_message req then [FPrefill cleaned] else [])
                      @ (case warning of None \<Rightarrow> [] | Some w \<Rightarrow> [FBudget w])
                in case stream_loop (items_of (source_stream SYSTEM_PROMPT prompt)) stream_start of
                     (fs, Inl e) \<Rightarrow> (opening_frames @ fs, Inl e, t1)
                   | (fs, Inr st) \<Rightarrow>
                       apfst ((@) (opening_frames @ fs))
                         (stream_finish cfg be ids now req user all_sources prompt st t1))))"

text \<open>The gate runs before the generator; an exception inside it becomes an error event.\<close>

definition chat_stream ::
  "settings \<Rightarrow> backend \<Rightarrow> (string \<Rightarrow> string \<Rightarrow> arrival list) \<Rightarrow> fresh_ids \<Rightarrow> datetime \<Rightarrow> chat_request
     \<Rightarrow> user option \<Rightarrow> txn \<Rightarrow> frame list outcome \<times> txn" where
  "chat_stream cfg be source_stream ids now req user t =
     (case check_daily_cap cfg (working t) user now of
        Inl e \<Rightarrow> (Inl e, t)
      | Inr warning \<Rightarrow>
          (case stream_frames cfg be source_stream ids now req user warning t of
             (fs, Inr u, t') \<Rightarrow> (Inr (FRetry # fs), t')
           | (fs, Inl e, t') \<Rightarrow> (Inr (FRetry # fs @ [FError, FDone]), t')))"

section \<open>Feedback\<close>

definition feedback_toggle :: "uuid \<Rightarrow> rating \<Rightarrow> string option \<Rightarrow> txn \<Rightarrow> rating option outcome \<times> txn" where
  "feedback_toggle mid rating comment t =
     (case tbl_find f_message_id mid (feedbacks (working t)) of
        Some existing \<Rightarrow>
          if f_rating existing = rating
          then (Inr None, txn_commit (txn_update (\<lambda>s. s\<lparr>feedbacks := tbl_del f_message_id mid (feedbacks s)\<rparr>) t))
          else (Inr (Some rating),
                txn_commit (txn_update (\<lambda>s. s\<lparr>feedbacks :=
                  tbl_put f_message_id (existing\<lparr>f_rating := rating, f_comment := comment\<rparr>) (feedbacks s)\<rparr>) t))
      | None \<Rightarrow>
          if mid \<notin> m_id ` set (messages (working t))
          then (Inl (PyError ''IntegrityError'' ''feedback.message_id''), txn_rollback t)
          else (Inr (Some rating),
                txn_commit (txn_update (\<lambda>s. s\<lparr>feedbacks := feedbacks s @
                  [\<lparr>f_message_id = mid, f_rating = rating, f_comment = comment\<rparr>]\<rparr>) t)))"

section \<open>Lemmas on persistence\<close>

text \<open>The two rows of an exchange and the citations of its answer.\<close>

definition exchange_rows :: "fresh_ids \<Rightarrow> uuid \<Rightarrow> string \<Rightarrow> string \<Rightarrow> message list" where
  "exchange_rows ids cid question reply =
     [\<lparr>m_id = id_user_message ids, m_chat_id = cid, m_role = ''user'', m_content = question\<rparr>,
      \<lparr>m_id = id_assistant_message ids, m_chat_id = cid, m_role = ''assistant'', m_content = reply\<rparr>]"

definition citation_rows :: "fresh_ids \<Rightarrow> source list \<Rightarrow> citation list" where
  "citation_rows ids sources = map (\<lambda>so. \<lparr>ci_message_id = id_assistant_message ids, ci_n = so_n so,
     ci_doc_id = so_doc_id so, ci_page = so_page so, ci_bbox = so_bbox so\<rparr>) sources"

definition same_chats :: "db \<Rightarrow> db \<Rightarrow> bool" where
  "same_chats s s' \<longleftrightarrow> messages s' = messages s \<and> citations s' = citations s \<and> chats s' = chats s"

lemma same_chats_refl [simp]: "same_chats s s"
  by (simp add: same_chats_def)

lemma only_usage_same_chats: "only_usage t t' \<Longrightarrow> same_chats (working t) (working t')"
  by (auto simp: only_usage_def same_chats_def)

lemma persist_Inr:
  assumes "persist_exchange ids chat_id q a srcs t = (Inr (cid, mid), t')"
  shows "mid = id_assistant_message ids
     \<and> cid = (case chat_id of None \<Rightarrow> id_chat ids | Some c \<Rightarrow> c)
     \<and> committed t' = working t'
     \<and> chats (working t') = chats (working t) @ (case chat_id of None \<Rightarrow> [id_chat ids] | Some c \<Rightarrow> [])
     \<and> messages (working t') = messages (working t) @ exchange_rows ids cid q a
     \<and> citations (working t') = citations (working t) @ citation_rows ids srcs"
  using assms
  by (auto simp: persist_exchange_def Let_def exchange_rows_def citation_rows_def split: option.splits if_splits)

lemma persist_Inl: "persist_exchange ids chat_id q a srcs t = (Inl e, t') \<Longrightarrow> committed t' = committed t \<and> working t' = committed t"
  by (auto simp: persist_exchange_def Let_def split: option.splits if_splits)

lemma complete_step:
  assumes "(raw, t') = apsnd the (answer cfg prov now sys prompt mid uid (Some t))"
  shows "only_usage t t'"
  using assms complete_only_usage [of cfg prov now "answer_model cfg" sys prompt mid uid t]
  by (cases "answer cfg prov now sys prompt mid uid (Some t)") (auto simp: answer_def)

lemma collect_map_ok: "(\<And>x. x \<in> set xs \<Longrightarrow> f x = Inr (g x)) \<Longrightarrow> collect (map f xs) = Inr (map g xs)"
  by (induction xs) simp_all

lemma collect_length: "collect xs = Inr ys \<Longrightarrow> length ys = length xs"
proof (induction xs arbitrary: ys)
  case (Cons x xs)
  then show ?case by (cases x; cases "collect xs") auto
qed simp

lemma chat_answer_cases:
  obtains (fails) e t' where "chat_answer cfg be ids now req user w hits cleaned t = (Inl e, t')" "committed t' = committed t"
    | (ok) raw sources t1 t2 cid where
      "chat_answer cfg be ids now req user w hits cleaned t =
         (Inr \<lparr>cr_answer = normalize_citations raw, cr_sources = sources,
               cr_message_id = id_assistant_message ids, cr_budget_warning = w\<rparr>, t2)"
      "collect (map (\<lambda>(n, h). to_source n h) (resolve_citations (normalize_citations raw) hits)) = Inr sources"
      "persist_exchange ids (rq_chat_id req) (rq_message req) (normalize_citations raw) sources t1
         = (Inr (cid, id_assistant_message ids), t2)"
      "only_usage t t1"
proof -
  obtain raw t1 where s1: "(raw, t1) = apsnd the (answer cfg (be_provider be) now SYSTEM_PROMPT (build_prompt cleaned hits)
      None (map_option u_id user) (Some t))" by (metis surj_pair)
  have u: "only_usage t t1" by (rule complete_step [OF s1])
  then have c: "committed t1 = committed t" by (simp add: only_usage_def)
  note r = chat_answer_def [of cfg be ids now req user w hits cleaned t, unfolded s1 [symmetric] Let_def prod.case]
  consider e where "raw = Inl e" | "raw = Inr None" | a where "raw = Inr (Some a)"
    by (metis sum.exhaust option.exhaust)
  then show ?thesis
  proof cases
    case (3 a)
    show ?thesis
    proof (cases "collect (map (\<lambda>(n, h). to_source n h) (resolve_citations (normalize_citations a) hits))")
      case (Inl e)
      then show ?thesis using fails r 3 c by simp
    next
      case (Inr sources)
      obtain x t2 where x: "persist_exchange ids (rq_chat_id req) (rq_message req) (normalize_citations a) sources t1 = (x, t2)"
        by (metis surj_pair)
      show ?thesis
      proof (cases x)
        case (Inl e)
        then show ?thesis using fails [of e t2] r 3 Inr x persist_Inl [of ids _ _ _ _ t1 e t2] c by simp
      next
        case x2: (Inr p)
        obtain cid mid where p: "p = (cid, mid)" by (cases p)
        then have "mid = id_assistant_message ids" using x x2 persist_Inr by metis
        then show ?thesis using ok [OF _ Inr _ u] r 3 Inr x x2 p by simp
      qed
    qed
  qed (use fails r c in simp_all)
qed

section \<open>Lemmas on the stream\<close>

definition answer_texts :: "stream_item list \<Rightarrow> string list" where
  "answer_texts items = concat (map (\<lambda>i. case i of Item (EvAnswer d) \<Rightarrow> [d] | _ \<Rightarrow> []) items)"

definition token_text :: "frame list \<Rightarrow> string" where
  "token_text fs = concat (map (\<lambda>f. case f of FToken t \<Rightarrow> t | _ \<Rightarrow> []) fs)"

definition inner_frame :: "frame \<Rightarrow> bool" where
  "inner_frame f = (case f of FPing \<Rightarrow> True | FToken t \<Rightarrow> True | FCitation n \<Rightarrow> True | _ \<Rightarrow> False)"

lemma token_text_simps [simp]:
  "token_text [] = []" "token_text (fs @ gs) = token_text fs @ token_text gs"
  "token_text (token_frame s) = s" "token_text (map FCitation ns) = []"
  by (auto simp: token_text_def token_frame_def comp_def)

lemma inner_simps [simp]: "list_all inner_frame (token_frame s)" "list_all inner_frame (map FCitation ns)" "inner_frame FPing"
  by (auto simp: token_frame_def inner_frame_def list_all_iff)

lemma answer_frames_inner [simp]: "list_all inner_frame (answer_frames st d)"
  by (simp add: answer_frames_def)

lemma stream_loop_inner: "list_all inner_frame (fst (stream_loop items st))"
  by (induction items st rule: stream_loop.induct) simp_all

text \<open>On an uninterrupted stream the loop is the guard fed with the answer deltas.\<close>

definition is_item :: "stream_item \<Rightarrow> bool" where
  "is_item i = (case i of Item ev \<Rightarrow> True | _ \<Rightarrow> False)"

lemma answer_texts_simps [simp]:
  "answer_texts [] = []"
  "answer_texts (Item (EvAnswer d) # items) = d # answer_texts items"
  "answer_texts (Item (EvUsage p c) # items) = answer_texts items"
  "answer_texts (Item (EvThinking r) # items) = answer_texts items"
  by (simp_all add: answer_texts_def)

lemma stream_loop_items:
  assumes "list_all is_item items" and "\<not> finished (ss_guard st)"
  shows "\<exists>st'. snd (stream_loop items st) = Inr st'
     \<and> feed_all (ss_guard st) (answer_texts items) = (token_text (fst (stream_loop items st)), ss_guard st')
     \<and> (finished (ss_guard st') \<or> ss_raw st' = ss_raw st @ concat (answer_texts items))"
  using assms
proof (induction items st rule: stream_loop.induct)
  case (6 delta items st)
  obtain em g where f: "feed (ss_guard st) delta = (em, g)" by (cases "feed (ss_guard st) delta")
  then have st: "ss_guard (answer_state st delta) = g" "ss_raw (answer_state st delta) = ss_raw st @ delta"
    and fr: "token_text (answer_frames st delta) = em"
    by (simp_all add: answer_state_def answer_frames_def)
  show ?case
  proof (cases "finished g")
    case True
    then show ?thesis by (simp add: f st fr feed_all_finished)
  next
    case False
    then have "\<not> finished (ss_guard (answer_state st delta))" by (simp add: st)
    from 6(1) [OF this _ this] 6(2) obtain st' where "snd (stream_loop items (answer_state st delta)) = Inr st'"
      "feed_all g (answer_texts items) = (token_text (fst (stream_loop items (answer_state st delta))), ss_guard st')"
      "finished (ss_guard st') \<or> ss_raw st' = (ss_raw st @ delta) @ concat (answer_texts items)"
      unfolding st by auto
    then show ?thesis using False by (simp add: f st fr)
  qed
qed (simp_all add: is_item_def)

lemma stream_loop_silence: "stream_loop (xs @ Pause # ys) st = stream_loop (xs @ [Pause]) st"
  by (induction xs st rule: stream_loop.induct) simp_all

section \<open>A retrieval over the empty database\<close>

lemma sample_prefill: "prefill default_settings silent_provider env 0 q None (Some t) = (q, Some t)"
  by (simp add: prefill_def prefill_completion_def complete_def silent_provider_def)

lemma sample_plan: "plan default_settings silent_provider env 0 q None (Some t) = (Inr (fallback q), Some t)"
  by (simp add: plan_def plan_completion_def complete_def silent_provider_def)

lemma sample_embed: "\<exists>t'. embed_texts default_settings silent_provider 0 [q, q] None (Some t) = (Inr [[1, 0], [1, 0]], Some t') \<and> only_usage t t'"
proof -
  have "fst (embed_texts default_settings silent_provider 0 [q, q] None (Some t)) = Inr [[1, 0], [1, 0]]"
    by (simp add: embed_texts_def silent_provider_def py_startswith_def openrouter_prefix_def default_settings_def Let_def case_prod_beta)
  then show ?thesis using embed_texts_only_usage [of default_settings silent_provider 0 "[q, q]" None t] by (metis prod.collapse)
qed

lemma no_candidates: "chunks s = [] \<Longrightarrow> candidates s user = []"
  by (simp add: candidates_def joined_def)

lemma sample_gather: assumes "chunks s = []" shows "\<exists>g. fst (gather_hits default_settings sample_engine s None (fallback q) [[1, 0], [1, 0]] Live) = Inr g \<and> ga_fused g = []"
proof -
  have v: "vector_search default_settings sample_engine e s None k Live = (if k < 0 then (Inl (PyError ''DBAPIError'' ''LIMIT must not be negative''), Aborted) else (Inr [], Live))" for e k
    using no_candidates [OF assms] by (simp add: vector_search_def visit_def sample_engine_def)
  have w: "keyword_search sample_engine q s None k Live = (if k < 0 then (Inl aborted_error, Aborted) else (Inr [], Live))" for k
    using no_candidates [OF assms] by (simp add: keyword_search_def bm25_search_eq bm25_rows_hits_def visit_def sample_engine_def fts_search_def sort_desc_def)
  show ?thesis by (simp add: gather_hits_def v w fallback_def Let_def arm_weights_def rrf_fuse_def sort_desc_def)
qed

lemma sample_retrieve: "\<exists>t'. retrieve default_settings sample_backend 0 ''hi'' None (begin_txn empty_db) = (Inr ([], ''hi''), t')"
proof -
  obtain t' where e: "embed_texts default_settings silent_provider 0 [''hi'', ''hi''] None (Some (begin_txn empty_db)) = (Inr [[1, 0], [1, 0]], Some t')" "only_usage (begin_txn empty_db) t'"
    using sample_embed by blast
  have "chunks (working t') = []" using e(2) by (auto simp: only_usage_def empty_db_def)
  then obtain g where g: "fst (gather_hits default_settings sample_engine (working t') None (fallback ''hi'') [[1, 0], [1, 0]] Live) = Inr g" "ga_fused g = []"
    using sample_gather by blast
  have "retrieve_planned default_settings sample_backend 0 None ''hi'' (fallback ''hi'') (begin_txn empty_db) = (Inr ([], ''hi''), txn_commit t')"
    using e g by (simp add: retrieve_planned_def sample_backend_def fallback_def rank_and_crop_def py_slice_def rerank_def crop_context_def)
  then have "retrieve default_settings sample_backend 0 ''hi'' None (begin_txn empty_db) = (Inr ([], ''hi''), txn_commit t')"
    using sample_prefill sample_plan by (simp add: retrieve_def sample_backend_def)
  then show ?thesis by blast
qed

definition sample_ids :: fresh_ids where
  "sample_ids = \<lparr>id_chat = 1, id_user_message = 2, id_assistant_message = 3\<rparr>"

definition text_chunk :: "string \<Rightarrow> stream_chunk" where
  "text_chunk t = \<lparr>sc_usage = None, sc_choices = [\<lparr>sd_reasoning_attr = None, sd_reasoning_content = None,
     sd_reasoning = None, sd_content = Some t\<rparr>]\<rparr>"

section \<open>What the sources of a reply are\<close>

lemma collect_member:
  "collect xs = Inr ys \<Longrightarrow> y \<in> set ys \<Longrightarrow> Inr y \<in> set xs"
proof (induction xs arbitrary: ys)
  case (Cons x xs)
  then show ?case by (cases x; cases "collect xs") auto
qed simp

lemma to_source_fields: "to_source n h = Inr so \<Longrightarrow> so_n so = n \<and> h_doc_id h = Some (so_doc_id so)"
  by (auto simp: to_source_def split: option.splits)

lemma collect_sources_n:
  "collect (map (\<lambda>(n, h). to_source n h) xs) = Inr srcs \<Longrightarrow> map so_n srcs = map fst xs"
proof (induction xs arbitrary: srcs)
  case (Cons x xs)
  obtain n h where x: "x = (n, h)" by (cases x)
  obtain so rest where "to_source n h = Inr so" "collect (map (\<lambda>(n, h). to_source n h) xs) = Inr rest" "srcs = so # rest"
    using Cons.prems x by (auto split: sum.splits)
  then show ?case using Cons.IH x to_source_fields [of n h so] by simp
qed simp

lemma collect_sources_seen:
  assumes "collect (map (\<lambda>(n, h). to_source n h) xs) = Inr srcs" and "\<forall>(n, h)\<in>set xs. legal_hit s user h"
  shows "list_all (\<lambda>so. sees s user (so_doc_id so)) srcs"
  unfolding list_all_iff
proof
  fix so
  assume "so \<in> set srcs"
  from collect_member [OF assms(1) this] obtain n h where nh: "(n, h) \<in> set xs" "to_source n h = Inr so" by auto
  then have "h_doc_id h = Some (so_doc_id so)" using to_source_fields by blast
  moreover have "legal_hit s user h" using nh(1) assms(2) by blast
  ultimately show "sees s user (so_doc_id so)" by (auto simp: legal_hit_def list_ex_iff)
qed

lemma resolve_members: "(n, h) \<in> set (resolve_citations a hits) \<Longrightarrow> h \<in> set hits"
  by (auto simp: resolve_citations_def resolve_cited_map)

lemma retrieve_legal:
  assumes "retrieve cfg be now message user t = (Inr (hits, cleaned), t')"
  shows "list_all (legal_hit (working t) user) hits" "same_chats (working t) (working t')" "committed t' = working t'"
proof -
  from assms show "list_all (legal_hit (working t) user) hits"
  proof (cases rule: retrieve_cases [of cfg be now message user t])
    case (ok t3 pr embeddings g cl)
    have "list_all (legal_hit (working t3) user) (snd (rank_and_crop cfg be (crop_max_chunks_per_doc cfg) (hd (ga_queries g)) (ga_fused g)))"
      using rank_and_crop_keeps [OF gather_hits_legal(1) [OF ok(4)] legal_same_hit] by simp
    moreover have "legal_hit (working t3) user = legal_hit (working t) user"
      by (intro ext) (rule legal_hit_only_usage [OF ok(2)])
    ultimately show ?thesis using ok(1) assms by simp
  qed simp
  from assms obtain t3 where "only_usage t t3" "t' = txn_commit t3"
    by (cases rule: retrieve_cases [of cfg be now message user t]) simp_all
  then show "same_chats (working t) (working t')" "committed t' = working t'"
    by (simp_all add: only_usage_same_chats)
qed

lemma retrieve_Inl:
  assumes "retrieve cfg be now message user t = (Inl e, t')"
  shows "committed t' = committed t"
proof (cases rule: retrieve_cases [of cfg be now message user t])
  case (fails err t3)
  with assms show ?thesis by (simp add: only_usage_def)
qed (use assms in simp)

lemma same_chats_trans: "same_chats a b \<Longrightarrow> same_chats b c \<Longrightarrow> same_chats a c"
  by (simp add: same_chats_def)

section \<open>Properties\<close>


text \<open>
  The trust rule on the frames of a stream: nothing, or the sources first (numbered from one,
  each of a document the user may see), then notices, then tokens, citations and heartbeats.
\<close>

definition announcement :: "frame \<Rightarrow> bool" where
  "announcement f = (case f of FPrefill c \<Rightarrow> True | FBudget w \<Rightarrow> True | _ \<Rightarrow> False)"

definition body_ok :: "db \<Rightarrow> user option \<Rightarrow> frame list \<Rightarrow> bool" where
  "body_ok s user body \<longleftrightarrow> body = [] \<or>
     (\<exists>srcs pre inner. body = FSources srcs # pre @ inner
        \<and> map so_n srcs = [1..<Suc (length srcs)]
        \<and> list_all (\<lambda>so. sees s user (so_doc_id so)) srcs
        \<and> list_all announcement pre \<and> list_all inner_frame inner)"

lemma body_ok_append: "body_ok s user (FSources srcs # pre @ inner) \<Longrightarrow> list_all inner_frame more_frames \<Longrightarrow>
    body_ok s user (FSources srcs # pre @ inner @ more_frames)"
  unfolding body_ok_def by (metis append.assoc append_Cons list.distinct(1) list_all_append)

lemma stream_finish_cases:
  obtains (fails) e t' tail where
      "stream_finish cfg be ids now req user srcs prompt st t = (token_frame tail, Inl e, t')" "committed t' = committed t"
    | (ok) t1 t2 cid tail where
      "stream_finish cfg be ids now req user srcs prompt st t =
         (token_frame tail @ [FMeta (id_assistant_message ids) cid (ss_cited st), FDone], Inr (), t2)"
      "tail = pending (ss_guard st)"
      "persist_exchange ids (rq_chat_id req) (rq_message req) (normalize_citations (ss_raw st))
         (filter (\<lambda>so. so_n so \<in> set (ss_cited st)) srcs) t1 = (Inr (cid, id_assistant_message ids), t2)"
      "only_usage t t1"
proof -
  obtain p c where pc: "(case ss_usage st of
                      Some u \<Rightarrow> u
                    | None \<Rightarrow> (estimate_tokens (be_provider be) (answer_model cfg) (SYSTEM_PROMPT @ prompt),
                              estimate_tokens (be_provider be) (answer_model cfg) (ss_raw st))) = (p, c)"
    by (metis surj_pair)
  define t1 where "t1 = the (snd (track_usage cfg (p_prices (be_provider be)) now (Some t) (answer_model cfg) p c None (map_option u_id user)))"
  have u: "only_usage t t1" unfolding t1_def track_usage_session only_usage_def by simp (rule exI, rule refl)
  note r = stream_finish_def [of cfg be ids now req user srcs prompt st t, unfolded pc Let_def prod.case t1_def [symmetric]]
  obtain x t2 where x: "persist_exchange ids (rq_chat_id req) (rq_message req) (normalize_citations (ss_raw st))
         (filter (\<lambda>so. so_n so \<in> set (ss_cited st)) srcs) t1 = (x, t2)" by (metis surj_pair)
  show ?thesis
  proof (cases x)
    case (Inl e)
    have "committed t2 = committed t"
      using x [unfolded Inl] persist_Inl u by (metis only_usage_def)
    then show ?thesis using fails [of "fst (flush (ss_guard st))" e t2] r x Inl by simp
  next
    case (Inr q)
    obtain cid mid where q: "q = (cid, mid)" by (cases q)
    then have "mid = id_assistant_message ids" using x [unfolded Inr] persist_Inr by metis
    then show ?thesis using ok [of "pending (ss_guard st)" cid t2 t1] r x Inr q u by (simp add: flush_def)
  qed
qed

text \<open>The course of a stream after the gate.\<close>

lemma stream_frames_cases:
  obtains (failed) fs e t' where
      "stream_frames cfg be src ids now req user w (begin_txn s) = (fs, Inl e, t')"
      "body_ok s user fs" "same_chats s (committed t')"
    | (success) srcs pre inner st t1 t2 cid prompt where
      "stream_frames cfg be src ids now req user w (begin_txn s) =
         (FSources srcs # pre @ inner @ token_frame (pending (ss_guard st))
            @ [FMeta (id_assistant_message ids) cid (ss_cited st), FDone], Inr (), t2)"
      "body_ok s user (FSources srcs # pre @ inner)" "list_all announcement pre"
      "stream_loop (items_of (src SYSTEM_PROMPT prompt)) stream_start = (inner, Inr st)"
      "persist_exchange ids (rq_chat_id req) (rq_message req) (normalize_citations (ss_raw st))
         (filter (\<lambda>so. so_n so \<in> set (ss_cited st)) srcs) t1 = (Inr (cid, id_assistant_message ids), t2)"
      "same_chats s (working t1)"
proof -
  obtain r t1 where r: "retrieve cfg be now (rq_message req) user (begin_txn s) = (r, t1)" by (metis surj_pair)
  show ?thesis
  proof (cases r)
    case (Inl e)
    then show ?thesis
      using failed [of "[]" e t1] r retrieve_Inl [of cfg be now "rq_message req" user "begin_txn s" e t1]
      by (simp add: stream_frames_def body_ok_def)
  next
    case p: (Inr p)
    obtain hits cleaned where hc: "p = (hits, cleaned)" by (cases p)
    note ret = r [unfolded p hc]
    have legal: "list_all (legal_hit s user) hits" and same: "same_chats s (committed t1)" and w1: "committed t1 = working t1"
      using retrieve_legal [OF ret] by simp_all
    show ?thesis
    proof (cases "collect (map (\<lambda>(i, h). to_source i h) (enumerate 1 hits))")
      case (Inl e)
      then show ?thesis using failed [of "[]" e t1] ret same by (simp add: stream_frames_def body_ok_def)
    next
      case col: (Inr srcs)
      let ?prompt = "build_prompt cleaned hits"
      define pre where "pre = (if cleaned \<noteq> rq_message req then [FPrefill cleaned] else [])
          @ (case w of None \<Rightarrow> [] | Some w \<Rightarrow> [FBudget w])"
      have pre: "list_all announcement pre" by (auto simp: pre_def announcement_def split: option.split)
      have len: "length srcs = length hits" using collect_length [OF col] by simp
      have n: "map so_n srcs = [1..<Suc (length srcs)]"
        using collect_sources_n [OF col] by (simp add: len)
      have "\<forall>(n, h)\<in>set (enumerate 1 hits). legal_hit s user h"
        using legal by (auto simp: list_all_iff enumerate_eq_zip dest!: set_zip_rightD)
      then have vis: "list_all (\<lambda>so. sees s user (so_doc_id so)) srcs" by (rule collect_sources_seen [OF col])
      obtain inner x where l: "stream_loop (items_of (src SYSTEM_PROMPT ?prompt)) stream_start = (inner, x)"
        by (metis surj_pair)
      then have inner: "list_all inner_frame inner" using stream_loop_inner by (metis fst_conv)
      have ok: "body_ok s user (FSources srcs # pre @ inner)"
        unfolding body_ok_def using n vis pre inner by blast
      have f: "stream_frames cfg be src ids now req user w (begin_txn s) = (case x of
          Inl e \<Rightarrow> (FSources srcs # pre @ inner, Inl e, t1)
        | Inr st \<Rightarrow> apfst ((@) (FSources srcs # pre @ inner)) (stream_finish cfg be ids now req user srcs ?prompt st t1))"
        using ret col l by (simp add: stream_frames_def pre_def Let_def split: sum.split)
      show ?thesis
      proof (cases x)
        case (Inl e)
        then show ?thesis using failed [of "FSources srcs # pre @ inner" e t1] f ok same by simp
      next
        case (Inr st)
        show ?thesis
        proof (cases rule: stream_finish_cases [of cfg be ids now req user srcs ?prompt st t1])
          case (fails e t' tail)
          then show ?thesis
            using failed [of "FSources srcs # pre @ inner @ token_frame tail" e t'] f Inr same body_ok_append [OF ok, of "token_frame tail"] by simp
        next
          case fin: (ok t2 t3 cid tail)
          have "same_chats s (working t2)"
            using same w1 only_usage_same_chats [OF fin(4)] same_chats_trans by metis
          then show ?thesis
            using success [of srcs pre inner st cid t3 ?prompt t2] f Inr fin ok pre l by simp
        qed
      qed
    qed
  qed
qed


text \<open>
  C30. The tokens of a stream are the answer: when the provider's stream is not interrupted and no
  whitespace run reaches the limit, the token frames of a completed stream concatenate to
  exactly the answer deltas, and the stored message is their normalised text.
\<close>

lemma items_of_chunks: "list_all is_item (items_of (map Chunk cks))"
  by (induction cks) (auto simp: list_all_iff is_item_def)

lemma token_text_announcements: "list_all announcement pre \<Longrightarrow> token_text pre = []"
  by (induction pre) (auto simp: token_text_def announcement_def split: frame.splits)

theorem stream_tokens_lossless:
  assumes "runaway WHITESPACE_RUNAWAY_LIMIT 0 (concat (answer_texts (items_of (map Chunk cks)))) = None"
  shows "case chat_stream cfg be (\<lambda>sys p. map Chunk cks) ids now req user (begin_txn s) of
     (Inl e, t') \<Rightarrow> True
   | (Inr fs, t') \<Rightarrow>
       FError \<in> set fs
     \<or> (token_text fs = concat (answer_texts (items_of (map Chunk cks)))
        \<and> (\<exists>cid. messages (committed t') = messages s @
              exchange_rows ids cid (rq_message req) (normalize_citations (concat (answer_texts (items_of (map Chunk cks)))))))"
proof (cases "check_daily_cap cfg s user now")
  case (Inl e)
  then show ?thesis by (simp add: chat_stream_def)
next
  case (Inr w)
  let ?items = "items_of (map Chunk cks)"
  have "held [] = []" by (simp add: held_def current_line_def)
  then have g: "fst (feed_all (ss_guard stream_start) (answer_texts ?items)) @ pending (snd (feed_all (ss_guard stream_start) (answer_texts ?items)))
      = concat (answer_texts ?items) \<and> \<not> finished (snd (feed_all (ss_guard stream_start) (answer_texts ?items)))"
    using feed_chars_spec [of "new_guard WHITESPACE_RUNAWAY_LIMIT" "[]" "concat (answer_texts ?items)"] assms
      feed_all_concat [of "new_guard WHITESPACE_RUNAWAY_LIMIT" "answer_texts ?items"]
    by (simp add: stream_start_def)
  have fin: "\<not> finished (ss_guard stream_start)" by (simp add: stream_start_def)
  show ?thesis
  proof (cases rule: stream_frames_cases [of cfg be "\<lambda>sys p. map Chunk cks" ids now req user w s])
    case (failed fs e t')
    then show ?thesis using Inr by (simp add: chat_stream_def)
  next
    case (success srcs pre inner st t1 t2 cid prompt)
    obtain st' where "snd (stream_loop ?items stream_start) = Inr st'"
      "feed_all (ss_guard stream_start) (answer_texts ?items) = (token_text (fst (stream_loop ?items stream_start)), ss_guard st')"
      "finished (ss_guard st') \<or> ss_raw st' = ss_raw stream_start @ concat (answer_texts ?items)"
      using stream_loop_items [OF items_of_chunks fin] by blast
    then have st: "token_text inner @ pending (ss_guard st) = concat (answer_texts ?items)"
      "ss_raw st = concat (answer_texts ?items)"
      using success(4) g by (simp_all add: stream_start_def)
    have tt: "token_text (FRetry # FSources srcs # pre @ inner @ token_frame (pending (ss_guard st)) @ [FMeta m cid cs, FDone])
        = concat (answer_texts ?items)" for m cs
    proof -
      have "token_text (FRetry # FSources srcs # fs) = token_text fs" "token_text [FMeta m cid cs, FDone] = []" for fs
        by (simp_all add: token_text_def)
      then show ?thesis using token_text_announcements [OF success(3)] st(1) by simp
    qed
    have "messages (committed t2) = messages s @ exchange_rows ids cid (rq_message req) (normalize_citations (ss_raw st))"
      using persist_Inr [OF success(5)] success(6) by (simp add: same_chats_def)
    then show ?thesis using Inr success(1) tt st(2) by (auto simp: chat_stream_def)
  qed
qed

theorem stream_tokens_lossless_witness:
  "\<exists>fs t'. chat_stream default_settings sample_backend (\<lambda>sys p. map Chunk [text_chunk ''Hel'', text_chunk ''lo'']) sample_ids 0
      \<lparr>rq_message = ''hi'', rq_chat_id = None\<rparr> None (begin_txn empty_db) = (Inr fs, t') \<and> token_text fs = ''Hello''"
proof -
  let ?req = "\<lparr>rq_message = ''hi'', rq_chat_id = None\<rparr>"
  let ?cks = "[text_chunk ''Hel'', text_chunk ''lo'']" let ?src = "\<lambda>sys p :: string. map Chunk ?cks"
  have items: "items_of (map Chunk ?cks) = [Item (EvAnswer ''Hel''), Item (EvAnswer ''lo'')]"
    by (simp add: text_chunk_def chunk_events_def first_truthy_def)
  have run: "runaway WHITESPACE_RUNAWAY_LIMIT 0 (concat (answer_texts (items_of (map Chunk ?cks)))) = None"
    unfolding items by (simp add: WHITESPACE_RUNAWAY_LIMIT_def is_space_def code_def)
  obtain t1 where r: "retrieve default_settings sample_backend 0 ''hi'' None (begin_txn empty_db) = (Inr ([], ''hi''), t1)"
    using sample_retrieve by blast
  have gate: "check_daily_cap default_settings empty_db None 0 = Inr None"
    by (simp add: check_daily_cap_def today_cost_usd_def over_daily_cap_def empty_db_def)
  obtain st where l: "snd (stream_loop (items_of (map Chunk ?cks)) stream_start) = Inr st"
    using stream_loop_items [OF items_of_chunks, of stream_start ?cks] by (auto simp: stream_start_def)
  have inner: "FError \<notin> set (fst (stream_loop (items_of (map Chunk ?cks)) stream_start))"
    using stream_loop_inner [of "items_of (map Chunk ?cks)" stream_start] by (auto simp: list_all_iff inner_frame_def)
  obtain fs u t2 where fin: "stream_finish default_settings sample_backend sample_ids 0 ?req None [] (build_prompt ''hi'' []) st t1 = (fs, Inr u, t2)"
    "FError \<notin> set fs"
    by (auto simp: stream_finish_def Let_def persist_exchange_def case_prod_beta token_frame_def split: prod.split)
  obtain gs t3 where c: "chat_stream default_settings sample_backend ?src sample_ids 0 ?req None (begin_txn empty_db) = (Inr gs, t3)"
    "FError \<notin> set gs"
    using gate r l fin inner
    by (cases "stream_loop (items_of (map Chunk ?cks)) stream_start")
       (auto simp: chat_stream_def stream_frames_def Let_def)
  have "concat (answer_texts (items_of (map Chunk ?cks))) = ''Hello''" unfolding items by simp
  then show ?thesis
    using stream_tokens_lossless [OF run, where cfg = default_settings and be = sample_backend and ids = sample_ids and now = 0
        and req = ?req and user = None and s = empty_db] c by auto
qed
text \<open>
  A silence ends the answer: once the provider is quiet for longer than the heartbeat interval,
  nothing it sends later reaches the client or the database; the request ends as if the stream
  had stopped at the heartbeat.
\<close>

lemma items_of_append: "items_of (xs @ ys) = items_of xs @ items_of ys"
  by (induction xs rule: items_of.induct) simp_all

lemma silence_ends_the_answer:
  "chat_stream cfg be (\<lambda>sys p. xs @ Silence # ys) ids now req user t
   = chat_stream cfg be (\<lambda>sys p. xs @ [Silence]) ids now req user t"
proof -
  have eq: "stream_loop (items_of (xs @ Silence # ys)) st = stream_loop (items_of (xs @ [Silence])) st" for st
    using stream_loop_silence [of "items_of xs" "items_of ys" st] by (simp add: items_of_append)
  show ?thesis unfolding chat_stream_def stream_frames_def eq by (rule refl)
qed

text \<open>
  Feedback is a toggle per message: after a post the message has the rating that was posted, or
  none when it already had that rating; the reply says which; other messages keep theirs; one
  row per message is kept. A post for an unknown message changes nothing.
\<close>

lemma feedback_toggles:
  assumes "distinct (map f_message_id (feedbacks (working t)))"
  shows "case feedback_toggle mid rating comment t of
     (Inl e, t') \<Rightarrow> mid \<notin> m_id ` set (messages (working t)) \<and> committed t' = committed t
   | (Inr res, t') \<Rightarrow>
       res = (if map_option f_rating (tbl_find f_message_id mid (feedbacks (working t))) = Some rating then None else Some rating)
     \<and> map_option f_rating (tbl_find f_message_id mid (feedbacks (committed t'))) = res
     \<and> tbl_del f_message_id mid (feedbacks (committed t')) = tbl_del f_message_id mid (feedbacks (working t))
     \<and> distinct (map f_message_id (feedbacks (committed t')))"
proof (cases "tbl_find f_message_id mid (feedbacks (working t))")
  case None
  then have "mid \<notin> f_message_id ` set (feedbacks (working t))" by (simp add: tbl_find_None tbl_keys_def)
  with None assms show ?thesis by (auto simp: feedback_toggle_def tbl_del_def)
next
  case (Some ex)
  then have k: "f_message_id ex = mid" by (auto dest: tbl_find_Some)
  have "tbl_del f_message_id mid (tbl_put f_message_id (ex\<lparr>f_rating := rating, f_comment := comment\<rparr>) rows)
      = tbl_del f_message_id mid rows" for rows
    using k by (induction rows) (auto simp: tbl_del_def)
  then show ?thesis using Some assms k
    by (auto simp: feedback_toggle_def db_simps distinct_tbl_del distinct_tbl_put) (simp_all add: tbl_del_def)
qed

lemma feedback_toggles_witness:
  "tbl_del f_message_id 3 (feedbacks (committed (snd (feedback_toggle 3 Up None
     (begin_txn (empty_db\<lparr>feedbacks := [\<lparr>f_message_id = 3, f_rating = Down, f_comment = None\<rparr>]\<rparr>)))))) = []"
  using feedback_toggles [of "begin_txn (empty_db\<lparr>feedbacks := [\<lparr>f_message_id = 3, f_rating = Down, f_comment = None\<rparr>]\<rparr>)" 3 Up None]
  by (simp add: feedback_toggle_def tbl_del_def)

end
