(* ===== verification/Chunking.thy ===== *)
theory Chunking imports PyStr begin

text \<open>
  \<open>prorag/ingest/chunk.py\<close>: both chunkers. They share the loop that slides a window of
  \<open>target_tokens\<close> words over a stream by \<open>max(target_tokens - overlap_tokens, 1)\<close>; sizes are
  Python integers, so the slices keep their meaning for zero and negative targets.
\<close>

section \<open>The window loop\<close>

definition window_step :: "int \<Rightarrow> int \<Rightarrow> int" where
  "window_step target overlap = max (target - overlap) 1"

text \<open>
  The windows of the stream from position \<open>i\<close>. An empty window ends the loop; it is kept as the
  last element because the two callers treat it differently.
\<close>

function window_loop :: "int \<Rightarrow> int \<Rightarrow> 'a list \<Rightarrow> int \<Rightarrow> 'a list list" where
  "window_loop target overlap stream i =
     (if int (length stream) \<le> i then []
      else let window = py_slice stream i (i + target) in
        if window = [] then [[]]
        else window #
          (if int (length stream) \<le> i + target then []
           else window_loop target overlap stream (i + window_step target overlap)))"
  by pat_completeness auto
termination
  by (relation "measure (\<lambda>(target, overlap, stream, i). nat (int (length stream) - i))")
     (auto simp: window_step_def)

declare window_loop.simps [simp del]

section \<open>Fixed windows over pages\<close>

record page_chunk =
  pc_ord :: nat
  pc_text :: string
  pc_page_start :: nat
  pc_page_end :: nat
  pc_token_count :: nat

definition page_stream :: "string list \<Rightarrow> (string \<times> nat) list" where
  "page_stream pages = concat (map (\<lambda>(page_no, page_text). map (\<lambda>w. (w, page_no)) (py_split page_text)) (enumerate 1 pages))"

definition space :: string where
  "space = '' ''"

definition page_chunk_of :: "nat \<Rightarrow> (string \<times> nat) list \<Rightarrow> page_chunk" where
  "page_chunk_of n window =
     \<lparr>pc_ord = n, pc_text = py_join space (map fst window), pc_page_start = snd (hd window),
      pc_page_end = snd (last window), pc_token_count = length window\<rparr>"

definition chunk_pages :: "string list \<Rightarrow> int \<Rightarrow> int \<Rightarrow> page_chunk list" where
  "chunk_pages pages target overlap =
     map (\<lambda>(n, w). page_chunk_of n w)
       (enumerate 0 (takeWhile (\<lambda>w. w \<noteq> []) (window_loop target overlap (page_stream pages) 0)))"

section \<open>Structured elements\<close>

record element =
  el_text :: string
  el_page :: int
  el_heading_path :: "string list"
  el_bbox :: "(real \<times> real \<times> real \<times> real) option"

record structured_chunk =
  sch_ord :: nat
  sch_text :: string
  sch_embed_text :: string
  sch_heading_path :: "string list"
  sch_page_start :: int
  sch_page_end :: int
  sch_bbox :: "real list option"
  sch_token_count :: nat

definition heading_key :: "string list \<Rightarrow> string list" where
  "heading_key heading_path = take 2 heading_path"

definition union_bbox :: "(real \<times> real \<times> real \<times> real) list \<Rightarrow> real list option" where
  "union_bbox boxes =
     (if boxes = [] then None
      else Some [Min (set (map (\<lambda>(x0, y0, x1, y1). x0) boxes)), Min (set (map (\<lambda>(x0, y0, x1, y1). y0) boxes)),
                 Max (set (map (\<lambda>(x0, y0, x1, y1). x1) boxes)), Max (set (map (\<lambda>(x0, y0, x1, y1). y1) boxes))])"

definition breadcrumb :: "string list \<Rightarrow> string" where
  "breadcrumb heading_path = (if heading_path = [] then [] else ''# '' @ py_join '' > '' heading_path)"

definition element_key :: "element \<Rightarrow> int \<times> string list" where
  "element_key el = (el_page el, heading_key (el_heading_path el))"

text \<open>\<open>current\<close> and \<open>current_key\<close> are the loop's variables.\<close>

fun group_loop :: "element list \<Rightarrow> (int \<times> string list) option \<Rightarrow> element list \<Rightarrow> element list list" where
  "group_loop current current_key [] = (if current = [] then [] else [current])"
| "group_loop current current_key (el # els) =
     (if current \<noteq> [] \<and> Some (element_key el) \<noteq> current_key
      then current # group_loop [el] (Some (element_key el)) els
      else group_loop (current @ [el]) (Some (element_key el)) els)"

definition group_by_page_and_heading :: "element list \<Rightarrow> element list list" where
  "group_by_page_and_heading elements = group_loop [] None elements"

definition element_stream :: "element list \<Rightarrow> (string \<times> element) list" where
  "element_stream grp = concat (map (\<lambda>el. map (\<lambda>w. (w, el)) (py_split (el_text el))) grp)"

text \<open>\<open>els_in_window[0]\<close> raises \<open>IndexError\<close> on an empty window.\<close>

definition structured_chunk_of :: "nat \<Rightarrow> (string \<times> element) list \<Rightarrow> structured_chunk outcome" where
  "structured_chunk_of n window =
     (case window of
        [] \<Rightarrow> Inl (PyError ''IndexError'' ''list index out of range'')
      | (w, el) # rest \<Rightarrow>
          (let txt = py_join space (map fst window); crumb = breadcrumb (el_heading_path el) in
           Inr \<lparr>sch_ord = n, sch_text = txt,
                sch_embed_text = (if crumb = [] then txt else crumb @ [CHR 0x0A] @ txt),
                sch_heading_path = el_heading_path el, sch_page_start = el_page el, sch_page_end = el_page el,
                sch_bbox = union_bbox (List.map_filter (el_bbox \<circ> snd) window),
                sch_token_count = length window\<rparr>))"

fun structured_chunks :: "nat \<Rightarrow> (string \<times> element) list list \<Rightarrow> structured_chunk list outcome" where
  "structured_chunks n [] = Inr []"
| "structured_chunks n (w # ws) =
     (case structured_chunk_of n w of
        Inl e \<Rightarrow> Inl e
      | Inr c \<Rightarrow> (case structured_chunks (Suc n) ws of Inl e \<Rightarrow> Inl e | Inr cs \<Rightarrow> Inr (c # cs)))"

definition element_windows :: "element list \<Rightarrow> int \<Rightarrow> int \<Rightarrow> (string \<times> element) list list" where
  "element_windows elements target overlap =
     concat (map (\<lambda>grp. window_loop target overlap (element_stream grp) 0) (group_by_page_and_heading elements))"

definition chunk_elements :: "element list \<Rightarrow> int \<Rightarrow> int \<Rightarrow> structured_chunk list outcome" where
  "chunk_elements elements target overlap = structured_chunks 0 (element_windows elements target overlap)"

section \<open>What the window loop produces\<close>

text \<open>Putting the windows back together: all of the first, then what each later one adds.\<close>

fun rebuild :: "nat \<Rightarrow> 'a list list \<Rightarrow> 'a list" where
  "rebuild k [] = []"
| "rebuild k (w # ws) = w @ concat (map (drop k) ws)"

definition effective_overlap :: "int \<Rightarrow> int \<Rightarrow> nat" where
  "effective_overlap target overlap = nat (target - window_step target overlap)"

lemma window_at:
  assumes "0 < target" and "0 \<le> i" and "i < int (length stream)"
  shows "py_slice stream i (i + target) = take (nat target) (drop (nat i) stream)"
    and "py_slice stream i (i + target) \<noteq> []"
proof -
  have "nat (i + target) - nat i = nat target" using assms by simp
  then show eq: "py_slice stream i (i + target) = take (nat target) (drop (nat i) stream)"
    using assms by (simp add: py_slice_nonneg)
  have "drop (nat i) stream \<noteq> []" using assms by auto
  then show "py_slice stream i (i + target) \<noteq> []" unfolding eq using assms by simp
qed

lemma window_loop_unfold:
  assumes "0 < target" and "0 \<le> i" and "i < int (length stream)"
  shows "window_loop target overlap stream i =
     take (nat target) (drop (nat i) stream) #
       (if int (length stream) \<le> i + target then [] else window_loop target overlap stream (i + window_step target overlap))"
  using window_at [OF assms] assms by (simp add: window_loop.simps [of target overlap stream i] Let_def)

lemma window_loop_windows:
  assumes "0 < target" and "0 \<le> i" and "w \<in> set (window_loop target overlap stream i)"
  shows "w \<noteq> [] \<and> length w \<le> nat target \<and> sublist w stream"
  using assms
proof (induction target overlap stream i rule: window_loop.induct)
  case (1 target overlap stream i)
  show ?case
  proof (cases "i < int (length stream)")
    case False
    with 1 show ?thesis by (simp add: window_loop.simps [of target overlap stream i])
  next
    case True
    note u = window_loop_unfold [OF 1(2,3) True, of overlap]
    have "sublist (take (nat target) (drop (nat i) stream)) stream"
      using sublist_take sublist_drop sublist_order.order_trans by blast
    moreover have "take (nat target) (drop (nat i) stream) \<noteq> []" using window_at [OF 1(2,3) True] by simp
    moreover have "0 \<le> i + window_step target overlap" using 1(3) by (simp add: window_step_def)
    ultimately show ?thesis
      using 1 u True window_at [OF 1(2,3) True] by (auto split: if_splits)
  qed
qed

lemma window_loop_rebuild_tail:
  assumes "0 < target" and "0 \<le> overlap" and "0 \<le> i"
  shows "concat (map (drop (effective_overlap target overlap)) (window_loop target overlap stream i))
     = drop (nat i + effective_overlap target overlap) stream"
  using assms
proof (induction target overlap stream i rule: window_loop.induct)
  case (1 target overlap stream i)
  have st: "0 < window_step target overlap" "window_step target overlap \<le> target"
    using 1(2,3) by (auto simp: window_step_def)
  show ?case
  proof (cases "i < int (length stream)")
    case False
    with 1 show ?thesis by (simp add: window_loop.simps [of target overlap stream i])
  next
    case True
    let ?k = "effective_overlap target overlap"
    note u = window_loop_unfold [OF 1(2,4) True, of overlap]
    have k: "?k \<le> nat target" "nat target - ?k = nat (window_step target overlap)"
      using st by (auto simp: effective_overlap_def)
    have d: "drop ?k (take (nat target) (drop (nat i) stream))
        = take (nat (window_step target overlap)) (drop (nat i + ?k) stream)"
      by (simp add: drop_take k(2) add.commute)
    show ?thesis
    proof (cases "int (length stream) \<le> i + target")
      case last: True
      have "length (drop (nat i + ?k) stream) \<le> nat (window_step target overlap)"
        using last 1(4) k st by (simp add: effective_overlap_def) linarith
      then show ?thesis using u last d by simp
    next
      case False
      have "concat (map (drop ?k) (window_loop target overlap stream (i + window_step target overlap)))
          = drop (nat (i + window_step target overlap) + ?k) stream"
        using 1(1) [OF _ refl _ False] True window_at [OF 1(2,4) True] 1(2-4) st by simp
      moreover have "nat (i + window_step target overlap) + ?k = nat (window_step target overlap) + (nat i + ?k)"
        using 1(4) st by simp
      ultimately show ?thesis using u False d
        by (simp add: append_take_drop_id flip: drop_drop)
    qed
  qed
qed

lemma window_loop_rebuild:
  assumes "0 < target" and "0 \<le> overlap"
  shows "rebuild (effective_overlap target overlap) (window_loop target overlap stream 0) = stream"
proof (cases "stream = []")
  case True
  then show ?thesis by (simp add: window_loop.simps)
next
  case False
  let ?k = "effective_overlap target overlap"
  have u: "window_loop target overlap stream 0 = take (nat target) stream #
       (if int (length stream) \<le> target then [] else window_loop target overlap stream (window_step target overlap))"
    using window_loop_unfold [of target 0 stream overlap] assms False by simp
  have st: "0 < window_step target overlap" "window_step target overlap \<le> target"
    using assms by (auto simp: window_step_def)
  then have "nat (window_step target overlap) + ?k = nat target" by (simp add: effective_overlap_def)
  then have "concat (map (drop ?k) (window_loop target overlap stream (window_step target overlap))) = drop (nat target) stream"
    using window_loop_rebuild_tail [of target overlap "window_step target overlap" stream] assms st by simp
  then show ?thesis using u by simp
qed


section \<open>Chunks of pages\<close>

lemma map_fst_page_stream: "map fst (page_stream pages) = concat (map py_split pages)"
proof -
  have "map fst (concat (map (\<lambda>(page_no, page_text). map (\<lambda>w. (w, page_no)) (py_split page_text)) (enumerate n pages)))
     = concat (map py_split pages)" for n :: nat
    by (induction pages arbitrary: n) (auto simp: o_def)
  then show ?thesis by (simp add: page_stream_def)
qed

lemma page_stream_tokens: "x \<in> set (page_stream pages) \<Longrightarrow> is_token (fst x)"
  unfolding page_stream_def by (auto dest: py_split_tokens)

lemma page_stream_bounds:
  "x \<in> set (page_stream pages) \<Longrightarrow> 1 \<le> snd x \<and> snd x \<le> length pages"
  unfolding page_stream_def by (auto simp: in_set_enumerate_eq)

lemma page_stream_sorted: "sorted (map snd (page_stream pages))"
proof -
  have "sorted (map snd (concat (map (\<lambda>(page_no, page_text). map (\<lambda>w. (w, page_no)) (py_split page_text)) (enumerate n pages))))"
    for n :: nat
  proof (induction pages arbitrary: n)
    case Nil
    then show ?case by simp
  next
    case (Cons p ps)
    have "sorted (map (\<lambda>x. n) (py_split p))" by (induction "py_split p") (simp_all add: map_replicate_const)
    moreover have "\<forall>x\<in>set (concat (map (\<lambda>(page_no, page_text). map (\<lambda>w. (w, page_no)) (py_split page_text)) (enumerate (Suc n) ps))). n \<le> snd x"
      by (auto simp: in_set_enumerate_eq)
    ultimately show ?case using Cons.IH [of "Suc n"] by (simp add: sorted_append o_def)
  qed
  then show ?thesis by (simp add: page_stream_def)
qed

text \<open>The words of the pages \<open>a..b\<close>, counted from 1.\<close>

definition words_of_pages :: "string list \<Rightarrow> nat \<Rightarrow> nat \<Rightarrow> string list" where
  "words_of_pages pages a b = concat (map py_split (take (Suc b - a) (drop (a - 1) pages)))"

lemma page_stream_between:
  assumes "1 \<le> a" and "a \<le> b"
  shows "map fst (filter (\<lambda>x. a \<le> snd x \<and> snd x \<le> b) (page_stream pages)) = words_of_pages pages a b"
proof -
  let ?f = "\<lambda>(page_no, page_text). map (\<lambda>w. (w, page_no)) (py_split page_text)"
  have all: "map fst (filter (\<lambda>x. a \<le> snd x \<and> snd x \<le> b) (concat (map ?f (enumerate n ps))))
      = concat (map py_split (take (Suc b - n) ps))" if "a \<le> n" for n ps
    using that
  proof (induction ps arbitrary: n)
    case (Cons p ps)
    then show ?case by (cases "n \<le> b") (auto simp: o_def Suc_diff_le filter_empty_conv)
  qed simp
  have "map fst (filter (\<lambda>x. a \<le> snd x \<and> snd x \<le> b) (concat (map ?f (enumerate n ps))))
      = concat (map py_split (take (Suc b - a) (drop (a - n) ps)))" if "n \<le> a" for n ps
    using that
  proof (induction ps arbitrary: n)
    case (Cons p ps)
    show ?case
    proof (cases "n = a")
      case True
      then show ?thesis using all [of n "p # ps"] by simp
    next
      case False
      then have "a - n = Suc (a - Suc n)" using Cons.prems by simp
      then show ?thesis using Cons.IH [of "Suc n"] Cons.prems False by simp
    qed
  qed simp
  from this [of 1 pages] assms show ?thesis unfolding page_stream_def words_of_pages_def by simp
qed

lemma sorted_between:
  assumes "sorted (map f w)" and "x \<in> set w"
  shows "f (hd w) \<le> f x \<and> f x \<le> f (last w)"
proof -
  from assms(2) obtain u v where "w = u @ x # v" by (meson split_list)
  then show ?thesis using assms(1) by (cases u; cases v rule: rev_cases) (auto simp: sorted_append)
qed

lemma sublist_filter:
  assumes "sublist w xs" and "\<forall>x\<in>set w. P x"
  shows "sublist w (filter P xs)"
proof -
  from assms(1) obtain u v where "xs = u @ w @ v" by (auto simp: sublist_def)
  then have "filter P xs = filter P u @ w @ filter P v" using assms(2) by (simp add: filter_id_conv)
  then show ?thesis by (auto simp: sublist_def)
qed

text \<open>A window of the page stream lies in the pages its chunk names.\<close>

lemma page_chunk_of_provenance:
  fixes n :: nat and pages :: "string list"
  assumes "sublist w (page_stream pages)" and "w \<noteq> []"
  defines "c \<equiv> page_chunk_of n w"
  shows "py_split (pc_text c) = map fst w"
    and "1 \<le> pc_page_start c \<and> pc_page_start c \<le> pc_page_end c \<and> pc_page_end c \<le> length pages"
    and "sublist (py_split (pc_text c)) (words_of_pages pages (pc_page_start c) (pc_page_end c))"
proof -
  have in_stream: "set w \<subseteq> set (page_stream pages)" using assms(1) by (auto simp: sublist_def)
  have "\<forall>t\<in>set (map fst w). is_token t" using in_stream page_stream_tokens by auto
  then show words: "py_split (pc_text c) = map fst w"
    using py_split_join by (simp add: c_def page_chunk_of_def space_def)
  have "sorted (map snd w)"
    using assms(1) page_stream_sorted [of pages] by (auto simp: sublist_def sorted_append)
  then have between: "\<forall>x\<in>set w. pc_page_start c \<le> snd x \<and> snd x \<le> pc_page_end c"
    using sorted_between by (fastforce simp: c_def page_chunk_of_def)
  have "hd w \<in> set w" "last w \<in> set w" using assms(2) by simp_all
  then show bounds: "1 \<le> pc_page_start c \<and> pc_page_start c \<le> pc_page_end c \<and> pc_page_end c \<le> length pages"
    using between in_stream page_stream_bounds
    by (metis (no_types, lifting) c_def le_trans page_chunk.select_convs(3) page_chunk.select_convs(4) page_chunk_of_def subsetD)
  have "sublist (map fst w) (map fst (filter (\<lambda>x. pc_page_start c \<le> snd x \<and> snd x \<le> pc_page_end c) (page_stream pages)))"
    by (rule map_mono_sublist [OF sublist_filter [OF assms(1)]]) (use between in simp)
  then show "sublist (py_split (pc_text c)) (words_of_pages pages (pc_page_start c) (pc_page_end c))"
    using page_stream_between bounds words by simp
qed


lemma chunk_pages_windows:
  assumes "0 < target"
  shows "chunk_pages pages target overlap
     = map (\<lambda>(n, w). page_chunk_of n w) (enumerate 0 (window_loop target overlap (page_stream pages) 0))"
proof -
  have "takeWhile (\<lambda>w. w \<noteq> []) (window_loop target overlap (page_stream pages) 0)
      = window_loop target overlap (page_stream pages) 0"
    using window_loop_windows [OF assms, of 0 _ overlap "page_stream pages"] by simp
  then show ?thesis unfolding chunk_pages_def by (simp only: )
qed

lemma map_enumerate_snd: "map (\<lambda>(n, w). g w) (enumerate k ws) = map g ws"
  by (induction ws arbitrary: k) auto

text \<open>
  C21. Chunking pages loses nothing: for a positive window and a non-negative overlap, splitting
  the chunk texts and dropping from every chunk after the first the words it shares with its
  predecessor gives exactly the words of all pages in order. Chunks are numbered from 0, none is
  empty or longer than the window, and the words of each are a contiguous run of the pages its
  citation anchor names.
\<close>

theorem chunk_pages_lossless:
  assumes "0 < target" and "0 \<le> overlap"
  shows "rebuild (effective_overlap target overlap) (map (\<lambda>c. py_split (pc_text c)) (chunk_pages pages target overlap))
           = concat (map py_split pages)
     \<and> map pc_ord (chunk_pages pages target overlap) = [0..<length (chunk_pages pages target overlap)]
     \<and> (\<forall>c\<in>set (chunk_pages pages target overlap).
          0 < pc_token_count c \<and> int (pc_token_count c) \<le> target \<and> length (py_split (pc_text c)) = pc_token_count c
        \<and> 1 \<le> pc_page_start c \<and> pc_page_start c \<le> pc_page_end c \<and> pc_page_end c \<le> length pages
        \<and> sublist (py_split (pc_text c)) (words_of_pages pages (pc_page_start c) (pc_page_end c)))"
proof -
  let ?ws = "window_loop target overlap (page_stream pages) 0"
  note cs = chunk_pages_windows [OF assms(1), of pages overlap]
  have w: "w \<noteq> []" "length w \<le> nat target" "sublist w (page_stream pages)" if "w \<in> set ?ws" for w
    using window_loop_windows [OF assms(1) _ that] by simp_all
  have texts: "py_split (pc_text (page_chunk_of n v)) = map fst v" if "v \<in> set ?ws" for n v
    using page_chunk_of_provenance(1) [OF w(3) [OF that] w(1) [OF that]] .
  have "map (\<lambda>c. py_split (pc_text c)) (chunk_pages pages target overlap)
      = map (\<lambda>(n, w). map fst w) (enumerate 0 ?ws)"
    unfolding cs map_map
    by (rule map_cong [OF refl]) (use texts in \<open>auto simp: in_set_enumerate_eq\<close>)
  then have "map (\<lambda>c. py_split (pc_text c)) (chunk_pages pages target overlap) = map (map fst) ?ws"
    by (simp add: map_enumerate_snd)
  moreover have "rebuild (effective_overlap target overlap) (map (map fst) ?ws)
      = map fst (rebuild (effective_overlap target overlap) ?ws)"
    by (cases ?ws) (simp_all add: map_concat o_def drop_map)
  ultimately have 1: "rebuild (effective_overlap target overlap) (map (\<lambda>c. py_split (pc_text c)) (chunk_pages pages target overlap))
           = concat (map py_split pages)"
    using window_loop_rebuild [OF assms, of "page_stream pages"] by (simp add: map_fst_page_stream)
  have "pc_ord \<circ> (\<lambda>(n, w). page_chunk_of n w) = fst" by (auto simp: page_chunk_of_def)
  then have "map pc_ord (chunk_pages pages target overlap) = map fst (enumerate 0 ?ws)"
    unfolding cs map_map by (simp only: )
  then have 2: "map pc_ord (chunk_pages pages target overlap) = [0..<length (chunk_pages pages target overlap)]"
    by (simp add: cs)
  have 3: "\<forall>c\<in>set (chunk_pages pages target overlap).
          0 < pc_token_count c \<and> int (pc_token_count c) \<le> target \<and> length (py_split (pc_text c)) = pc_token_count c
        \<and> 1 \<le> pc_page_start c \<and> pc_page_start c \<le> pc_page_end c \<and> pc_page_end c \<le> length pages
        \<and> sublist (py_split (pc_text c)) (words_of_pages pages (pc_page_start c) (pc_page_end c))"
  proof
    fix c assume "c \<in> set (chunk_pages pages target overlap)"
    then obtain n v where c: "c = page_chunk_of n v" and "v \<in> set ?ws"
      unfolding cs by (auto simp: in_set_enumerate_eq)
    then show "0 < pc_token_count c \<and> int (pc_token_count c) \<le> target \<and> length (py_split (pc_text c)) = pc_token_count c
        \<and> 1 \<le> pc_page_start c \<and> pc_page_start c \<le> pc_page_end c \<and> pc_page_end c \<le> length pages
        \<and> sublist (py_split (pc_text c)) (words_of_pages pages (pc_page_start c) (pc_page_end c))"
      using page_chunk_of_provenance [OF w(3,1), of v n] w(1,2) [of v] assms(1)
      by (auto simp: page_chunk_of_def [of n v] le_nat_iff)
  qed
  from 1 2 3 show ?thesis by (intro conjI)
qed

theorem chunk_pages_lossless_witness:
  "map (\<lambda>c. (pc_text c, pc_page_start c, pc_page_end c)) (chunk_pages [''a b'', ''c''] 2 1) = [(''a b'', 1, 1), (''b c'', 1, 2)]
   \<and> rebuild (effective_overlap 2 1) (map (\<lambda>c. py_split (pc_text c)) (chunk_pages [''a b'', ''c''] 2 1)) = [''a'', ''b'', ''c'']"
proof -
  have s: "py_split ''a b'' = [''a'', ''b'']" "py_split ''c'' = [''c'']" by code_simp+
  have "map (\<lambda>c. (pc_text c, pc_page_start c, pc_page_end c)) (chunk_pages [''a b'', ''c''] 2 1) = [(''a b'', 1, 1), (''b c'', 1, 2)]"
    by code_simp
  then show ?thesis using chunk_pages_lossless [of 2 1 "[''a b'', ''c'']"] s by simp
qed


section \<open>Chunks of structured elements\<close>

lemma group_loop_concat: "concat (group_loop current key els) = current @ els"
  by (induction current key els rule: group_loop.induct) auto

text \<open>Every group has one key, and the next group starts with another.\<close>

definition one_key :: "element list \<Rightarrow> bool" where
  "one_key grp \<longleftrightarrow> grp \<noteq> [] \<and> (\<forall>el\<in>set grp. element_key el = element_key (hd grp))"

fun keys_change :: "element list list \<Rightarrow> bool" where
  "keys_change (g # h # gs) = (element_key (hd g) \<noteq> element_key (hd h) \<and> keys_change (h # gs))"
| "keys_change gs = True"

lemma group_loop_groups:
  assumes "current = [] \<or> (one_key current \<and> key = Some (element_key (hd current)))"
  shows "(\<forall>g\<in>set (group_loop current key els). one_key g) \<and> keys_change (group_loop current key els)
     \<and> (current \<noteq> [] \<longrightarrow> (\<exists>g gs. group_loop current key els = g # gs \<and> hd g = hd current))"
  using assms
proof (induction current key els rule: group_loop.induct)
  case (1 current key)
  then show ?case by auto
next
  case (2 current key el els)
  show ?case
  proof (cases "current \<noteq> [] \<and> Some (element_key el) \<noteq> key")
    case True
    have "one_key [el]" by (simp add: one_key_def)
    with 2(1) [OF True] obtain g gs where g: "group_loop [el] (Some (element_key el)) els = g # gs" "hd g = el"
      and all: "\<forall>g\<in>set (group_loop [el] (Some (element_key el)) els). one_key g"
      and ch: "keys_change (group_loop [el] (Some (element_key el)) els)" by auto
    from True 2(3) have "one_key current" "element_key (hd current) \<noteq> element_key el" by auto
    then show ?thesis using True g all ch by simp
  next
    case False
    have ne: "current @ [el] \<noteq> []" by simp
    have "one_key (current @ [el]) \<and> Some (element_key el) = Some (element_key (hd (current @ [el])))"
      using False 2(3) by (cases current) (auto simp: one_key_def)
    then have "current @ [el] = [] \<or> (one_key (current @ [el]) \<and> Some (element_key el) = Some (element_key (hd (current @ [el]))))"
      by blast
    note ih = 2(2) [OF False this]
    have hd: "current \<noteq> [] \<Longrightarrow> hd (current @ [el]) = hd current" by simp
    show ?thesis using ih False hd ne by auto
  qed
qed

lemmas group_by_page_and_heading_groups = group_loop_groups [of "[]" None, simplified, folded group_by_page_and_heading_def]

lemma group_by_page_and_heading_concat: "concat (group_by_page_and_heading els) = els"
  by (simp add: group_by_page_and_heading_def group_loop_concat)

text \<open>What the chunk of a window says about it.\<close>

definition chunk_of_window :: "(string \<times> element) list \<Rightarrow> structured_chunk \<Rightarrow> bool" where
  "chunk_of_window w c \<longleftrightarrow> w \<noteq> [] \<and> sch_text c = py_join space (map fst w) \<and> sch_token_count c = length w
     \<and> sch_embed_text c = (if sch_heading_path c = [] then sch_text c
         else breadcrumb (sch_heading_path c) @ [CHR 0x0A] @ sch_text c)
     \<and> sch_heading_path c = el_heading_path (snd (hd w)) \<and> sch_page_start c = el_page (snd (hd w))
     \<and> sch_page_end c = el_page (snd (hd w))"

lemma structured_chunk_of_window:
  assumes "w \<noteq> []"
  obtains c where "structured_chunk_of n w = Inr c" and "chunk_of_window w c" and "sch_ord c = n"
proof -
  from assms obtain t el rest where w: "w = (t, el) # rest" by (cases w) auto
  show thesis by (rule that [of "projr (structured_chunk_of n w)"])
      (auto simp: w structured_chunk_of_def chunk_of_window_def breadcrumb_def Let_def)
qed

lemma structured_chunks_windows:
  "\<forall>w\<in>set ws. w \<noteq> [] \<Longrightarrow> \<exists>cs. structured_chunks n ws = Inr cs \<and> list_all2 chunk_of_window ws cs
     \<and> map sch_ord cs = [n..<n + length cs]"
proof (induction ws arbitrary: n)
  case Nil
  then show ?case by simp
next
  case (Cons w ws)
  from Cons.IH [of "Suc n"] Cons.prems obtain cs where cs: "structured_chunks (Suc n) ws = Inr cs"
    "list_all2 chunk_of_window ws cs" "map sch_ord cs = [Suc n..<Suc n + length cs]" by auto
  from Cons.prems obtain c where c: "structured_chunk_of n w = Inr c" "chunk_of_window w c" "sch_ord c = n"
    using structured_chunk_of_window [of w n] by auto
  have "[n..<n + length (c # cs)] = n # [Suc n..<Suc n + length cs]"
    using upt_conv_Cons [of n "n + length (c # cs)"] by simp
  with cs c show ?case by simp
qed

lemma list_all2_concat_split:
  "list_all2 P (concat wss) cs \<Longrightarrow> \<exists>css. concat css = cs \<and> list_all2 (list_all2 P) wss css"
proof (induction wss arbitrary: cs)
  case Nil
  then show ?case by simp
next
  case (Cons ws wss)
  then obtain us vs where "cs = us @ vs" "list_all2 P ws us" "list_all2 P (concat wss) vs"
    by (auto simp: list_all2_append1)
  moreover from Cons.IH [OF this(3)] obtain css where "concat css = vs" "list_all2 (list_all2 P) wss css" by auto
  ultimately show ?case by (intro exI [of _ "us # css"]) simp
qed


text \<open>What the chunks \<open>cs\<close> of one group say about its elements.\<close>

definition chunks_cover_group :: "int \<Rightarrow> int \<Rightarrow> element list \<Rightarrow> structured_chunk list \<Rightarrow> bool" where
  "chunks_cover_group target overlap grp cs \<longleftrightarrow>
     rebuild (effective_overlap target overlap) (map (\<lambda>c. py_split (sch_text c)) cs) = concat (map (\<lambda>el. py_split (el_text el)) grp)
   \<and> (\<forall>c\<in>set cs. 0 < sch_token_count c \<and> int (sch_token_count c) \<le> target
        \<and> length (py_split (sch_text c)) = sch_token_count c
        \<and> (\<exists>el\<in>set grp. sch_heading_path c = el_heading_path el)
        \<and> (\<forall>el\<in>set grp. sch_page_start c = el_page el \<and> sch_page_end c = el_page el
             \<and> heading_key (sch_heading_path c) = heading_key (el_heading_path el))
        \<and> sch_embed_text c = (if sch_heading_path c = [] then sch_text c
             else breadcrumb (sch_heading_path c) @ [CHR 0x0A] @ sch_text c))"

lemma element_stream_facts:
  shows "map fst (element_stream grp) = concat (map (\<lambda>el. py_split (el_text el)) grp)"
    and "x \<in> set (element_stream grp) \<Longrightarrow> is_token (fst x) \<and> snd x \<in> set grp"
  by (auto simp: element_stream_def map_concat o_def dest: py_split_tokens)

lemma chunks_of_group:
  assumes t: "0 < target" "0 \<le> overlap" and grp: "one_key grp"
    and cs: "list_all2 chunk_of_window (window_loop target overlap (element_stream grp) 0) cs"
  shows "chunks_cover_group target overlap grp cs"
proof -
  let ?ws = "window_loop target overlap (element_stream grp) 0"
  have w: "w \<noteq> []" "length w \<le> nat target" "set w \<subseteq> set (element_stream grp)" if "w \<in> set ?ws" for w
    using window_loop_windows [OF t(1) _ that] set_mono_sublist by auto
  have words: "py_split (sch_text c) = map fst w" if "w \<in> set ?ws" "chunk_of_window w c" for w c
  proof -
    have "\<forall>x\<in>set (map fst w). is_token x" using w(3) [OF that(1)] element_stream_facts(2) by fastforce
    then show ?thesis using py_split_join that(2) by (simp add: chunk_of_window_def space_def)
  qed
  have "list_all2 (\<lambda>w c. map fst w = py_split (sch_text c)) ?ws cs"
    by (rule list.rel_mono_strong [OF cs]) (simp add: words)
  then have "map (\<lambda>c. py_split (sch_text c)) cs = map (map fst) ?ws"
    by (auto simp: list_all2_conv_all_nth intro!: nth_equalityI)
  moreover have "rebuild (effective_overlap target overlap) (map (map fst) ?ws)
      = map fst (rebuild (effective_overlap target overlap) ?ws)"
    by (cases ?ws) (simp_all add: map_concat o_def drop_map)
  ultimately have 1: "rebuild (effective_overlap target overlap) (map (\<lambda>c. py_split (sch_text c)) cs)
      = concat (map (\<lambda>el. py_split (el_text el)) grp)"
    using window_loop_rebuild [OF t, of "element_stream grp"] by (simp add: element_stream_facts(1))
  have "\<exists>w\<in>set ?ws. chunk_of_window w c" if "c \<in> set cs" for c
    using cs that by (metis in_set_conv_nth list_all2_conv_all_nth nth_mem)
  note win = this
  have 2: "0 < sch_token_count c \<and> int (sch_token_count c) \<le> target
        \<and> length (py_split (sch_text c)) = sch_token_count c
        \<and> (\<exists>el\<in>set grp. sch_heading_path c = el_heading_path el)
        \<and> (\<forall>el\<in>set grp. sch_page_start c = el_page el \<and> sch_page_end c = el_page el
             \<and> heading_key (sch_heading_path c) = heading_key (el_heading_path el))
        \<and> sch_embed_text c = (if sch_heading_path c = [] then sch_text c
             else breadcrumb (sch_heading_path c) @ [CHR 0x0A] @ sch_text c)" if "c \<in> set cs" for c
  proof -
    from win [OF that] obtain v where v: "v \<in> set ?ws" "chunk_of_window v c" by auto
    have el: "snd (hd v) \<in> set grp" using w(1,3) [OF v(1)] element_stream_facts(2) [of "hd v" grp] by (meson hd_in_set subsetD)
    have keys: "element_key e = element_key (snd (hd v))" if "e \<in> set grp" for e
      using grp el that unfolding one_key_def by metis
    have size: "0 < sch_token_count c" "int (sch_token_count c) \<le> target"
      using v(2) w(1,2) [OF v(1)] t(1) by (auto simp: chunk_of_window_def le_nat_iff)
    have len: "length (py_split (sch_text c)) = sch_token_count c"
      using v(2) words [OF v] by (simp add: chunk_of_window_def)
    have path: "sch_heading_path c = el_heading_path (snd (hd v))" "sch_page_start c = el_page (snd (hd v))"
        "sch_page_end c = el_page (snd (hd v))"
      using v(2) by (simp_all add: chunk_of_window_def)
    then have "\<forall>el\<in>set grp. sch_page_start c = el_page el \<and> sch_page_end c = el_page el
             \<and> heading_key (sch_heading_path c) = heading_key (el_heading_path el)"
      using keys by (simp add: element_key_def)
    moreover have "sch_embed_text c = (if sch_heading_path c = [] then sch_text c
             else breadcrumb (sch_heading_path c) @ [CHR 0x0A] @ sch_text c)"
      using v(2) unfolding chunk_of_window_def by blast
    ultimately show ?thesis using size len el path(1) by blast
  qed
  from 1 2 show ?thesis unfolding chunks_cover_group_def by blast
qed

text \<open>
  C22. \<open>chunk_elements\<close> never raises for a positive window and a non-negative overlap, and its
  chunks respect the document's structure: the elements are cut into consecutive groups, a new
  one exactly where page or H1/H2 heading changes; the chunks, numbered from 0, come group by
  group; each carries the page of all its group's elements, a heading path with their first two
  levels, the breadcrumb in its embedding text and at most \<open>target\<close> words; and no word is lost.
\<close>

theorem chunk_elements_structure:
  assumes "0 < target" and "0 \<le> overlap"
  shows "\<exists>css. chunk_elements elements target overlap = Inr (concat css)
     \<and> map sch_ord (concat css) = [0..<length (concat css)]
     \<and> concat (group_by_page_and_heading elements) = elements
     \<and> keys_change (group_by_page_and_heading elements)
     \<and> list_all2 (chunks_cover_group target overlap) (group_by_page_and_heading elements) css"
proof -
  let ?W = "\<lambda>grp. window_loop target overlap (element_stream grp) 0"
  let ?wss = "map ?W (group_by_page_and_heading elements)"
  have "\<forall>w\<in>set (concat ?wss). w \<noteq> []" using window_loop_windows [OF assms(1)] by fastforce
  from structured_chunks_windows [OF this, of 0] obtain cs where
    cs: "chunk_elements elements target overlap = Inr cs" "list_all2 chunk_of_window (concat ?wss) cs"
      "map sch_ord cs = [0..<length cs]"
    unfolding chunk_elements_def element_windows_def by auto
  from list_all2_concat_split [OF cs(2)] obtain css where
    css: "concat css = cs" "list_all2 (list_all2 chunk_of_window) ?wss css" by auto
  then have "list_all2 (\<lambda>grp c. list_all2 chunk_of_window (?W grp) c) (group_by_page_and_heading elements) css"
    by (simp add: list_all2_map1)
  then have "list_all2 (chunks_cover_group target overlap) (group_by_page_and_heading elements) css"
    by (rule list.rel_mono_strong) (use chunks_of_group [OF assms] group_by_page_and_heading_groups in blast)
  then show ?thesis using cs css group_by_page_and_heading_groups group_by_page_and_heading_concat by blast
qed

definition sample_elements :: "element list" where
  "sample_elements =
     [\<lparr>el_text = ''a b'', el_page = 1, el_heading_path = [''H'', ''I'', ''J''], el_bbox = None\<rparr>,
      \<lparr>el_text = ''c'', el_page = 1, el_heading_path = [''H'', ''I''], el_bbox = Some (0, 1, 2, 3)\<rparr>,
      \<lparr>el_text = ''d'', el_page = 2, el_heading_path = [], el_bbox = None\<rparr>]"

theorem chunk_elements_structure_witness:
  "(\<exists>css. chunk_elements sample_elements 2 1 = Inr (concat css) \<and> length css = 2
     \<and> list_all2 (chunks_cover_group 2 1) (group_by_page_and_heading sample_elements) css)
   \<and> map (map el_text) (group_by_page_and_heading sample_elements) = [[''a b'', ''c''], [''d'']]"
proof -
  have g: "map (map el_text) (group_by_page_and_heading sample_elements) = [[''a b'', ''c''], [''d'']]" by code_simp
  then have "length (group_by_page_and_heading sample_elements) = 2" by (metis length_map length_Cons list.size(3) numeral_2_eq_2)
  moreover obtain css where css: "chunk_elements sample_elements 2 1 = Inr (concat css)"
      "list_all2 (chunks_cover_group 2 1) (group_by_page_and_heading sample_elements) css"
    using chunk_elements_structure [of 2 1 sample_elements] by auto
  ultimately have "length css = 2" by (auto dest: list_all2_lengthD)
  with css g show ?thesis by blast
qed

text \<open>A window of no words raises once there is a word to put in it.\<close>

lemma chunk_elements_empty_window:
  "chunk_elements sample_elements 0 0 = Inl (PyError ''IndexError'' ''list index out of range'')"
  by code_simp

end
