(* ===== verification/Table_Artifacts.thy ===== *)
theory Table_Artifacts imports DataModel begin

text \<open>
  \<open>prorag/ingest/tables.py\<close>: the text artifacts of a table. A row is its JSONB dict with the
  cells rendered by \<open>str\<close> (an association list in column order, see \<open>cells\<close>).
\<close>

section \<open>Definitions\<close>

datatype artifact_kind = TableSummary | TableWindow | RowKv

primrec kind_name :: "artifact_kind \<Rightarrow> string" where
  "kind_name TableSummary = ''table_summary''"
| "kind_name TableWindow = ''table_window''"
| "kind_name RowKv = ''row''"

record table_artifact =
  ta_kind :: artifact_kind
  ta_text :: string
  ta_row_start :: "nat option"
  ta_row_end :: "nat option"

definition WIDE_TABLE_COLUMNS :: nat where
  "WIDE_TABLE_COLUMNS = 12"

definition DEFAULT_WINDOW_SIZE :: nat where
  "DEFAULT_WINDOW_SIZE = 25"

definition is_wide_table :: "string list \<Rightarrow> bool" where
  "is_wide_table columns = (WIDE_TABLE_COLUMNS < length columns)"

text \<open>\<open>dict(zip(columns, row, strict=False))\<close>: a repeated column keeps its place and takes the later value.\<close>

definition dict_of :: "(string \<times> string) list \<Rightarrow> cells" where
  "dict_of kvs = foldl (\<lambda>d kv. tbl_put fst kv d) [] kvs"

definition build_table_rows :: "string list \<Rightarrow> string list list \<Rightarrow> cells list" where
  "build_table_rows columns rows = map (\<lambda>row. dict_of (zip columns row)) rows"

definition cell :: "cells \<Rightarrow> string \<Rightarrow> string" where
  "cell row c = (case map_of row c of None \<Rightarrow> [] | Some v \<Rightarrow> v)"

definition bar :: "string list \<Rightarrow> string" where
  "bar xs = ''| '' @ py_join '' | '' xs @ '' |''"

definition row_to_markdown :: "cells \<Rightarrow> string list \<Rightarrow> string" where
  "row_to_markdown row columns = bar (map (cell row) columns)"

abbreviation nl :: string where
  "nl \<equiv> [CHR 0x0A]"

definition build_table_summary :: "string option \<Rightarrow> string list \<Rightarrow> cells list \<Rightarrow> nat \<Rightarrow> string" where
  "build_table_summary caption columns rows sample_size =
     (let title = (case caption of None \<Rightarrow> ''Untitled table'' | Some c \<Rightarrow> if c = [] then ''Untitled table'' else c);
          sample_md = py_join nl (map (\<lambda>r. row_to_markdown r columns) (take sample_size rows))
      in ''Table: '' @ title @ ''. Columns: '' @ py_join '', '' columns @ ''. '' @ str_of_nat (length rows)
         @ '' rows.'' @ nl @ ''Sample:'' @ nl @ bar columns @ nl @ sample_md)"

definition window_text :: "string list \<Rightarrow> cells list \<Rightarrow> string" where
  "window_text columns rows =
     bar columns @ nl @ bar (replicate (length columns) ''---'') @ nl
       @ py_join nl (map (\<lambda>r. row_to_markdown r columns) rows)"

text \<open>The loop \<open>for start in range(0, len(rows), window_size)\<close>, over the windows that are left.\<close>

fun window_artifacts :: "string list \<Rightarrow> nat \<Rightarrow> cells list list \<Rightarrow> table_artifact list" where
  "window_artifacts columns start [] = []"
| "window_artifacts columns start (w # ws) =
     \<lparr>ta_kind = TableWindow, ta_text = window_text columns w, ta_row_start = Some start,
      ta_row_end = Some (start + length w - 1)\<rparr> # window_artifacts columns (start + length w) ws"

definition build_row_windows :: "string list \<Rightarrow> cells list \<Rightarrow> nat \<Rightarrow> table_artifact list" where
  "build_row_windows columns rows window_size = window_artifacts columns 0 (windows window_size rows)"

definition kv_text :: "string list \<Rightarrow> cells \<Rightarrow> string" where
  "kv_text columns row = py_join '' | '' (map (\<lambda>c. c @ '': '' @ cell row c) columns)"

definition build_row_kv_chunks :: "string list \<Rightarrow> cells list \<Rightarrow> table_artifact list" where
  "build_row_kv_chunks columns rows =
     map (\<lambda>(i, row). \<lparr>ta_kind = RowKv, ta_text = kv_text columns row, ta_row_start = Some i, ta_row_end = Some i\<rparr>)
       (enumerate 0 rows)"

definition build_table_artifacts :: "string option \<Rightarrow> string list \<Rightarrow> cells list \<Rightarrow> nat \<Rightarrow> table_artifact list" where
  "build_table_artifacts caption columns rows window_size =
     \<lparr>ta_kind = TableSummary, ta_text = build_table_summary caption columns rows 3, ta_row_start = None, ta_row_end = None\<rparr>
     # (if is_wide_table columns then build_row_kv_chunks columns rows
        else build_row_windows columns rows window_size)"

section \<open>Every row is in exactly one artifact\<close>

definition row_range :: "table_artifact \<Rightarrow> nat list" where
  "row_range a =
     (case (ta_row_start a, ta_row_end a) of (Some i, Some j) \<Rightarrow> [i..<Suc j] | _ \<Rightarrow> [])"

text \<open>An artifact renders exactly the rows of its range, under the header of the table.\<close>

definition renders :: "string list \<Rightarrow> cells list \<Rightarrow> table_artifact \<Rightarrow> bool" where
  "renders columns rows a \<longleftrightarrow>
     (case ta_kind a of
        TableSummary \<Rightarrow> row_range a = []
      | TableWindow \<Rightarrow> ta_text a = window_text columns (map ((!) rows) (row_range a))
      | RowKv \<Rightarrow> (\<exists>i. row_range a = [i] \<and> ta_text a = kv_text columns (rows ! i)))"

lemma window_artifacts_cover:
  assumes "\<forall>w\<in>set ws. w \<noteq> [] \<and> length w \<le> n"
  shows "concat (map row_range (window_artifacts columns start ws)) = [start..<start + length (concat ws)]
     \<and> (\<forall>a\<in>set (window_artifacts columns start ws). ta_kind a = TableWindow \<and> length (row_range a) \<le> n
          \<and> ta_text a = window_text columns (map (\<lambda>i. concat ws ! (i - start)) (row_range a)))"
  using assms
proof (induction ws arbitrary: start)
  case Nil
  then show ?case by simp
next
  case (Cons w ws)
  let ?s = "start + length w"
  have w: "w \<noteq> []" "length w \<le> n" using Cons.prems by simp_all
  have ih: "concat (map row_range (window_artifacts columns ?s ws)) = [?s..<?s + length (concat ws)]"
    "\<forall>a\<in>set (window_artifacts columns ?s ws). ta_kind a = TableWindow \<and> length (row_range a) \<le> n
          \<and> ta_text a = window_text columns (map (\<lambda>i. concat ws ! (i - ?s)) (row_range a))"
    using Cons.IH [of ?s] Cons.prems by auto
  have r: "[start..<Suc (start + length w - 1)] = [start..<?s]" using w by (cases w) auto
  have hd: "map (\<lambda>i. (w @ concat ws) ! (i - start)) [start..<?s] = w"
    by (intro nth_equalityI) (auto simp: nth_append)
  have tl: "map (\<lambda>i. (w @ concat ws) ! (i - start)) (row_range a) = map (\<lambda>i. concat ws ! (i - ?s)) (row_range a)"
    if "a \<in> set (window_artifacts columns ?s ws)" for a
  proof (rule map_cong [OF refl])
    fix i assume "i \<in> set (row_range a)"
    then have "i \<in> set (concat (map row_range (window_artifacts columns ?s ws)))" using that by auto
    then have "?s \<le> i" using ih(1) by simp
    then have "\<not> i - start < length w" "i - start - length w = i - ?s" by arith+
    then show "(w @ concat ws) ! (i - start) = concat ws ! (i - ?s)" by (simp only: nth_append if_False)
  qed
  have "[start..<?s] @ [?s..<?s + length (concat ws)] = [start..<start + length (concat (w # ws))]"
    using upt_add_eq_append [of start ?s "length (concat ws)"] by (simp add: add.assoc)
  moreover let ?a = "\<lparr>ta_kind = TableWindow, ta_text = window_text columns w, ta_row_start = Some start,
      ta_row_end = Some (start + length w - 1)\<rparr>"
  have a: "row_range ?a = [start..<?s]" unfolding row_range_def using r by simp
  ultimately have 1: "concat (map row_range (window_artifacts columns start (w # ws))) = [start..<start + length (concat (w # ws))]"
    using ih(1) by simp
  have "ta_kind b = TableWindow \<and> length (row_range b) \<le> n
          \<and> ta_text b = window_text columns (map (\<lambda>i. concat (w # ws) ! (i - start)) (row_range b))"
    if "b \<in> set (window_artifacts columns start (w # ws))" for b
  proof (cases "b = ?a")
    case True
    then show ?thesis using a hd w(2) by simp
  next
    case False
    then have "b \<in> set (window_artifacts columns ?s ws)" using that by simp
    then show ?thesis using ih(2) tl [of b] by (metis concat.simps(2))
  qed
  with 1 show ?case by blast
qed

text \<open>
  C31. The artifacts of a table: a summary first, then artifacts whose row ranges, in order, are
  exactly \<open>0, ..., n - 1\<close>, so that every row is rendered in one artifact and no row twice. A wide
  table gets one key-value artifact per row, any other windows of at most \<open>window_size\<close> rows,
  each a complete markdown table with the header and exactly the rows of its range.
\<close>

theorem table_artifacts_partition_rows:
  assumes "0 < window_size"
  shows "\<exists>summary rest. build_table_artifacts caption columns rows window_size = summary # rest
     \<and> ta_kind summary = TableSummary
     \<and> concat (map row_range rest) = [0..<length rows]
     \<and> (\<forall>a\<in>set rest. renders columns rows a \<and> length (row_range a) \<le> window_size
          \<and> ta_kind a = (if 12 < length columns then RowKv else TableWindow))"
proof (cases "is_wide_table columns")
  case True
  have "concat (map row_range (build_row_kv_chunks columns rows)) = concat (map (\<lambda>p. [fst p]) (enumerate 0 rows))"
    unfolding build_row_kv_chunks_def by (simp add: o_def case_prod_beta row_range_def)
  then have "concat (map row_range (build_row_kv_chunks columns rows)) = [0..<length rows]"
    by (simp add: concat_map_singleton [of fst])
  moreover have "\<forall>a\<in>set (build_row_kv_chunks columns rows). renders columns rows a \<and> length (row_range a) \<le> window_size \<and> ta_kind a = RowKv"
    using assms by (auto simp: build_row_kv_chunks_def renders_def row_range_def in_set_enumerate_eq)
  ultimately show ?thesis using True by (simp add: build_table_artifacts_def is_wide_table_def WIDE_TABLE_COLUMNS_def)
next
  case False
  have "\<forall>w\<in>set (windows window_size rows). w \<noteq> [] \<and> length w \<le> window_size"
    using windows_sizes [OF assms] by blast
  from window_artifacts_cover [OF this, of columns 0] False show ?thesis
    by (simp add: build_table_artifacts_def is_wide_table_def WIDE_TABLE_COLUMNS_def build_row_windows_def renders_def)
qed

theorem table_artifacts_partition_rows_witness:
  "map (\<lambda>a. (ta_kind a, row_range a)) (build_table_artifacts None [''a''] [[(''a'', ''1'')], [(''a'', ''2'')], []] 2)
     = [(TableSummary, []), (TableWindow, [0, 1]), (TableWindow, [2])]
   \<and> (\<exists>summary rest. build_table_artifacts None [''a''] [[(''a'', ''1'')], [(''a'', ''2'')], []] 2 = summary # rest
        \<and> concat (map row_range rest) = [0, 1, 2])"
proof -
  have "map (\<lambda>a. (ta_kind a, row_range a)) (build_table_artifacts None [''a''] [[(''a'', ''1'')], [(''a'', ''2'')], []] 2)
     = [(TableSummary, []), (TableWindow, [0, 1]), (TableWindow, [2])]" by code_simp
  moreover have "[0..<length [[(''a'', ''1'')], [(''a'', ''2'')], []]] = [0, 1, 2]" by (simp add: upt_rec)
  ultimately show ?thesis
    using table_artifacts_partition_rows [of 2 None "[''a'']" "[[(''a'', ''1'')], [(''a'', ''2'')], []]"] by auto
qed

text \<open>A later cell of a repeated column wins, as in a dict built from pairs.\<close>

lemma dict_of_lookup: "map_of (dict_of kvs) k = map_of (rev kvs) k"
proof -
  have put: "map_of (tbl_put fst kv d) k = (if fst kv = k then Some (snd kv) else map_of d k)" for kv :: "string \<times> string" and d
    by (induction d) auto
  have "map_of (foldl (\<lambda>d kv. tbl_put fst kv d) d kvs) k = (case map_of (rev kvs) k of None \<Rightarrow> map_of d k | Some v \<Rightarrow> Some v)" for d
    by (induction kvs arbitrary: d) (auto simp: put map_add_def split: option.splits)
  from this [of "[]"] show ?thesis by (simp add: dict_of_def split: option.split)
qed

end
