(* ===== verification/Parsing.thy ===== *)
theory Parsing imports Chunking Table_Artifacts Settings_Model begin

text \<open>
  \<open>prorag/ingest/parse.py\<close>: content sniffing, MIME routing by extension and the parse paths.
  PyMuPDF, Docling, pandas, Pillow and the vision API are the record \<open>parse_env\<close> of parameters;
  what the code does with what they return or raise is modelled. Bytes are character lists.
\<close>

section \<open>MIME types\<close>

definition mime_pdf :: string where "mime_pdf = ''application/pdf''"
definition mime_docx :: string where
  "mime_docx = ''application/vnd.openxmlformats-officedocument.wordprocessingml.document''"
definition mime_pptx :: string where
  "mime_pptx = ''application/vnd.openxmlformats-officedocument.presentationml.presentation''"
definition mime_xlsx :: string where
  "mime_xlsx = ''application/vnd.openxmlformats-officedocument.spreadsheetml.sheet''"
definition mime_tsv :: string where "mime_tsv = ''text/tab-separated-values''"
definition mime_csv :: string where "mime_csv = ''text/csv''"

lemmas mime_defs = mime_pdf_def mime_docx_def mime_pptx_def mime_xlsx_def mime_tsv_def mime_csv_def

definition SIGNATURES :: "(string \<times> string) list" where
  "SIGNATURES =
     [(''%PDF-'', mime_pdf),
      (''PK'' @ [CHR 0x03, CHR 0x04], ''zip''),
      (CHR 0x89 # ''PNG'' @ [CHR 0x0D, CHR 0x0A, CHR 0x1A, CHR 0x0A], ''image/png''),
      ([CHR 0xFF, CHR 0xD8, CHR 0xFF], ''image/jpeg''),
      (''II*'' @ [CHR 0x00], ''image/tiff''),
      (''MM'' @ [CHR 0x00] @ ''*'', ''image/tiff''),
      (''RIFF'', ''image/webp'')]"

definition OOXML_MARKERS :: "(string \<times> string) list" where
  "OOXML_MARKERS = [(''word/'', mime_docx), (''ppt/'', mime_pptx), (''xl/'', mime_xlsx)]"

definition sniff_mime :: "string \<Rightarrow> string option" where
  "sniff_mime data =
     (case find (\<lambda>(sig, mime). py_startswith data sig) SIGNATURES of
        None \<Rightarrow> None
      | Some (sig, mime) \<Rightarrow>
          if mime \<noteq> ''zip'' then Some mime
          else map_option snd (find (\<lambda>(marker, ooxml). py_contains marker (take 4096 data)) OOXML_MARKERS))"

fun ends_with_any :: "string \<Rightarrow> string list \<Rightarrow> bool" where
  "ends_with_any s sufs = list_ex (py_endswith s) sufs"

definition guess_mime :: "string \<Rightarrow> string" where
  "guess_mime filename =
     (let lower = py_lower filename in
      if py_endswith lower ''.pdf'' then mime_pdf
      else if py_endswith lower ''.docx'' then mime_docx
      else if py_endswith lower ''.pptx'' then mime_pptx
      else if py_endswith lower ''.xlsx'' then mime_xlsx
      else if py_endswith lower ''.tsv'' then mime_tsv
      else if py_endswith lower ''.csv'' then mime_csv
      else if py_endswith lower ''.md'' then ''text/markdown''
      else if ends_with_any lower [''.png'', ''.jpg'', ''.jpeg'', ''.tiff'', ''.tif'', ''.webp''] then
        (if py_endswith lower ''.png'' then ''image/png''
         else if ends_with_any lower [''.jpg'', ''.jpeg''] then ''image/jpeg''
         else if ends_with_any lower [''.tiff'', ''.tif''] then ''image/tiff'' else ''image/webp'')
      else ''text/plain'')"

definition DOCLING_MIMES :: "string list" where
  "DOCLING_MIMES = [mime_pdf, mime_docx, mime_pptx]"

definition STRUCTURED_MIMES :: "string list" where
  "STRUCTURED_MIMES = [mime_csv, mime_tsv, mime_xlsx]"

text \<open>\<open>Path(filename).suffix\<close>, the last component of the path from its last dot on.\<close>

fun split_slash :: "string \<Rightarrow> string list" where
  "split_slash [] = [[]]"
| "split_slash (c # cs) =
     (case split_slash cs of
        [] \<Rightarrow> []
      | p # ps \<Rightarrow> if c = CHR ''/'' then [] # p # ps else (c # p) # ps)"

definition path_name :: "string \<Rightarrow> string" where
  "path_name filename =
     (case rev (filter (\<lambda>p. p \<noteq> [] \<and> p \<noteq> ''.'') (split_slash filename)) of [] \<Rightarrow> [] | p # _ \<Rightarrow> p)"

definition path_suffix :: "string \<Rightarrow> string" where
  "path_suffix filename =
     (let name = path_name filename; ext = rev (takeWhile (\<lambda>c. c \<noteq> CHR ''.'') (rev name)) in
      if CHR ''.'' \<in> set name \<and> Suc (length ext) < length name \<and> ext \<noteq> [] then CHR ''.'' # ext else [])"

section \<open>What the parsers return\<close>

record parsed_table =
  pt_caption :: "string option"
  pt_columns :: "string list"
  pt_rows :: "cells list"
  pt_page_no :: "int option"
  pt_bbox :: "(real \<times> real \<times> real \<times> real) option"

record parsed_document =
  pd_prose :: "element list"
  pd_tables :: "parsed_table list"
  pd_page_count :: "int option"

text \<open>
  One item of Docling's stream: \<open>str(label)\<close> (empty when there is none), the type name, the first
  provenance, the text, the exported table (which may raise) and the caption (which may raise).
\<close>

record docling_item =
  di_label :: string
  di_type :: string
  di_prov :: "(int option \<times> (real \<times> real \<times> real \<times> real) option) option"
  di_text :: "string option"
  di_table :: "(string list \<times> cells list) option outcome"
  di_caption :: "string option outcome"

record docling_document =
  dd_items :: "docling_item list"
  dd_num_pages :: "int option"

record parse_env =
  pe_fitz :: "string \<Rightarrow> string outcome list outcome"
  pe_decode :: "string \<Rightarrow> string"
  pe_docling_available :: bool
  pe_docling :: "string \<Rightarrow> string \<Rightarrow> docling_document outcome"
  pe_render :: "string \<Rightarrow> string \<Rightarrow> nat \<Rightarrow> string outcome"
  pe_vision :: "string \<Rightarrow> string option outcome"
  pe_excel :: "string \<Rightarrow> (string \<times> string list \<times> cells list) list outcome"
  pe_csv :: "char \<Rightarrow> string \<Rightarrow> (string list \<times> cells list) outcome"

section \<open>PyMuPDF and OCR\<close>

fun collect :: "'a outcome list \<Rightarrow> 'a list outcome" where
  "collect [] = Inr []"
| "collect (Inl e # xs) = Inl e"
| "collect (Inr x # xs) = map_sum id ((#) x) (collect xs)"

definition parse_to_pages :: "parse_env \<Rightarrow> string \<Rightarrow> string \<Rightarrow> string list outcome" where
  "parse_to_pages env data mime =
     (if mime = mime_pdf then (case pe_fitz env data of Inl e \<Rightarrow> Inl e | Inr pages \<Rightarrow> collect pages)
      else Inr [pe_decode env data])"

definition pdf_page_count :: "parse_env \<Rightarrow> string \<Rightarrow> string \<Rightarrow> nat" where
  "pdf_page_count env data mime =
     (if mime \<noteq> mime_pdf then 1
      else (case pe_fitz env data of Inl e \<Rightarrow> 1 | Inr pages \<Rightarrow> length pages))"

text \<open>\<open>any(...)\<close> stops at the first page with text; a page that raises makes the probe answer \<open>True\<close>.\<close>

fun any_text :: "string outcome list \<Rightarrow> bool" where
  "any_text [] = False"
| "any_text (Inl e # pages) = True"
| "any_text (Inr t # pages) = (py_strip t \<noteq> [] \<or> any_text pages)"

definition pdf_has_text_layer :: "parse_env \<Rightarrow> string \<Rightarrow> bool" where
  "pdf_has_text_layer env data = (case pe_fitz env data of Inl e \<Rightarrow> True | Inr pages \<Rightarrow> any_text pages)"

text \<open>
  The API key of \<open>ocr_pages\<close>: the module uses \<open>os.environ\<close> for the fallback but never imports
  \<open>os\<close>, so without the setting the lookup raises \<open>NameError\<close>.
\<close>

definition ocr_key :: "settings \<Rightarrow> string outcome" where
  "ocr_key cfg =
     (case openrouter_api_key cfg of
        Some k \<Rightarrow> if k = [] then Inl (PyError ''NameError'' ''name os is not defined'') else Inr k
      | None \<Rightarrow> Inl (PyError ''NameError'' ''name os is not defined''))"

definition ocr_page :: "parse_env \<Rightarrow> string \<Rightarrow> string \<Rightarrow> nat \<Rightarrow> string outcome" where
  "ocr_page env data mime page_no =
     (case pe_render env data mime page_no of
        Inl e \<Rightarrow> Inl e
      | Inr png \<Rightarrow>
          (case pe_vision env png of
             Inl e \<Rightarrow> Inl e
           | Inr None \<Rightarrow> Inr []
           | Inr (Some t) \<Rightarrow> Inr t))"

definition ocr_pages :: "settings \<Rightarrow> parse_env \<Rightarrow> string \<Rightarrow> string \<Rightarrow> nat \<Rightarrow> string list outcome" where
  "ocr_pages cfg env data mime page_count =
     (case ocr_key cfg of
        Inl e \<Rightarrow> Inl e
      | Inr k \<Rightarrow> collect (map (ocr_page env data mime) [1..<Suc page_count]))"

section \<open>Docling\<close>

record docling_state =
  ds_prose :: "element list"
  ds_tables :: "parsed_table list"
  ds_heading :: "string list"

definition item_label :: "docling_item \<Rightarrow> string" where
  "item_label it = py_lower (if di_label it = [] then di_type it else di_label it)"

definition item_page :: "docling_item \<Rightarrow> int option" where
  "item_page it = (case di_prov it of None \<Rightarrow> None | Some (p, _) \<Rightarrow> p)"

definition item_bbox :: "docling_item \<Rightarrow> (real \<times> real \<times> real \<times> real) option" where
  "item_bbox it = (case di_prov it of None \<Rightarrow> None | Some (_, b) \<Rightarrow> b)"

definition item_text :: "docling_item \<Rightarrow> string" where
  "item_text it = (case di_text it of None \<Rightarrow> [] | Some t \<Rightarrow> t)"

definition page_or_one :: "int option \<Rightarrow> int" where
  "page_or_one p = (case p of None \<Rightarrow> 1 | Some n \<Rightarrow> if n = 0 then 1 else n)"

definition docling_step :: "docling_item \<Rightarrow> docling_state \<Rightarrow> docling_state outcome" where
  "docling_step it st =
     (if item_label it \<in> {''section_header'', ''title'', ''heading''} then Inr (st\<lparr>ds_heading := [item_text it]\<rparr>)
      else if item_label it = ''table'' \<or> di_type it = ''TableItem'' then
        (case di_table it of
           Inl e \<Rightarrow> Inl e
         | Inr None \<Rightarrow> Inr st
         | Inr (Some (columns, rows)) \<Rightarrow>
             Inr (st\<lparr>ds_tables := ds_tables st @
               [\<lparr>pt_caption = (case di_caption it of Inl e \<Rightarrow> None | Inr c \<Rightarrow> c), pt_columns = columns, pt_rows = rows,
                 pt_page_no = item_page it, pt_bbox = item_bbox it\<rparr>]\<rparr>))
      else if py_strip (item_text it) \<noteq> [] then
        Inr (st\<lparr>ds_prose := ds_prose st @
          [\<lparr>el_text = item_text it, el_page = page_or_one (item_page it), el_heading_path = ds_heading st,
            el_bbox = item_bbox it\<rparr>]\<rparr>)
      else Inr st)"

fun docling_items :: "docling_item list \<Rightarrow> docling_state \<Rightarrow> docling_state outcome" where
  "docling_items [] st = Inr st"
| "docling_items (it # its) st =
     (case docling_step it st of Inl e \<Rightarrow> Inl e | Inr st' \<Rightarrow> docling_items its st')"

text \<open>The pages some prose element or table of the parse lies on.\<close>

definition covered_pages :: "element list \<Rightarrow> parsed_table list \<Rightarrow> int set" where
  "covered_pages prose tabs =
     set (map el_page prose) \<union> set (filter (\<lambda>p. p \<noteq> 0) (List.map_filter pt_page_no tabs))"

text \<open>\<open>page_count and covered and len(covered) / page_count < 0.5\<close>\<close>

definition hollow :: "int option \<Rightarrow> int set \<Rightarrow> bool" where
  "hollow page_count covered =
     (case page_count of
        None \<Rightarrow> False
      | Some n \<Rightarrow> n \<noteq> 0 \<and> covered \<noteq> {} \<and> real (card covered) / real_of_int n < 0.5)"

definition try_docling_parse :: "parse_env \<Rightarrow> string \<Rightarrow> string \<Rightarrow> string \<Rightarrow> parsed_document option" where
  "try_docling_parse env data mime filename =
     (if \<not> pe_docling_available env \<or> mime \<notin> set DOCLING_MIMES then None
      else
        (let suffix = (if path_suffix filename = [] then ''.pdf'' else path_suffix filename) in
         case pe_docling env suffix data of
           Inl e \<Rightarrow> None
         | Inr dl \<Rightarrow>
             (case docling_items (dd_items dl) \<lparr>ds_prose = [], ds_tables = [], ds_heading = []\<rparr> of
                Inl e \<Rightarrow> None
              | Inr st \<Rightarrow>
                  if hollow (dd_num_pages dl) (covered_pages (ds_prose st) (ds_tables st)) then None
                  else Some \<lparr>pd_prose = ds_prose st, pd_tables = ds_tables st, pd_page_count = dd_num_pages dl\<rparr>)))"

section \<open>pandas\<close>

definition plain_table :: "string option \<Rightarrow> string list \<times> cells list \<Rightarrow> parsed_table" where
  "plain_table caption df =
     \<lparr>pt_caption = caption, pt_columns = fst df, pt_rows = snd df, pt_page_no = None, pt_bbox = None\<rparr>"

definition parse_structured :: "parse_env \<Rightarrow> string \<Rightarrow> string \<Rightarrow> parsed_table list outcome" where
  "parse_structured env data mime =
     (if mime = mime_xlsx then
        (case pe_excel env data of
           Inl e \<Rightarrow> Inl e
         | Inr sheets \<Rightarrow> Inr (map (\<lambda>(name, df). plain_table (Some name) df) sheets))
      else
        (case pe_csv env (if mime = mime_tsv then CHR 0x09 else CHR '','') data of
           Inl e \<Rightarrow> Inl e
         | Inr df \<Rightarrow> Inr [plain_table None df]))"


section \<open>What a Docling parse guarantees\<close>

definition sound_element :: "element \<Rightarrow> bool" where
  "sound_element e \<longleftrightarrow> py_strip (el_text e) \<noteq> [] \<and> el_page e \<noteq> 0 \<and> length (el_heading_path e) \<le> 1"

lemma docling_step_sound:
  assumes "docling_step it st = Inr st'" and "\<forall>e\<in>set (ds_prose st). sound_element e" and "length (ds_heading st) \<le> 1"
  shows "(\<forall>e\<in>set (ds_prose st'). sound_element e) \<and> length (ds_heading st') \<le> 1"
  using assms
  by (auto simp: docling_step_def sound_element_def page_or_one_def split: if_splits sum.splits option.splits prod.splits)

lemma docling_items_sound:
  "docling_items its st = Inr st' \<Longrightarrow> \<forall>e\<in>set (ds_prose st). sound_element e \<Longrightarrow> length (ds_heading st) \<le> 1
     \<Longrightarrow> \<forall>e\<in>set (ds_prose st'). sound_element e"
proof (induction its arbitrary: st)
  case (Cons it its)
  then show ?case using docling_step_sound by (fastforce split: sum.splits)
qed simp

text \<open>
  A Docling parse that is used has only non-blank elements with at most one heading level, and
  covers at least half of the pages it counts once it covers any.
\<close>

lemma try_docling_parse_sound:
  assumes "try_docling_parse env data mime filename = Some doc"
  shows "\<forall>e\<in>set (pd_prose doc). sound_element e"
    and "\<not> hollow (pd_page_count doc) (covered_pages (pd_prose doc) (pd_tables doc))"
  using assms docling_items_sound
  by (fastforce simp: try_docling_parse_def Let_def split: if_splits sum.splits)+

end
