(* ===== verification/Ingest.thy ===== *)
theory Ingest imports Parsing Llm Crop Visibility begin

text \<open>
  \<open>prorag/ingest/core.py\<close>, \<open>prorag/ingest/store.py\<close> and the upload handler of
  \<open>prorag/ingest/router.py\<close>: de-duplication by content hash, the blob store, parsing, the embed
  step with its retries, the rows of the document, auto-admission by confirmed rules, and the
  failure paths that clean up. The SHA-256 digest, the providers, the parsers, the fresh keys
  and what another session or the server may do meanwhile are the record \<open>ingest_env\<close>.
\<close>

section \<open>Exceptions as text\<close>

definition exn_name :: "exn \<Rightarrow> string" where
  "exn_name e = (case e of HTTPException c d \<Rightarrow> ''HTTPException'' | PyError c m \<Rightarrow> c)"

definition exn_str :: "exn \<Rightarrow> string" where
  "exn_str e = (case e of HTTPException c d \<Rightarrow> str_of_nat c @ '': '' @ d | PyError c m \<Rightarrow> m)"

definition TRANSIENT_ERROR_MARKERS :: "string list" where
  "TRANSIENT_ERROR_MARKERS =
     [''timeout'', ''timed out'', ''rate limit'', ''ratelimit'', ''429'', ''422'', ''unprocessable'', ''500'', ''502'',
      ''503'', ''504'', ''connection'', ''temporarily'', ''overloaded'', ''unavailable'']"

definition is_transient :: "exn \<Rightarrow> bool" where
  "is_transient e = list_ex (\<lambda>m. py_contains m (py_lower (exn_name e @ '' '' @ exn_str e))) TRANSIENT_ERROR_MARKERS"

definition safe_error :: "exn \<Rightarrow> string" where
  "safe_error e = exn_name e @ '': '' @ take 200 (exn_str e)"

section \<open>Environment and state\<close>

text \<open>
  \<open>ie_attempt k\<close> is how the provider behaves during the \<open>k\<close>-th try of the embed step and the order
  in which its batches finish; \<open>ie_timeout\<close>: the embed phase hits its deadline; \<open>ie_rival\<close>: the row
  of a concurrent upload of the same bytes that commits between the look-up and the insert;
  \<open>ie_store_error\<close>: the rows the server refuses.
\<close>

record ingest_env =
  ie_parse :: parse_env
  ie_sha256 :: "string \<Rightarrow> string"
  ie_attempt :: "nat \<Rightarrow> provider \<times> nat list"
  ie_timeout :: bool
  ie_rival :: "document option"
  ie_store_error :: "chunk_row list \<Rightarrow> exn option"
  ie_doc_id :: uuid
  ie_table_id :: "nat \<Rightarrow> uuid"
  ie_chunk_id :: "nat \<Rightarrow> nat"
  ie_now :: datetime

type_synonym blob_store = "string \<Rightarrow> string option"

record ingest_world =
  iw_txn :: txn
  iw_blobs :: blob_store

record ingest_response =
  ir_doc_id :: uuid
  ir_status :: doc_status
  ir_duplicate_of :: "uuid option"

section \<open>The blob store\<close>

definition blob_path_for :: "settings \<Rightarrow> string \<Rightarrow> string \<Rightarrow> string" where
  "blob_path_for cfg sha256 filename =
     blob_dir cfg @ ''/'' @ sha256 @ (if path_suffix filename = [] then ''.bin'' else path_suffix filename)"

definition write_blob :: "string \<Rightarrow> string \<Rightarrow> blob_store \<Rightarrow> blob_store" where
  "write_blob data path blobs = (if blobs path = None then blobs(path \<mapsto> data) else blobs)"

definition delete_blob :: "string \<Rightarrow> blob_store \<Rightarrow> blob_store" where
  "delete_blob path blobs = blobs(path := None)"

section \<open>The embed step\<close>

definition emb_batch :: "settings \<Rightarrow> provider \<Rightarrow> datetime \<Rightarrow> string list \<Rightarrow> real list list outcome" where
  "emb_batch cfg prov now b = fst (embed_texts cfg prov now b None None)"

text \<open>The usage rows one attempt stages in the session, batch by batch as they finish.\<close>

definition attempt_usage :: "settings \<Rightarrow> provider \<Rightarrow> datetime \<Rightarrow> nat list \<Rightarrow> string list \<Rightarrow> txn \<Rightarrow> txn" where
  "attempt_usage cfg prov now order texts t =
     (if texts = [] then t
      else
        (let batches = windows (nat (max 1 (embed_batch_size cfg))) texts in
         foldl (\<lambda>t b. case snd (embed_texts cfg prov now b None (Some t)) of None \<Rightarrow> t | Some t' \<Rightarrow> t') t
           (if length batches = 1 then batches else map ((!) batches) order)))"

fun embed_attempts :: "settings \<Rightarrow> ingest_env \<Rightarrow> string list \<Rightarrow> nat \<Rightarrow> nat \<Rightarrow> txn \<Rightarrow> real list list outcome \<times> txn" where
  "embed_attempts cfg env texts attempt 0 t = (Inl (PyError ''AssertionError'' ''unreachable''), t)"
| "embed_attempts cfg env texts attempt (Suc n) t =
     (case ie_attempt env attempt of (prov, order) \<Rightarrow>
       (let t' = attempt_usage cfg prov (ie_now env) order texts t in
        case embed_texts_batched cfg (emb_batch cfg prov (ie_now env)) order texts of
          Inr vs \<Rightarrow> (Inr vs, t')
        | Inl e \<Rightarrow>
            if n = 0 \<or> \<not> is_transient e then (Inl e, t')
            else embed_attempts cfg env texts (Suc attempt) n t'))"

definition embed_with_retry :: "settings \<Rightarrow> ingest_env \<Rightarrow> string list \<Rightarrow> txn \<Rightarrow> real list list outcome \<times> txn" where
  "embed_with_retry cfg env texts t = embed_attempts cfg env texts 0 3 t"

section \<open>Rows of a document\<close>

datatype prose_chunk = Fixed page_chunk | Structured structured_chunk

definition prose_text :: "prose_chunk \<Rightarrow> string" where
  "prose_text c = (case c of Fixed p \<Rightarrow> pc_text p | Structured s \<Rightarrow> sch_text s)"

text \<open>\<open>getattr(c, "embed_text", None) or c.text\<close>\<close>

definition prose_embed_text :: "prose_chunk \<Rightarrow> string" where
  "prose_embed_text c =
     (case c of Fixed p \<Rightarrow> pc_text p | Structured s \<Rightarrow> if sch_embed_text s = [] then sch_text s else sch_embed_text s)"

definition prose_row :: "uuid \<Rightarrow> nat \<Rightarrow> nat \<Rightarrow> prose_chunk \<Rightarrow> real list \<Rightarrow> chunk_row" where
  "prose_row doc_id cid n c emb =
     (case c of
        Fixed p \<Rightarrow>
          \<lparr>c_id = cid, c_doc_id = doc_id, c_ord = n, c_kind = ''prose'', c_text = pc_text p, c_embed_text = pc_text p,
           c_heading_path = None, c_page_start = Some (int (pc_page_start p)), c_page_end = Some (int (pc_page_end p)),
           c_bbox = None, c_table_id = None, c_token_count = pc_token_count p, c_embedding = emb\<rparr>
      | Structured s \<Rightarrow>
          \<lparr>c_id = cid, c_doc_id = doc_id, c_ord = n, c_kind = ''prose'', c_text = sch_text s, c_embed_text = sch_embed_text s,
           c_heading_path = Some (sch_heading_path s), c_page_start = Some (sch_page_start s), c_page_end = Some (sch_page_end s),
           c_bbox = sch_bbox s, c_table_id = None, c_token_count = sch_token_count s, c_embedding = emb\<rparr>)"

definition bbox_list :: "(real \<times> real \<times> real \<times> real) option \<Rightarrow> real list option" where
  "bbox_list b = map_option (\<lambda>(l, t, r, d). [l, t, r, d]) b"

definition table_row_of :: "uuid \<Rightarrow> uuid \<Rightarrow> parsed_table \<Rightarrow> table_rec" where
  "table_row_of doc_id tid p =
     \<lparr>t_id = tid, t_doc_id = doc_id, t_caption = pt_caption p, t_columns = pt_columns p, t_row_count = length (pt_rows p),
      t_page_no = pt_page_no p, t_bbox = bbox_list (pt_bbox p)\<rparr>"

definition table_rows_of :: "uuid \<Rightarrow> parsed_table \<Rightarrow> table_row list" where
  "table_rows_of tid p = map (\<lambda>(i, row). \<lparr>tr_table_id = tid, tr_row_no = i, tr_data = row\<rparr>) (enumerate 0 (pt_rows p))"

definition artifacts_of :: "parsed_table \<Rightarrow> table_artifact list" where
  "artifacts_of p = build_table_artifacts (pt_caption p) (pt_columns p) (pt_rows p) DEFAULT_WINDOW_SIZE"

text \<open>The chunk of an artifact; \<open>ord\<close> and \<open>embedding\<close> are filled in once the vectors are there.\<close>

definition artifact_row :: "uuid \<Rightarrow> uuid \<Rightarrow> parsed_table \<Rightarrow> table_artifact \<Rightarrow> nat \<Rightarrow> nat \<Rightarrow> real list \<Rightarrow> chunk_row" where
  "artifact_row doc_id tid p a cid n emb =
     \<lparr>c_id = cid, c_doc_id = doc_id, c_ord = n, c_kind = kind_name (ta_kind a), c_text = ta_text a, c_embed_text = ta_text a,
      c_heading_path = None, c_page_start = pt_page_no p, c_page_end = pt_page_no p, c_bbox = bbox_list (pt_bbox p),
      c_table_id = Some tid, c_token_count = length (py_split (ta_text a)), c_embedding = emb\<rparr>"

definition store_table :: "ingest_env \<Rightarrow> nat \<Rightarrow> parsed_table \<Rightarrow> db \<Rightarrow> db" where
  "store_table env n p s =
     s\<lparr>tables := tables s @ [table_row_of (ie_doc_id env) (ie_table_id env n) p],
       table_rows := table_rows s @ table_rows_of (ie_table_id env n) p\<rparr>"

definition store_tables :: "ingest_env \<Rightarrow> parsed_table list \<Rightarrow> db \<Rightarrow> db" where
  "store_tables env ps s = fold (\<lambda>(n, p). store_table env n p) (enumerate 0 ps) s"

text \<open>All rows that are still without key, position and vector, prose first.\<close>

definition pending_rows :: "ingest_env \<Rightarrow> prose_chunk list \<Rightarrow> parsed_table list
     \<Rightarrow> (nat \<Rightarrow> nat \<Rightarrow> real list \<Rightarrow> chunk_row) list" where
  "pending_rows env prose ps =
     map (\<lambda>c cid n emb. prose_row (ie_doc_id env) cid n c emb) prose
   @ concat (map (\<lambda>(k, p). map (artifact_row (ie_doc_id env) (ie_table_id env k) p) (artifacts_of p)) (enumerate 0 ps))"

definition embed_inputs :: "prose_chunk list \<Rightarrow> parsed_table list \<Rightarrow> string list" where
  "embed_inputs prose ps = map prose_embed_text prose @ concat (map (\<lambda>p. map ta_text (artifacts_of p)) ps)"

text \<open>
  The two strict zips: the prose with the first vectors, the table chunks with the rest. A
  different number of vectors raises.
\<close>

definition build_chunks :: "ingest_env \<Rightarrow> prose_chunk list \<Rightarrow> parsed_table list \<Rightarrow> real list list \<Rightarrow> chunk_row list outcome" where
  "build_chunks env prose ps embs =
     (let rows = pending_rows env prose ps in
      if length rows \<noteq> length embs then Inl (PyError ''ValueError'' ''zip() arguments have different lengths'')
      else Inr (map (\<lambda>(n, row, emb). row (ie_chunk_id env n) n emb) (enumerate 0 (zip rows embs))))"

section \<open>Auto-admission\<close>

fun dot :: "real list \<Rightarrow> real list \<Rightarrow> real" where
  "dot (x # xs) (y # ys) = x * y + dot xs ys"
| "dot _ _ = 0"

definition cosine_similarity :: "real list \<Rightarrow> real list \<Rightarrow> real outcome" where
  "cosine_similarity a b =
     (if length a \<noteq> length b then Inl (PyError ''ValueError'' ''zip() arguments have different lengths'')
      else
        (let norm_a = sqrt (dot a a); norm_b = sqrt (dot b b) in
         if norm_a = 0 \<or> norm_b = 0 then Inr 0 else Inr (dot a b / (norm_a * norm_b))))"

text \<open>\<open>any(... >= floor for c in chunks)\<close>\<close>

fun any_match :: "real \<Rightarrow> real list \<Rightarrow> chunk_row list \<Rightarrow> bool outcome" where
  "any_match fl emb [] = Inr False"
| "any_match fl emb (c # cs) =
     (case cosine_similarity (c_embedding c) emb of
        Inl e \<Rightarrow> Inl e
      | Inr x \<Rightarrow> if fl \<le> x then Inr True else any_match fl emb cs)"

definition rule_grant :: "uuid \<Rightarrow> access_rule \<Rightarrow> acl" where
  "rule_grant doc r = \<lparr>a_doc_id = doc, a_principal = PGroup (r_group_id r), a_source = AclRule (r_id r)\<rparr>"

definition grant_once :: "acl \<Rightarrow> db \<Rightarrow> db" where
  "grant_once a s = (if a \<in> set (document_acl s) then s else s\<lparr>document_acl := document_acl s @ [a]\<rparr>)"

text \<open>The loop over the rules; an exception ends it, is logged and keeps what was granted so far.\<close>

fun apply_rules :: "real \<Rightarrow> uuid \<Rightarrow> chunk_row list \<Rightarrow> access_rule list \<Rightarrow> db \<Rightarrow> db" where
  "apply_rules fl doc cs [] s = s"
| "apply_rules fl doc cs (r # rs) s =
     (case any_match fl (case r_query_embedding r of None \<Rightarrow> [] | Some v \<Rightarrow> v) cs of
        Inl e \<Rightarrow> s
      | Inr matched \<Rightarrow> apply_rules fl doc cs rs (if matched then grant_once (rule_grant doc r) s else s))"

definition confirmed_rules :: "db \<Rightarrow> access_rule list" where
  "confirmed_rules s = filter (\<lambda>r. r_state r = Confirmed \<and> r_query_embedding r \<noteq> None) (access_rules s)"

definition apply_confirmed_rules :: "settings \<Rightarrow> uuid \<Rightarrow> chunk_row list \<Rightarrow> db \<Rightarrow> db" where
  "apply_confirmed_rules cfg doc cs s = apply_rules (rule_similarity_floor cfg) doc cs (confirmed_rules s) s"


section \<open>Parsing an upload\<close>

record upload =
  up_prose :: "prose_chunk list"
  up_tables :: "parsed_table list"
  up_page_count :: "int option"

definition upload_of_pages :: "settings \<Rightarrow> string list \<Rightarrow> upload" where
  "upload_of_pages cfg pages =
     \<lparr>up_prose = map Fixed (chunk_pages pages (chunk_target_tokens cfg) (chunk_overlap_tokens cfg)),
      up_tables = [], up_page_count = Some (int (length pages))\<rparr>"

text \<open>
  The routing of \<open>ingest_bytes\<close>. The image test inside the Docling branch can never succeed
  (no image type is a Docling type) and is left out.
\<close>

definition parse_upload :: "settings \<Rightarrow> parse_env \<Rightarrow> string \<Rightarrow> string \<Rightarrow> string \<Rightarrow> upload outcome" where
  "parse_upload cfg env data mime filename =
     (if mime \<in> set STRUCTURED_MIMES then
        (case parse_structured env data mime of
           Inl e \<Rightarrow> Inl e
         | Inr ts \<Rightarrow> Inr \<lparr>up_prose = [], up_tables = ts, up_page_count = None\<rparr>)
      else if py_startswith mime ''image/'' \<or> (mime = mime_pdf \<and> \<not> pdf_has_text_layer env data) then
        map_sum id (upload_of_pages cfg) (ocr_pages cfg env data mime (pdf_page_count env data mime))
      else if mime \<in> set DOCLING_MIMES then
        (case try_docling_parse env data mime filename of
           Some d \<Rightarrow>
             (case chunk_elements (pd_prose d) (chunk_target_tokens cfg) (chunk_overlap_tokens cfg) of
                Inl e \<Rightarrow> Inl e
              | Inr cs \<Rightarrow> Inr \<lparr>up_prose = map Structured cs, up_tables = pd_tables d, up_page_count = pd_page_count d\<rparr>)
         | None \<Rightarrow> map_sum id (upload_of_pages cfg) (parse_to_pages env data mime))
      else map_sum id (upload_of_pages cfg) (parse_to_pages env data mime))"

section \<open>Storing the document\<close>

definition new_document :: "settings \<Rightarrow> ingest_env \<Rightarrow> string \<Rightarrow> string \<Rightarrow> string \<Rightarrow> upload \<Rightarrow> document" where
  "new_document cfg env digest filename collection up =
     \<lparr>d_id = ie_doc_id env, d_sha256 = digest, d_filename = filename, d_mime = guess_mime filename,
      d_blob_path = blob_path_for cfg digest filename, d_page_count = up_page_count up, d_title = Some filename,
      d_title_norm = Some (normalize_title (Some filename)), d_collection = collection, d_status = Processing,
      d_error = None, d_created_at = ie_now env\<rparr>"

definition set_doc_status :: "uuid \<Rightarrow> doc_status \<Rightarrow> string option \<Rightarrow> db \<Rightarrow> db" where
  "set_doc_status i st err s =
     s\<lparr>documents := map (\<lambda>d. if d_id d = i then d\<lparr>d_status := st, d_error := err\<rparr> else d) (documents s)\<rparr>"

text \<open>The try block: table rows, vectors, chunks, status, admission, commit.\<close>

definition store_body :: "settings \<Rightarrow> ingest_env \<Rightarrow> upload \<Rightarrow> txn \<Rightarrow> unit outcome \<times> txn" where
  "store_body cfg env up t =
     (let t2 = txn_update (store_tables env (up_tables up)) t;
          (embs, t3) = (if ie_timeout env then (Inl (PyError ''TimeoutError'' []), t2)
                        else embed_with_retry cfg env (embed_inputs (up_prose up) (up_tables up)) t2) in
      case embs of
        Inl e \<Rightarrow> (Inl e, t3)
      | Inr vs \<Rightarrow>
          (case build_chunks env (up_prose up) (up_tables up) vs of
             Inl e \<Rightarrow> (Inl e, t3)
           | Inr cs \<Rightarrow>
               (case ie_store_error env cs of
                  Some e \<Rightarrow> (Inl e, t3)
                | None \<Rightarrow>
                    (let t4 = txn_update (\<lambda>s. (set_doc_status (ie_doc_id env) Ready None s)\<lparr>chunks := chunks s @ cs\<rparr>) t3;
                         t5 = txn_update (apply_confirmed_rules cfg (ie_doc_id env) cs) t4
                     in (Inr (), txn_commit t5)))))"

definition is_timeout :: "exn \<Rightarrow> bool" where
  "is_timeout e = (exn_name e = ''TimeoutError'')"

text \<open>The handler of a failed try block: after the rollback it looks for the row it wants to mark.\<close>

definition record_failure :: "string \<Rightarrow> string \<Rightarrow> exn \<Rightarrow> txn \<Rightarrow> blob_store \<Rightarrow> ingest_response outcome \<times> ingest_world" where
  "record_failure digest path e t blobs =
     (let t' = txn_rollback t in
      case find_document_by_sha (working t') digest of
        Some d \<Rightarrow>
          (let msg = (if is_timeout e then ''embedding timed out'' else safe_error e);
               t'' = txn_commit (txn_update (set_doc_status (d_id d) Failed (Some msg)) t')
           in (Inr \<lparr>ir_doc_id = d_id d, ir_status = Failed, ir_duplicate_of = None\<rparr>, \<lparr>iw_txn = t'', iw_blobs = blobs\<rparr>))
      | None \<Rightarrow> (Inl (HTTPException 500 ''ingestion failed''), \<lparr>iw_txn = t', iw_blobs = delete_blob path blobs\<rparr>))"

definition duplicate_response :: "document \<Rightarrow> ingest_response" where
  "duplicate_response d = \<lparr>ir_doc_id = d_id d, ir_status = d_status d, ir_duplicate_of = Some (d_id d)\<rparr>"

definition insert_document ::
  "settings \<Rightarrow> ingest_env \<Rightarrow> string \<Rightarrow> string \<Rightarrow> string \<Rightarrow> upload \<Rightarrow> txn \<Rightarrow> blob_store
     \<Rightarrow> ingest_response outcome \<times> ingest_world" where
  "insert_document cfg env digest filename collection up t blobs =
     (let path = blob_path_for cfg digest filename in
      case ie_rival env of
        Some r \<Rightarrow>
          (let s = (committed t)\<lparr>documents := documents (committed t) @ [r\<lparr>d_sha256 := digest\<rparr>]\<rparr>; t' = begin_txn s in
           (case find_document_by_sha s digest of
              Some d \<Rightarrow> (Inr (duplicate_response d), \<lparr>iw_txn = t', iw_blobs = blobs\<rparr>)
            | None \<Rightarrow> (Inl (PyError ''IntegrityError'' []), \<lparr>iw_txn = t', iw_blobs = blobs\<rparr>)))
      | None \<Rightarrow>
          (let t1 = txn_update (\<lambda>s. s\<lparr>documents := documents s @ [new_document cfg env digest filename collection up]\<rparr>) t in
           case store_body cfg env up t1 of
             (Inr _, t2) \<Rightarrow>
               (Inr \<lparr>ir_doc_id = ie_doc_id env, ir_status = Ready, ir_duplicate_of = None\<rparr>, \<lparr>iw_txn = t2, iw_blobs = blobs\<rparr>)
           | (Inl e, t2) \<Rightarrow> record_failure digest path e t2 blobs))"

section \<open>ingest\_bytes\<close>

definition ingest_bytes ::
  "settings \<Rightarrow> ingest_env \<Rightarrow> string \<Rightarrow> string \<Rightarrow> string \<Rightarrow> ingest_world \<Rightarrow> ingest_response outcome \<times> ingest_world" where
  "ingest_bytes cfg env data filename collection w =
     (let digest = ie_sha256 env data; t = iw_txn w in
      case find_document_by_sha (working t) digest of
        Some d \<Rightarrow> (Inr (duplicate_response d), w)
      | None \<Rightarrow>
          (let mime = guess_mime filename; sniffed = sniff_mime data in
           if sniffed \<noteq> None \<and> sniffed \<noteq> Some mime then
             (Inl (HTTPException 400 (''file content ('' @ the sniffed @ '') does not match its extension ('' @ mime @ '')'')), w)
           else
             (let path = blob_path_for cfg digest filename; blobs = write_blob data path (iw_blobs w) in
              case parse_upload cfg (ie_parse env) data mime filename of
                Inl e \<Rightarrow>
                  (case e of
                     HTTPException c m \<Rightarrow> (Inl e, w\<lparr>iw_blobs := blobs\<rparr>)
                   | PyError c m \<Rightarrow> (Inl (HTTPException 422 (''could not parse this file ('' @ safe_error e @ '')'')),
                                     w\<lparr>iw_blobs := delete_blob path blobs\<rparr>))
              | Inr up \<Rightarrow>
                  if up_prose up = [] \<and> up_tables up = [] then
                    (Inl (HTTPException 422 ''no extractable text found (scanned image PDF or empty file?)''),
                     w\<lparr>iw_blobs := delete_blob path blobs\<rparr>)
                  else if max_chunks_per_document cfg < int (length (up_prose up)) then
                    (Inl (HTTPException 413 (''document produced more than '' @ str_of_int (max_chunks_per_document cfg) @ '' chunks'')),
                     w\<lparr>iw_blobs := delete_blob path blobs\<rparr>)
                  else insert_document cfg env digest filename collection up t blobs)))"

section \<open>POST /ingest\<close>

definition ALLOWED_SUFFIXES :: "string list" where
  "ALLOWED_SUFFIXES =
     [''.pdf'', ''.txt'', ''.md'', ''.docx'', ''.pptx'', ''.csv'', ''.xlsx'', ''.tsv'',
      ''.png'', ''.jpg'', ''.jpeg'', ''.tiff'', ''.tif'', ''.webp'']"

definition quoted :: "string \<Rightarrow> string" where
  "quoted s = CHR 0x27 # s @ [CHR 0x27]"

definition collection_char :: "char \<Rightarrow> bool" where
  "collection_char c = (is_ascii_letter c \<or> is_digit c \<or> c = CHR ''_'' \<or> c = CHR ''-'')"

text \<open>\<open>$\<close> also matches before a newline at the end of the string.\<close>

definition collection_ok :: "string \<Rightarrow> bool" where
  "collection_ok c =
     (let body = (if c \<noteq> [] \<and> last c = CHR 0x0A then butlast c else c) in
      1 \<le> length body \<and> length body \<le> 64 \<and> list_all collection_char body)"

text \<open>Reading the upload piece by piece; an empty piece is the end of the stream.\<close>

fun read_upload :: "int \<Rightarrow> string \<Rightarrow> string list \<Rightarrow> string outcome" where
  "read_upload max_bytes buf [] = Inr buf"
| "read_upload max_bytes buf (piece # pieces) =
     (if piece = [] then Inr buf
      else if max_bytes < int (length (buf @ piece)) then
        Inl (HTTPException 413 (''file exceeds '' @ str_of_int (max_bytes div (1024 * 1024)) @ '' MB limit''))
      else read_upload max_bytes (buf @ piece) pieces)"

definition upload_filename :: "string option \<Rightarrow> string" where
  "upload_filename f = take 255 (case f of None \<Rightarrow> ''upload'' | Some n \<Rightarrow> if n = [] then ''upload'' else n)"

definition ingest_upload ::
  "settings \<Rightarrow> ingest_env \<Rightarrow> string option \<Rightarrow> string list \<Rightarrow> string \<Rightarrow> ingest_world \<Rightarrow> ingest_response outcome \<times> ingest_world" where
  "ingest_upload cfg env file_name pieces collection w =
     (let filename = upload_filename file_name in
      if \<not> ends_with_any (py_lower filename) ALLOWED_SUFFIXES then
        (Inl (HTTPException 400 (''unsupported file type; allowed: ('' @ py_join '', '' (map quoted ALLOWED_SUFFIXES) @ '')'')), w)
      else if \<not> collection_ok collection then
        (Inl (HTTPException 400 ''invalid collection name (use letters, digits, _ or -, max 64 chars)''), w)
      else
        (case read_upload (max_upload_bytes cfg) [] pieces of
           Inl e \<Rightarrow> (Inl e, w)
         | Inr data \<Rightarrow>
             if data = [] then (Inl (HTTPException 400 ''empty file''), w)
             else ingest_bytes cfg env data filename collection w))"

end
