(* ===== verification/Sync_Engine.thy ===== *)
theory Sync_Engine imports Ingest begin

text \<open>
  \<open>prorag/connectors/s3.py\<close> and \<open>prorag/connectors/sync.py\<close>: the bucket listing, the
  classification of its objects against \<open>connector_items\<close>, the per-object ingest with its item
  bookkeeping, the incremental poll and the full sweep. boto3 is the record \<open>bucket\<close> of
  parameters; the ingest the engine drives is an argument of the loop, instantiated with
  \<open>ingest_bytes\<close> at the end. Every item is committed on its own, as in the code.
\<close>

section \<open>The S3 connector\<close>

record remote_object =
  ro_key :: string
  ro_etag :: string
  ro_size :: int
  ro_last_modified :: datetime

text \<open>\<open>bk_list\<close> is the paginated listing of bucket and prefix, \<open>bk_get\<close> the download of a key.\<close>

record bucket =
  bk_open :: "exn option"
  bk_list :: "remote_object list outcome"
  bk_get :: "string \<Rightarrow> string outcome"

definition strip_quotes :: "string \<Rightarrow> string" where
  "strip_quotes s =
     rev (dropWhile (\<lambda>c. c = CHR 0x22) (rev (dropWhile (\<lambda>c. c = CHR 0x22) s)))"

definition list_changed :: "bucket \<Rightarrow> datetime option \<Rightarrow> remote_object list outcome" where
  "list_changed bk since =
     (case bk_list bk of
        Inl e \<Rightarrow> Inl e
      | Inr contents \<Rightarrow>
          (let objs = map (\<lambda>ob. ob\<lparr>ro_etag := strip_quotes (ro_etag ob)\<rparr>) contents in
           Inr (case since of None \<Rightarrow> objs | Some t \<Rightarrow> filter (\<lambda>ob. t < ro_last_modified ob) objs)))"

definition list_all_ids :: "bucket \<Rightarrow> string list outcome" where
  "list_all_ids bk = map_sum id (map ro_key) (bk_list bk)"

definition fetch :: "bucket \<Rightarrow> remote_object \<Rightarrow> string outcome" where
  "fetch bk ob = bk_get bk (ro_key ob)"

text \<open>\<open>_build_connector\<close>: an unknown type is a \<open>ValueError\<close>; the S3 client itself may fail to open.\<close>

definition build_connector :: "bucket \<Rightarrow> connector \<Rightarrow> bucket outcome" where
  "build_connector bk row =
     (if cn_type row = ''s3'' then (case bk_open bk of None \<Rightarrow> Inr bk | Some e \<Rightarrow> Inl e)
      else Inl (PyError ''ValueError'' (''unknown connector type: '' @ cn_type row)))"

section \<open>Classification\<close>

text \<open>\<open>known\<close>: key to recorded etag and size.\<close>

type_synonym known_objects = "(string \<times> (string option \<times> int option)) list"

fun diff_objects :: "remote_object list \<Rightarrow> known_objects \<Rightarrow> remote_object list \<times> remote_object list \<times> string list" where
  "diff_objects [] known = ([], [], [])"
| "diff_objects (ob # remote) known =
     (case diff_objects remote known of
        (new, changed, unchanged) \<Rightarrow>
          (case map_of known (ro_key ob) of
             None \<Rightarrow> (ob # new, changed, unchanged)
           | Some prior \<Rightarrow>
               if prior \<noteq> (Some (ro_etag ob), Some (ro_size ob)) then (new, ob # changed, unchanged)
               else (new, changed, ro_key ob # unchanged)))"

definition find_deleted :: "string set \<Rightarrow> (string \<times> item_status) list \<Rightarrow> string list" where
  "find_deleted remote_keys known =
     map fst (filter (\<lambda>(key, status). key \<notin> remote_keys \<and> status \<noteq> Deleted) known)"

section \<open>Items\<close>

abbreviation item_key :: "connector_item \<Rightarrow> uuid \<times> string" where
  "item_key i \<equiv> (i_connector_id i, i_external_id i)"

abbreviation find_item :: "db \<Rightarrow> uuid \<Rightarrow> string \<Rightarrow> connector_item option" where
  "find_item s cid key \<equiv> tbl_find item_key (cid, key) (connector_items s)"

definition items_of :: "db \<Rightarrow> uuid \<Rightarrow> connector_item list" where
  "items_of s cid = filter (\<lambda>i. i_connector_id i = cid) (connector_items s)"

definition item_of :: "uuid \<Rightarrow> remote_object \<Rightarrow> datetime \<Rightarrow> item_status \<Rightarrow> uuid option \<Rightarrow> string option \<Rightarrow> connector_item" where
  "item_of cid ob now status doc_id err =
     \<lparr>i_connector_id = cid, i_external_id = ro_key ob, i_etag = Some (ro_etag ob), i_size = Some (ro_size ob),
      i_last_modified = Some (ro_last_modified ob), i_doc_id = doc_id, i_last_seen_at = Some now, i_status = status,
      i_error = err\<rparr>"

text \<open>Work on the database of a world, committed at once.\<close>

definition commit_update :: "(db \<Rightarrow> db) \<Rightarrow> ingest_world \<Rightarrow> ingest_world" where
  "commit_update f w = w\<lparr>iw_txn := txn_commit (txn_update f (iw_txn w))\<rparr>"

definition upsert_item ::
  "uuid \<Rightarrow> remote_object \<Rightarrow> datetime \<Rightarrow> item_status \<Rightarrow> uuid option \<Rightarrow> string option \<Rightarrow> ingest_world \<Rightarrow> ingest_world" where
  "upsert_item cid ob now status doc_id err w =
     commit_update (\<lambda>s. s\<lparr>connector_items := tbl_put item_key (item_of cid ob now status doc_id err) (connector_items s)\<rparr>) w"

section \<open>Processing a listing\<close>

record sync_report =
  rp_new :: nat
  rp_changed :: nat
  rp_deleted :: nat
  rp_skipped :: nat
  rp_errors :: nat

definition empty_report :: sync_report where
  "empty_report = \<lparr>rp_new = 0, rp_changed = 0, rp_deleted = 0, rp_skipped = 0, rp_errors = 0\<rparr>"

text \<open>
  \<open>sy_ingest n\<close> is the environment of the \<open>n\<close>-th object of the run, \<open>sy_now\<close> the clock while items
  are processed and \<open>sy_end\<close> the clock at the end of the run.
\<close>

record 'e sync_env =
  sy_bucket :: bucket
  sy_ingest :: "nat \<Rightarrow> 'e"
  sy_now :: datetime
  sy_end :: datetime

type_synonym 'e ingest_fun = "'e \<Rightarrow> string \<Rightarrow> string \<Rightarrow> string \<Rightarrow> ingest_world \<Rightarrow> ingest_response outcome \<times> ingest_world"

text \<open>\<open>obj.key.rsplit("/", 1)[-1] or obj.key\<close>\<close>

definition key_filename :: "string \<Rightarrow> string" where
  "key_filename key =
     (let base = rev (takeWhile (\<lambda>c. c \<noteq> CHR ''/'') (rev key)) in if base = [] then key else base)"

definition process_object ::
  "'e ingest_fun \<Rightarrow> settings \<Rightarrow> 'e sync_env \<Rightarrow> uuid \<Rightarrow> string \<Rightarrow> nat \<Rightarrow> remote_object \<Rightarrow> bool \<Rightarrow> ingest_world \<times> sync_report
     \<Rightarrow> ingest_world \<times> sync_report" where
  "process_object ingest cfg env cid collection n ob is_new st =
     (case st of (w, rep) \<Rightarrow>
       if \<not> ends_with_any (py_lower (ro_key ob)) ALLOWED_SUFFIXES then
         (upsert_item cid ob (sy_now env) Skipped None (Some ''unsupported file type'') w, rep\<lparr>rp_skipped := Suc (rp_skipped rep)\<rparr>)
       else if max_upload_bytes cfg < ro_size ob then
         (upsert_item cid ob (sy_now env) Skipped None (Some ''exceeds max_upload_bytes'') w, rep\<lparr>rp_skipped := Suc (rp_skipped rep)\<rparr>)
       else
         (case fetch (sy_bucket env) ob of
            Inl e \<Rightarrow> (upsert_item cid ob (sy_now env) Errored None (Some (safe_error e)) w, rep\<lparr>rp_errors := Suc (rp_errors rep)\<rparr>)
          | Inr data \<Rightarrow>
              (case ingest (sy_ingest env n) data (key_filename (ro_key ob)) collection w of
                 (Inl e, w') \<Rightarrow> (upsert_item cid ob (sy_now env) Errored None (Some (safe_error e)) w', rep\<lparr>rp_errors := Suc (rp_errors rep)\<rparr>)
               | (Inr r, w') \<Rightarrow>
                   (upsert_item cid ob (sy_now env) Synced (Some (ir_doc_id r)) None w',
                    if is_new then rep\<lparr>rp_new := Suc (rp_new rep)\<rparr> else rep\<lparr>rp_changed := Suc (rp_changed rep)\<rparr>))))"

fun process_loop ::
  "'e ingest_fun \<Rightarrow> settings \<Rightarrow> 'e sync_env \<Rightarrow> uuid \<Rightarrow> string \<Rightarrow> nat \<Rightarrow> (remote_object \<times> bool) list \<Rightarrow> ingest_world \<times> sync_report
     \<Rightarrow> ingest_world \<times> sync_report" where
  "process_loop ingest cfg env cid collection n [] st = st"
| "process_loop ingest cfg env cid collection n ((ob, is_new) # obs) st =
     process_loop ingest cfg env cid collection (Suc n) obs (process_object ingest cfg env cid collection n ob is_new st)"

definition touch_items :: "uuid \<Rightarrow> string list \<Rightarrow> datetime \<Rightarrow> ingest_world \<Rightarrow> ingest_world" where
  "touch_items cid keys now w =
     (if keys = [] then w
      else commit_update (\<lambda>s. s\<lparr>connector_items :=
          map (\<lambda>i. if i_connector_id i = cid \<and> i_external_id i \<in> set keys then i\<lparr>i_last_seen_at := Some now\<rparr> else i)
            (connector_items s)\<rparr>) w)"

definition known_objects_of :: "db \<Rightarrow> uuid \<Rightarrow> known_objects" where
  "known_objects_of s cid = map (\<lambda>i. (i_external_id i, (i_etag i, i_size i))) (items_of s cid)"

definition process_objects ::
  "'e ingest_fun \<Rightarrow> settings \<Rightarrow> 'e sync_env \<Rightarrow> uuid \<Rightarrow> string \<Rightarrow> remote_object list \<Rightarrow> ingest_world \<Rightarrow> ingest_world \<times> sync_report" where
  "process_objects ingest cfg env cid collection remote w =
     (case diff_objects remote (known_objects_of (working (iw_txn w)) cid) of
        (new_objs, changed_objs, unchanged_keys) \<Rightarrow>
          (case process_loop ingest cfg env cid collection 0
                  (map (\<lambda>ob. (ob, True)) new_objs @ map (\<lambda>ob. (ob, False)) changed_objs) (w, empty_report) of
             (w', rep) \<Rightarrow> (touch_items cid unchanged_keys (sy_now env) w', rep)))"

section \<open>Incremental poll and full sweep\<close>

definition SINCE_SAFETY_BUFFER :: int where
  "SINCE_SAFETY_BUFFER = 5 * 1000000"

definition set_connector :: "uuid \<Rightarrow> (connector \<Rightarrow> connector) \<Rightarrow> db \<Rightarrow> db" where
  "set_connector cid f s = s\<lparr>connectors := map (\<lambda>c. if cn_id c = cid then f c else c) (connectors s)\<rparr>"

definition sync_incremental ::
  "'e ingest_fun \<Rightarrow> settings \<Rightarrow> 'e sync_env \<Rightarrow> connector \<Rightarrow> ingest_world \<Rightarrow> sync_report outcome \<times> ingest_world" where
  "sync_incremental ingest cfg env row w =
     (case build_connector (sy_bucket env) row of
        Inl e \<Rightarrow> (Inl e, w)
      | Inr bk \<Rightarrow>
          (case list_changed bk (map_option (\<lambda>t. t - SINCE_SAFETY_BUFFER) (cn_last_sync_at row)) of
             Inl e \<Rightarrow> (Inl e, w)
           | Inr remote \<Rightarrow>
               (case process_objects ingest cfg env (cn_id row) (cn_collection row) remote w of
                  (w', rep) \<Rightarrow>
                    (Inr (rep\<lparr>rp_deleted := 0\<rparr>),
                     commit_update (set_connector (cn_id row) (\<lambda>c. c\<lparr>cn_last_sync_at := Some (sy_end env)\<rparr>)) w'))))"

text \<open>
  Deleting a missing key: its document, when it still exists, and then the mark on the item. The
  document id is the one read before the loop.
\<close>

definition mark_deleted :: "uuid \<Rightarrow> string \<Rightarrow> db \<Rightarrow> db" where
  "mark_deleted cid key s =
     s\<lparr>connector_items := map (\<lambda>i. if item_key i = (cid, key) then i\<lparr>i_status := Deleted, i_doc_id := None\<rparr> else i) (connector_items s)\<rparr>"

definition delete_missing :: "uuid \<Rightarrow> string \<times> uuid option \<Rightarrow> db \<Rightarrow> db" where
  "delete_missing cid kd s =
     mark_deleted cid (fst kd)
       (case snd kd of
          None \<Rightarrow> s
        | Some d \<Rightarrow> if find_document s d = None then s else delete_document d s)"

fun delete_loop :: "uuid \<Rightarrow> (string \<times> uuid option) list \<Rightarrow> ingest_world \<Rightarrow> ingest_world" where
  "delete_loop cid [] w = w"
| "delete_loop cid (kd # kds) w = delete_loop cid kds (commit_update (delete_missing cid kd) w)"

text \<open>The keys to delete with the document ids of their items, in the order of the rows read.\<close>

definition missing_items :: "db \<Rightarrow> uuid \<Rightarrow> string set \<Rightarrow> (string \<times> uuid option) list" where
  "missing_items s cid remote_keys =
     (let rows = items_of s cid; known_status = map (\<lambda>i. (i_external_id i, i_status i)) rows;
          doc_id_by_key = map (\<lambda>i. (i_external_id i, i_doc_id i)) rows
      in map (\<lambda>key. (key, case map_of doc_id_by_key key of None \<Rightarrow> None | Some d \<Rightarrow> d)) (find_deleted remote_keys known_status))"

definition full_sweep ::
  "'e ingest_fun \<Rightarrow> settings \<Rightarrow> 'e sync_env \<Rightarrow> connector \<Rightarrow> ingest_world \<Rightarrow> sync_report outcome \<times> ingest_world" where
  "full_sweep ingest cfg env row w =
     (case build_connector (sy_bucket env) row of
        Inl e \<Rightarrow> (Inl e, w)
      | Inr bk \<Rightarrow>
          (case list_changed bk None of
             Inl e \<Rightarrow> (Inl e, w)
           | Inr remote \<Rightarrow>
               (case process_objects ingest cfg env (cn_id row) (cn_collection row) remote w of
                  (w', rep) \<Rightarrow>
                    (let missing = missing_items (working (iw_txn w')) (cn_id row) (ro_key ` set remote);
                         w'' = delete_loop (cn_id row) missing w'
                     in (Inr (rep\<lparr>rp_deleted := length missing\<rparr>),
                         commit_update (set_connector (cn_id row)
                           (\<lambda>c. c\<lparr>cn_last_sync_at := Some (sy_end env), cn_last_full_sweep_at := Some (sy_end env)\<rparr>)) w'')))))"

section \<open>The ingest the engine drives\<close>

text \<open>\<open>uuid.uuid4()\<close> draws a key that no document has.\<close>

definition fresh_doc_id :: "db \<Rightarrow> uuid" where
  "fresh_doc_id s = Suc (Max (insert 0 (d_id ` set (documents s))))"

definition ingest_fresh :: "settings \<Rightarrow> ingest_env ingest_fun" where
  "ingest_fresh cfg env data filename collection w =
     ingest_bytes cfg (env\<lparr>ie_doc_id := fresh_doc_id (working (iw_txn w))\<rparr>) data filename collection w"

lemma fresh_doc_id_fresh: "fresh_doc_id s \<notin> d_id ` set (documents s)"
proof
  assume "fresh_doc_id s \<in> d_id ` set (documents s)"
  then have "fresh_doc_id s \<le> Max (insert 0 (d_id ` set (documents s)))" by (intro Max_ge) auto
  then show False by (simp add: fresh_doc_id_def)
qed

end
