(* ===== verification/Ingest_Props.thy ===== *)
theory Ingest_Props imports Ingest begin

text \<open>
  What \<open>ingest_bytes\<close> guarantees: a document is stored whole or not at all, the same bytes are
  never stored twice, the blob store and the library stay consistent, and only confirmed rules
  open a fresh document to users.
\<close>

section \<open>The embed step\<close>

lemma attempt_usage_only_usage: "only_usage t (attempt_usage cfg prov now order texts t)"
proof -
  let ?f = "\<lambda>t b. case snd (embed_texts cfg prov now b None (Some t)) of None \<Rightarrow> t | Some t' \<Rightarrow> t'"
  have step: "only_usage t (?f t b)" for t b
    using embed_texts_only_usage [of cfg prov now b None t] by auto
  have "only_usage t (foldl ?f t bs)" for t bs
    by (induction bs arbitrary: t) (auto intro: only_usage_trans [OF step])
  then show ?thesis by (simp add: attempt_usage_def Let_def)
qed

lemma embed_attempts_only_usage: "only_usage t (snd (embed_attempts cfg env texts k n t))"
proof (induction cfg env texts k n t rule: embed_attempts.induct)
  case (2 cfg env texts k n t)
  obtain prov order where a: "ie_attempt env k = (prov, order)" by fastforce
  show ?case
    using 2 [OF a [symmetric] refl] attempt_usage_only_usage only_usage_trans
    by (auto simp: a Let_def split: sum.split) blast
qed simp

text \<open>
  The retry loop: at most three tries, each but the last failed for a transient reason, and the
  outcome is the one of the last try.
\<close>

definition attempt_result :: "settings \<Rightarrow> ingest_env \<Rightarrow> string list \<Rightarrow> nat \<Rightarrow> real list list outcome" where
  "attempt_result cfg env texts k =
     (case ie_attempt env k of (prov, order) \<Rightarrow> embed_texts_batched cfg (emb_batch cfg prov (ie_now env)) order texts)"

definition retried :: "settings \<Rightarrow> ingest_env \<Rightarrow> string list \<Rightarrow> nat \<Rightarrow> bool" where
  "retried cfg env texts k = (case attempt_result cfg env texts k of Inl e \<Rightarrow> is_transient e | Inr _ \<Rightarrow> False)"

lemma embed_attempts_result:
  assumes "0 < n"
  shows "\<exists>j<n. fst (embed_attempts cfg env texts k n t) = attempt_result cfg env texts (k + j)
     \<and> (\<forall>i<j. retried cfg env texts (k + i)) \<and> (Suc j < n \<longrightarrow> \<not> retried cfg env texts (k + j))"
  using assms
proof (induction n arbitrary: k t)
  case (Suc n)
  obtain prov order where a: "ie_attempt env k = (prov, order)" by fastforce
  let ?r = "attempt_result cfg env texts k"
  have r: "embed_texts_batched cfg (emb_batch cfg prov (ie_now env)) order texts = ?r"
    by (simp add: attempt_result_def a)
  show ?case
  proof (cases "retried cfg env texts k \<and> n \<noteq> 0")
    case False
    then have "fst (embed_attempts cfg env texts k (Suc n) t) = ?r"
      by (auto simp: a r Let_def retried_def split: sum.splits)
    with False show ?thesis by (intro exI [of _ 0]) auto
  next
    case True
    then obtain e where e: "?r = Inl e" "is_transient e" by (auto simp: retried_def split: sum.splits)
    let ?t = "attempt_usage cfg prov (ie_now env) order texts t"
    have step: "fst (embed_attempts cfg env texts k (Suc n) t) = fst (embed_attempts cfg env texts (Suc k) n ?t)"
      using True e by (simp add: a r Let_def)
    from Suc.IH [of "Suc k" ?t] True obtain j where j: "j < n"
      "fst (embed_attempts cfg env texts (Suc k) n ?t) = attempt_result cfg env texts (Suc k + j)"
      "\<forall>i<j. retried cfg env texts (Suc k + i)" "Suc j < n \<longrightarrow> \<not> retried cfg env texts (Suc k + j)" by auto
    have "retried cfg env texts (k + i)" if "i < Suc j" for i
      using that j(3) True by (cases i) auto
    then show ?thesis using step j by (intro exI [of _ "Suc j"]) auto
  qed
qed simp

section \<open>What the database steps touch\<close>

lemma store_tables_eq:
  "store_tables env ps s = s\<lparr>tables := tables s @ map (\<lambda>(n, p). table_row_of (ie_doc_id env) (ie_table_id env n) p) (enumerate 0 ps),
     table_rows := table_rows s @ concat (map (\<lambda>(n, p). table_rows_of (ie_table_id env n) p) (enumerate 0 ps))\<rparr>"
proof -
  have "fold (\<lambda>(n, p). store_table env n p) nps s
      = s\<lparr>tables := tables s @ map (\<lambda>(n, p). table_row_of (ie_doc_id env) (ie_table_id env n) p) nps,
          table_rows := table_rows s @ concat (map (\<lambda>(n, p). table_rows_of (ie_table_id env n) p) nps)\<rparr>" for nps
    by (induction nps arbitrary: s) (auto simp: store_table_def)
  then show ?thesis by (simp add: store_tables_def)
qed

text \<open>The rules that admit the chunks \<open>cs\<close>, up to the first one whose comparison raises.\<close>

definition rule_matches :: "real \<Rightarrow> chunk_row list \<Rightarrow> access_rule \<Rightarrow> bool outcome" where
  "rule_matches fl cs r = any_match fl (case r_query_embedding r of None \<Rightarrow> [] | Some v \<Rightarrow> v) cs"

definition admitting :: "real \<Rightarrow> chunk_row list \<Rightarrow> access_rule list \<Rightarrow> access_rule list" where
  "admitting fl cs rs = filter (\<lambda>r. rule_matches fl cs r = Inr True) (takeWhile (\<lambda>r. is_ok (rule_matches fl cs r)) rs)"

lemma grant_once_set: "set (document_acl (grant_once a s)) = insert a (set (document_acl s))"
  by (auto simp: grant_once_def)

lemma grant_once_rest: "\<exists>gs. grant_once a s = s\<lparr>document_acl := document_acl s @ gs\<rparr>"
  by (auto simp: grant_once_def intro: exI [of _ "[]"])

lemma apply_rules_set:
  "set (document_acl (apply_rules fl doc cs rs s)) = set (document_acl s) \<union> rule_grant doc ` set (admitting fl cs rs)"
proof (induction fl doc cs rs s rule: apply_rules.induct)
  case (2 fl doc cs r rs s)
  show ?case
  proof (cases "rule_matches fl cs r")
    case (Inl e)
    then show ?thesis by (simp add: rule_matches_def admitting_def)
  next
    case (Inr m)
    then show ?thesis using 2 by (auto simp: rule_matches_def admitting_def grant_once_set)
  qed
qed (simp add: admitting_def)

lemma apply_rules_rest: "\<exists>gs. apply_rules fl doc cs rs s = s\<lparr>document_acl := document_acl s @ gs\<rparr>"
proof (induction fl doc cs rs s rule: apply_rules.induct)
  case (1 fl doc cs s)
  then show ?case by (auto intro: exI [of _ "[]"])
next
  case (2 fl doc cs r rs s)
  show ?case
  proof (cases "rule_matches fl cs r")
    case (Inl e)
    then show ?thesis by (auto simp: rule_matches_def intro: exI [of _ "[]"])
  next
    case (Inr m)
    note eq = Inr [unfolded rule_matches_def]
    have "s = s\<lparr>document_acl := document_acl s @ []\<rparr>" by simp
    then obtain gs where "(if m then grant_once (rule_grant doc r) s else s) = s\<lparr>document_acl := document_acl s @ gs\<rparr>"
      using grant_once_rest [of "rule_grant doc r" s] by (cases m) metis+
    then show ?thesis using 2 [OF eq] eq by auto
  qed
qed

lemma build_chunks_Inr:
  assumes "build_chunks env prose ps embs = Inr cs"
  shows "map c_ord cs = [0..<length cs]" and "\<forall>c\<in>set cs. c_doc_id c = ie_doc_id env"
    and "map c_text cs = map prose_text prose @ concat (map (\<lambda>p. map ta_text (artifacts_of p)) ps)"
    and "map c_embedding cs = embs"
proof -
  let ?rows = "pending_rows env prose ps"
  have len: "length ?rows = length embs"
    and cs: "cs = map (\<lambda>(n, row, emb). row (ie_chunk_id env n) n emb) (enumerate 0 (zip ?rows embs))"
    using assms by (auto simp: build_chunks_def Let_def split: if_splits)
  have row: "c_ord (row a n e) = n \<and> c_doc_id (row a n e) = ie_doc_id env \<and> c_embedding (row a n e) = e"
    if "row \<in> set ?rows" for row a n e
    using that by (auto simp: pending_rows_def prose_row_def artifact_row_def split: prose_chunk.split)
  have nth: "cs ! i = (?rows ! i) (ie_chunk_id env i) i (embs ! i)" "length cs = length ?rows" if "i < length ?rows" for i
    using that len by (simp_all add: cs nth_enumerate_eq)
  have lcs: "length cs = length ?rows" using len by (simp add: cs)
  show "map c_ord cs = [0..<length cs]"
    by (rule nth_equalityI) (use nth row lcs in auto)
  show "\<forall>c\<in>set cs. c_doc_id c = ie_doc_id env"
    by (auto simp: in_set_conv_nth lcs nth row [OF nth_mem])
  show "map c_embedding cs = embs"
    by (rule nth_equalityI) (use nth row lcs len in auto)
  have texts: "map (\<lambda>row. c_text (row a n e)) (pending_rows env prose ps)
      = map prose_text prose @ concat (map (\<lambda>p. map ta_text (artifacts_of p)) ps)" for a n e
  proof -
    have "concat (map (\<lambda>x. case x of (k, p) \<Rightarrow> map ta_text (artifacts_of p)) (enumerate m ps))
        = concat (map (\<lambda>p. map ta_text (artifacts_of p)) ps)" for m :: nat
      by (induction ps arbitrary: m) auto
    then show ?thesis
      by (auto simp: pending_rows_def prose_row_def prose_text_def artifact_row_def map_concat o_def case_prod_beta
          split: prose_chunk.split)
  qed
  have indep: "c_text (row a n e) = c_text (row 0 0 [])" if "row \<in> set ?rows" for row a n e
    using that by (auto simp: pending_rows_def prose_row_def artifact_row_def split: prose_chunk.split)
  have "map c_text cs = map (\<lambda>row. c_text (row 0 0 [])) ?rows"
  proof (rule nth_equalityI)
    fix i assume "i < length (map c_text cs)"
    then have i: "i < length ?rows" by (simp add: lcs)
    show "map c_text cs ! i = map (\<lambda>row. c_text (row 0 0 [])) ?rows ! i"
      using i lcs nth [OF i] indep [OF nth_mem [OF i], of "ie_chunk_id env i" i "embs ! i"] by simp
  qed (simp add: lcs)
  then show "map c_text cs = map prose_text prose @ concat (map (\<lambda>p. map ta_text (artifacts_of p)) ps)"
    using texts by simp
qed


lemma usage_updates:
  "only_usage t t' \<Longrightarrow> \<exists>us. committed t' = committed t \<and> working t' = (working t)\<lparr>usages := usages (working t) @ us\<rparr>"
  by (auto simp: only_usage_def)

text \<open>What a successful ingest leaves behind, as an update of the database the session saw.\<close>

definition stored_db :: "settings \<Rightarrow> ingest_env \<Rightarrow> string \<Rightarrow> string \<Rightarrow> string \<Rightarrow> upload \<Rightarrow> chunk_row list
     \<Rightarrow> usage list \<Rightarrow> acl list \<Rightarrow> db \<Rightarrow> db" where
  "stored_db cfg env digest filename collection up cs us gs s =
     s\<lparr>documents := documents s @ [(new_document cfg env digest filename collection up)\<lparr>d_status := Ready\<rparr>],
       chunks := chunks s @ cs,
       tables := tables s @ map (\<lambda>(n, p). table_row_of (ie_doc_id env) (ie_table_id env n) p) (enumerate 0 (up_tables up)),
       table_rows := table_rows s @ concat (map (\<lambda>(n, p). table_rows_of (ie_table_id env n) p) (enumerate 0 (up_tables up))),
       usages := usages s @ us,
       document_acl := document_acl s @ gs\<rparr>"

text \<open>The chunk rows are those of the parsed upload: complete, in order and with their vectors.\<close>

definition whole_document :: "ingest_env \<Rightarrow> upload \<Rightarrow> chunk_row list \<Rightarrow> bool" where
  "whole_document env up cs \<longleftrightarrow>
     map c_ord cs = [0..<length cs] \<and> (\<forall>c\<in>set cs. c_doc_id c = ie_doc_id env)
   \<and> map c_text cs = map prose_text (up_prose up) @ concat (map (\<lambda>p. map ta_text (artifacts_of p)) (up_tables up))"

lemma store_body_Inl: "store_body cfg env up t = (Inl e, t') \<Longrightarrow> committed t' = committed t"
  using embed_attempts_only_usage [of "txn_update (store_tables env (up_tables up)) t" cfg env
      "embed_inputs (up_prose up) (up_tables up)" 0 3]
  by (auto simp: store_body_def Let_def embed_with_retry_def only_usage_def
      split: if_splits prod.splits sum.splits option.splits)

lemma set_doc_status_new:
  assumes "ie_doc_id env \<notin> d_id ` set (documents s)"
  shows "map (\<lambda>d. if d_id d = ie_doc_id env then d\<lparr>d_status := Ready, d_error := None\<rparr> else d)
      (documents s @ [new_document cfg env digest filename collection up])
    = documents s @ [(new_document cfg env digest filename collection up)\<lparr>d_status := Ready\<rparr>]"
  proof -
  have "map (\<lambda>d. if d_id d = ie_doc_id env then d\<lparr>d_status := Ready, d_error := None\<rparr> else d) (documents s) = documents s"
    by (rule map_idI) (use assms in force)
  then show ?thesis by (simp add: new_document_def)
qed

lemma store_body_Inr:
  assumes "store_body cfg env up (txn_update (\<lambda>s. s\<lparr>documents := documents s @ [new_document cfg env digest filename collection up]\<rparr>) t)
      = (Inr x, t')"
    and fresh: "ie_doc_id env \<notin> d_id ` set (documents (working t))"
  shows "\<exists>cs us gs. working t' = stored_db cfg env digest filename collection up cs us gs (working t)
     \<and> committed t' = working t' \<and> whole_document env up cs
     \<and> set (document_acl (working t')) = set (document_acl (working t))
         \<union> rule_grant (ie_doc_id env) ` set (admitting (rule_similarity_floor cfg) cs (confirmed_rules (working t)))"
proof -
  let ?t1 = "txn_update (\<lambda>s. s\<lparr>documents := documents s @ [new_document cfg env digest filename collection up]\<rparr>) t"
  let ?t2 = "txn_update (store_tables env (up_tables up)) ?t1"
  let ?e = "embed_with_retry cfg env (embed_inputs (up_prose up) (up_tables up)) ?t2"
  obtain us where us: "working (snd ?e) = (working ?t2)\<lparr>usages := usages (working ?t2) @ us\<rparr>"
    using embed_attempts_only_usage [of ?t2 cfg env "embed_inputs (up_prose up) (up_tables up)" 0 3]
    by (auto simp: only_usage_def embed_with_retry_def)
  from assms(1) obtain vs cs where cs: "build_chunks env (up_prose up) (up_tables up) vs = Inr cs"
    and t': "t' = txn_commit (txn_update (apply_confirmed_rules cfg (ie_doc_id env) cs)
        (txn_update (\<lambda>s. (set_doc_status (ie_doc_id env) Ready None s)\<lparr>chunks := chunks s @ cs\<rparr>) (snd ?e)))"
    by (auto simp: store_body_def Let_def split: if_splits prod.splits sum.splits option.splits)
  let ?s = "(set_doc_status (ie_doc_id env) Ready None (working (snd ?e)))\<lparr>chunks := chunks (working (snd ?e)) @ cs\<rparr>"
  have rules: "confirmed_rules ?s = confirmed_rules (working t)" "document_acl ?s = document_acl (working t)"
    by (simp_all add: us set_doc_status_def store_tables_eq confirmed_rules_def)
  obtain gs where gs: "apply_confirmed_rules cfg (ie_doc_id env) cs ?s = ?s\<lparr>document_acl := document_acl ?s @ gs\<rparr>"
    unfolding apply_confirmed_rules_def using apply_rules_rest by blast
  have "?s\<lparr>document_acl := document_acl ?s @ gs\<rparr> = stored_db cfg env digest filename collection up cs us gs (working t)"
    using set_doc_status_new [OF fresh] by (simp add: us set_doc_status_def store_tables_eq stored_db_def)
  then have "working t' = stored_db cfg env digest filename collection up cs us gs (working t)"
    using t' gs by simp
  moreover have "set (document_acl (working t')) = set (document_acl (working t))
         \<union> rule_grant (ie_doc_id env) ` set (admitting (rule_similarity_floor cfg) cs (confirmed_rules (working t)))"
    using apply_rules_set [of "rule_similarity_floor cfg" "ie_doc_id env" cs "confirmed_rules ?s" ?s] t' rules
    by (simp add: apply_confirmed_rules_def)
  moreover have "whole_document env up cs"
    using build_chunks_Inr [OF cs] by (simp add: whole_document_def)
  moreover have "committed t' = working t'" using t' by simp
  ultimately show ?thesis by blast
qed


section \<open>All or nothing\<close>

text \<open>How one ingest may leave the world.\<close>

definition only_blob_removed :: "string \<Rightarrow> ingest_world \<Rightarrow> ingest_world \<Rightarrow> bool" where
  "only_blob_removed path w w' \<longleftrightarrow>
     committed (iw_txn w') = committed (iw_txn w) \<and> (iw_blobs w' = iw_blobs w \<or> iw_blobs w' = (iw_blobs w)(path := None))"

definition stored :: "settings \<Rightarrow> ingest_env \<Rightarrow> string \<Rightarrow> string \<Rightarrow> string \<Rightarrow> ingest_world \<Rightarrow> ingest_world \<Rightarrow> bool" where
  "stored cfg env data filename collection w w' \<longleftrightarrow>
     (let digest = ie_sha256 env data; path = blob_path_for cfg digest filename in
      (\<exists>up cs us gs. parse_upload cfg (ie_parse env) data (guess_mime filename) filename = Inr up
         \<and> (up_prose up \<noteq> [] \<or> up_tables up \<noteq> []) \<and> int (length (up_prose up)) \<le> max_chunks_per_document cfg
         \<and> whole_document env up cs
         \<and> working (iw_txn w') = stored_db cfg env digest filename collection up cs us gs (working (iw_txn w))
         \<and> set (document_acl (working (iw_txn w'))) = set (document_acl (working (iw_txn w)))
             \<union> rule_grant (ie_doc_id env) ` set (admitting (rule_similarity_floor cfg) cs (confirmed_rules (working (iw_txn w)))))
    \<and> committed (iw_txn w') = working (iw_txn w')
    \<and> iw_blobs w' = write_blob data path (iw_blobs w))"

lemma delete_write_blob:
  "delete_blob path (write_blob data path blobs) = blobs(path := None)"
  by (auto simp: delete_blob_def write_blob_def)

lemma record_failure_cases:
  assumes "committed t = s"
  shows "(case find_document_by_sha s digest of
      Some d \<Rightarrow> \<exists>w'. record_failure digest path e t blobs
          = (Inr \<lparr>ir_doc_id = d_id d, ir_status = Failed, ir_duplicate_of = None\<rparr>, w')
    | None \<Rightarrow> record_failure digest path e t blobs
          = (Inl (HTTPException 500 ''ingestion failed''), \<lparr>iw_txn = txn_rollback t, iw_blobs = delete_blob path blobs\<rparr>))"
  using assms by (auto simp: record_failure_def Let_def split: option.split)

lemma insert_document_cases:
  assumes fresh: "ie_doc_id env \<notin> d_id ` set (documents (working t))"
    and unknown: "find_document_by_sha (committed t) digest = None"
    and up: "parse_upload cfg (ie_parse env) data (guess_mime filename) filename = Inr up"
    and ne: "up_prose up \<noteq> [] \<or> up_tables up \<noteq> []" and "int (length (up_prose up)) \<le> max_chunks_per_document cfg"
    and digest: "digest = ie_sha256 env data"
    and run: "insert_document cfg env digest filename collection up t (write_blob data (blob_path_for cfg digest filename) (iw_blobs w)) = (out, w')"
    and w: "iw_txn w = t"
  shows "case out of
      Inl e \<Rightarrow> only_blob_removed (blob_path_for cfg digest filename) w w'
    | Inr r \<Rightarrow> (case ir_duplicate_of r of
          None \<Rightarrow> r = \<lparr>ir_doc_id = ie_doc_id env, ir_status = Ready, ir_duplicate_of = None\<rparr> \<and> ie_rival env = None
            \<and> stored cfg env data filename collection w w'
        | Some i \<Rightarrow> i = ir_doc_id r \<and> ie_rival env \<noteq> None)"
proof (cases "ie_rival env")
  case (Some r)
  have "find_document_by_sha ((committed t)\<lparr>documents := documents (committed t) @ [r\<lparr>d_sha256 := digest\<rparr>]\<rparr>) digest = Some (r\<lparr>d_sha256 := digest\<rparr>)"
    using unknown by (simp add: tbl_find_append)
  then show ?thesis using run Some by (auto simp: insert_document_def Let_def duplicate_response_def)
next
  case None
  let ?t1 = "txn_update (\<lambda>s. s\<lparr>documents := documents s @ [new_document cfg env digest filename collection up]\<rparr>) t"
  show ?thesis
  proof (cases "store_body cfg env up ?t1")
    case (Pair res t2)
    show ?thesis
    proof (cases res)
      case (Inl e)
      have "committed t2 = committed t" using store_body_Inl Pair Inl by fastforce
      with unknown None Pair Inl run w show ?thesis
        using record_failure_cases [of t2 "committed t" digest]
        by (auto simp: insert_document_def Let_def only_blob_removed_def delete_write_blob)
    next
      case (Inr x)
      from store_body_Inr [OF Pair [unfolded Inr] fresh] obtain cs us gs where
        "working t2 = stored_db cfg env digest filename collection up cs us gs (working t)"
        "committed t2 = working t2" "whole_document env up cs"
        "set (document_acl (working t2)) = set (document_acl (working t))
         \<union> rule_grant (ie_doc_id env) ` set (admitting (rule_similarity_floor cfg) cs (confirmed_rules (working t)))" by blast
      moreover have "out = Inr \<lparr>ir_doc_id = ie_doc_id env, ir_status = Ready, ir_duplicate_of = None\<rparr>"
        "iw_txn w' = t2" "iw_blobs w' = write_blob data (blob_path_for cfg digest filename) (iw_blobs w)"
        using run None Pair Inr by (auto simp: insert_document_def Let_def)
      ultimately show ?thesis
        using assms None unfolding stored_def Let_def by simp blast
    qed
  qed
qed

lemma ingest_outcome:
  assumes "\<forall>c m. parse_upload cfg (ie_parse env) data (guess_mime filename) filename \<noteq> Inl (HTTPException c m)"
    and "ie_doc_id env \<notin> d_id ` set (documents (working (iw_txn w)))"
    and "find_document_by_sha (committed (iw_txn w)) (ie_sha256 env data) = None"
    and "find_document_by_sha (working (iw_txn w)) (ie_sha256 env data) = None"
  shows "case ingest_bytes cfg env data filename collection w of
      (Inl e, w') \<Rightarrow> only_blob_removed (blob_path_for cfg (ie_sha256 env data) filename) w w'
    | (Inr r, w') \<Rightarrow> (case ir_duplicate_of r of
          None \<Rightarrow> r = \<lparr>ir_doc_id = ie_doc_id env, ir_status = Ready, ir_duplicate_of = None\<rparr> \<and> ie_rival env = None
            \<and> stored cfg env data filename collection w w'
        | Some i \<Rightarrow> i = ir_doc_id r \<and> ie_rival env \<noteq> None)"
proof (cases "parse_upload cfg (ie_parse env) data (guess_mime filename) filename")
  case (Inl e)
  then show ?thesis using assms(1,4)
    by (cases e) (auto simp: ingest_bytes_def Let_def only_blob_removed_def delete_write_blob)
next
  case (Inr up)
  let ?digest = "ie_sha256 env data"
  let ?run = "insert_document cfg env ?digest filename collection up (iw_txn w)
      (write_blob data (blob_path_for cfg ?digest filename) (iw_blobs w))"
  show ?thesis
  proof (cases "(sniff_mime data \<noteq> None \<and> sniff_mime data \<noteq> Some (guess_mime filename))
      \<or> (up_prose up = [] \<and> up_tables up = []) \<or> max_chunks_per_document cfg < int (length (up_prose up))")
    case True
    then show ?thesis using assms(4) Inr
      by (auto simp: ingest_bytes_def Let_def only_blob_removed_def delete_write_blob)
  next
    case False
    then have eq: "ingest_bytes cfg env data filename collection w = ?run"
      using assms(4) Inr by (auto simp: ingest_bytes_def Let_def)
    obtain out w' where run: "?run = (out, w')" by (cases ?run)
    from False have "up_prose up \<noteq> [] \<or> up_tables up \<noteq> []" "int (length (up_prose up)) \<le> max_chunks_per_document cfg" by auto
    from insert_document_cases [OF assms(2,3) Inr this refl run refl] show ?thesis
      unfolding eq run by (cases out) auto
  qed
qed


section \<open>A sample environment\<close>

definition sample_parse_env :: parse_env where
  "sample_parse_env = \<lparr>pe_fitz = (\<lambda>_. Inl (PyError ''FileDataError'' [])), pe_decode = (\<lambda>d. d), pe_docling_available = False,
     pe_docling = (\<lambda>_ _. Inl (PyError ''ImportError'' [])), pe_render = (\<lambda>_ _ _. Inl (PyError ''OSError'' [])),
     pe_vision = (\<lambda>_. Inr None), pe_excel = (\<lambda>_. Inr []), pe_csv = (\<lambda>_ _. Inr ([], []))\<rparr>"

definition sample_embedder :: provider where
  "sample_embedder = \<lparr>p_completion = (\<lambda>_ _ _. Inl (PyError ''Timeout'' [])),
     p_embedding = (\<lambda>_ texts. Inr \<lparr>er_usage = None, er_vectors = Inr (map (\<lambda>t. [real (length t)]) texts)\<rparr>),
     p_openrouter_embedding = (\<lambda>_ _. Inr []), p_prices = (\<lambda>_ _ _. Inr (Some 0)), p_token_counter = (\<lambda>_ _. Inr 0), p_env_key = None\<rparr>"

definition sample_ingest_env :: ingest_env where
  "sample_ingest_env = \<lparr>ie_parse = sample_parse_env, ie_sha256 = (\<lambda>d. take 64 (d @ replicate 64 CHR ''0'')),
     ie_attempt = (\<lambda>k. (sample_embedder, [0])), ie_timeout = False, ie_rival = None, ie_store_error = (\<lambda>_. None),
     ie_doc_id = 7, ie_table_id = (\<lambda>n. n), ie_chunk_id = (\<lambda>n. n), ie_now = 0\<rparr>"

definition sample_world :: ingest_world where
  "sample_world = \<lparr>iw_txn = begin_txn empty_db, iw_blobs = (\<lambda>_. None)\<rparr>"

lemma sample_upload:
  "parse_upload default_settings sample_parse_env ''ab cd'' ''text/plain'' ''a.txt''
     = Inr \<lparr>up_prose = [Fixed \<lparr>pc_ord = 0, pc_text = ''ab cd'', pc_page_start = 1, pc_page_end = 1, pc_token_count = 2\<rparr>], up_tables = [], up_page_count = Some 1\<rparr>"
  by code_simp

lemma sample_mime: "guess_mime ''a.txt'' = ''text/plain''" "sniff_mime ''ab cd'' = None" by code_simp+

lemma sample_embedding: "embed_texts_batched default_settings (emb_batch default_settings sample_embedder 0) [0] [''ab cd''] = Inr [[5]]"
  by code_simp

lemma sample_ingest:
  "fst (ingest_bytes default_settings sample_ingest_env ''ab cd'' ''a.txt'' ''c'' sample_world)
     = Inr \<lparr>ir_doc_id = 7, ir_status = Ready, ir_duplicate_of = None\<rparr>"
  by (simp add: ingest_bytes_def sample_world_def empty_db_def sample_mime sample_ingest_env_def sample_upload insert_document_def
     store_body_def embed_with_retry_def numeral_3_eq_3 sample_embedding embed_inputs_def prose_embed_text_def build_chunks_def
     pending_rows_def Let_def split: prod.split)


section \<open>The same bytes again\<close>

lemma store_body_documents:
  "store_body cfg env up t = (Inr x, t') \<Longrightarrow> documents (working t') = documents (set_doc_status (ie_doc_id env) Ready None (working t))"
proof -
  assume a: "store_body cfg env up t = (Inr x, t')"
  let ?t2 = "txn_update (store_tables env (up_tables up)) t"
  let ?e = "embed_with_retry cfg env (embed_inputs (up_prose up) (up_tables up)) ?t2"
  have us: "documents (working (snd ?e)) = documents (working t)"
    using embed_attempts_only_usage [of ?t2 cfg env "embed_inputs (up_prose up) (up_tables up)" 0 3]
    by (auto simp: only_usage_def embed_with_retry_def store_tables_eq)
  from a obtain vs cs where "t' = txn_commit (txn_update (apply_confirmed_rules cfg (ie_doc_id env) cs)
        (txn_update (\<lambda>s. (set_doc_status (ie_doc_id env) Ready None s)\<lparr>chunks := chunks s @ cs\<rparr>) (snd ?e)))"
    by (auto simp: store_body_def Let_def split: if_splits prod.splits sum.splits option.splits)
  moreover have "documents (apply_confirmed_rules cfg doc cs s) = documents s" for doc s
    using apply_rules_rest [of "rule_similarity_floor cfg" doc cs "confirmed_rules s" s] by (auto simp: apply_confirmed_rules_def)
  ultimately show ?thesis using us by (simp add: set_doc_status_def)
qed

text \<open>After any ingest that answers, the document it names is found by the hash of the bytes.\<close>

lemma ingest_found:
  assumes run: "ingest_bytes cfg env data filename collection w = (Inr r, w')"
  shows "\<exists>d. find_document_by_sha (working (iw_txn w')) (ie_sha256 env data) = Some d
     \<and> d_id d = ir_doc_id r \<and> d_status d = ir_status r"
proof (cases "find_document_by_sha (working (iw_txn w)) (ie_sha256 env data)")
  case (Some d)
  then show ?thesis using run by (auto simp: ingest_bytes_def Let_def duplicate_response_def)
next
  case None
  let ?digest = "ie_sha256 env data"
  let ?t = "iw_txn w"
  from run None obtain up blobs where run': "insert_document cfg env ?digest filename collection up ?t blobs = (Inr r, w')"
    by (auto simp: ingest_bytes_def Let_def split: if_splits sum.splits exn.splits)
  show ?thesis
  proof (cases "ie_rival env")
    case (Some x)
    with run' show ?thesis by (auto simp: insert_document_def Let_def duplicate_response_def split: option.splits)
  next
    case norival: None
    let ?t1 = "txn_update (\<lambda>s. s\<lparr>documents := documents s @ [new_document cfg env ?digest filename collection up]\<rparr>) ?t"
    obtain res t2 where b: "store_body cfg env up ?t1 = (res, t2)" by fastforce
    show ?thesis
    proof (cases res)
      case (Inr x)
      from store_body_documents [OF b [unfolded Inr]] None
      have "find_document_by_sha (working t2) ?digest
          = Some ((new_document cfg env ?digest filename collection up)\<lparr>d_status := Ready, d_error := None\<rparr>)"
        by (simp add: set_doc_status_def tbl_find_append tbl_find_map new_document_def)
      then show ?thesis using run' norival b Inr by (auto simp: insert_document_def Let_def new_document_def)
    next
      case (Inl e)
      with run' norival b have rf: "record_failure ?digest (blob_path_for cfg ?digest filename) e t2 blobs = (Inr r, w')"
        by (simp add: insert_document_def Let_def)
      then obtain d0 where "find_document_by_sha (committed t2) ?digest = Some d0"
        by (auto simp: record_failure_def Let_def split: option.splits)
      with rf obtain d msg where d: "find_document_by_sha (committed t2) ?digest = Some d"
        and r: "r = \<lparr>ir_doc_id = d_id d, ir_status = Failed, ir_duplicate_of = None\<rparr>"
        and w': "documents (working (iw_txn w')) = map (\<lambda>x. if d_id x = d_id d then x\<lparr>d_status := Failed, d_error := Some msg\<rparr> else x)
          (documents (committed t2))"
        using that [of d0 "if is_timeout e then ''embedding timed out'' else safe_error e"]
        by (auto simp: record_failure_def Let_def set_doc_status_def)
      have "find_document_by_sha (working (iw_txn w')) ?digest = Some (d\<lparr>d_status := Failed, d_error := Some msg\<rparr>)"
        using d by (simp add: w' tbl_find_map)
      then show ?thesis using r by simp
    qed
  qed
qed

text \<open>
  De-duplication: once \<open>ingest_bytes\<close> has answered with a document, the same bytes, under any
  name, collection, settings and parser, answer with that document and its status as a
  duplicate, and change neither the database nor the blob store.
\<close>

lemma ingest_reupload:
  assumes "ingest_bytes cfg env data filename collection w = (Inr r, w')" and "ie_sha256 env' = ie_sha256 env"
  shows "ingest_bytes cfg' env' data filename' collection' w'
     = (Inr \<lparr>ir_doc_id = ir_doc_id r, ir_status = ir_status r, ir_duplicate_of = Some (ir_doc_id r)\<rparr>, w')"
  using ingest_found [OF assms(1)] assms(2) by (auto simp: ingest_bytes_def Let_def duplicate_response_def)

lemma ingest_reupload_witness:
  "\<exists>w'. ingest_bytes default_settings sample_ingest_env ''ab cd'' ''a.txt'' ''c'' sample_world
       = (Inr \<lparr>ir_doc_id = 7, ir_status = Ready, ir_duplicate_of = None\<rparr>, w')
     \<and> ingest_bytes default_settings sample_ingest_env ''ab cd'' ''b.pdf'' ''d'' w'
       = (Inr \<lparr>ir_doc_id = 7, ir_status = Ready, ir_duplicate_of = Some 7\<rparr>, w')"
proof -
  obtain w' where run: "ingest_bytes default_settings sample_ingest_env ''ab cd'' ''a.txt'' ''c'' sample_world
       = (Inr \<lparr>ir_doc_id = 7, ir_status = Ready, ir_duplicate_of = None\<rparr>, w')"
    using sample_ingest by (metis prod.collapse)
  from ingest_reupload [OF run refl, of default_settings "''b.pdf''" "''d''"] run show ?thesis by auto
qed


section \<open>Consistency of library and blob store\<close>

text \<open>
  The library invariant: keys and hashes are unique, no document is half-written, chunks, tables
  and grants belong to documents, every document's file is in the blob store with its hash, and
  every blob lies at the path its content names.
\<close>

definition rows_ok :: "db \<Rightarrow> bool" where
  "rows_ok s \<longleftrightarrow>
     distinct (map d_id (documents s)) \<and> distinct (map d_sha256 (documents s))
   \<and> (\<forall>d\<in>set (documents s). d_status d \<noteq> Processing)
   \<and> c_doc_id ` set (chunks s) \<subseteq> d_id ` set (documents s)
   \<and> t_doc_id ` set (tables s) \<subseteq> d_id ` set (documents s)
   \<and> a_doc_id ` set (document_acl s) \<subseteq> d_id ` set (documents s)"

definition blobs_ok :: "settings \<Rightarrow> (string \<Rightarrow> string) \<Rightarrow> db \<Rightarrow> blob_store \<Rightarrow> bool" where
  "blobs_ok cfg sha s blobs \<longleftrightarrow>
     (\<forall>d\<in>set (documents s). \<exists>data. blobs (d_blob_path d) = Some data \<and> sha data = d_sha256 d)
   \<and> (\<forall>p data. blobs p = Some data \<longrightarrow> (\<exists>ext. p = blob_dir cfg @ ''/'' @ sha data @ ext))"

definition library_ok :: "settings \<Rightarrow> (string \<Rightarrow> string) \<Rightarrow> db \<Rightarrow> blob_store \<Rightarrow> bool" where
  "library_ok cfg sha s blobs \<longleftrightarrow> rows_ok s \<and> blobs_ok cfg sha s blobs"

lemma blobs_okD:
  assumes "blobs_ok cfg sha s blobs"
  shows "d \<in> set (documents s) \<Longrightarrow> \<exists>data. blobs (d_blob_path d) = Some data \<and> sha data = d_sha256 d"
    and "blobs p = Some data \<Longrightarrow> \<exists>ext. p = blob_dir cfg @ ''/'' @ sha data @ ext"
  using assms unfolding blobs_ok_def by blast+

lemma blob_path_shape: "\<exists>ext. blob_path_for cfg digest filename = blob_dir cfg @ ''/'' @ digest @ ext"
  by (simp add: blob_path_for_def)

lemma find_by_sha_None: "find_document_by_sha s digest = None \<longleftrightarrow> digest \<notin> d_sha256 ` set (documents s)"
  by (simp add: tbl_find_None tbl_keys_def)

text \<open>The path of an unknown hash holds no document's file.\<close>

lemma blob_paths_disjoint:
  assumes inv: "blobs_ok cfg sha s blobs" and len: "\<forall>x. length (sha x) = 64"
    and unknown: "find_document_by_sha s (sha data) = None" and d: "d \<in> set (documents s)"
  shows "d_blob_path d \<noteq> blob_path_for cfg (sha data) filename"
proof
  assume eq: "d_blob_path d = blob_path_for cfg (sha data) filename"
  obtain x where x: "blobs (d_blob_path d) = Some x" "sha x = d_sha256 d" using blobs_okD(1) [OF inv d] by blast
  obtain ext where "d_blob_path d = blob_dir cfg @ ''/'' @ sha x @ ext" using blobs_okD(2) [OF inv x(1)] by blast
  then have "sha x = sha data" using eq len blob_path_shape [of cfg "sha data" filename] by auto
  then show False using unknown imageI [OF d, of d_sha256] x(2) unfolding find_by_sha_None by simp
qed

lemma blobs_ok_removed:
  assumes inv: "blobs_ok cfg sha s blobs" and len: "\<forall>x. length (sha x) = 64"
    and unknown: "find_document_by_sha s (sha data) = None"
  shows "blobs_ok cfg sha s (blobs(blob_path_for cfg (sha data) filename := None))"
  unfolding blobs_ok_def
proof (intro conjI ballI allI impI)
  fix d assume d: "d \<in> set (documents s)"
  show "\<exists>x. (blobs(blob_path_for cfg (sha data) filename := None)) (d_blob_path d) = Some x \<and> sha x = d_sha256 d"
    using blobs_okD(1) [OF inv d] blob_paths_disjoint [OF inv len unknown d, of filename] by simp
next
  fix p x assume "(blobs(blob_path_for cfg (sha data) filename := None)) p = Some x"
  then show "\<exists>ext. p = blob_dir cfg @ ''/'' @ sha x @ ext" using blobs_okD(2) [OF inv] by (simp split: if_splits)
qed

lemma blobs_ok_written:
  assumes inv: "blobs_ok cfg sha s blobs" and len: "\<forall>x. length (sha x) = 64"
    and docs: "documents s' = documents s @ [d]" and path: "d_blob_path d = blob_path_for cfg (sha data) filename"
    and hash: "d_sha256 d = sha data"
  shows "blobs_ok cfg sha s' (write_blob data (d_blob_path d) blobs)"
  unfolding blobs_ok_def
proof (intro conjI ballI allI impI)
  fix e assume e: "e \<in> set (documents s')"
  show "\<exists>x. write_blob data (d_blob_path d) blobs (d_blob_path e) = Some x \<and> sha x = d_sha256 e"
  proof (cases "e \<in> set (documents s)")
    case True
    then obtain y where "blobs (d_blob_path e) = Some y" "sha y = d_sha256 e" using blobs_okD(1) [OF inv] by blast
    then show ?thesis by (auto simp: write_blob_def)
  next
    case False
    then have e: "e = d" using e docs by simp
    show ?thesis
    proof (cases "blobs (d_blob_path d)")
      case None
      then show ?thesis by (simp add: write_blob_def e hash)
    next
      case (Some x)
      then obtain ext where "d_blob_path d = blob_dir cfg @ ''/'' @ sha x @ ext" using blobs_okD(2) [OF inv] by blast
      then have "sha x = sha data" using len path blob_path_shape [of cfg "sha data" filename] by auto
      then show ?thesis using Some by (simp add: write_blob_def e hash)
    qed
  qed
next
  fix p x assume "write_blob data (d_blob_path d) blobs p = Some x"
  then show "\<exists>ext. p = blob_dir cfg @ ''/'' @ sha x @ ext"
    using blobs_okD(2) [OF inv, of p x] blob_path_shape [of cfg "sha data" filename] path
    by (auto simp: write_blob_def split: if_splits)
qed

lemma whole_document_docs: "whole_document env up cs \<Longrightarrow> c_doc_id ` set cs \<subseteq> {ie_doc_id env}"
  by (auto simp: whole_document_def)

lemma rows_ok_stored:
  assumes inv: "rows_ok s" and cs: "whole_document env up cs"
    and unknown: "find_document_by_sha s digest = None" and fresh: "ie_doc_id env \<notin> d_id ` set (documents s)"
    and s': "s' = stored_db cfg env digest filename collection up cs us gs s"
    and acl: "set (document_acl s') = set (document_acl s) \<union> rule_grant (ie_doc_id env) ` R"
  shows "rows_ok s'"
proof -
  have docs: "d_id ` set (documents s') = insert (ie_doc_id env) (d_id ` set (documents s))"
    by (simp add: s' stored_db_def new_document_def)
  have "a_doc_id ` set (document_acl s') \<subseteq> d_id ` set (documents s')"
    using inv unfolding rows_ok_def docs acl by (auto simp: rule_grant_def)
  moreover have "c_doc_id ` set (chunks s') \<subseteq> d_id ` set (documents s')"
    using inv whole_document_docs [OF cs] unfolding rows_ok_def docs by (auto simp: s' stored_db_def)
  moreover have "t_doc_id ` set (tables s') \<subseteq> d_id ` set (documents s')"
    using inv unfolding rows_ok_def docs by (auto simp: s' stored_db_def table_row_of_def)
  moreover have "distinct (map d_id (documents s'))" "distinct (map d_sha256 (documents s'))"
      "\<forall>d\<in>set (documents s'). d_status d \<noteq> Processing"
    using inv fresh unknown unfolding rows_ok_def find_by_sha_None by (simp_all add: s' stored_db_def new_document_def)
  ultimately show ?thesis unfolding rows_ok_def by blast
qed

lemma library_ok_stored:
  assumes inv: "library_ok cfg (ie_sha256 env) (working (iw_txn w)) (iw_blobs w)" and len: "\<forall>x. length (ie_sha256 env x) = 64"
    and unknown: "find_document_by_sha (working (iw_txn w)) (ie_sha256 env data) = None"
    and fresh: "ie_doc_id env \<notin> d_id ` set (documents (working (iw_txn w)))"
    and st: "stored cfg env data filename collection w w'"
  shows "library_ok cfg (ie_sha256 env) (committed (iw_txn w')) (iw_blobs w')"
proof -
  let ?s = "working (iw_txn w)" let ?path = "blob_path_for cfg (ie_sha256 env data) filename"
  from st obtain up cs us gs where
    w': "committed (iw_txn w') = stored_db cfg env (ie_sha256 env data) filename collection up cs us gs ?s"
    and blobs': "iw_blobs w' = write_blob data ?path (iw_blobs w)" and cs: "whole_document env up cs"
    and acl: "set (document_acl (committed (iw_txn w'))) = set (document_acl ?s)
        \<union> rule_grant (ie_doc_id env) ` set (admitting (rule_similarity_floor cfg) cs (confirmed_rules ?s))"
    unfolding stored_def Let_def by auto
  let ?d = "(new_document cfg env (ie_sha256 env data) filename collection up)\<lparr>d_status := Ready\<rparr>"
  have "blobs_ok cfg (ie_sha256 env) (committed (iw_txn w')) (write_blob data (d_blob_path ?d) (iw_blobs w))"
    by (rule blobs_ok_written [OF _ len]) (use inv in \<open>simp_all add: library_ok_def w' stored_db_def new_document_def\<close>)
  then show ?thesis
    using rows_ok_stored [OF _ cs unknown fresh w' acl] inv blobs' by (simp add: library_ok_def new_document_def)
qed

lemma ingest_library:
  assumes "library_ok cfg (ie_sha256 env) s (iw_blobs w)" and "iw_txn w = begin_txn s"
    and "\<forall>x. length (ie_sha256 env x) = 64"
    and "ie_doc_id env \<notin> d_id ` set (documents s)" and "ie_rival env = None"
    and "\<forall>c m. parse_upload cfg (ie_parse env) data (guess_mime filename) filename \<noteq> Inl (HTTPException c m)"
  shows "library_ok cfg (ie_sha256 env) (committed (iw_txn (snd (ingest_bytes cfg env data filename collection w))))
     (iw_blobs (snd (ingest_bytes cfg env data filename collection w)))"
proof (cases "find_document_by_sha s (ie_sha256 env data)")
  case (Some d)
  then show ?thesis using assms(1,2) by (simp add: ingest_bytes_def Let_def)
next
  case None
  obtain out w' where run: "ingest_bytes cfg env data filename collection w = (out, w')" by fastforce
  note o = ingest_outcome [OF assms(6), of w collection, unfolded run] assms
  show ?thesis
  proof (cases out)
    case (Inl e)
    then have "only_blob_removed (blob_path_for cfg (ie_sha256 env data) filename) w w'" using o None by simp
    then show ?thesis using blobs_ok_removed [OF _ assms(3) None, of cfg "iw_blobs w" filename] assms(1,2) run
      by (auto simp: only_blob_removed_def library_ok_def)
  next
    case (Inr r)
    then have "stored cfg env data filename collection w w'" using o None by (auto split: option.splits)
    then show ?thesis using library_ok_stored [of cfg env w data filename collection w'] assms None run by simp
  qed
qed

text \<open>
  Every ingest keeps the library consistent: from a fresh session on a consistent library,
  with a hash of fixed length, a fresh document key and no concurrent upload of the same bytes,
  the committed library and the blob store are consistent again, whether the file was stored,
  recognised or rejected; cleaning up a rejected file never removes the file of a document.
\<close>

lemma ingest_keeps_library:
  assumes "library_ok cfg (ie_sha256 env) s (iw_blobs w)" and "iw_txn w = begin_txn s"
    and "\<forall>x. length (ie_sha256 env x) = 64"
    and "ie_doc_id env \<notin> d_id ` set (documents s)" and "ie_rival env = None"
    and "\<forall>c m. parse_upload cfg (ie_parse env) data (guess_mime filename) filename \<noteq> Inl (HTTPException c m)"
  shows "library_ok cfg (ie_sha256 env) (committed (iw_txn (snd (ingest_bytes cfg env data filename collection w))))
     (iw_blobs (snd (ingest_bytes cfg env data filename collection w)))"
  using assms by (rule ingest_library)

lemma ingest_keeps_library_witness:
  "library_ok default_settings (ie_sha256 sample_ingest_env)
     (committed (iw_txn (snd (ingest_bytes default_settings sample_ingest_env ''ab cd'' ''a.txt'' ''c'' sample_world))))
     (iw_blobs (snd (ingest_bytes default_settings sample_ingest_env ''ab cd'' ''a.txt'' ''c'' sample_world)))"
  by (rule ingest_keeps_library [where s = empty_db])
     (simp_all add: library_ok_def rows_ok_def blobs_ok_def sample_world_def empty_db_def sample_ingest_env_def sample_mime sample_upload min_def)

section \<open>Default deny\<close>

lemma any_match_True:
  "any_match fl emb cs = Inr True \<Longrightarrow> \<exists>c\<in>set cs. \<exists>x. cosine_similarity (c_embedding c) emb = Inr x \<and> fl \<le> x"
  by (induction fl emb cs rule: any_match.induct) (auto split: sum.splits if_splits)

lemma admitting_confirmed:
  assumes "r \<in> set (admitting fl cs (confirmed_rules s))"
  shows "r \<in> set (access_rules s) \<and> r_state r = Confirmed
     \<and> (\<exists>v. r_query_embedding r = Some v \<and> (\<exists>c\<in>set cs. \<exists>x. cosine_similarity (c_embedding c) v = Inr x \<and> fl \<le> x))"
proof -
  from assms have r: "r \<in> set (confirmed_rules s)" "rule_matches fl cs r = Inr True"
    by (auto simp: admitting_def dest: set_takeWhileD)
  then obtain v where "r_query_embedding r = Some v" by (auto simp: confirmed_rules_def)
  with r show ?thesis using any_match_True [of fl v cs] by (auto simp: confirmed_rules_def rule_matches_def)
qed

text \<open>
  C15. Default deny: a freshly stored document is visible to a user who is no administrator exactly
  through the rules that admitted it, and such a rule is confirmed, belongs to a group of the
  user and has a stored query vector whose similarity to some chunk of the document reaches the
  floor. Without such a rule nobody but an administrator sees it.
\<close>

theorem fresh_document_default_deny:
  assumes "\<forall>c m. parse_upload cfg (ie_parse env) data (guess_mime filename) filename \<noteq> Inl (HTTPException c m)"
    and "iw_txn w = begin_txn s" and "ie_doc_id env \<notin> d_id ` set (documents s)"
    and "find_document_by_sha s (ie_sha256 env data) = None"
    and "ie_doc_id env \<notin> a_doc_id ` set (document_acl s)"
    and "ingest_bytes cfg env data filename collection w = (Inr r, w')" and "ir_duplicate_of r = None"
  shows "\<exists>cs. chunks (committed (iw_txn w')) = chunks s @ cs
     \<and> (\<forall>u. sees (committed (iw_txn w')) (Some u) (ir_doc_id r) \<longleftrightarrow>
          u_is_admin u \<or> (\<exists>rule\<in>set (admitting (rule_similarity_floor cfg) cs (confirmed_rules s)).
                            r_group_id rule \<in> set (group_ids_of s (u_id u))))
     \<and> (\<forall>rule\<in>set (admitting (rule_similarity_floor cfg) cs (confirmed_rules s)).
          rule \<in> set (access_rules s) \<and> r_state rule = Confirmed
        \<and> (\<exists>v. r_query_embedding rule = Some v
             \<and> (\<exists>c\<in>set cs. \<exists>x. cosine_similarity (c_embedding c) v = Inr x \<and> rule_similarity_floor cfg \<le> x)))"
proof -
  have st: "stored cfg env data filename collection w w'" and id: "ir_doc_id r = ie_doc_id env"
    using ingest_outcome [OF assms(1), of w collection] assms by simp_all
  from st obtain up cs us gs where
    w': "committed (iw_txn w') = stored_db cfg env (ie_sha256 env data) filename collection up cs us gs s"
    and acl: "set (document_acl (committed (iw_txn w'))) = set (document_acl s)
        \<union> rule_grant (ie_doc_id env) ` set (admitting (rule_similarity_floor cfg) cs (confirmed_rules s))"
    unfolding stored_def Let_def using assms(2) by auto
  have member: "acl_grants (committed (iw_txn w')) uid a \<longleftrightarrow> acl_grants s uid a" for uid a
    by (simp add: w' stored_db_def acl_grants_def group_ids_of_def split: principal.split)
  have "sees (committed (iw_txn w')) (Some u) (ie_doc_id env) \<longleftrightarrow>
      (\<exists>rule\<in>set (admitting (rule_similarity_floor cfg) cs (confirmed_rules s)). r_group_id rule \<in> set (group_ids_of s (u_id u)))"
    if "\<not> u_is_admin u" for u
    unfolding sees_user [OF that] acl member using assms(5)
    by (auto simp: rule_grant_def acl_grants_def image_iff bex_Un)
  then have "\<forall>u. sees (committed (iw_txn w')) (Some u) (ie_doc_id env) \<longleftrightarrow>
      u_is_admin u \<or> (\<exists>rule\<in>set (admitting (rule_similarity_floor cfg) cs (confirmed_rules s)). r_group_id rule \<in> set (group_ids_of s (u_id u)))"
    using sees_super(2) by blast
  then show ?thesis using admitting_confirmed id by (intro exI [of _ cs]) (auto simp: w' stored_db_def)
qed

theorem fresh_document_default_deny_witness:
  "\<exists>w'. ingest_bytes default_settings sample_ingest_env ''ab cd'' ''a.txt'' ''c'' sample_world
       = (Inr \<lparr>ir_doc_id = 7, ir_status = Ready, ir_duplicate_of = None\<rparr>, w')
     \<and> \<not> sees (committed (iw_txn w')) (Some (sample_user 1)) 7"
proof -
  obtain w' where run: "ingest_bytes default_settings sample_ingest_env ''ab cd'' ''a.txt'' ''c'' sample_world
       = (Inr \<lparr>ir_doc_id = 7, ir_status = Ready, ir_duplicate_of = None\<rparr>, w')"
    using sample_ingest by (metis prod.collapse)
  have "\<not> sees (committed (iw_txn w')) (Some (sample_user 1)) 7"
    using fresh_document_default_deny [OF _ _ _ _ _ run, of empty_db]
    by (simp add: sample_mime sample_upload sample_ingest_env_def sample_world_def empty_db_def admitting_def confirmed_rules_def sample_user_def)
  with run show ?thesis by blast
qed

end
