(* ===== verification/Sync_Props.thy ===== *)
theory Sync_Props imports Sync_Engine Ingest_Props begin

text \<open>
  What the sync engine guarantees: it keeps every invariant its ingest keeps, records every
  listed object, converges on an unchanged listing and removes what disappeared; and what it
  loses: an object that comes back unchanged after its deletion.
\<close>

section \<open>Classification\<close>

lemma diff_objects_eq:
  "diff_objects remote known =
     (filter (\<lambda>ob. map_of known (ro_key ob) = None) remote,
      filter (\<lambda>ob. map_of known (ro_key ob) \<notin> {None, Some (Some (ro_etag ob), Some (ro_size ob))}) remote,
      map ro_key (filter (\<lambda>ob. map_of known (ro_key ob) = Some (Some (ro_etag ob), Some (ro_size ob))) remote))"
  by (induction remote) (auto split: option.split)

lemma map_of_known: "map_of (known_objects_of s cid) key = map_option (\<lambda>i. (i_etag i, i_size i)) (find_item s cid key)"
proof -
  have "map_of (map (\<lambda>i. (i_external_id i, (i_etag i, i_size i))) (filter (\<lambda>i. i_connector_id i = cid) is)) key
      = map_option (\<lambda>i. (i_etag i, i_size i)) (tbl_find item_key (cid, key) is)" for "is"
    by (induction "is") auto
  then show ?thesis by (simp add: known_objects_of_def items_of_def)
qed

text \<open>The objects the loop works on have different keys.\<close>

lemma new_and_changed:
  assumes dist: "distinct (map ro_key remote)"
  shows "fst ` set (map (\<lambda>ob. (ob, True)) (filter (\<lambda>ob. map_of known (ro_key ob) = None) remote)
       @ map (\<lambda>ob. (ob, False)) (filter (\<lambda>ob. map_of known (ro_key ob) \<notin> {None, Some (Some (ro_etag ob), Some (ro_size ob))}) remote))
     = {ob \<in> set remote. map_of known (ro_key ob) \<noteq> Some (Some (ro_etag ob), Some (ro_size ob))}"
    (is "fst ` set ?obs = _")
    and "distinct (map (ro_key \<circ> fst) (map (\<lambda>ob. (ob, True)) (filter (\<lambda>ob. map_of known (ro_key ob) = None) remote)
       @ map (\<lambda>ob. (ob, False)) (filter (\<lambda>ob. map_of known (ro_key ob) \<notin> {None, Some (Some (ro_etag ob), Some (ro_size ob))}) remote)))"
proof -
  let ?new = "filter (\<lambda>ob. map_of known (ro_key ob) = None) remote"
  let ?changed = "filter (\<lambda>ob. map_of known (ro_key ob) \<notin> {None, Some (Some (ro_etag ob), Some (ro_size ob))}) remote"
  have inj: "inj_on ro_key (set remote)" and dr: "distinct remote" using dist by (auto simp: distinct_map)
  have fst: "map fst ?obs = ?new @ ?changed" by (simp add: o_def)
  show "fst ` set ?obs = {ob \<in> set remote. map_of known (ro_key ob) \<noteq> Some (Some (ro_etag ob), Some (ro_size ob))}"
    unfolding set_map [symmetric] fst by auto
  have "distinct (map fst ?obs)" unfolding fst using dr by auto
  moreover have "set (map fst ?obs) \<subseteq> set remote" unfolding fst by auto
  then have "inj_on ro_key (set (map fst ?obs))" using inj inj_on_subset by blast
  ultimately have "distinct (map ro_key (map fst ?obs))" by (rule distinct_map [THEN iffD2, OF conjI])
  then show "distinct (map (ro_key \<circ> fst) ?obs)" by (simp only: map_map)
qed

section \<open>Worlds between operations\<close>

definition settled :: "ingest_world \<Rightarrow> bool" where
  "settled w \<longleftrightarrow> committed (iw_txn w) = working (iw_txn w)"

lemma commit_update_simps [simp]:
  "working (iw_txn (commit_update f w)) = f (working (iw_txn w))"
  "committed (iw_txn (commit_update f w)) = f (working (iw_txn w))"
  "iw_blobs (commit_update f w) = iw_blobs w" "settled (commit_update f w)"
  by (simp_all add: commit_update_def settled_def)

text \<open>The items after an update that keeps keys and change signals.\<close>

definition same_signal :: "(connector_item \<Rightarrow> connector_item) \<Rightarrow> bool" where
  "same_signal f \<longleftrightarrow> (\<forall>i. item_key (f i) = item_key i \<and> i_etag (f i) = i_etag i \<and> i_size (f i) = i_size i)"

definition recorded :: "db \<Rightarrow> uuid \<Rightarrow> remote_object \<Rightarrow> bool" where
  "recorded s cid ob \<longleftrightarrow>
     (\<exists>i. find_item s cid (ro_key ob) = Some i \<and> i_etag i = Some (ro_etag ob) \<and> i_size i = Some (ro_size ob))"

lemma recorded_map:
  assumes "same_signal f" and "connector_items s' = map f (connector_items s)"
  shows "recorded s' cid ob \<longleftrightarrow> recorded s cid ob"
  using assms by (auto simp: recorded_def same_signal_def tbl_find_map)

lemma recorded_known: "recorded s cid ob \<longleftrightarrow> map_of (known_objects_of s cid) (ro_key ob) = Some (Some (ro_etag ob), Some (ro_size ob))"
  by (auto simp: map_of_known recorded_def)

text \<open>The tables no ingest writes to.\<close>

abbreviation side :: "db \<Rightarrow> connector_item list \<times> connector list" where
  "side s \<equiv> (connector_items s, connectors s)"

section \<open>The interface between sync engine and ingest\<close>

text \<open>
  What the engine needs of the ingest it drives: it ends its transaction, it leaves items and
  connectors alone, and under the condition \<open>ok\<close> on its environment it keeps an invariant of library and
  blob store that does not depend on items and connectors and survives deleting a document.
\<close>

locale ingest_service =
  fixes ingest :: "'e ingest_fun" and ok :: "'e \<Rightarrow> bool" and inv :: "db \<Rightarrow> blob_store \<Rightarrow> bool"
  assumes settles: "settled w \<Longrightarrow> settled (snd (ingest e data filename collection w))"
    and side_kept: "settled w \<Longrightarrow>
      side (working (iw_txn (snd (ingest e data filename collection w)))) = side (working (iw_txn w))"
    and keeps: "ok e \<Longrightarrow> settled w \<Longrightarrow> inv (working (iw_txn w)) (iw_blobs w) \<Longrightarrow>
      inv (working (iw_txn (snd (ingest e data filename collection w)))) (iw_blobs (snd (ingest e data filename collection w)))"
    and inv_items: "inv s b \<Longrightarrow> inv (s\<lparr>connector_items := x\<rparr>) b"
    and inv_connectors: "inv s b \<Longrightarrow> inv (s\<lparr>connectors := y\<rparr>) b"
    and inv_delete: "inv s b \<Longrightarrow> inv (delete_document i s) b"
begin

text \<open>Whatever happens to an object ends in one upsert of its item.\<close>

lemma process_object_upsert:
  assumes "process_object ingest cfg env cid collection n ob is_new (w, rep) = (w', rep')"
  shows "\<exists>st d e w0. w' = upsert_item cid ob (sy_now env) st d e w0
     \<and> (w0 = w \<or> (\<exists>data. w0 = snd (ingest (sy_ingest env n) data (key_filename (ro_key ob)) collection w)))"
proof (cases "fetch (sy_bucket env) ob")
  case (Inl e)
  then show ?thesis using assms by (auto simp: process_object_def split: if_splits)
next
  case (Inr data)
  obtain out w0 where i: "ingest (sy_ingest env n) data (key_filename (ro_key ob)) collection w = (out, w0)" by fastforce
  then have w0: "w0 = snd (ingest (sy_ingest env n) data (key_filename (ro_key ob)) collection w)" by simp
  show ?thesis
  proof (cases "ends_with_any (py_lower (ro_key ob)) ALLOWED_SUFFIXES \<and> \<not> max_upload_bytes cfg < ro_size ob")
    case True
    then obtain st d e where "w' = upsert_item cid ob (sy_now env) st d e w0"
      using assms Inr i by (cases out) (auto simp: process_object_def)
    then show ?thesis using w0 by blast
  next
    case False
    then show ?thesis using assms by (auto simp: process_object_def split: if_splits)
  qed
qed

lemma process_object_step:
  assumes w: "settled w" and run: "process_object ingest cfg env cid collection n ob is_new (w, rep) = (w', rep')"
  shows "settled w'"
    and "\<exists>st d e. connector_items (working (iw_txn w')) =
           tbl_put item_key (item_of cid ob (sy_now env) st d e) (connector_items (working (iw_txn w)))"
    and "connectors (working (iw_txn w')) = connectors (working (iw_txn w))"
    and "ok (sy_ingest env n) \<Longrightarrow> inv (working (iw_txn w)) (iw_blobs w) \<Longrightarrow> inv (working (iw_txn w')) (iw_blobs w')"
proof -
  from process_object_upsert [OF run] obtain st d e w0 where w': "w' = upsert_item cid ob (sy_now env) st d e w0"
    and w0: "w0 = w \<or> (\<exists>data. w0 = snd (ingest (sy_ingest env n) data (key_filename (ro_key ob)) collection w))" by blast
  show "settled w'" by (simp add: w' upsert_item_def)
  have kept: "side (working (iw_txn w0)) = side (working (iw_txn w))" using w0 side_kept [OF w] by auto
  then show "\<exists>st d e. connector_items (working (iw_txn w')) =
           tbl_put item_key (item_of cid ob (sy_now env) st d e) (connector_items (working (iw_txn w)))"
    using kept by (auto simp: w' upsert_item_def)
  show "connectors (working (iw_txn w')) = connectors (working (iw_txn w))" using kept by (simp add: w' upsert_item_def)
  assume "ok (sy_ingest env n)" "inv (working (iw_txn w)) (iw_blobs w)"
  then have "inv (working (iw_txn w0)) (iw_blobs w0)" using w0 keeps [OF _ w] by auto
  then show "inv (working (iw_txn w')) (iw_blobs w')" using inv_items by (simp add: w' upsert_item_def)
qed

lemma process_loop_items:
  assumes "settled w" and "process_loop ingest cfg env cid collection n obs (w, rep) = (w', rep')"
    and "distinct (map (ro_key \<circ> fst) obs)"
  shows "settled w' \<and> (\<forall>ob\<in>fst ` set obs. recorded (working (iw_txn w')) cid ob)
     \<and> (\<forall>c key. c \<noteq> cid \<or> key \<notin> ro_key ` fst ` set obs \<longrightarrow>
          find_item (working (iw_txn w')) c key = find_item (working (iw_txn w)) c key)"
  using assms
proof (induction obs arbitrary: n w rep)
  case (Cons p obs)
  obtain ob b where p: "p = (ob, b)" by fastforce
  obtain w1 rep1 where step: "process_object ingest cfg env cid collection n ob b (w, rep) = (w1, rep1)" by fastforce
  note w1 = process_object_step [OF Cons.prems(1) step]
  have run: "process_loop ingest cfg env cid collection (Suc n) obs (w1, rep1) = (w', rep')"
    using Cons.prems(2) by (simp add: p step)
  have ih: "settled w'" "\<forall>ob\<in>fst ` set obs. recorded (working (iw_txn w')) cid ob"
    "\<And>c key. c \<noteq> cid \<or> key \<notin> ro_key ` fst ` set obs \<Longrightarrow>
          find_item (working (iw_txn w')) c key = find_item (working (iw_txn w1)) c key"
    using Cons.IH [OF w1(1) run] Cons.prems(3) by auto
  from w1(2) obtain st d e where it: "connector_items (working (iw_txn w1)) =
      tbl_put item_key (item_of cid ob (sy_now env) st d e) (connector_items (working (iw_txn w)))" by blast
  have new: "ro_key ob \<notin> ro_key ` fst ` set obs" using Cons.prems(3) by (auto simp: p image_iff)
  have "recorded (working (iw_txn w1)) cid ob" by (simp add: recorded_def it tbl_find_put item_of_def)
  then have "recorded (working (iw_txn w')) cid ob" using ih(3) [of cid "ro_key ob"] new by (simp add: recorded_def)
  moreover have "find_item (working (iw_txn w1)) c key = find_item (working (iw_txn w)) c key"
    if "c \<noteq> cid \<or> key \<noteq> ro_key ob" for c key
    using that by (auto simp: it tbl_find_put item_of_def)
  ultimately show ?case using ih by (auto simp: p)
qed simp

lemma process_loop_inv:
  assumes "settled w" and "process_loop ingest cfg env cid collection n obs (w, rep) = (w', rep')"
    and "\<forall>k. ok (sy_ingest env k)" and "inv (working (iw_txn w)) (iw_blobs w)"
  shows "inv (working (iw_txn w')) (iw_blobs w')"
  using assms
proof (induction obs arbitrary: n w rep)
  case (Cons p obs)
  obtain ob b where p: "p = (ob, b)" by fastforce
  obtain w1 rep1 where step: "process_object ingest cfg env cid collection n ob b (w, rep) = (w1, rep1)" by fastforce
  from process_object_step [OF Cons.prems(1) step] Cons show ?case by (auto simp: p step)
qed simp

lemma touch_items_eq:
  "\<exists>f. same_signal f \<and> (\<forall>i. i_status (f i) = i_status i \<and> i_doc_id (f i) = i_doc_id i)
     \<and> working (iw_txn (touch_items cid keys now w)) = (working (iw_txn w))\<lparr>connector_items := map f (connector_items (working (iw_txn w)))\<rparr>
     \<and> iw_blobs (touch_items cid keys now w) = iw_blobs w"
proof (cases "keys = []")
  case True
  then show ?thesis by (intro exI [of _ "\<lambda>i. i"]) (simp add: same_signal_def touch_items_def)
next
  case False
  then show ?thesis
    by (intro exI [of _ "\<lambda>i. if i_connector_id i = cid \<and> i_external_id i \<in> set keys then i\<lparr>i_last_seen_at := Some now\<rparr> else i"])
       (simp add: same_signal_def touch_items_def)
qed

lemma touch_items_settled: "settled w \<Longrightarrow> settled (touch_items cid keys now w)"
  by (simp add: touch_items_def)

lemma process_objects_connectors:
  assumes w: "settled w" and run: "process_objects ingest cfg env cid collection remote w = (w', rep)"
  shows "connectors (working (iw_txn w')) = connectors (working (iw_txn w)) \<and> settled w'"
proof -
  have loop: "settled w \<Longrightarrow> process_loop ingest cfg env cid collection n obs (w, rep) = (w1, rep1)
      \<Longrightarrow> connectors (working (iw_txn w1)) = connectors (working (iw_txn w)) \<and> settled w1" for n obs w rep w1 rep1
  proof (induction obs arbitrary: n w rep)
    case (Cons p obs)
    obtain ob b where p: "p = (ob, b)" by fastforce
    obtain w2 rep2 where step: "process_object ingest cfg env cid collection n ob b (w, rep) = (w2, rep2)" by fastforce
    from process_object_step [OF Cons.prems(1) step] Cons show ?case by (auto simp: p step)
  qed simp
  from run obtain obs w1 keys where l: "process_loop ingest cfg env cid collection 0 obs (w, empty_report) = (w1, rep)"
    and w': "w' = touch_items cid keys (sy_now env) w1"
    by (auto simp: process_objects_def split: prod.splits)
  obtain f where "working (iw_txn w') = (working (iw_txn w1))\<lparr>connector_items := map f (connector_items (working (iw_txn w1)))\<rparr>"
    using touch_items_eq w' by blast
  then show ?thesis using loop [OF w l] touch_items_settled w' by simp
qed

text \<open>After a listing has been processed every object of it is recorded.\<close>

lemma process_objects_recorded:
  assumes w: "settled w" and run: "process_objects ingest cfg env cid collection remote w = (w', rep)"
    and dist: "distinct (map ro_key remote)"
  shows "settled w' \<and> (\<forall>ob\<in>set remote. recorded (working (iw_txn w')) cid ob)"
proof -
  let ?known = "known_objects_of (working (iw_txn w)) cid"
  let ?new = "filter (\<lambda>ob. map_of ?known (ro_key ob) = None) remote"
  let ?changed = "filter (\<lambda>ob. map_of ?known (ro_key ob) \<notin> {None, Some (Some (ro_etag ob), Some (ro_size ob))}) remote"
  let ?obs = "map (\<lambda>ob. (ob, True)) ?new @ map (\<lambda>ob. (ob, False)) ?changed"
  obtain w1 rep1 where loop: "process_loop ingest cfg env cid collection 0 ?obs (w, empty_report) = (w1, rep1)" by fastforce
  have w': "w' = touch_items cid (map ro_key (filter (\<lambda>ob. map_of ?known (ro_key ob) = Some (Some (ro_etag ob), Some (ro_size ob))) remote)) (sy_now env) w1"
    using run unfolding process_objects_def diff_objects_eq by (simp only: prod.case loop prod.inject)
  note obs = new_and_changed [OF dist, of ?known]
  note l = process_loop_items [OF w loop obs(2)]
  have "recorded (working (iw_txn w1)) cid ob" if ob: "ob \<in> set remote" for ob
  proof (cases "ob \<in> fst ` set ?obs")
    case True
    then show ?thesis using l by blast
  next
    case False
    then have k: "map_of ?known (ro_key ob) = Some (Some (ro_etag ob), Some (ro_size ob))" using ob unfolding obs(1) by auto
    have "x = ob" if "x \<in> set remote" "ro_key x = ro_key ob" for x
      using that ob dist by (simp add: distinct_map inj_on_def)
    then have "ro_key ob \<notin> ro_key ` fst ` set ?obs" using k unfolding obs(1) by auto
    then show ?thesis using l k by (simp add: recorded_def flip: recorded_known)
  qed
  moreover obtain f where "same_signal f" "working (iw_txn w') = (working (iw_txn w1))\<lparr>connector_items := map f (connector_items (working (iw_txn w1)))\<rparr>"
    using touch_items_eq w' by blast
  ultimately show ?thesis using l w' touch_items_settled recorded_map [of f "working (iw_txn w')" "working (iw_txn w1)" cid] by auto
qed

text \<open>An item the loop does not work on keeps its status and document.\<close>

lemma process_objects_kept:
  assumes w: "settled w" and run: "process_objects ingest cfg env cid collection remote w = (w', rep)"
    and dist: "distinct (map ro_key remote)" and i: "find_item (working (iw_txn w)) cid key = Some i"
    and keep: "\<forall>ob\<in>set remote. ro_key ob = key \<longrightarrow> recorded (working (iw_txn w)) cid ob"
  shows "\<exists>j. find_item (working (iw_txn w')) cid key = Some j \<and> i_status j = i_status i \<and> i_doc_id j = i_doc_id i"
proof -
  let ?known = "known_objects_of (working (iw_txn w)) cid"
  let ?new = "filter (\<lambda>ob. map_of ?known (ro_key ob) = None) remote"
  let ?changed = "filter (\<lambda>ob. map_of ?known (ro_key ob) \<notin> {None, Some (Some (ro_etag ob), Some (ro_size ob))}) remote"
  let ?obs = "map (\<lambda>ob. (ob, True)) ?new @ map (\<lambda>ob. (ob, False)) ?changed"
  obtain w1 rep1 where loop: "process_loop ingest cfg env cid collection 0 ?obs (w, empty_report) = (w1, rep1)" by fastforce
  have w': "w' = touch_items cid (map ro_key (filter (\<lambda>ob. map_of ?known (ro_key ob) = Some (Some (ro_etag ob), Some (ro_size ob))) remote)) (sy_now env) w1"
    using run unfolding process_objects_def diff_objects_eq by (simp only: prod.case loop prod.inject)
  note obs = new_and_changed [OF dist, of ?known]
  have "key \<notin> ro_key ` fst ` set ?obs"
    unfolding obs(1) using keep unfolding recorded_known by auto
  then have "find_item (working (iw_txn w1)) cid key = Some i" using process_loop_items [OF w loop obs(2)] i by simp
  moreover obtain f where "same_signal f" "\<forall>i. i_status (f i) = i_status i \<and> i_doc_id (f i) = i_doc_id i"
    "working (iw_txn w') = (working (iw_txn w1))\<lparr>connector_items := map f (connector_items (working (iw_txn w1)))\<rparr>"
    using touch_items_eq w' by blast
  ultimately show ?thesis by (simp add: tbl_find_map same_signal_def)
qed

lemma process_objects_unlisted:
  assumes "settled w" and "process_objects ingest cfg env cid collection remote w = (w', rep)"
    and "distinct (map ro_key remote)" and "key \<notin> ro_key ` set remote" and "find_item (working (iw_txn w)) cid key = Some i"
  shows "\<exists>j. find_item (working (iw_txn w')) cid key = Some j \<and> i_status j = i_status i \<and> i_doc_id j = i_doc_id i"
  by (rule process_objects_kept [OF assms(1,2,3,5)]) (use assms(4) in auto)

lemma process_objects_unchanged:
  assumes "settled w" and "process_objects ingest cfg env cid collection remote w = (w', rep)"
    and "distinct (map ro_key remote)" and "\<forall>x\<in>set remote. ro_key x = ro_key ob \<longrightarrow> x = ob"
    and "recorded (working (iw_txn w)) cid ob" and "find_item (working (iw_txn w)) cid (ro_key ob) = Some i"
  shows "\<exists>j. find_item (working (iw_txn w')) cid (ro_key ob) = Some j \<and> i_status j = i_status i"
  using process_objects_kept [OF assms(1,2,3,6)] assms(4,5) by blast

lemma process_objects_inv:
  assumes w: "settled w" and run: "process_objects ingest cfg env cid collection remote w = (w', rep)"
    and "\<forall>k. ok (sy_ingest env k)" and "inv (working (iw_txn w)) (iw_blobs w)"
  shows "inv (working (iw_txn w')) (iw_blobs w')"
proof -
  from run obtain obs w1 keys where l: "process_loop ingest cfg env cid collection 0 obs (w, empty_report) = (w1, rep)"
    and w': "w' = touch_items cid keys (sy_now env) w1"
    by (auto simp: process_objects_def split: prod.splits)
  have "inv (working (iw_txn w1)) (iw_blobs w1)" by (rule process_loop_inv [OF w l assms(3,4)])
  then show ?thesis using touch_items_eq [of cid keys "sy_now env" w1] inv_items w' by metis
qed

lemma sync_incremental_inv:
  assumes "settled w" and "\<forall>k. ok (sy_ingest env k)" and "inv (working (iw_txn w)) (iw_blobs w)"
  shows "inv (working (iw_txn (snd (sync_incremental ingest cfg env row w)))) (iw_blobs (snd (sync_incremental ingest cfg env row w)))"
  using assms process_objects_inv [OF assms(1) _ assms(2,3)] inv_connectors
  by (auto simp: sync_incremental_def set_connector_def split: sum.split prod.split)

lemma delete_loop_inv:
  "inv (working (iw_txn w)) (iw_blobs w) \<Longrightarrow> inv (working (iw_txn (delete_loop cid kds w))) (iw_blobs (delete_loop cid kds w))"
proof (induction kds arbitrary: w)
  case (Cons kd kds)
  have "inv (delete_missing cid kd (working (iw_txn w))) (iw_blobs w)"
    using Cons.prems inv_items inv_delete by (auto simp: delete_missing_def mark_deleted_def split: option.split)
  then show ?case using Cons.IH [of "commit_update (delete_missing cid kd) w"] by simp
qed simp

lemma full_sweep_inv:
  assumes "settled w" and "\<forall>k. ok (sy_ingest env k)" and "inv (working (iw_txn w)) (iw_blobs w)"
  shows "inv (working (iw_txn (snd (full_sweep ingest cfg env row w)))) (iw_blobs (snd (full_sweep ingest cfg env row w)))"
  using assms process_objects_inv [OF assms(1) _ assms(2,3)] inv_connectors delete_loop_inv
  by (auto simp: full_sweep_def set_connector_def Let_def split: sum.split prod.split)

end


section \<open>The ingest pipeline as that service\<close>

lemma store_body_frame:
  assumes "store_body cfg env up t = (res, t')" and "side (working t) = side (committed t)"
  shows "side (working t') = side (committed t')" and "side (committed t') = side (committed t)"
    and "is_ok res \<Longrightarrow> committed t' = working t'"
proof -
  let ?t2 = "txn_update (store_tables env (up_tables up)) t"
  let ?e = "embed_with_retry cfg env (embed_inputs (up_prose up) (up_tables up)) ?t2"
  have e: "side (working (snd ?e)) = side (working t)" "committed (snd ?e) = committed t"
    using embed_attempts_only_usage [of ?t2 cfg env "embed_inputs (up_prose up) (up_tables up)" 0 3]
    by (auto simp: only_usage_def embed_with_retry_def store_tables_eq)
  have rules: "side (apply_confirmed_rules cfg doc cs s) = side s" for doc cs s
    using apply_rules_rest [of "rule_similarity_floor cfg" doc cs "confirmed_rules s" s] by (auto simp: apply_confirmed_rules_def)
  show "side (working t') = side (committed t')" "side (committed t') = side (committed t)"
    "is_ok res \<Longrightarrow> committed t' = working t'"
    using assms e rules
    by (auto simp: store_body_def Let_def set_doc_status_def store_tables_eq split: if_splits prod.splits sum.splits option.splits)
qed

lemma record_failure_frame:
  assumes "record_failure digest path e t blobs = (out, w')"
  shows "settled w'" and "side (working (iw_txn w')) = side (committed t)"
  using assms by (auto simp: record_failure_def Let_def settled_def set_doc_status_def split: option.splits)

lemma insert_document_frame:
  assumes w: "committed t = working t" and run: "insert_document cfg env digest filename collection up t blobs = (out, w')"
  shows "settled w' \<and> side (working (iw_txn w')) = side (working t)"
proof (cases "ie_rival env")
  case (Some r)
  then show ?thesis using run w by (auto simp: insert_document_def Let_def settled_def split: option.splits)
next
  case None
  let ?t1 = "txn_update (\<lambda>s. s\<lparr>documents := documents s @ [new_document cfg env digest filename collection up]\<rparr>) t"
  obtain res t2 where b: "store_body cfg env up ?t1 = (res, t2)" by fastforce
  have "side (working ?t1) = side (committed ?t1)" using w by simp
  note f = store_body_frame [OF b this]
  show ?thesis
  proof (cases res)
    case (Inl e)
    then have "record_failure digest (blob_path_for cfg digest filename) e t2 blobs = (out, w')"
      using run None b by (simp add: insert_document_def Let_def)
    from record_failure_frame [OF this] show ?thesis using f w by simp
  next
    case (Inr x)
    then have "w' = \<lparr>iw_txn = t2, iw_blobs = blobs\<rparr>" using run None b by (simp add: insert_document_def Let_def)
    then show ?thesis using f Inr w by (simp add: settled_def)
  qed
qed

lemma ingest_bytes_cases:
  assumes run: "ingest_bytes cfg env data filename collection w = (out, w')"
  shows "iw_txn w' = iw_txn w
     \<or> (\<exists>up blobs. insert_document cfg env (ie_sha256 env data) filename collection up (iw_txn w) blobs = (out, w'))"
proof (cases "find_document_by_sha (working (iw_txn w)) (ie_sha256 env data)")
  case (Some d)
  then show ?thesis using run by (simp add: ingest_bytes_def Let_def)
next
  case unknown: None
  show ?thesis
  proof (cases "sniff_mime data \<noteq> None \<and> sniff_mime data \<noteq> Some (guess_mime filename)")
    case True
    then show ?thesis using run unknown by (auto simp: ingest_bytes_def Let_def)
  next
    case sniff: False
    show ?thesis
    proof (cases "parse_upload cfg (ie_parse env) data (guess_mime filename) filename")
      case (Inl e)
      then have "iw_txn w' = iw_txn w" using run unknown sniff
        by (cases e) (simp_all only: ingest_bytes_def Let_def option.case if_False sum.case exn.case prod.inject, auto)
      then show ?thesis by blast
    next
      case (Inr up)
      show ?thesis
      proof (cases "(up_prose up = [] \<and> up_tables up = []) \<or> max_chunks_per_document cfg < int (length (up_prose up))")
        case True
        then show ?thesis using run unknown sniff Inr
          by (simp only: ingest_bytes_def Let_def option.case if_False sum.case) (auto split: if_splits)
      next
        case False
        then show ?thesis using run unknown sniff Inr
          by (simp only: ingest_bytes_def Let_def option.case if_False sum.case) auto
      qed
    qed
  qed
qed

lemma ingest_bytes_frame:
  assumes "settled w"
  shows "settled (snd (ingest_bytes cfg env data filename collection w))
     \<and> side (working (iw_txn (snd (ingest_bytes cfg env data filename collection w)))) = side (working (iw_txn w))"
proof -
  obtain out w' where run: "ingest_bytes cfg env data filename collection w = (out, w')" by fastforce
  have t: "committed (iw_txn w) = working (iw_txn w)" using assms by (simp add: settled_def)
  from ingest_bytes_cases [OF run] show ?thesis
  proof
    assume "iw_txn w' = iw_txn w"
    then show ?thesis using run assms by (simp add: settled_def)
  next
    assume "\<exists>up blobs. insert_document cfg env (ie_sha256 env data) filename collection up (iw_txn w) blobs = (out, w')"
    then show ?thesis using insert_document_frame [OF t] run by auto
  qed
qed

lemma image_filter_neq: "f ` {x \<in> A. f x \<noteq> i} = f ` A - {i}"
  by blast

lemma library_ok_delete:
  assumes "library_ok cfg sha s b"
  shows "library_ok cfg sha (delete_document i s) b"
proof -
  have r: "rows_ok s" and b: "blobs_ok cfg sha s b" using assms by (simp_all add: library_ok_def)
  let ?s = "delete_document i s"
  have d: "d_id ` set (documents ?s) = d_id ` set (documents s) - {i}"
    by (simp add: delete_document_def tbl_del_def image_filter_neq)
  have sub: "set (documents ?s) \<subseteq> set (documents s)" by (auto simp: delete_document_def tbl_del_def)
  have "rows_ok ?s"
    unfolding rows_ok_def
  proof (intro conjI)
    show "distinct (map d_id (documents ?s))" "distinct (map d_sha256 (documents ?s))"
      using r by (simp_all add: rows_ok_def delete_document_def tbl_del_def distinct_map_filter)
    show "\<forall>d\<in>set (documents ?s). d_status d \<noteq> Processing" using r sub by (auto simp: rows_ok_def)
    show "c_doc_id ` set (chunks ?s) \<subseteq> d_id ` set (documents ?s)"
      unfolding d using r by (auto simp: rows_ok_def delete_document_def)
    show "t_doc_id ` set (tables ?s) \<subseteq> d_id ` set (documents ?s)"
      unfolding d using r by (auto simp: rows_ok_def delete_document_def)
    show "a_doc_id ` set (document_acl ?s) \<subseteq> d_id ` set (documents ?s)"
      unfolding d using r by (auto simp: rows_ok_def delete_document_def)
  qed
  moreover have "blobs_ok cfg sha ?s b" using b sub unfolding blobs_ok_def by blast
  ultimately show ?thesis by (simp add: library_ok_def)
qed

text \<open>What a sync relies on: the hash, no concurrent upload, parsers that raise no HTTP error.\<close>

definition polite :: "settings \<Rightarrow> (string \<Rightarrow> string) \<Rightarrow> ingest_env \<Rightarrow> bool" where
  "polite cfg sha e \<longleftrightarrow> ie_sha256 e = sha \<and> (\<forall>x. length (sha x) = 64) \<and> ie_rival e = None
     \<and> (\<forall>data filename c m. parse_upload cfg (ie_parse e) data (guess_mime filename) filename \<noteq> Inl (HTTPException c m))"

lemma ingest_library_settled:
  assumes ok: "polite cfg sha e" and w: "settled w" and inv: "library_ok cfg sha (working (iw_txn w)) (iw_blobs w)"
  shows "library_ok cfg sha (working (iw_txn (snd (ingest_fresh cfg e data filename collection w))))
     (iw_blobs (snd (ingest_fresh cfg e data filename collection w)))"
proof -
  let ?e = "e\<lparr>ie_doc_id := fresh_doc_id (working (iw_txn w))\<rparr>"
  obtain out w' where run: "ingest_bytes cfg ?e data filename collection w = (out, w')" by fastforce
  have settled: "committed (iw_txn w') = working (iw_txn w')"
    using ingest_bytes_frame [OF w, of cfg ?e data filename collection] run by (simp add: settled_def)
  have "iw_txn w = begin_txn (working (iw_txn w))" using w by (cases "iw_txn w") (simp add: settled_def begin_txn_def)
  then have "library_ok cfg sha (committed (iw_txn w')) (iw_blobs w')"
    using ingest_library [of cfg ?e "working (iw_txn w)" w data filename collection] ok inv run fresh_doc_id_fresh
    by (simp add: polite_def)
  then show ?thesis using run settled by (simp add: ingest_fresh_def)
qed

interpretation sv: ingest_service "ingest_fresh cfg" "polite cfg sha" "library_ok cfg sha" for cfg sha
proof (unfold_locales, goal_cases)
  case 1 then show ?case using ingest_bytes_frame by (simp add: ingest_fresh_def)
next
  case 2 then show ?case using ingest_bytes_frame by (simp add: ingest_fresh_def)
next
  case 3 then show ?case by (rule ingest_library_settled)
next
  case 4 then show ?case by (simp add: library_ok_def rows_ok_def blobs_ok_def)
next
  case 5 then show ?case by (simp add: library_ok_def rows_ok_def blobs_ok_def)
next
  case 6 then show ?case by (rule library_ok_delete)
qed


section \<open>Deletions\<close>

lemma delete_missing_items:
  "\<exists>f. same_signal f \<and> (\<forall>i. i_status (f i) = (if item_key i = (cid, fst kd) then Deleted else i_status i))
     \<and> connector_items (delete_missing cid kd s) = map f (connector_items s)"
proof -
  let ?mark = "\<lambda>i. if item_key i = (cid, fst kd) then i\<lparr>i_status := Deleted, i_doc_id := None\<rparr> else i"
  let ?null = "\<lambda>i. case snd kd of None \<Rightarrow> i | Some d \<Rightarrow>
      if find_document s d = None then i else if i_doc_id i = Some d then i\<lparr>i_doc_id := None\<rparr> else i"
  have "connector_items (delete_missing cid kd s) = map (?mark \<circ> ?null) (connector_items s)"
    by (auto simp: delete_missing_def mark_deleted_def delete_document_def split: option.split)
  moreover have "same_signal (?mark \<circ> ?null)" by (auto simp: same_signal_def split: option.split)
  moreover have "\<forall>i. i_status ((?mark \<circ> ?null) i) = (if item_key i = (cid, fst kd) then Deleted else i_status i)"
    by (auto split: option.split)
  ultimately show ?thesis by blast
qed

lemma delete_loop_items:
  "\<exists>f. same_signal f
     \<and> (\<forall>i. i_status (f i) = (if i_connector_id i = cid \<and> i_external_id i \<in> fst ` set kds then Deleted else i_status i))
     \<and> connector_items (working (iw_txn (delete_loop cid kds w))) = map f (connector_items (working (iw_txn w)))"
proof (induction kds arbitrary: w)
  case Nil
  then show ?case by (intro exI [of _ "\<lambda>i. i"]) (simp add: same_signal_def)
next
  case (Cons kd kds)
  let ?w = "commit_update (delete_missing cid kd) w"
  obtain f where f: "same_signal f" "\<forall>i. i_status (f i) = (if item_key i = (cid, fst kd) then Deleted else i_status i)"
    "connector_items (delete_missing cid kd (working (iw_txn w))) = map f (connector_items (working (iw_txn w)))"
    using delete_missing_items by blast
  obtain g where g: "same_signal g"
    "\<forall>i. i_status (g i) = (if i_connector_id i = cid \<and> i_external_id i \<in> fst ` set kds then Deleted else i_status i)"
    "connector_items (working (iw_txn (delete_loop cid kds ?w))) = map g (connector_items (working (iw_txn ?w)))"
    using Cons.IH by blast
  have "same_signal (g \<circ> f)" using f(1) g(1) by (simp add: same_signal_def)
  moreover have "i_status ((g \<circ> f) i) = (if i_connector_id i = cid \<and> i_external_id i \<in> fst ` set (kd # kds) then Deleted else i_status i)" for i
    using f(1,2) g(2) by (auto simp: same_signal_def)
  moreover have "connector_items (working (iw_txn (delete_loop cid (kd # kds) w))) = map (g \<circ> f) (connector_items (working (iw_txn w)))"
    using f(3) g(3) by simp
  ultimately show ?case by blast
qed

lemma delete_loop_rest:
  "iw_blobs (delete_loop cid kds w) = iw_blobs w" "settled w \<Longrightarrow> settled (delete_loop cid kds w)"
  "find_document (working (iw_txn (delete_loop cid kds w))) d =
     (if Some d \<in> snd ` set kds then None else find_document (working (iw_txn w)) d)"
proof -
  show "iw_blobs (delete_loop cid kds w) = iw_blobs w" by (induction kds arbitrary: w) simp_all
  show "settled w \<Longrightarrow> settled (delete_loop cid kds w)" by (induction kds arbitrary: w) simp_all
  show "find_document (working (iw_txn (delete_loop cid kds w))) d =
     (if Some d \<in> snd ` set kds then None else find_document (working (iw_txn w)) d)"
  proof (induction kds arbitrary: w)
    case (Cons kd kds)
    have "find_document (delete_missing cid kd s) d = (if snd kd = Some d then None else find_document s d)" for s
      by (auto simp: delete_missing_def mark_deleted_def find_document_delete split: option.split)
    with Cons.IH [of "commit_update (delete_missing cid kd) w"] show ?case by auto
  qed simp
qed

lemma missing_items_keys:
  "fst ` set (missing_items s cid keys)
     = {i_external_id i |i. i \<in> set (connector_items s) \<and> i_connector_id i = cid \<and> i_external_id i \<notin> keys \<and> i_status i \<noteq> Deleted}"
  by (force simp: missing_items_def find_deleted_def items_of_def Let_def)

lemma missing_items_listed: "key \<in> keys \<Longrightarrow> key \<notin> fst ` set (missing_items s cid keys)"
  unfolding missing_items_keys by blast

lemma missing_items_none:
  "missing_items s cid keys = [] \<longleftrightarrow>
     (\<forall>i\<in>set (connector_items s). i_connector_id i = cid \<longrightarrow> i_external_id i \<notin> keys \<longrightarrow> i_status i = Deleted)"
proof -
  have "missing_items s cid keys = [] \<longleftrightarrow> fst ` set (missing_items s cid keys) = {}" by simp
  then show ?thesis unfolding missing_items_keys by blast
qed

lemma missing_items_doc:
  assumes "find_item s cid key = Some i" and "key \<notin> keys" and "i_status i \<noteq> Deleted"
  shows "(key, i_doc_id i) \<in> set (missing_items s cid keys)"
proof -
  have i: "i \<in> set (connector_items s)" "i_connector_id i = cid" "i_external_id i = key" using tbl_find_Some [OF assms(1)] by auto
  have "map_of (map (\<lambda>i. (i_external_id i, i_doc_id i)) (filter (\<lambda>i. i_connector_id i = cid) is)) key
      = map_option i_doc_id (tbl_find item_key (cid, key) is)" for "is"
    by (induction "is") auto
  then have "map_of (map (\<lambda>i. (i_external_id i, i_doc_id i)) (items_of s cid)) key = Some (i_doc_id i)"
    using assms(1) by (simp add: items_of_def)
  moreover have "key \<in> set (find_deleted keys (map (\<lambda>i. (i_external_id i, i_status i)) (items_of s cid)))"
    using i assms by (force simp: find_deleted_def items_of_def)
  ultimately show ?thesis by (force simp: missing_items_def Let_def)
qed

section \<open>One sweep\<close>

text \<open>What a sweep that returns did, step by step.\<close>

lemma full_sweep_run:
  assumes "full_sweep ingest cfg env row w = (Inr rep, w1)"
  obtains remote wp rp where "list_changed (sy_bucket env) None = Inr remote" "cn_type row = ''s3''" "bk_open (sy_bucket env) = None"
    "process_objects ingest cfg env (cn_id row) (cn_collection row) remote w = (wp, rp)"
    "rep = rp\<lparr>rp_deleted := length (missing_items (working (iw_txn wp)) (cn_id row) (ro_key ` set remote))\<rparr>"
    "w1 = commit_update (set_connector (cn_id row)
            (\<lambda>c. c\<lparr>cn_last_sync_at := Some (sy_end env), cn_last_full_sweep_at := Some (sy_end env)\<rparr>))
          (delete_loop (cn_id row) (missing_items (working (iw_txn wp)) (cn_id row) (ro_key ` set remote)) wp)"
  using assms by (auto simp: full_sweep_def build_connector_def Let_def split: if_splits option.splits sum.splits prod.splits)

lemma full_sweep_connected:
  assumes "full_sweep ingest cfg env row w = (Inr rep, w1)"
  shows "cn_type row = ''s3''" and "bk_open (sy_bucket env) = None"
  using full_sweep_run [OF assms] by auto

lemma set_connector_simps [simp]:
  "connector_items (set_connector cid f s) = connector_items s" "documents (set_connector cid f s) = documents s"
  "chunks (set_connector cid f s) = chunks s" "document_acl (set_connector cid f s) = document_acl s"
  by (simp_all add: set_connector_def)

lemma full_sweep_recorded:
  assumes w: "settled w" and run: "full_sweep (ingest_fresh cfg) cfg env row w = (Inr rep, w1)"
    and remote: "list_changed (sy_bucket env) None = Inr remote" and dist: "distinct (map ro_key remote)"
  shows "settled w1 \<and> (\<forall>ob\<in>set remote. recorded (working (iw_txn w1)) (cn_id row) ob)
     \<and> missing_items (working (iw_txn w1)) (cn_id row) (ro_key ` set remote) = []"
proof -
  let ?cid = "cn_id row" let ?keys = "ro_key ` set remote"
  from full_sweep_run [OF run] remote obtain wp rp where
    p: "process_objects (ingest_fresh cfg) cfg env ?cid (cn_collection row) remote w = (wp, rp)"
    and w1: "w1 = commit_update (set_connector ?cid
            (\<lambda>c. c\<lparr>cn_last_sync_at := Some (sy_end env), cn_last_full_sweep_at := Some (sy_end env)\<rparr>))
          (delete_loop ?cid (missing_items (working (iw_txn wp)) ?cid ?keys) wp)"
    by (metis sum.inject(2))
  let ?kds = "missing_items (working (iw_txn wp)) ?cid ?keys"
  note rec = sv.process_objects_recorded [OF w p dist]
  obtain f where f: "same_signal f"
    "\<forall>i. i_status (f i) = (if i_connector_id i = ?cid \<and> i_external_id i \<in> fst ` set ?kds then Deleted else i_status i)"
    "connector_items (working (iw_txn (delete_loop ?cid ?kds wp))) = map f (connector_items (working (iw_txn wp)))"
    using delete_loop_items by blast
  have items: "connector_items (working (iw_txn w1)) = map f (connector_items (working (iw_txn wp)))" using f(3) w1 by simp
  have "i_status (f i) = Deleted"
    if i: "i \<in> set (connector_items (working (iw_txn wp)))" "i_connector_id (f i) = ?cid" "i_external_id (f i) \<notin> ?keys" for i
  proof (cases "i_status i = Deleted")
    case True
    then show ?thesis using f(2) by simp
  next
    case False
    have "i_connector_id i = ?cid" "i_external_id i \<notin> ?keys" using i f(1) by (simp_all add: same_signal_def)
    then have "i_external_id i \<in> fst ` set ?kds" using i(1) False unfolding missing_items_keys by blast
    then show ?thesis using f(2) \<open>i_connector_id i = ?cid\<close> by simp
  qed
  then have "missing_items (working (iw_txn w1)) ?cid ?keys = []"
    unfolding missing_items_none items by simp
  then show ?thesis using rec recorded_map [OF f(1) items] w1 by simp
qed

text \<open>
  C8. Convergence: a full sweep records every object of its listing, and a second sweep over the
  same listing, however the providers and parsers behave then, finds nothing to do: it reports
  zero in every column, and leaves the documents, chunks, grants and blobs of the library as
  they are.
\<close>

theorem sync_converges:
  assumes "settled w" and "full_sweep (ingest_fresh cfg) cfg env row w = (Inr rep, w1)"
    and "list_changed (sy_bucket env) None = Inr remote" and "distinct (map ro_key remote)"
    and "sy_bucket env' = sy_bucket env" and "cn_id row' = cn_id row" and "cn_type row' = cn_type row"
  shows "(\<forall>ob\<in>set remote. recorded (committed (iw_txn w1)) (cn_id row) ob)
     \<and> (\<exists>w2. full_sweep (ingest_fresh cfg) cfg env' row' w1 = (Inr empty_report, w2)
          \<and> documents (committed (iw_txn w2)) = documents (committed (iw_txn w1))
          \<and> chunks (committed (iw_txn w2)) = chunks (committed (iw_txn w1))
          \<and> document_acl (committed (iw_txn w2)) = document_acl (committed (iw_txn w1)) \<and> iw_blobs w2 = iw_blobs w1)"
proof -
  let ?cid = "cn_id row" let ?keys = "ro_key ` set remote"
  note r = full_sweep_recorded [OF assms(1-4)]
  have st: "committed (iw_txn w1) = working (iw_txn w1)" using r by (simp add: settled_def)
  have "filter (\<lambda>ob. map_of (known_objects_of (working (iw_txn w1)) ?cid) (ro_key ob) = None) remote = []"
    "filter (\<lambda>ob. map_of (known_objects_of (working (iw_txn w1)) ?cid) (ro_key ob)
        \<notin> {None, Some (Some (ro_etag ob), Some (ro_size ob))}) remote = []"
    using r recorded_known by (auto simp: filter_empty_conv)
  then have p: "process_objects (ingest_fresh cfg) cfg env' ?cid coll remote w1
      = (touch_items ?cid (map ro_key (filter (\<lambda>ob. map_of (known_objects_of (working (iw_txn w1)) ?cid) (ro_key ob)
          = Some (Some (ro_etag ob), Some (ro_size ob))) remote)) (sy_now env') w1, empty_report)" for coll
    unfolding process_objects_def diff_objects_eq by (simp only: prod.case list.map append_Nil process_loop.simps)
  let ?w = "touch_items ?cid (map ro_key (filter (\<lambda>ob. map_of (known_objects_of (working (iw_txn w1)) ?cid) (ro_key ob)
          = Some (Some (ro_etag ob), Some (ro_size ob))) remote)) (sy_now env') w1"
  obtain f where f: "same_signal f" "\<forall>i. i_status (f i) = i_status i \<and> i_doc_id (f i) = i_doc_id i"
    "working (iw_txn ?w) = (working (iw_txn w1))\<lparr>connector_items := map f (connector_items (working (iw_txn w1)))\<rparr>"
    "iw_blobs ?w = iw_blobs w1" using sv.touch_items_eq by blast
  have m: "missing_items (working (iw_txn ?w)) ?cid ?keys = []"
    using r f(1,2) unfolding missing_items_none f(3) by (simp add: same_signal_def)
  note conn = full_sweep_connected [OF assms(2)]
  have "full_sweep (ingest_fresh cfg) cfg env' row' w1 = (Inr empty_report,
      commit_update (set_connector ?cid (\<lambda>c. c\<lparr>cn_last_sync_at := Some (sy_end env'), cn_last_full_sweep_at := Some (sy_end env')\<rparr>)) ?w)"
    using conn assms(3,5,6,7) p m by (simp add: full_sweep_def build_connector_def empty_report_def)
  then show ?thesis using r st f(3,4) by simp
qed


lemma full_sweep_returns:
  assumes "cn_type row = ''s3''" and "bk_open (sy_bucket env) = None" and "list_changed (sy_bucket env) None = Inr remote"
  shows "\<exists>rep w1. full_sweep ingest cfg env row w = (Inr rep, w1)"
  using assms by (auto simp: full_sweep_def build_connector_def Let_def split: prod.split)

definition sample_object :: remote_object where
  "sample_object = \<lparr>ro_key = ''k/a.txt'', ro_etag = ''e1'', ro_size = 5, ro_last_modified = 0\<rparr>"

definition sample_bucket :: bucket where
  "sample_bucket = \<lparr>bk_open = None, bk_list = Inr [sample_object], bk_get = (\<lambda>_. Inr ''ab cd'')\<rparr>"

definition sample_connector :: connector where
  "sample_connector = \<lparr>cn_id = 3, cn_type = ''s3'', cn_name = ''c'', cn_collection = ''default'', cn_enabled = True,
     cn_last_sync_at = None, cn_last_full_sweep_at = None, cn_last_error = None\<rparr>"

definition sample_sync_env :: "ingest_env sync_env" where
  "sample_sync_env = \<lparr>sy_bucket = sample_bucket, sy_ingest = (\<lambda>_. sample_ingest_env), sy_now = 1, sy_end = 2\<rparr>"

lemma sample_listing: "list_changed sample_bucket None = Inr [sample_object]" by code_simp

lemma sample_sweep: "\<exists>rep w1. full_sweep ingest cfg sample_sync_env sample_connector w = (Inr rep, w1)"
  by (rule full_sweep_returns) (simp_all add: sample_connector_def sample_sync_env_def sample_bucket_def list_changed_def)

lemma sample_settled: "settled sample_world"
  by (simp add: settled_def sample_world_def)

theorem sync_converges_witness:
  "\<exists>rep w1 w2. full_sweep (ingest_fresh default_settings) default_settings sample_sync_env sample_connector sample_world = (Inr rep, w1)
     \<and> recorded (committed (iw_txn w1)) 3 sample_object
     \<and> full_sweep (ingest_fresh default_settings) default_settings sample_sync_env sample_connector w1 = (Inr empty_report, w2)"
proof -
  obtain rep w1 where run: "full_sweep (ingest_fresh default_settings) default_settings sample_sync_env sample_connector sample_world = (Inr rep, w1)"
    using sample_sweep by blast
  have l: "list_changed (sy_bucket sample_sync_env) None = Inr [sample_object]" using sample_listing by (simp add: sample_sync_env_def)
  from sync_converges [OF sample_settled run l _ refl refl refl] have
    "recorded (committed (iw_txn w1)) 3 sample_object"
    "\<exists>w2. full_sweep (ingest_fresh default_settings) default_settings sample_sync_env sample_connector w1 = (Inr empty_report, w2)"
    by (auto simp: sample_connector_def)
  with run show ?thesis by blast
qed


definition sample_item :: "item_status \<Rightarrow> string \<Rightarrow> uuid option \<Rightarrow> connector_item" where
  "sample_item st key doc = \<lparr>i_connector_id = 3, i_external_id = key, i_etag = Some ''e1'', i_size = Some 5, i_last_modified = Some 0,
     i_doc_id = doc, i_last_seen_at = None, i_status = st, i_error = None\<rparr>"

definition sample_library :: "connector_item \<Rightarrow> ingest_world" where
  "sample_library it = \<lparr>iw_txn = begin_txn (empty_db\<lparr>documents := [sample_document 4], connector_items := [it]\<rparr>), iw_blobs = (\<lambda>_. None)\<rparr>"


lemma sweep_keeps_status:
  assumes "settled w" and "list_changed (sy_bucket env) None = Inr remote" and "distinct (map ro_key remote)"
    and "ob \<in> set remote" and "recorded (working (iw_txn w)) (cn_id row) ob"
    and "find_item (working (iw_txn w)) (cn_id row) (ro_key ob) = Some i"
  shows "case full_sweep (ingest_fresh cfg) cfg env row w of
       (Inl e, w1) \<Rightarrow> w1 = w
     | (Inr rep, w1) \<Rightarrow> \<exists>j. find_item (committed (iw_txn w1)) (cn_id row) (ro_key ob) = Some j \<and> i_status j = i_status i"
proof -
  let ?cid = "cn_id row" let ?keys = "ro_key ` set remote"
  have same: "\<forall>x\<in>set remote. ro_key x = ro_key ob \<longrightarrow> x = ob"
    using assms(3,4) by (auto simp: distinct_map inj_on_def)
  show ?thesis
  proof (cases "full_sweep (ingest_fresh cfg) cfg env row w")
    case (Pair out w1)
    show ?thesis
    proof (cases out)
      case (Inl e)
      then show ?thesis using Pair
        by (auto simp: full_sweep_def Let_def split: sum.splits prod.splits)
    next
      case (Inr rep)
      from full_sweep_run [OF Pair [unfolded Inr]] assms(2) obtain wp rp where
        p: "process_objects (ingest_fresh cfg) cfg env ?cid (cn_collection row) remote w = (wp, rp)"
        and w1: "w1 = commit_update (set_connector ?cid
                (\<lambda>c. c\<lparr>cn_last_sync_at := Some (sy_end env), cn_last_full_sweep_at := Some (sy_end env)\<rparr>))
              (delete_loop ?cid (missing_items (working (iw_txn wp)) ?cid ?keys) wp)"
        by (metis sum.inject(2))
      let ?kds = "missing_items (working (iw_txn wp)) ?cid ?keys"
      obtain j where j: "find_item (working (iw_txn wp)) ?cid (ro_key ob) = Some j" "i_status j = i_status i"
        using sv.process_objects_unchanged [OF assms(1) p assms(3) same assms(5,6)] by auto
      obtain f where f: "same_signal f"
        "\<forall>i. i_status (f i) = (if i_connector_id i = ?cid \<and> i_external_id i \<in> fst ` set ?kds then Deleted else i_status i)"
        "connector_items (working (iw_txn (delete_loop ?cid ?kds wp))) = map f (connector_items (working (iw_txn wp)))"
        using delete_loop_items by blast
      have "i_external_id j = ro_key ob" using tbl_find_Some [OF j(1)] by auto
      then have "i_external_id j \<in> ?keys" using assms(4) by simp
      then have "i_external_id j \<notin> fst ` set ?kds" by (rule missing_items_listed)
      then have "i_status (f j) = i_status i" using f(2) j(2) by simp
      moreover have "find_item (committed (iw_txn w1)) ?cid (ro_key ob) = Some (f j)"
        using w1 f(1,3) j(1) by (simp add: tbl_find_map same_signal_def)
      ultimately show ?thesis using Pair Inr by simp
    qed
  qed
qed

lemma poll_keeps_status:
  assumes "settled w" and "list_changed (sy_bucket env) None = Inr remote" and "distinct (map ro_key remote)"
    and "ob \<in> set remote" and "recorded (working (iw_txn w)) (cn_id row) ob"
    and "find_item (working (iw_txn w)) (cn_id row) (ro_key ob) = Some i"
  shows "case sync_incremental (ingest_fresh cfg) cfg env row w of
       (Inl e, w1) \<Rightarrow> w1 = w
     | (Inr rep, w1) \<Rightarrow> \<exists>j. find_item (committed (iw_txn w1)) (cn_id row) (ro_key ob) = Some j \<and> i_status j = i_status i"
proof -
  let ?cid = "cn_id row"
  have same: "\<forall>x\<in>set remote. ro_key x = ro_key ob \<longrightarrow> x = ob"
    using assms(3,4) by (auto simp: distinct_map inj_on_def)
  show ?thesis
  proof (cases "sync_incremental (ingest_fresh cfg) cfg env row w")
    case (Pair out w1)
    show ?thesis
    proof (cases out)
      case (Inl e)
      then show ?thesis using Pair
        by (auto simp: sync_incremental_def split: sum.splits prod.splits)
    next
      case (Inr rep)
      then obtain since wp rp rem where p: "process_objects (ingest_fresh cfg) cfg env ?cid (cn_collection row) rem w = (wp, rp)"
        and l: "list_changed (sy_bucket env) since = Inr rem"
        and w1: "w1 = commit_update (set_connector ?cid (\<lambda>c. c\<lparr>cn_last_sync_at := Some (sy_end env)\<rparr>)) wp"
        using Pair by (auto simp: sync_incremental_def build_connector_def split: if_splits option.splits sum.splits prod.splits)
      have "\<exists>P. rem = filter P remote"
        using l assms(2) by (auto simp: list_changed_def Let_def split: sum.splits option.splits intro: exI [of _ "\<lambda>_. True"])
      then have "distinct (map ro_key rem)" "\<forall>x\<in>set rem. ro_key x = ro_key ob \<longrightarrow> x = ob"
        using assms(3) same by (auto simp: distinct_map_filter)
      from sv.process_objects_unchanged [OF assms(1) p this assms(5,6)] show ?thesis using Pair Inr w1 by simp
    qed
  qed
qed

text \<open>
  What a sync never looks at again: an object whose item has the listed etag and size keeps the
  status of its item through a full sweep and through an incremental poll. So a failed download
  or parse is never retried, and an object that was deleted and comes back unchanged stays
  deleted.
\<close>

lemma unchanged_item_keeps_status:
  assumes "settled w" and "list_changed (sy_bucket env) None = Inr remote" and "distinct (map ro_key remote)"
    and "ob \<in> set remote" and "recorded (working (iw_txn w)) (cn_id row) ob"
    and "find_item (working (iw_txn w)) (cn_id row) (ro_key ob) = Some i"
  shows "(case full_sweep (ingest_fresh cfg) cfg env row w of
       (Inl e, w1) \<Rightarrow> w1 = w
     | (Inr rep, w1) \<Rightarrow> \<exists>j. find_item (committed (iw_txn w1)) (cn_id row) (ro_key ob) = Some j \<and> i_status j = i_status i)
   \<and> (case sync_incremental (ingest_fresh cfg) cfg env row w of
       (Inl e, w1) \<Rightarrow> w1 = w
     | (Inr rep, w1) \<Rightarrow> \<exists>j. find_item (committed (iw_txn w1)) (cn_id row) (ro_key ob) = Some j \<and> i_status j = i_status i)"
  by (rule conjI [OF sweep_keeps_status [OF assms] poll_keeps_status [OF assms]])

definition errored_world :: ingest_world where
  "errored_world = sample_library (sample_item Errored ''k/a.txt'' None)"

lemma unchanged_item_keeps_status_witness:
  "\<exists>rep w1. full_sweep (ingest_fresh default_settings) default_settings sample_sync_env sample_connector errored_world = (Inr rep, w1)
     \<and> (\<exists>j. find_item (committed (iw_txn w1)) 3 ''k/a.txt'' = Some j \<and> i_status j = Errored)"
proof -
  obtain rep w1 where run: "full_sweep (ingest_fresh default_settings) default_settings sample_sync_env sample_connector errored_world = (Inr rep, w1)"
    using sample_sweep by blast
  have l: "list_changed (sy_bucket sample_sync_env) None = Inr [sample_object]" using sample_listing by (simp add: sample_sync_env_def)
  have "\<exists>j. find_item (committed (iw_txn w1)) 3 ''k/a.txt'' = Some j \<and> i_status j = Errored"
    using unchanged_item_keeps_status [where w = errored_world and env = sample_sync_env and row = sample_connector and cfg = default_settings
        and ob = sample_object and i = "sample_item Errored ''k/a.txt'' None", OF _ l] run
    by (simp add: settled_def errored_world_def sample_library_def sample_item_def sample_connector_def sample_object_def recorded_def)
  with run show ?thesis by blast
qed

section \<open>Syncs keep the library consistent\<close>

text \<open>
  Both kinds of sync keep the library invariant (unique keys and hashes, no half-written
  document, no dangling chunk, table or grant, every document's file in the blob store), from
  any settled world, whatever the listing, the downloads and the providers do.
\<close>

lemma sync_keeps_library:
  assumes "settled w" and "\<forall>k. polite cfg sha (sy_ingest env k)" and "library_ok cfg sha (working (iw_txn w)) (iw_blobs w)"
  shows "library_ok cfg sha (working (iw_txn (snd (full_sweep (ingest_fresh cfg) cfg env row w))))
       (iw_blobs (snd (full_sweep (ingest_fresh cfg) cfg env row w)))
     \<and> library_ok cfg sha (working (iw_txn (snd (sync_incremental (ingest_fresh cfg) cfg env row w))))
       (iw_blobs (snd (sync_incremental (ingest_fresh cfg) cfg env row w)))"
  using sv.full_sweep_inv [OF assms] sv.sync_incremental_inv [OF assms] by blast

lemma map_sum_Inl_iff: "map_sum id f x = Inl e \<longleftrightarrow> x = Inl e"
  by (cases x) auto

lemma sample_polite: "polite default_settings (ie_sha256 sample_ingest_env) sample_ingest_env"
proof -
  have ocr: "ocr_pages default_settings sample_parse_env data mime n \<noteq> Inl (HTTPException c m)" for data mime n c m
    by (simp add: ocr_pages_def ocr_key_def)
  have pages: "parse_to_pages sample_parse_env data mime \<noteq> Inl (HTTPException c m)" for data mime c m
    by (simp add: parse_to_pages_def sample_parse_env_def)
  have str: "parse_structured sample_parse_env data mime \<noteq> Inl (HTTPException c m)" for data mime c m
    by (simp add: parse_structured_def sample_parse_env_def)
  have dl: "try_docling_parse sample_parse_env data mime filename = None" for data mime filename
    by (simp add: try_docling_parse_def sample_parse_env_def)
  have "parse_upload default_settings sample_parse_env data mime filename \<noteq> Inl (HTTPException c m)" for data mime filename c m
    using ocr [of data mime "pdf_page_count sample_parse_env data mime" c m] pages [of data mime c m] str [of data mime c m]
    by (auto simp: parse_upload_def dl map_sum_Inl_iff split: sum.split)
  then show ?thesis by (auto simp: polite_def sample_ingest_env_def min_def)
qed

lemma sync_keeps_library_witness:
  "library_ok default_settings (ie_sha256 sample_ingest_env)
     (working (iw_txn (snd (full_sweep (ingest_fresh default_settings) default_settings sample_sync_env sample_connector sample_world))))
     (iw_blobs (snd (full_sweep (ingest_fresh default_settings) default_settings sample_sync_env sample_connector sample_world)))"
proof -
  have "library_ok default_settings (ie_sha256 sample_ingest_env) (working (iw_txn sample_world)) (iw_blobs sample_world)"
    by (simp add: library_ok_def rows_ok_def blobs_ok_def sample_world_def empty_db_def)
  then show ?thesis
    using sync_keeps_library [OF sample_settled, of default_settings "ie_sha256 sample_ingest_env" sample_sync_env sample_connector] sample_polite
    by (simp add: sample_sync_env_def)
qed

end
