(* ===== verification/Auth_Model.thy ===== *)
theory Auth_Model imports DataModel Settings_Model begin

text \<open>
  \<open>prorag/auth.py\<close> and \<open>prorag/auth_routes.py\<close>: session cookies, bearer keys, the guards, local
  login and logout and the OIDC callback. SHA-256 (\<open>au_hash\<close>), argon2 (\<open>au_verify\<close>), the random
  tokens and the OIDC client and token libraries are parameters; a request is the record
  of what the code reads from it.
\<close>

section \<open>Requests and credentials\<close>

definition SESSION_COOKIE_NAME :: string where
  "SESSION_COOKIE_NAME = ''prorag_session''"

definition OIDC_STATE_COOKIE :: string where
  "OIDC_STATE_COOKIE = ''prorag_oidc_state''"

record request =
  rq_cookies :: "(string \<times> string) list"
  rq_authorization :: string
  rq_collection :: "string option"
  rq_base_url :: string

record auth_env =
  au_hash :: "string \<Rightarrow> string"
  au_verify :: "string \<Rightarrow> string \<Rightarrow> bool outcome"
  au_token :: string
  au_now :: datetime

text \<open>A corrupt hash or a mismatch is \<open>False\<close>, any other exception propagates.\<close>

definition verify_password :: "auth_env \<Rightarrow> string \<Rightarrow> string \<Rightarrow> bool outcome" where
  "verify_password env password_hash raw =
     (case au_verify env password_hash raw of
        Inr b \<Rightarrow> Inr b
      | Inl e \<Rightarrow>
          (case e of
             PyError c m \<Rightarrow> if c \<in> {''VerificationError'', ''VerifyMismatchError'', ''InvalidHashError''} then Inr False else Inl e
           | HTTPException c m \<Rightarrow> Inl e))"

section \<open>Sessions and keys\<close>

definition microseconds_per_day :: int where
  "microseconds_per_day = 86400 * 1000000"

definition session_row :: "settings \<Rightarrow> auth_env \<Rightarrow> uuid \<Rightarrow> auth_session" where
  "session_row cfg env uid =
     \<lparr>s_token_hash = au_hash env (au_token env), s_user_id = uid,
      s_expires_at = au_now env + session_ttl_days cfg * microseconds_per_day, s_revoked_at = None\<rparr>"

definition create_session :: "settings \<Rightarrow> auth_env \<Rightarrow> uuid \<Rightarrow> txn \<Rightarrow> string \<times> txn" where
  "create_session cfg env uid t =
     (au_token env, txn_commit (txn_update (\<lambda>s. s\<lparr>sessions := sessions s @ [session_row cfg env uid]\<rparr>) t))"

definition resolve_session_token :: "auth_env \<Rightarrow> string \<Rightarrow> db \<Rightarrow> auth_session option" where
  "resolve_session_token env raw s =
     (case tbl_find s_token_hash (au_hash env raw) (sessions s) of
        None \<Rightarrow> None
      | Some row \<Rightarrow> if s_revoked_at row \<noteq> None \<or> s_expires_at row \<le> au_now env then None else Some row)"

definition session_from_cookie :: "auth_env \<Rightarrow> request \<Rightarrow> db \<Rightarrow> auth_session option" where
  "session_from_cookie env rq s =
     (case map_of (rq_cookies rq) SESSION_COOKIE_NAME of
        None \<Rightarrow> None
      | Some raw \<Rightarrow> if raw = [] then None else resolve_session_token env raw s)"

definition api_key_from_header :: "auth_env \<Rightarrow> request \<Rightarrow> db \<Rightarrow> api_key option" where
  "api_key_from_header env rq s =
     (if \<not> py_startswith (rq_authorization rq) ''Bearer '' then None
      else tbl_find k_key_hash (au_hash env (py_strip (py_removeprefix (rq_authorization rq) ''Bearer ''))) (api_keys s))"

section \<open>Guards\<close>

text \<open>\<open>key.collection and requested and requested != key.collection\<close>\<close>

definition out_of_scope :: "api_key \<Rightarrow> string option \<Rightarrow> bool" where
  "out_of_scope key requested =
     (case (k_collection key, requested) of
        (Some c, Some r) \<Rightarrow> c \<noteq> [] \<and> r \<noteq> [] \<and> r \<noteq> c
      | _ \<Rightarrow> False)"

definition require_api_key :: "settings \<Rightarrow> auth_env \<Rightarrow> request \<Rightarrow> db \<Rightarrow> api_key option outcome" where
  "require_api_key cfg env rq s =
     (if \<not> auth_enabled cfg then Inr None
      else
        (case api_key_from_header env rq s of
           None \<Rightarrow> Inl (HTTPException 401 (if rq_authorization rq = [] then ''missing bearer token'' else ''invalid api key''))
         | Some key \<Rightarrow>
             if out_of_scope key (rq_collection rq) then Inl (HTTPException 403 ''api key not scoped to this collection'')
             else Inr (Some key)))"

definition require_auth :: "settings \<Rightarrow> auth_env \<Rightarrow> request \<Rightarrow> db \<Rightarrow> api_key option outcome" where
  "require_auth cfg env rq s =
     (if \<not> auth_enabled cfg then Inr None
      else if session_from_cookie env rq s \<noteq> None then Inr None
      else require_api_key cfg env rq s)"

definition current_user :: "auth_env \<Rightarrow> request \<Rightarrow> db \<Rightarrow> user option" where
  "current_user env rq s =
     (case session_from_cookie env rq s of
        Some sess \<Rightarrow> find_user s (s_user_id sess)
      | None \<Rightarrow>
          (case api_key_from_header env rq s of
             None \<Rightarrow> None
           | Some key \<Rightarrow> (case k_user_id key of None \<Rightarrow> None | Some uid \<Rightarrow> find_user s uid)))"

text \<open>\<open>require_admin\<close> of \<open>prorag/connectors/router.py\<close>, the gate of /connectors and /admin.\<close>

definition require_admin :: "settings \<Rightarrow> user option \<Rightarrow> unit outcome" where
  "require_admin cfg u =
     (if \<not> auth_enabled cfg then Inr ()
      else (case u of
              None \<Rightarrow> Inl (HTTPException 403 ''admin access required'')
            | Some x \<Rightarrow> if u_is_admin x then Inr () else Inl (HTTPException 403 ''admin access required'')))"

section \<open>Login and logout\<close>

record cookie =
  ck_name :: string
  ck_value :: string
  ck_max_age :: int
  ck_secure :: bool

record auth_response =
  ar_location :: "string option"
  ar_user :: "(string \<times> string option) option"
  ar_set :: "cookie list"
  ar_delete :: "string list"

definition session_cookie :: "settings \<Rightarrow> string \<Rightarrow> cookie" where
  "session_cookie cfg raw =
     \<lparr>ck_name = SESSION_COOKIE_NAME, ck_value = raw, ck_max_age = session_ttl_days cfg * 86400,
      ck_secure = session_cookie_secure cfg\<rparr>"

definition invalid_login :: exn where
  "invalid_login = HTTPException 401 ''invalid email or password''"

definition login :: "settings \<Rightarrow> auth_env \<Rightarrow> string \<Rightarrow> string \<Rightarrow> txn \<Rightarrow> auth_response outcome \<times> txn" where
  "login cfg env email password t =
     (case tbl_find u_email email (users (working t)) of
        None \<Rightarrow> (Inl invalid_login, t)
      | Some u \<Rightarrow>
          (case u_password_hash u of
             None \<Rightarrow> (Inl invalid_login, t)
           | Some h \<Rightarrow>
               if u_disabled_at u \<noteq> None then (Inl invalid_login, t)
               else
                 (case verify_password env h password of
                    Inl e \<Rightarrow> (Inl e, t)
                  | Inr False \<Rightarrow> (Inl invalid_login, t)
                  | Inr True \<Rightarrow>
                      (case create_session cfg env (u_id u) t of
                         (raw, t') \<Rightarrow>
                           (Inr \<lparr>ar_location = None, ar_user = Some (u_email u, u_display_name u),
                                 ar_set = [session_cookie cfg raw], ar_delete = []\<rparr>, t')))))"

definition revoke :: "string \<Rightarrow> datetime \<Rightarrow> db \<Rightarrow> db" where
  "revoke h now s =
     s\<lparr>sessions := map (\<lambda>r. if s_token_hash r = h then r\<lparr>s_revoked_at := Some now\<rparr> else r) (sessions s)\<rparr>"

definition logout :: "auth_env \<Rightarrow> request \<Rightarrow> txn \<Rightarrow> auth_response \<times> txn" where
  "logout env rq t =
     (let resp = \<lparr>ar_location = None, ar_user = None, ar_set = [], ar_delete = [SESSION_COOKIE_NAME]\<rparr> in
      case map_of (rq_cookies rq) SESSION_COOKIE_NAME of
        None \<Rightarrow> (resp, t)
      | Some raw \<Rightarrow>
          if raw = [] then (resp, t)
          else
            (case tbl_find s_token_hash (au_hash env raw) (sessions (working t)) of
               None \<Rightarrow> (resp, t)
             | Some row \<Rightarrow>
                 if s_revoked_at row \<noteq> None then (resp, t)
                 else (resp, txn_commit (txn_update (revoke (au_hash env raw) (au_now env)) t))))"

section \<open>OIDC\<close>

record claims =
  cl_email :: "string option"
  cl_sub :: "string option"
  cl_name :: "string option"
  cl_nonce :: "string option"
  cl_groups :: "string list option"

text \<open>
  The network and the libraries: discovery, the code exchange (the id token it returns), the
  signature check against the issuer's keys and the registry's check of issuer, audience and
  expiry. \<open>oi_user_id\<close> and \<open>oi_group_id\<close> are the keys drawn for new rows.
\<close>

record oidc_env =
  oi_discovery :: "string \<Rightarrow> unit outcome"
  oi_fetch_token :: "string \<Rightarrow> string \<Rightarrow> string option outcome"
  oi_decode :: "string \<Rightarrow> claims outcome"
  oi_validate :: "string \<Rightarrow> claims \<Rightarrow> unit outcome"
  oi_user_id :: uuid
  oi_group_id :: "nat \<Rightarrow> uuid"

definition truthy_str :: "string option \<Rightarrow> bool" where
  "truthy_str x = (case x of None \<Rightarrow> False | Some v \<Rightarrow> v \<noteq> [])"

definition redirect_uri :: "string \<Rightarrow> request \<Rightarrow> string" where
  "redirect_uri redirect_path rq =
     rev (dropWhile (\<lambda>c. c = CHR ''/'') (rev (rq_base_url rq))) @ redirect_path"

definition verify_id_token :: "oidc_env \<Rightarrow> string \<Rightarrow> string \<Rightarrow> string \<Rightarrow> claims outcome" where
  "verify_id_token oi issuer id_token nonce =
     (case oi_decode oi id_token of
        Inl e \<Rightarrow> Inl e
      | Inr cl \<Rightarrow>
          (case oi_validate oi issuer cl of
             Inl e \<Rightarrow> Inl e
           | Inr _ \<Rightarrow>
               if nonce \<noteq> [] \<and> cl_nonce cl \<noteq> Some nonce then Inl (HTTPException 400 ''oidc nonce mismatch'')
               else Inr cl))"

definition exchange_code_for_claims :: "oidc_env \<Rightarrow> string \<Rightarrow> string \<Rightarrow> string \<Rightarrow> string \<Rightarrow> claims outcome" where
  "exchange_code_for_claims oi issuer auth_code redirect nonce =
     (case oi_discovery oi issuer of
        Inl e \<Rightarrow> Inl e
      | Inr _ \<Rightarrow>
          (case oi_fetch_token oi auth_code redirect of
             Inl e \<Rightarrow> Inl e
           | Inr None \<Rightarrow> Inl (HTTPException 400 ''oidc token response missing id_token'')
           | Inr (Some tok) \<Rightarrow>
               if tok = [] then Inl (HTTPException 400 ''oidc token response missing id_token'')
               else verify_id_token oi issuer tok nonce))"

definition integrity_error :: exn where
  "integrity_error = PyError ''IntegrityError'' ''duplicate key value violates unique constraint''"

definition idp_group_ids :: "db \<Rightarrow> uuid set" where
  "idp_group_ids s = set (map g_id (filter (\<lambda>g. g_source g = SrcIdp) (groups s)))"

definition drop_idp_memberships :: "uuid \<Rightarrow> db \<Rightarrow> db" where
  "drop_idp_memberships uid s =
     s\<lparr>user_groups := filter (\<lambda>ug. \<not> (ug_user_id ug = uid \<and> ug_group_id ug \<in> idp_group_ids s)) (user_groups s)\<rparr>"

definition find_idp_group :: "db \<Rightarrow> string \<Rightarrow> group_rec option" where
  "find_idp_group s ext = find (\<lambda>g. g_source g = SrcIdp \<and> g_external_id g = Some ext) (groups s)"

definition idp_group :: "uuid \<Rightarrow> string \<Rightarrow> group_rec" where
  "idp_group i ext = \<lparr>g_id = i, g_name = ''idp:'' @ ext, g_source = SrcIdp, g_external_id = Some ext\<rparr>"

text \<open>
  The loop over the claim. Group names are unique and a membership is its own primary key: a
  local group of the same name, or the same group named twice in the claim, is refused by the
  database.
\<close>

fun seed_loop :: "(nat \<Rightarrow> uuid) \<Rightarrow> uuid \<Rightarrow> nat \<Rightarrow> string list \<Rightarrow> db \<Rightarrow> db outcome" where
  "seed_loop fresh uid n [] s = Inr s"
| "seed_loop fresh uid n (ext # exts) s =
     (case find_idp_group s ext of
        Some g \<Rightarrow>
          if \<lparr>ug_user_id = uid, ug_group_id = g_id g\<rparr> \<in> set (user_groups s) then Inl integrity_error
          else seed_loop fresh uid n exts (s\<lparr>user_groups := user_groups s @ [\<lparr>ug_user_id = uid, ug_group_id = g_id g\<rparr>]\<rparr>)
      | None \<Rightarrow>
          if ''idp:'' @ ext \<in> g_name ` set (groups s) then Inl integrity_error
          else seed_loop fresh uid (Suc n) exts
                 (s\<lparr>groups := groups s @ [idp_group (fresh n) ext],
                    user_groups := user_groups s @ [\<lparr>ug_user_id = uid, ug_group_id = fresh n\<rparr>]\<rparr>))"

definition seed_idp_groups :: "(nat \<Rightarrow> uuid) \<Rightarrow> uuid \<Rightarrow> string list \<Rightarrow> db \<Rightarrow> db outcome" where
  "seed_idp_groups fresh uid claim s = seed_loop fresh uid 0 claim (drop_idp_memberships uid s)"

text \<open>The user row of the verified claims; e-mail addresses are unique.\<close>

definition upsert_oidc_user :: "oidc_env \<Rightarrow> string \<Rightarrow> string \<Rightarrow> string option \<Rightarrow> db \<Rightarrow> (uuid \<times> db) outcome" where
  "upsert_oidc_user oi sub email name s =
     (case tbl_find u_external_subject (Some sub) (users s) of
        None \<Rightarrow>
          if email \<in> u_email ` set (users s) then Inl integrity_error
          else Inr (oi_user_id oi, s\<lparr>users := users s @
            [\<lparr>u_id = oi_user_id oi, u_external_subject = Some sub, u_email = email, u_display_name = name,
              u_is_admin = False, u_password_hash = None, u_daily_cap_usd_override = None, u_disabled_at = None\<rparr>]\<rparr>)
      | Some u \<Rightarrow>
          if \<exists>x\<in>set (users s). u_id x \<noteq> u_id u \<and> u_email x = email then Inl integrity_error
          else Inr (u_id u, s\<lparr>users := map (\<lambda>x. if u_id x = u_id u
                 then x\<lparr>u_email := email, u_display_name := (if truthy_str name then name else u_display_name x)\<rparr> else x) (users s)\<rparr>))"

text \<open>\<open>cookie_val.split(":", 1)\<close>\<close>

definition split_colon :: "string \<Rightarrow> string \<times> string" where
  "split_colon v = (takeWhile (\<lambda>c. c \<noteq> CHR '':'') v, drop 1 (dropWhile (\<lambda>c. c \<noteq> CHR '':'') v))"

definition oidc_login_claims ::
  "settings \<Rightarrow> oidc_env \<Rightarrow> string \<Rightarrow> request \<Rightarrow> string option \<Rightarrow> string option \<Rightarrow> claims outcome" where
  "oidc_login_claims cfg oi redirect_path rq auth_code state =
     (if \<not> truthy_str (oidc_issuer cfg) then Inl (HTTPException 404 ''Not Found'')
      else if \<not> truthy_str auth_code \<or> \<not> truthy_str state then Inl (HTTPException 400 ''missing code or state'')
      else
        (case map_of (rq_cookies rq) OIDC_STATE_COOKIE of
           None \<Rightarrow> Inl (HTTPException 400 ''missing oidc state cookie'')
         | Some v \<Rightarrow>
             if CHR '':'' \<notin> set v then Inl (HTTPException 400 ''missing oidc state cookie'')
             else if fst (split_colon v) \<noteq> the state then Inl (HTTPException 400 ''oidc state mismatch'')
             else exchange_code_for_claims oi (the (oidc_issuer cfg)) (the auth_code) (redirect_uri redirect_path rq) (snd (split_colon v))))"

definition oidc_callback ::
  "settings \<Rightarrow> auth_env \<Rightarrow> oidc_env \<Rightarrow> string \<Rightarrow> request \<Rightarrow> string option \<Rightarrow> string option \<Rightarrow> txn
     \<Rightarrow> auth_response outcome \<times> txn" where
  "oidc_callback cfg env oi redirect_path rq auth_code state t =
     (case oidc_login_claims cfg oi redirect_path rq auth_code state of
        Inl e \<Rightarrow> (Inl e, t)
      | Inr cl \<Rightarrow>
          if \<not> truthy_str (cl_email cl) \<or> \<not> truthy_str (cl_sub cl) then
            (Inl (HTTPException 400 ''id token missing required email/sub claim''), t)
          else
            (case upsert_oidc_user oi (the (cl_sub cl)) (the (cl_email cl)) (cl_name cl) (working t) of
               Inl e \<Rightarrow> (Inl e, t)
             | Inr (uid, s1) \<Rightarrow>
                 (case (case cl_groups cl of None \<Rightarrow> Inr s1 | Some gs \<Rightarrow> seed_idp_groups (oi_group_id oi) uid gs s1) of
                    Inl e \<Rightarrow> (Inl e, t)
                  | Inr s2 \<Rightarrow>
                      (case create_session cfg env uid (txn_update (\<lambda>_. s2) t) of
                         (raw, t') \<Rightarrow>
                           (Inr \<lparr>ar_location = Some ''/'', ar_user = None, ar_set = [session_cookie cfg raw],
                                 ar_delete = [OIDC_STATE_COOKIE]\<rparr>, t')))))"

text \<open>\<open>GET /auth/oidc/login\<close>: the redirect to the issuer with the state cookie; \<open>authorize\<close> is the client library.\<close>

definition oidc_login ::
  "settings \<Rightarrow> oidc_env \<Rightarrow> (string \<Rightarrow> string \<Rightarrow> string \<times> string) \<Rightarrow> string \<Rightarrow> string \<Rightarrow> request \<Rightarrow> auth_response outcome" where
  "oidc_login cfg oi authorize nonce redirect_path rq =
     (if \<not> truthy_str (oidc_issuer cfg) then Inl (HTTPException 404 ''Not Found'')
      else
        (case oi_discovery oi (the (oidc_issuer cfg)) of
           Inl e \<Rightarrow> Inl e
         | Inr _ \<Rightarrow>
             (case authorize (redirect_uri redirect_path rq) nonce of
                (uri, state) \<Rightarrow>
                  Inr \<lparr>ar_location = Some uri, ar_user = None,
                       ar_set = [\<lparr>ck_name = OIDC_STATE_COOKIE, ck_value = state @ '':'' @ nonce, ck_max_age = 600,
                                  ck_secure = session_cookie_secure cfg\<rparr>], ar_delete = []\<rparr>)))"


section \<open>The guard and the identity agree\<close>

text \<open>
  C12. With authentication on, the guard never lets an anonymous request through: it passes exactly
  for a live session or a known key within its scope, and then the identity that the
  visibility filter uses is an existing user, except for a key that was issued without a user.
  A refused request has neither, and gets 401, or 403 when its key belongs to another
  collection.
\<close>

theorem auth_never_falls_open:
  assumes "auth_enabled cfg"
    and "\<forall>r\<in>set (sessions s). find_user s (s_user_id r) \<noteq> None"
    and "\<forall>k\<in>set (api_keys s). \<forall>i. k_user_id k = Some i \<longrightarrow> find_user s i \<noteq> None"
  shows "case require_auth cfg env rq s of
      Inr _ \<Rightarrow>
        (session_from_cookie env rq s \<noteq> None \<or> (\<exists>key. api_key_from_header env rq s = Some key \<and> \<not> out_of_scope key (rq_collection rq)))
        \<and> (case current_user env rq s of
             Some u \<Rightarrow> u \<in> set (users s)
           | None \<Rightarrow> session_from_cookie env rq s = None
               \<and> (\<exists>key. api_key_from_header env rq s = Some key \<and> key \<in> set (api_keys s) \<and> k_user_id key = None))
    | Inl e \<Rightarrow> session_from_cookie env rq s = None
        \<and> (case api_key_from_header env rq s of None \<Rightarrow> exn_code e = 401 | Some key \<Rightarrow> exn_code e = 403 \<and> out_of_scope key (rq_collection rq))"
proof -
  have key: "k \<in> set (api_keys s)" if "api_key_from_header env rq s = Some k" for k
    using that by (auto simp: api_key_from_header_def dest: tbl_find_Some split: if_splits)
  have sess: "r \<in> set (sessions s)" if "session_from_cookie env rq s = Some r" for r
    using that by (auto simp: session_from_cookie_def resolve_session_token_def dest: tbl_find_Some split: option.splits if_splits)
  have user: "u \<in> set (users s)" if "find_user s i = Some u" for u i
    using tbl_find_Some [OF that] by simp
  show ?thesis
  proof (cases "session_from_cookie env rq s")
    case (Some r)
    then obtain u where "find_user s (s_user_id r) = Some u" using assms(2) sess by blast
    with Some user show ?thesis using assms(1) by (simp add: require_auth_def current_user_def)
  next
    case None
    show ?thesis
    proof (cases "api_key_from_header env rq s")
      case no_key: None
      with None show ?thesis using assms(1) by (simp add: require_auth_def require_api_key_def)
    next
      case (Some k)
      show ?thesis
      proof (cases "k_user_id k")
        case no_user: None
        with None Some key show ?thesis using assms(1) by (simp add: require_auth_def require_api_key_def current_user_def)
      next
        case (Some i)
        then obtain u where "find_user s i = Some u" using assms(3) key \<open>api_key_from_header env rq s = Some k\<close> by blast
        with None Some user \<open>api_key_from_header env rq s = Some k\<close> show ?thesis
          using assms(1) by (simp add: require_auth_def require_api_key_def current_user_def)
      qed
    qed
  qed
qed

definition sample_auth_env :: auth_env where
  "sample_auth_env = \<lparr>au_hash = (\<lambda>x. CHR ''h'' # x), au_verify = (\<lambda>h p. Inr (h = p)), au_token = ''tok'', au_now = 0\<rparr>"

definition sample_request :: request where
  "sample_request = \<lparr>rq_cookies = [(''prorag_session'', ''tok'')], rq_authorization = [], rq_collection = None, rq_base_url = ''http://x/''\<rparr>"

definition account :: "uuid \<Rightarrow> string option \<Rightarrow> user" where
  "account i h = \<lparr>u_id = i, u_external_subject = None, u_email = ''a@x'', u_display_name = None, u_is_admin = False,
     u_password_hash = h, u_daily_cap_usd_override = None, u_disabled_at = None\<rparr>"

theorem auth_never_falls_open_witness:
  "require_auth (default_settings\<lparr>auth_enabled := True\<rparr>) sample_auth_env sample_request (empty_db\<lparr>users := [account 1 None]\<rparr>)
     = Inl (HTTPException 401 ''missing bearer token'')
   \<and> session_from_cookie sample_auth_env sample_request (empty_db\<lparr>users := [account 1 None]\<rparr>) = None"
proof -
  have "require_auth (default_settings\<lparr>auth_enabled := True\<rparr>) sample_auth_env sample_request (empty_db\<lparr>users := [account 1 None]\<rparr>)
     = Inl (HTTPException 401 ''missing bearer token'')"
    by (simp add: require_auth_def require_api_key_def session_from_cookie_def resolve_session_token_def api_key_from_header_def
        sample_request_def empty_db_def SESSION_COOKIE_NAME_def py_startswith_def)
  then show ?thesis
    using auth_never_falls_open [of "default_settings\<lparr>auth_enabled := True\<rparr>" "empty_db\<lparr>users := [account 1 None]\<rparr>" sample_auth_env sample_request]
    by (simp add: empty_db_def)
qed

section \<open>The life of a session\<close>

lemma find_revoked:
  "tbl_find s_token_hash k (sessions (revoke h now s)) =
     map_option (\<lambda>r. if s_token_hash r = h then r\<lparr>s_revoked_at := Some now\<rparr> else r) (tbl_find s_token_hash k (sessions s))"
  unfolding revoke_def by (simp add: tbl_find_map)

lemma logout_committed:
  assumes "map_of (rq_cookies rq) SESSION_COOKIE_NAME = Some raw" and "raw \<noteq> []"
    and "tbl_find s_token_hash (au_hash env raw) (sessions (working t)) = Some row" and "s_revoked_at row = None"
  shows "snd (logout env rq t) = txn_commit (txn_update (revoke (au_hash env raw) (au_now env)) t)"
  using assms by (simp add: logout_def Let_def)

text \<open>
  C25. The life of a session: a request with the cookie of a fresh session is authenticated from
  its creation until exactly its expiry, and, once logged out, never again, whatever the clock
  says; sessions of other tokens are resolved as before throughout.
\<close>

theorem session_lifecycle:
  assumes "create_session cfg env uid t = (raw, t1)" and "raw \<noteq> []"
    and "au_hash env raw \<notin> s_token_hash ` set (sessions (working t))"
    and "map_of (rq_cookies rq) SESSION_COOKIE_NAME = Some raw"
    and "au_hash later = au_hash env" and "au_hash leaving = au_hash env"
  shows "session_from_cookie later rq (committed t1) =
       (if au_now later < au_now env + session_ttl_days cfg * microseconds_per_day then Some (session_row cfg env uid) else None)
     \<and> session_from_cookie later rq (committed (snd (logout leaving rq t1))) = None
     \<and> (\<forall>other. au_hash env other \<noteq> au_hash env raw \<longrightarrow>
          resolve_session_token later other (committed t1) = resolve_session_token later other (working t)
        \<and> resolve_session_token later other (committed (snd (logout leaving rq t1))) = resolve_session_token later other (working t))"
proof -
  have raw: "raw = au_token env" and t1: "t1 = txn_commit (txn_update (\<lambda>s. s\<lparr>sessions := sessions s @ [session_row cfg env uid]\<rparr>) t)"
    using assms(1) by (simp_all add: create_session_def)
  have none: "tbl_find s_token_hash (au_hash env raw) (sessions (working t)) = None"
    using assms(3) by (simp add: tbl_find_None tbl_keys_def)
  have hash: "s_token_hash (session_row cfg env uid) = au_hash env raw" by (simp add: session_row_def raw)
  have found: "tbl_find s_token_hash (au_hash env raw) (sessions (working t1)) = Some (session_row cfg env uid)"
    using none hash by (simp add: t1 tbl_find_append)
  have other: "tbl_find s_token_hash (au_hash env x) (sessions (working t1)) = tbl_find s_token_hash (au_hash env x) (sessions (working t))"
    if "au_hash env x \<noteq> au_hash env raw" for x
    using that hash by (simp add: t1 tbl_find_append split: option.split)
  have gone: "committed (snd (logout leaving rq t1)) = revoke (au_hash env raw) (au_now leaving) (working t1)"
    using logout_committed [OF assms(4,2), of leaving t1 "session_row cfg env uid"] found assms(6) by (simp add: session_row_def)
  have com: "committed t1 = working t1" by (simp add: t1)
  have "session_from_cookie later rq (committed t1) =
       (if au_now later < au_now env + session_ttl_days cfg * microseconds_per_day then Some (session_row cfg env uid) else None)"
    using assms(2,4,5) found com by (simp add: session_from_cookie_def resolve_session_token_def session_row_def)
  moreover have "session_from_cookie later rq (committed (snd (logout leaving rq t1))) = None"
    using assms(2,4,5) found hash by (simp add: session_from_cookie_def resolve_session_token_def gone find_revoked)
  moreover have "resolve_session_token later x (committed t1) = resolve_session_token later x (working t)
      \<and> resolve_session_token later x (committed (snd (logout leaving rq t1))) = resolve_session_token later x (working t)"
    if "au_hash env x \<noteq> au_hash env raw" for x
    using other [OF that] assms(5) that com
    by (auto simp: resolve_session_token_def gone find_revoked dest: tbl_find_Some split: option.split)
  ultimately show ?thesis by blast
qed

theorem session_lifecycle_witness:
  "session_from_cookie (sample_auth_env\<lparr>au_now := 5\<rparr>) sample_request
       (committed (snd (create_session default_settings sample_auth_env 1 (begin_txn empty_db))))
     = Some (session_row default_settings sample_auth_env 1)
   \<and> session_from_cookie (sample_auth_env\<lparr>au_now := 5\<rparr>) sample_request
       (committed (snd (logout sample_auth_env sample_request (snd (create_session default_settings sample_auth_env 1 (begin_txn empty_db)))))) = None"
proof -
  have "create_session default_settings sample_auth_env 1 (begin_txn empty_db)
      = (''tok'', snd (create_session default_settings sample_auth_env 1 (begin_txn empty_db)))"
    by (simp add: create_session_def sample_auth_env_def)
  from session_lifecycle [OF this, of sample_request "sample_auth_env\<lparr>au_now := 5\<rparr>" sample_auth_env] show ?thesis
    by (simp add: empty_db_def sample_request_def SESSION_COOKIE_NAME_def sample_auth_env_def microseconds_per_day_def)
qed

section \<open>Login\<close>

text \<open>
  A local login opens a session only for an enabled account with that e-mail address whose
  stored hash verifies the password; the cookie carries the fresh token, the table only its hash.
  A refused login writes nothing.
\<close>

lemma login_sound:
  "case login cfg env email password t of
     (Inl e, t') \<Rightarrow> t' = t
   | (Inr resp, t') \<Rightarrow> \<exists>u h. u \<in> set (users (working t)) \<and> u_email u = email \<and> u_password_hash u = Some h
       \<and> u_disabled_at u = None \<and> au_verify env h password = Inr True
       \<and> map ck_value (ar_set resp) = [au_token env]
       \<and> committed t' = (working t)\<lparr>sessions := sessions (working t) @ [session_row cfg env (u_id u)]\<rparr>"
proof (cases "tbl_find u_email email (users (working t))")
  case None
  then show ?thesis by (simp add: login_def)
next
  case (Some u)
  have u: "u \<in> set (users (working t))" "u_email u = email" using tbl_find_Some [OF Some] by simp_all
  show ?thesis
  proof (cases "\<exists>h. u_password_hash u = Some h \<and> u_disabled_at u = None \<and> verify_password env h password = Inr True")
    case True
    then obtain h where h: "u_password_hash u = Some h" "u_disabled_at u = None" "verify_password env h password = Inr True" by blast
    then have "au_verify env h password = Inr True" by (auto simp: verify_password_def split: sum.splits exn.splits if_splits)
    with u h Some show ?thesis by (auto simp: login_def create_session_def session_cookie_def)
  next
    case False
    then show ?thesis using Some by (auto simp: login_def split: option.split sum.split bool.split)
  qed
qed

text \<open>
  Neither the guard nor the identity reads \<open>disabled_at\<close>: a session that was open when an account
  was disabled keeps working until it expires.
\<close>

lemma disabling_keeps_sessions:
  "require_auth cfg env rq (s\<lparr>users := map (\<lambda>u. if u_id u = i then u\<lparr>u_disabled_at := Some now\<rparr> else u) (users s)\<rparr>)
     = require_auth cfg env rq s"
proof -
  have "resolve_session_token env raw (s\<lparr>users := x\<rparr>) = resolve_session_token env raw s" for raw x
    by (simp add: resolve_session_token_def)
  then have "session_from_cookie env rq (s\<lparr>users := x\<rparr>) = session_from_cookie env rq s" for x
    by (simp add: session_from_cookie_def split: option.split)
  moreover have "api_key_from_header env rq (s\<lparr>users := x\<rparr>) = api_key_from_header env rq s" for x
    by (simp add: api_key_from_header_def)
  ultimately show ?thesis by (simp add: require_auth_def require_api_key_def)
qed

section \<open>Group claims\<close>

lemma find_idp_group_append:
  "find_idp_group (s\<lparr>groups := groups s @ gs, user_groups := x\<rparr>) ext =
     (case find_idp_group s ext of Some g \<Rightarrow> Some g | None \<Rightarrow> find (\<lambda>g. g_source g = SrcIdp \<and> g_external_id g = Some ext) gs)"
proof -
  have "find P (xs @ ys) = (case find P xs of Some y \<Rightarrow> Some y | None \<Rightarrow> find P ys)" for P and xs ys :: "group_rec list"
    by (induction xs) auto
  then show ?thesis by (simp add: find_idp_group_def)
qed

lemma seed_loop_exact:
  assumes "seed_loop fresh uid n exts s = Inr s'"
  shows "set (groups s) \<subseteq> set (groups s')
     \<and> (\<forall>e g. find_idp_group s e = Some g \<longrightarrow> find_idp_group s' e = Some g)
     \<and> set (user_groups s') = set (user_groups s) \<union>
         {ug. ug_user_id ug = uid \<and> (\<exists>e\<in>set exts. \<exists>g. find_idp_group s' e = Some g \<and> ug_group_id ug = g_id g)}
     \<and> (\<forall>e\<in>set exts. find_idp_group s' e \<noteq> None)"
  using assms
proof (induction fresh uid n exts s rule: seed_loop.induct)
  case (1 fresh uid n s)
  then show ?case by auto
next
  case (2 fresh uid n ext exts s)
  show ?case
  proof (cases "find_idp_group s ext")
    case (Some g)
    let ?s = "s\<lparr>user_groups := user_groups s @ [\<lparr>ug_user_id = uid, ug_group_id = g_id g\<rparr>]\<rparr>"
    have run: "seed_loop fresh uid n exts ?s = Inr s'" and new: "\<lparr>ug_user_id = uid, ug_group_id = g_id g\<rparr> \<notin> set (user_groups s)"
      using 2(3) Some by (auto split: if_splits)
    note ih = 2(2) [OF Some new run]
    have keep: "find_idp_group ?s e = find_idp_group s e" for e by (simp add: find_idp_group_def)
    then have g: "find_idp_group s' ext = Some g" using ih Some by simp
    have "set (user_groups s') = insert \<lparr>ug_user_id = uid, ug_group_id = g_id g\<rparr> (set (user_groups s)) \<union>
         {ug. ug_user_id ug = uid \<and> (\<exists>e\<in>set exts. \<exists>g. find_idp_group s' e = Some g \<and> ug_group_id ug = g_id g)}"
      using ih by simp
    also have "\<dots> = set (user_groups s) \<union>
         {ug. ug_user_id ug = uid \<and> (\<exists>e\<in>set (ext # exts). \<exists>g. find_idp_group s' e = Some g \<and> ug_group_id ug = g_id g)}"
      using g by (auto intro: user_group.equality)
    finally show ?thesis using ih keep g by simp
  next
    case None
    let ?g = "idp_group (fresh n) ext"
    let ?s = "s\<lparr>groups := groups s @ [?g], user_groups := user_groups s @ [\<lparr>ug_user_id = uid, ug_group_id = fresh n\<rparr>]\<rparr>"
    have run: "seed_loop fresh uid (Suc n) exts ?s = Inr s'" and new: "''idp:'' @ ext \<notin> g_name ` set (groups s)"
      using 2(3) None by (auto split: if_splits)
    note ih = 2(1) [OF None new run]
    have keep: "find_idp_group s e = Some g \<Longrightarrow> find_idp_group ?s e = Some g" for e g by (simp add: find_idp_group_append)
    have "find_idp_group ?s ext = Some ?g" using None by (simp add: find_idp_group_append idp_group_def)
    then have g: "find_idp_group s' ext = Some ?g" using ih by blast
    have gid: "g_id ?g = fresh n" by (simp add: idp_group_def)
    have "set (user_groups s') = insert \<lparr>ug_user_id = uid, ug_group_id = fresh n\<rparr> (set (user_groups s)) \<union>
         {ug. ug_user_id ug = uid \<and> (\<exists>e\<in>set exts. \<exists>g. find_idp_group s' e = Some g \<and> ug_group_id ug = g_id g)}"
      using ih by simp
    also have "\<dots> = set (user_groups s) \<union>
         {ug. ug_user_id ug = uid \<and> (\<exists>e\<in>set (ext # exts). \<exists>g. find_idp_group s' e = Some g \<and> ug_group_id ug = g_id g)}"
      using g gid by (auto intro: user_group.equality)
    finally have groups_of: "set (user_groups s') = set (user_groups s) \<union>
         {ug. ug_user_id ug = uid \<and> (\<exists>e\<in>set (ext # exts). \<exists>g. find_idp_group s' e = Some g \<and> ug_group_id ug = g_id g)}" .
    have "set (groups s) \<subseteq> set (groups s')" using ih by simp
    moreover have "\<forall>e g. find_idp_group s e = Some g \<longrightarrow> find_idp_group s' e = Some g" using ih keep by blast
    moreover have "\<forall>e\<in>set (ext # exts). find_idp_group s' e \<noteq> None" using ih g by simp
    ultimately show ?thesis using groups_of by blast
  qed
qed

text \<open>
  Group claims only seed: when \<open>_seed_idp_groups\<close> succeeds, the user's memberships are the
  earlier ones in local groups together with the IdP groups of the claim, which all exist now;
  the memberships of every other user are the same, and no group disappears.
\<close>

lemma seed_idp_groups_exact:
  "case seed_idp_groups fresh uid claim s of
     Inl e \<Rightarrow> e = integrity_error
   | Inr s' \<Rightarrow>
       {ug \<in> set (user_groups s'). ug_user_id ug = uid} =
         {ug \<in> set (user_groups s). ug_user_id ug = uid \<and> ug_group_id ug \<notin> idp_group_ids s}
         \<union> {ug. ug_user_id ug = uid \<and> (\<exists>e\<in>set claim. \<exists>g. find_idp_group s' e = Some g \<and> ug_group_id ug = g_id g)}
     \<and> {ug \<in> set (user_groups s'). ug_user_id ug \<noteq> uid} = {ug \<in> set (user_groups s). ug_user_id ug \<noteq> uid}
     \<and> None \<notin> find_idp_group s' ` set claim \<and> set (groups s) \<subseteq> set (groups s')"
proof -
  have err: "seed_loop fresh uid n exts s = Inl e \<Longrightarrow> e = integrity_error" for n exts s e
    by (induction fresh uid n exts s rule: seed_loop.induct) (auto split: option.splits if_splits)
  show ?thesis
  proof (cases "seed_idp_groups fresh uid claim s")
    case (Inl e)
    then show ?thesis using err by (simp add: seed_idp_groups_def)
  next
    case (Inr s')
    then have "seed_loop fresh uid 0 claim (drop_idp_memberships uid s) = Inr s'" by (simp add: seed_idp_groups_def)
    from seed_loop_exact [OF this] show ?thesis unfolding Inr by (force simp: drop_idp_memberships_def)
  qed
qed

end
