(* ===== verification/Scheduler.thy ===== *)
theory Scheduler imports Sync_Props Auth_Model begin

text \<open>
  \<open>prorag/connectors/scheduler.py\<close> and \<open>prorag/connectors/router.py\<close>: what a connector is due for,
  one scheduled run, the tick over all enabled connectors, the endpoints that manage connectors
  and trigger a sync, and the per-connector lock that scheduled and manual runs share, as a
  step relation on the tasks of the event loop.
\<close>

section \<open>What is due\<close>

datatype action = Sweep | Incremental | Wait

definition seconds :: "int \<Rightarrow> int" where
  "seconds n = n * 1000000"

definition next_action :: "datetime \<Rightarrow> datetime option \<Rightarrow> datetime option \<Rightarrow> int \<Rightarrow> int \<Rightarrow> action" where
  "next_action now last_sync last_sweep poll_seconds sweep_hours =
     (if (case last_sweep of None \<Rightarrow> True | Some t \<Rightarrow> seconds (sweep_hours * 3600) \<le> now - t) then Sweep
      else if (case last_sync of None \<Rightarrow> True | Some t \<Rightarrow> seconds poll_seconds \<le> now - t) then Incremental
      else Wait)"

definition due :: "settings \<Rightarrow> datetime \<Rightarrow> connector \<Rightarrow> action" where
  "due cfg now row =
     next_action now (cn_last_sync_at row) (cn_last_full_sweep_at row) (connector_poll_seconds cfg) (connector_sweep_hours cfg)"

section \<open>One scheduled run and the tick\<close>

abbreviation find_connector :: "db \<Rightarrow> uuid \<Rightarrow> connector option" where
  "find_connector s i \<equiv> tbl_find cn_id i (connectors s)"

definition run_one ::
  "'e ingest_fun \<Rightarrow> settings \<Rightarrow> 'e sync_env \<Rightarrow> uuid \<Rightarrow> datetime \<Rightarrow> ingest_world \<Rightarrow> ingest_world" where
  "run_one ingest cfg env cid now w =
     (case find_connector (working (iw_txn w)) cid of
        None \<Rightarrow> w
      | Some row \<Rightarrow>
          if \<not> cn_enabled row \<or> due cfg now row = Wait then w
          else
            (case (if due cfg now row = Sweep then full_sweep ingest cfg env row w else sync_incremental ingest cfg env row w) of
               (Inl e, w') \<Rightarrow>
                 commit_update (set_connector cid (\<lambda>c. c\<lparr>cn_last_error := Some (exn_str e)\<rparr>)) (w'\<lparr>iw_txn := txn_rollback (iw_txn w')\<rparr>)
             | (Inr _, w') \<Rightarrow> commit_update (set_connector cid (\<lambda>c. c\<lparr>cn_last_error := None\<rparr>)) w'))"

text \<open>\<open>locked\<close>: the connectors a manual sync holds while the tick comes by.\<close>

fun tick_loop ::
  "'e ingest_fun \<Rightarrow> settings \<Rightarrow> (uuid \<Rightarrow> 'e sync_env) \<Rightarrow> (uuid \<Rightarrow> bool) \<Rightarrow> datetime \<Rightarrow> uuid list \<Rightarrow> ingest_world \<Rightarrow> ingest_world" where
  "tick_loop ingest cfg env locked now [] w = w"
| "tick_loop ingest cfg env locked now (cid # cids) w =
     tick_loop ingest cfg env locked now cids (if locked cid then w else run_one ingest cfg (env cid) cid now w)"

definition tick ::
  "'e ingest_fun \<Rightarrow> settings \<Rightarrow> (uuid \<Rightarrow> 'e sync_env) \<Rightarrow> (uuid \<Rightarrow> bool) \<Rightarrow> datetime \<Rightarrow> ingest_world \<Rightarrow> ingest_world" where
  "tick ingest cfg env locked now w =
     tick_loop ingest cfg env locked now (map cn_id (filter cn_enabled (connectors (committed (iw_txn w))))) w"

section \<open>What a tick does\<close>

text \<open>What one unlocked tick makes of a connector's row.\<close>

definition ran :: "settings \<Rightarrow> datetime \<Rightarrow> 'e sync_env \<Rightarrow> connector \<Rightarrow> connector \<Rightarrow> bool" where
  "ran cfg now env c c' \<longleftrightarrow>
     (if \<not> cn_enabled c \<or> due cfg now c = Wait then c' = c
      else (\<exists>e. c' = c\<lparr>cn_last_error := Some e\<rparr>)
         \<or> c' = (if due cfg now c = Sweep
                 then c\<lparr>cn_last_sync_at := Some (sy_end env), cn_last_full_sweep_at := Some (sy_end env), cn_last_error := None\<rparr>
                 else c\<lparr>cn_last_sync_at := Some (sy_end env), cn_last_error := None\<rparr>))"

lemma ran_id: "ran cfg now env c c' \<Longrightarrow> cn_id c' = cn_id c"
  by (auto simp: ran_def split: if_splits)

lemma find_set_connector:
  "(\<And>c. cn_id (f c) = cn_id c) \<Longrightarrow>
     find_connector (set_connector cid f s) j = (if j = cid then map_option f (find_connector s j) else find_connector s j)"
proof -
  assume f: "\<And>c. cn_id (f c) = cn_id c"
  have "tbl_find cn_id j (map (\<lambda>c. if cn_id c = cid then f c else c) cs)
      = (if j = cid then map_option f (tbl_find cn_id j cs) else tbl_find cn_id j cs)" for cs
    by (induction cs) (auto simp: f)
  then show ?thesis by (simp add: set_connector_def)
qed

lemma delete_loop_connectors:
  "connectors (working (iw_txn (delete_loop cid kds w))) = connectors (working (iw_txn w))"
  by (induction cid kds w rule: delete_loop.induct)
     (auto simp: delete_missing_def mark_deleted_def delete_document_def split: option.splits)

lemma sync_incremental_connectors:
  assumes w: "settled w" and run: "sync_incremental (ingest_fresh icfg) cfg env row w = (res, w')"
  shows "case res of
      Inl e \<Rightarrow> w' = w
    | Inr _ \<Rightarrow> connectors (working (iw_txn w')) = connectors (set_connector (cn_id row)
        (\<lambda>c. c\<lparr>cn_last_sync_at := Some (sy_end env)\<rparr>) (working (iw_txn w)))"
proof (cases res)
  case (Inl e)
  then show ?thesis using run by (simp add: sync_incremental_def split: sum.splits prod.splits)
next
  case (Inr rep)
  then obtain remote wp rp where p: "process_objects (ingest_fresh icfg) cfg env (cn_id row) (cn_collection row) remote w = (wp, rp)"
    and w': "w' = commit_update (set_connector (cn_id row) (\<lambda>c. c\<lparr>cn_last_sync_at := Some (sy_end env)\<rparr>)) wp"
    using run by (auto simp: sync_incremental_def split: sum.splits prod.splits)
  show ?thesis using sv.process_objects_connectors [OF w p] by (simp add: Inr w' set_connector_def)
qed

lemma full_sweep_connectors:
  assumes w: "settled w" and run: "full_sweep (ingest_fresh icfg) cfg env row w = (res, w')"
  shows "case res of
      Inl e \<Rightarrow> w' = w
    | Inr _ \<Rightarrow> connectors (working (iw_txn w')) = connectors (set_connector (cn_id row)
        (\<lambda>c. c\<lparr>cn_last_sync_at := Some (sy_end env), cn_last_full_sweep_at := Some (sy_end env)\<rparr>) (working (iw_txn w)))"
proof (cases res)
  case (Inl e)
  then show ?thesis using run by (simp add: full_sweep_def Let_def split: sum.splits prod.splits)
next
  case (Inr rep)
  from full_sweep_run [OF run [unfolded Inr]] obtain remote wp rp where
    p: "process_objects (ingest_fresh icfg) cfg env (cn_id row) (cn_collection row) remote w = (wp, rp)"
    and w': "w' = commit_update (set_connector (cn_id row)
            (\<lambda>c. c\<lparr>cn_last_sync_at := Some (sy_end env), cn_last_full_sweep_at := Some (sy_end env)\<rparr>))
          (delete_loop (cn_id row) (missing_items (working (iw_txn wp)) (cn_id row) (ro_key ` set remote)) wp)"
    by metis
  show ?thesis using sv.process_objects_connectors [OF w p]
    by (simp add: Inr w' set_connector_def delete_loop_connectors)
qed

lemma run_one_row:
  assumes w: "settled w"
  shows "settled (run_one (ingest_fresh icfg) cfg env cid now w)"
    and "j \<noteq> cid \<Longrightarrow> find_connector (working (iw_txn (run_one (ingest_fresh icfg) cfg env cid now w))) j
           = find_connector (working (iw_txn w)) j"
    and "find_connector (working (iw_txn w)) cid = Some c \<Longrightarrow>
           \<exists>c'. find_connector (working (iw_txn (run_one (ingest_fresh icfg) cfg env cid now w))) cid = Some c' \<and> ran cfg now env c c'"
proof -
  let ?w' = "run_one (ingest_fresh icfg) cfg env cid now w"
  have "settled ?w' \<and> (\<forall>j. j \<noteq> cid \<longrightarrow> find_connector (working (iw_txn ?w')) j = find_connector (working (iw_txn w)) j)
     \<and> (\<forall>c. find_connector (working (iw_txn w)) cid = Some c \<longrightarrow>
          (\<exists>c'. find_connector (working (iw_txn ?w')) cid = Some c' \<and> ran cfg now env c c'))"
  proof (cases "find_connector (working (iw_txn w)) cid")
    case None
    then show ?thesis using w by (simp add: run_one_def)
  next
    case (Some c)
    have cid: "cn_id c = cid" using Some tbl_find_Some by metis
    show ?thesis
    proof (cases "\<not> cn_enabled c \<or> due cfg now c = Wait")
      case True
      then show ?thesis using w Some by (auto simp: run_one_def ran_def)
    next
      case active: False
      let ?run = "if due cfg now c = Sweep then full_sweep (ingest_fresh icfg) cfg env c w
                  else sync_incremental (ingest_fresh icfg) cfg env c w"
      obtain res w1 where run: "?run = (res, w1)" by fastforce
      let ?upd = "if due cfg now c = Sweep
          then (\<lambda>c. c\<lparr>cn_last_sync_at := Some (sy_end env), cn_last_full_sweep_at := Some (sy_end env)\<rparr>)
          else (\<lambda>c. c\<lparr>cn_last_sync_at := Some (sy_end env)\<rparr>)"
      have eff: "case res of Inl e \<Rightarrow> w1 = w
          | Inr _ \<Rightarrow> connectors (working (iw_txn w1)) = connectors (set_connector cid ?upd (working (iw_txn w)))"
      proof (cases "due cfg now c = Sweep")
        case True
        then have "full_sweep (ingest_fresh icfg) cfg env c w = (res, w1)" using run by simp
        from full_sweep_connectors [OF w this] show ?thesis by (simp only: True if_True cid simp_thms)
      next
        case False
        then have "sync_incremental (ingest_fresh icfg) cfg env c w = (res, w1)" using run by simp
        from sync_incremental_connectors [OF w this] show ?thesis by (simp only: False if_False cid simp_thms)
      qed
      show ?thesis
      proof (cases res)
        case (Inl e)
        then have w1: "w1 = w" using eff by simp
        have "?w' = commit_update (set_connector cid (\<lambda>c. c\<lparr>cn_last_error := Some (exn_str e)\<rparr>)) (w\<lparr>iw_txn := txn_rollback (iw_txn w)\<rparr>)"
          unfolding run_one_def Some option.case using active run by (simp add: Inl w1)
        then show ?thesis using Some w active by (auto simp: find_set_connector ran_def settled_def)
      next
        case (Inr rep)
        have "?w' = commit_update (set_connector cid (\<lambda>c. c\<lparr>cn_last_error := None\<rparr>)) w1"
          unfolding run_one_def Some option.case using active run by (simp add: Inr)
        moreover have "find_connector (working (iw_txn w1)) j = find_connector (set_connector cid ?upd (working (iw_txn w))) j" for j
          using eff Inr by simp
        ultimately show ?thesis using Some active by (auto simp: find_set_connector ran_def)
      qed
    qed
  qed
  then show "settled ?w'" "j \<noteq> cid \<Longrightarrow> find_connector (working (iw_txn ?w')) j = find_connector (working (iw_txn w)) j"
    "find_connector (working (iw_txn w)) cid = Some c \<Longrightarrow>
       \<exists>c'. find_connector (working (iw_txn ?w')) cid = Some c' \<and> ran cfg now env c c'"
    by blast+
qed

lemma tick_loop_rows:
  assumes "settled w" and "distinct cids" and "find_connector (working (iw_txn w)) j = Some c"
  shows "settled (tick_loop (ingest_fresh icfg) cfg env locked now cids w)
     \<and> (\<exists>c'. find_connector (working (iw_txn (tick_loop (ingest_fresh icfg) cfg env locked now cids w))) j = Some c'
          \<and> (if j \<in> set cids \<and> \<not> locked j then ran cfg now (env j) c c' else c' = c))"
  using assms
proof (induction cids arbitrary: w c)
  case (Cons cid cids)
  let ?w1 = "if locked cid then w else run_one (ingest_fresh icfg) cfg (env cid) cid now w"
  note step = run_one_row [OF Cons.prems(1), where icfg = icfg and cfg = cfg and env = "env cid" and cid = cid and now = now]
  have s: "settled ?w1" using Cons.prems(1) step(1) by simp
  show ?case
  proof (cases "j = cid \<and> \<not> locked cid")
    case True
    then obtain c1 where c1: "find_connector (working (iw_txn ?w1)) j = Some c1" "ran cfg now (env j) c c1"
      using step(3) Cons.prems(3) by auto
    have "j \<notin> set cids" using True Cons.prems(2) by simp
    then show ?thesis using Cons.IH [OF s _ c1(1)] Cons.prems(2) c1(2) True by simp
  next
    case False
    then have c1: "find_connector (working (iw_txn ?w1)) j = Some c" using step(2) [of j] Cons.prems(3) by auto
    then show ?thesis using Cons.IH [OF s _ c1] Cons.prems(2) False by auto
  qed
qed simp

text \<open>
  C18. A tick runs exactly what is due: of every connector of the database, one that a manual run
  holds, that is disabled or that is due for nothing keeps its row; every other one is run
  whatever happened to the connectors before it, and its row then either records the error
  and keeps both time stamps, or has its error cleared and the new sync time, and the new
  sweep time exactly when the sweep was due.
\<close>

theorem tick_runs_what_is_due:
  assumes "settled w" and "distinct (map cn_id (connectors (working (iw_txn w))))"
    and "find_connector (committed (iw_txn w)) cid = Some c"
  shows "\<exists>c'. find_connector (committed (iw_txn (tick (ingest_fresh icfg) cfg env locked now w))) cid = Some c'
     \<and> (if locked cid then c' = c else ran cfg now (env cid) c c')"
proof -
  let ?s = "working (iw_txn w)"
  let ?ids = "map cn_id (filter cn_enabled (connectors ?s))"
  have eq: "committed (iw_txn w) = ?s" using assms(1) by (simp add: settled_def)
  have c: "c \<in> set (connectors ?s)" "cn_id c = cid" using assms(3) eq tbl_find_Some by (metis)+
  have "distinct ?ids" using assms(2) by (simp add: distinct_map_filter)
  moreover have "cid \<in> set ?ids \<longleftrightarrow> cn_enabled c"
    using c assms(2) by (auto simp: distinct_map inj_on_def)
  ultimately show ?thesis
    using tick_loop_rows [OF assms(1), of ?ids cid c icfg cfg env locked now] assms(3) eq
    by (auto simp: tick_def settled_def ran_def split: if_splits)
qed

theorem tick_runs_what_is_due_witness:
  "let w = sample_world\<lparr>iw_txn := begin_txn ((working (iw_txn sample_world))\<lparr>connectors := [sample_connector]\<rparr>)\<rparr> in
   \<exists>c'. find_connector (committed (iw_txn (tick (ingest_fresh default_settings) default_settings (\<lambda>_. sample_sync_env) (\<lambda>_. False) 7 w))) 3 = Some c'
     \<and> ((\<exists>e. c' = sample_connector\<lparr>cn_last_error := Some e\<rparr>)
        \<or> c' = sample_connector\<lparr>cn_last_sync_at := Some 2, cn_last_full_sweep_at := Some 2, cn_last_error := None\<rparr>)"
proof -
  let ?w = "sample_world\<lparr>iw_txn := begin_txn ((working (iw_txn sample_world))\<lparr>connectors := [sample_connector]\<rparr>)\<rparr>"
  have "settled ?w" "distinct (map cn_id (connectors (working (iw_txn ?w))))"
    "find_connector (committed (iw_txn ?w)) 3 = Some sample_connector"
    by (simp_all add: settled_def sample_connector_def)
  from tick_runs_what_is_due [OF this, of default_settings default_settings "\<lambda>_. sample_sync_env" "\<lambda>_. False" 7]
  show ?thesis by (simp add: ran_def due_def next_action_def sample_connector_def sample_sync_env_def)
qed

section \<open>Managing connectors\<close>

text \<open>
  A patch field of a request body: left out, or given, where an explicit \<open>null\<close> is \<open>Some None\<close>.
  Setting a column that is NOT NULL to \<open>null\<close> is refused by the database.
\<close>

type_synonym 'a field = "'a option option"

definition not_null_error :: exn where
  "not_null_error = PyError ''IntegrityError'' ''null value in column violates not-null constraint''"

definition patch :: "'a field \<Rightarrow> ('a \<Rightarrow> 'r \<Rightarrow> 'r) \<Rightarrow> 'r outcome \<Rightarrow> 'r outcome" where
  "patch fld upd r =
     (case fld of
        None \<Rightarrow> r
      | Some None \<Rightarrow> (case r of Inl e \<Rightarrow> Inl e | Inr _ \<Rightarrow> Inl not_null_error)
      | Some (Some v) \<Rightarrow> map_sum id (upd v) r)"

record connector_update =
  cu_name :: "string field"
  cu_collection :: "string field"
  cu_enabled :: "bool field"

definition get_or_404 :: "db \<Rightarrow> uuid \<Rightarrow> connector outcome" where
  "get_or_404 s cid =
     (case find_connector s cid of None \<Rightarrow> Inl (HTTPException 404 ''connector not found'') | Some row \<Rightarrow> Inr row)"

definition create_connector :: "uuid \<Rightarrow> string \<Rightarrow> string \<Rightarrow> bool \<Rightarrow> ingest_world \<Rightarrow> connector \<times> ingest_world" where
  "create_connector new_id name collection enabled w =
     (let row = \<lparr>cn_id = new_id, cn_type = ''s3'', cn_name = name, cn_collection = collection, cn_enabled = enabled,
                 cn_last_sync_at = None, cn_last_full_sweep_at = None, cn_last_error = None\<rparr>
      in (row, commit_update (\<lambda>s. s\<lparr>connectors := connectors s @ [row]\<rparr>) w))"

definition list_connectors :: "ingest_world \<Rightarrow> connector list" where
  "list_connectors w = connectors (working (iw_txn w))"

definition get_connector :: "uuid \<Rightarrow> ingest_world \<Rightarrow> connector outcome" where
  "get_connector cid w = get_or_404 (working (iw_txn w)) cid"

definition update_connector :: "uuid \<Rightarrow> connector_update \<Rightarrow> ingest_world \<Rightarrow> connector outcome \<times> ingest_world" where
  "update_connector cid body w =
     (case get_or_404 (working (iw_txn w)) cid of
        Inl e \<Rightarrow> (Inl e, w)
      | Inr row \<Rightarrow>
          (case patch (cu_enabled body) (\<lambda>v c. c\<lparr>cn_enabled := v\<rparr>)
                 (patch (cu_collection body) (\<lambda>v c. c\<lparr>cn_collection := v\<rparr>)
                   (patch (cu_name body) (\<lambda>v c. c\<lparr>cn_name := v\<rparr>) (Inr row))) of
             Inl e \<Rightarrow> (Inl e, w)
           | Inr row' \<Rightarrow> (Inr row', commit_update (set_connector cid (\<lambda>_. row')) w)))"

text \<open>The items of a connector go with it (\<open>ON DELETE CASCADE\<close>), its documents stay.\<close>

definition delete_connector :: "uuid \<Rightarrow> ingest_world \<Rightarrow> unit outcome \<times> ingest_world" where
  "delete_connector cid w =
     (case get_or_404 (working (iw_txn w)) cid of
        Inl e \<Rightarrow> (Inl e, w)
      | Inr row \<Rightarrow>
          (Inr (), commit_update (\<lambda>s. s\<lparr>connectors := tbl_del cn_id cid (connectors s),
             connector_items := filter (\<lambda>i. i_connector_id i \<noteq> cid) (connector_items s)\<rparr>) w))"

text \<open>\<open>POST /connectors/{id}/sync\<close>: only a \<open>ValueError\<close> of the sync becomes a 400.\<close>

definition sync_connector ::
  "'e ingest_fun \<Rightarrow> settings \<Rightarrow> 'e sync_env \<Rightarrow> (uuid \<Rightarrow> bool) \<Rightarrow> uuid \<Rightarrow> bool \<Rightarrow> ingest_world
     \<Rightarrow> sync_report outcome \<times> ingest_world" where
  "sync_connector ingest cfg env locked cid full w =
     (case get_or_404 (working (iw_txn w)) cid of
        Inl e \<Rightarrow> (Inl e, w)
      | Inr row \<Rightarrow>
          if locked cid then (Inl (HTTPException 409 ''sync already running''), w)
          else
            (case (if full then full_sweep ingest cfg env row w else sync_incremental ingest cfg env row w) of
               (Inl e, w') \<Rightarrow>
                 (case e of
                    PyError c m \<Rightarrow> if c = ''ValueError'' then (Inl (HTTPException 400 m), w') else (Inl e, w')
                  | HTTPException c m \<Rightarrow> (Inl e, w'))
             | (Inr rep, w') \<Rightarrow> (Inr rep, w')))"

section \<open>Manual and scheduled runs on one event loop\<close>

text \<open>
  The tasks that run syncs: manual requests and the scheduler. Between \<open>lock.locked()\<close> and the
  acquisition of a free lock nothing else runs on the event loop, so each of them is one step.
\<close>

datatype task = Manual nat | Scheduled

datatype event = Started task uuid | Finished task uuid | Rejected nat uuid | Skipped uuid

record loop_state =
  ls_lock :: "uuid \<Rightarrow> task option"
  ls_log :: "event list"

inductive loop_step :: "loop_state \<Rightarrow> loop_state \<Rightarrow> bool" where
  manual_start: "ls_lock st c = None \<Longrightarrow>
     loop_step st (st\<lparr>ls_lock := (ls_lock st)(c \<mapsto> Manual n), ls_log := ls_log st @ [Started (Manual n) c]\<rparr>)"
| manual_reject: "ls_lock st c \<noteq> None \<Longrightarrow> loop_step st (st\<lparr>ls_log := ls_log st @ [Rejected n c]\<rparr>)"
| scheduled_start: "ls_lock st c = None \<Longrightarrow> (\<forall>d. ls_lock st d \<noteq> Some Scheduled) \<Longrightarrow>
     loop_step st (st\<lparr>ls_lock := (ls_lock st)(c \<mapsto> Scheduled), ls_log := ls_log st @ [Started Scheduled c]\<rparr>)"
| scheduled_skip: "ls_lock st c \<noteq> None \<Longrightarrow> loop_step st (st\<lparr>ls_log := ls_log st @ [Skipped c]\<rparr>)"
| finish: "ls_lock st c = Some t \<Longrightarrow>
     loop_step st (st\<lparr>ls_lock := (ls_lock st)(c := None), ls_log := ls_log st @ [Finished t c]\<rparr>)"

inductive_simps loop_step_iff: "loop_step st st'"

definition idle :: loop_state where
  "idle = \<lparr>ls_lock = (\<lambda>_. None), ls_log = []\<rparr>"

text \<open>The run of a connector that is open after a log, or \<open>None\<close> when the log is not well-bracketed.\<close>

fun open_run :: "uuid \<Rightarrow> task option \<Rightarrow> event list \<Rightarrow> task option option" where
  "open_run c cur [] = Some cur"
| "open_run c cur (Started t d # es) =
     (if d \<noteq> c then open_run c cur es else if cur = None then open_run c (Some t) es else None)"
| "open_run c cur (Finished t d # es) =
     (if d \<noteq> c then open_run c cur es else if cur = Some t then open_run c None es else None)"
| "open_run c cur (Rejected n d # es) =
     (if d \<noteq> c then open_run c cur es else if cur \<noteq> None then open_run c cur es else None)"
| "open_run c cur (Skipped d # es) =
     (if d \<noteq> c then open_run c cur es else if cur \<noteq> None then open_run c cur es else None)"

lemma open_run_append: "open_run c cur (es @ fs) = (case open_run c cur es of None \<Rightarrow> None | Some x \<Rightarrow> open_run c x fs)"
  by (induction c cur es rule: open_run.induct) auto

lemma loop_step_open_run:
  "loop_step st st' \<Longrightarrow> \<forall>c. open_run c None (ls_log st) = Some (ls_lock st c) \<Longrightarrow>
     \<forall>c. open_run c None (ls_log st') = Some (ls_lock st' c)"
  by (induction rule: loop_step.induct) (auto simp: open_run_append)

text \<open>
  C23. Runs of one connector never overlap: in every state the event loop can reach, the log of a
  connector consists of properly bracketed runs, each finished by the task that started it
  before another one starts, the lock is held exactly by the run that is open, and a manual
  request is refused, or the scheduler passes by, only while a run is open.
\<close>

theorem runs_never_overlap:
  assumes "loop_step\<^sup>*\<^sup>* idle st"
  shows "open_run c None (ls_log st) = Some (ls_lock st c)"
proof -
  have "\<forall>c. open_run c None (ls_log st) = Some (ls_lock st c)"
    using assms by (induction rule: rtranclp_induct) (auto simp: idle_def dest: loop_step_open_run)
  then show ?thesis by blast
qed

theorem runs_never_overlap_witness:
  "\<exists>st. loop_step\<^sup>*\<^sup>* idle st \<and> ls_log st = [Started (Manual 1) 3, Skipped 3, Finished (Manual 1) 3]
     \<and> open_run 3 None (ls_log st) = Some None"
proof -
  define a where "a = idle\<lparr>ls_lock := (ls_lock idle)(3 \<mapsto> Manual 1), ls_log := ls_log idle @ [Started (Manual 1) 3]\<rparr>"
  define b where "b = a\<lparr>ls_log := ls_log a @ [Skipped 3]\<rparr>"
  define d where "d = b\<lparr>ls_lock := (ls_lock b)(3 := None), ls_log := ls_log b @ [Finished (Manual 1) 3]\<rparr>"
  have "loop_step idle a" unfolding a_def by (rule manual_start) (simp add: idle_def)
  moreover have "loop_step a b" unfolding b_def by (rule scheduled_skip) (simp add: a_def)
  moreover have "loop_step b d" unfolding d_def by (rule finish) (simp add: b_def a_def)
  ultimately have r: "loop_step\<^sup>*\<^sup>* idle d" by (meson r_into_rtranclp rtranclp_trans)
  have "ls_log d = [Started (Manual 1) 3, Skipped 3, Finished (Manual 1) 3]" "ls_lock d 3 = None"
    by (simp_all add: d_def b_def a_def idle_def)
  with runs_never_overlap [OF r, of 3] r show ?thesis by auto
qed

end
