(* ===== verification/Admin_Rules.thy ===== *)
theory Admin_Rules imports Scheduler Arms begin

text \<open>
  The access rules of \<open>prorag/admin/router.py\<close>: drafting, editing, previewing, confirming and
  deleting a rule, and the audit feed of its grants. A handler is given its session and returns
  its answer and the session; what it did not commit is lost when the request ends. The
  provider of embeddings and the vector distance of PostgreSQL are the parameters the retrieval
  arms use. \<open>created_at\<close> of rules and grants is the time of insertion, so newest first is the
  reverse of the order of the rows.
\<close>

section \<open>Candidates\<close>

definition get_rule_or_404 :: "db \<Rightarrow> uuid \<Rightarrow> access_rule outcome" where
  "get_rule_or_404 s rid =
     (case tbl_find r_id rid (access_rules s) of
        None \<Rightarrow> Inl (HTTPException 404 ''rule not found'') | Some r \<Rightarrow> Inr r)"

text \<open>The rows of one group of \<open>GROUP BY documents.id\<close>, and \<open>max(1 - distance)\<close> over them.\<close>

definition rows_of :: "db \<Rightarrow> document \<Rightarrow> joined_row list" where
  "rows_of s d = filter (\<lambda>r. snd r = d) (joined s)"

definition best_similarity :: "settings \<Rightarrow> engine \<Rightarrow> real list \<Rightarrow> db \<Rightarrow> document \<Rightarrow> real" where
  "best_similarity cfg e emb s d = Max (set (map (\<lambda>r. 1 - distance_expr cfg e emb r) (rows_of s d)))"

text \<open>A document without chunks has no group. Ties of the order are taken in table order.\<close>

definition rule_candidates :: "settings \<Rightarrow> engine \<Rightarrow> real list \<Rightarrow> db \<Rightarrow> (document \<times> real) list" where
  "rule_candidates cfg e emb s =
     sort_desc snd
       (filter (\<lambda>(d, sim). rule_similarity_floor cfg \<le> sim)
         (map (\<lambda>d. (d, best_similarity cfg e emb s d))
           (filter (\<lambda>d. d_status d = Ready \<and> rows_of s d \<noteq> []) (documents s))))"

section \<open>Drafting and editing\<close>

definition commit_db :: "(db \<Rightarrow> db) \<Rightarrow> txn \<Rightarrow> txn" where
  "commit_db f t = txn_commit (txn_update f t)"

definition set_rule :: "uuid \<Rightarrow> (access_rule \<Rightarrow> access_rule) \<Rightarrow> db \<Rightarrow> db" where
  "set_rule rid f s = s\<lparr>access_rules := map (\<lambda>r. if r_id r = rid then f r else r) (access_rules s)\<rparr>"

definition create_rule :: "uuid \<Rightarrow> string \<Rightarrow> string \<Rightarrow> uuid \<Rightarrow> txn \<Rightarrow> access_rule outcome \<times> txn" where
  "create_rule new_id name nl_query group_id t =
     (if find_group (working t) group_id = None then (Inl (HTTPException 404 ''group not found''), t)
      else
        (let rule = \<lparr>r_id = new_id, r_name = name, r_nl_query = nl_query, r_group_id = group_id, r_state = Draft,
                     r_query_embedding = None, r_confirmed_at = None\<rparr>
         in (Inr rule, commit_db (\<lambda>s. s\<lparr>access_rules := access_rules s @ [rule]\<rparr>) t)))"

definition list_rules :: "txn \<Rightarrow> access_rule list" where
  "list_rules t = rev (access_rules (working t))"

definition get_rule :: "uuid \<Rightarrow> txn \<Rightarrow> access_rule outcome" where
  "get_rule rid t = get_rule_or_404 (working t) rid"

record rule_update =
  ru_name :: "string field"
  ru_nl_query :: "string field"
  ru_group_id :: "uuid field"

definition update_rule :: "uuid \<Rightarrow> rule_update \<Rightarrow> txn \<Rightarrow> access_rule outcome \<times> txn" where
  "update_rule rid body t =
     (case get_rule_or_404 (working t) rid of
        Inl e \<Rightarrow> (Inl e, t)
      | Inr rule \<Rightarrow>
          if r_state rule \<noteq> Draft then
            (Inl (HTTPException 400 ''rule is confirmed; delete and recreate it to change it''), t)
          else if (case ru_group_id body of Some (Some g) \<Rightarrow> find_group (working t) g = None | _ \<Rightarrow> False) then
            (Inl (HTTPException 404 ''group not found''), t)
          else
            (case patch (ru_group_id body) (\<lambda>v r. r\<lparr>r_group_id := v\<rparr>)
                   (patch (ru_nl_query body) (\<lambda>v r. r\<lparr>r_nl_query := v\<rparr>)
                     (patch (ru_name body) (\<lambda>v r. r\<lparr>r_name := v\<rparr>) (Inr rule))) of
               Inl e \<Rightarrow> (Inl e, t)
             | Inr rule' \<Rightarrow> (Inr rule', commit_db (set_rule rid (\<lambda>_. rule')) t)))"

definition delete_rule :: "uuid \<Rightarrow> txn \<Rightarrow> unit outcome \<times> txn" where
  "delete_rule rid t =
     (case get_rule_or_404 (working t) rid of
        Inl e \<Rightarrow> (Inl e, t)
      | Inr rule \<Rightarrow>
          (Inr (), commit_db (\<lambda>s. s\<lparr>document_acl := filter (\<lambda>a. a_source a \<noteq> AclRule (r_id rule)) (document_acl s),
                                   access_rules := tbl_del r_id rid (access_rules s)\<rparr>) t))"

section \<open>Preview and confirm\<close>

text \<open>\<open>[embedding] = await embed_texts([rule.nl_query], session=session)\<close>\<close>

definition embed_query :: "settings \<Rightarrow> provider \<Rightarrow> datetime \<Rightarrow> string \<Rightarrow> txn \<Rightarrow> real list outcome \<times> txn" where
  "embed_query cfg prov now query t =
     (case embed_texts cfg prov now [query] None (Some t) of
        (res, t') \<Rightarrow>
          ((case res of
              Inl e \<Rightarrow> Inl e
            | Inr [v] \<Rightarrow> Inr v
            | Inr _ \<Rightarrow> Inl (PyError ''ValueError'' ''wrong number of values to unpack'')), the t'))"

record sample_item =
  si_doc_id :: uuid
  si_filename :: string
  si_title :: "string option"
  si_similarity :: real

record rule_preview =
  pv_count :: nat
  pv_sample :: "sample_item list"
  pv_similarity_floor :: real

definition preview_rule :: "settings \<Rightarrow> provider \<Rightarrow> engine \<Rightarrow> datetime \<Rightarrow> uuid \<Rightarrow> txn \<Rightarrow> rule_preview outcome \<times> txn" where
  "preview_rule cfg prov e now rid t =
     (case get_rule_or_404 (working t) rid of
        Inl ex \<Rightarrow> (Inl ex, t)
      | Inr rule \<Rightarrow>
          (case embed_query cfg prov now (r_nl_query rule) t of
             (Inl ex, t') \<Rightarrow> (Inl ex, t')
           | (Inr embedding, t') \<Rightarrow>
               (let rows = rule_candidates cfg e embedding (working t')
                in (Inr \<lparr>pv_count = length rows,
                         pv_sample = map (\<lambda>(d, sim). \<lparr>si_doc_id = d_id d, si_filename = d_filename d,
                                                      si_title = d_title d, si_similarity = sim\<rparr>) (take 10 rows),
                         pv_similarity_floor = rule_similarity_floor cfg\<rparr>, t'))))"

text \<open>
  The \<open>INSERT ... SELECT ... WHERE NOT EXISTS\<close>: one statement, so the grants it looks at are
  those from before it.
\<close>

definition insert_grants :: "access_rule \<Rightarrow> uuid list \<Rightarrow> db \<Rightarrow> db" where
  "insert_grants rule doc_ids s =
     s\<lparr>document_acl := document_acl s @
        map (\<lambda>d. rule_grant d rule) (filter (\<lambda>d. rule_grant d rule \<notin> set (document_acl s)) doc_ids)\<rparr>"

definition confirm_rule :: "settings \<Rightarrow> provider \<Rightarrow> engine \<Rightarrow> datetime \<Rightarrow> uuid \<Rightarrow> txn \<Rightarrow> access_rule outcome \<times> txn" where
  "confirm_rule cfg prov e now rid t =
     (case get_rule_or_404 (working t) rid of
        Inl ex \<Rightarrow> (Inl ex, t)
      | Inr rule \<Rightarrow>
          if r_state rule = Confirmed then (Inl (HTTPException 400 ''rule already confirmed''), t)
          else
            (case embed_query cfg prov now (r_nl_query rule) t of
               (Inl ex, t') \<Rightarrow> (Inl ex, t')
             | (Inr embedding, t') \<Rightarrow>
                 (let doc_ids = map (\<lambda>(d, sim). d_id d) (rule_candidates cfg e embedding (working t'));
                      rule' = rule\<lparr>r_query_embedding := Some embedding, r_state := Confirmed, r_confirmed_at := Some now\<rparr>
                  in (Inr rule', commit_db (insert_grants rule' doc_ids \<circ> set_rule rid (\<lambda>_. rule')) t'))))"

section \<open>The audit feed\<close>

text \<open>A query parameter outside its declared range is refused before the handler runs.\<close>

definition in_range :: "int \<Rightarrow> int \<Rightarrow> int \<Rightarrow> 'a outcome \<Rightarrow> 'a outcome" where
  "in_range low high v k = (if low \<le> v \<and> v \<le> high then k else Inl (HTTPException 422 ''Unprocessable Entity''))"

definition at_least :: "int \<Rightarrow> int \<Rightarrow> 'a outcome \<Rightarrow> 'a outcome" where
  "at_least low v k = (if low \<le> v then k else Inl (HTTPException 422 ''Unprocessable Entity''))"

record 'r paged =
  pg_items :: "'r list"
  pg_total :: nat

definition rule_grants :: "uuid \<Rightarrow> int \<Rightarrow> int \<Rightarrow> txn \<Rightarrow> (uuid \<times> string) paged outcome" where
  "rule_grants rid limit offset t =
     in_range 1 200 limit (at_least 0 offset
       (case get_rule_or_404 (working t) rid of
          Inl e \<Rightarrow> Inl e
        | Inr rule \<Rightarrow>
            (let s = working t; acls = filter (\<lambda>a. a_source a = AclRule (r_id rule)) (document_acl s);
                 rows = [(a_doc_id a, d_filename d). a \<leftarrow> rev acls, d \<leftarrow> documents s, d_id d = a_doc_id a]
             in Inr \<lparr>pg_items = take (nat limit) (drop (nat offset) rows), pg_total = length acls\<rparr>)))"

section \<open>Lemmas\<close>

lemma commit_db_simps [simp]:
  "working (commit_db f t) = f (working t)" "committed (commit_db f t) = f (working t)"
  by (simp_all add: commit_db_def)

lemma get_rule_or_404_Inr:
  "get_rule_or_404 s rid = Inr r \<longleftrightarrow> tbl_find r_id rid (access_rules s) = Some r"
  by (simp add: get_rule_or_404_def split: option.split)

lemma get_rule_id: "get_rule_or_404 s rid = Inr r \<Longrightarrow> r_id r = rid \<and> r \<in> set (access_rules s)"
  using tbl_find_Some [of r_id rid "access_rules s" r] by (simp add: get_rule_or_404_Inr)

lemma find_set_rule:
  assumes "\<And>r. r_id r = rid \<Longrightarrow> r_id (f r) = rid"
  shows "tbl_find r_id j (access_rules (set_rule rid f s))
     = (if j = rid then map_option f (tbl_find r_id j (access_rules s)) else tbl_find r_id j (access_rules s))"
proof -
  have "tbl_find r_id j (map (\<lambda>r. if r_id r = rid then f r else r) rs)
      = (if j = rid then map_option f (tbl_find r_id j rs) else tbl_find r_id j rs)" for rs
    by (induction rs) (auto simp: assms)
  then show ?thesis by (simp add: set_rule_def)
qed

lemma only_usage_rows:
  assumes "only_usage t t'"
  shows "committed t' = committed t" "documents (working t') = documents (working t)" "chunks (working t') = chunks (working t)"
    "document_acl (working t') = document_acl (working t)" "access_rules (working t') = access_rules (working t)"
    "users (working t') = users (working t)" "user_groups (working t') = user_groups (working t)"
  using assms by (auto simp: only_usage_def)

lemma embed_query_usage: "embed_query cfg prov now query t = (res, t') \<Longrightarrow> only_usage t t'"
  using embed_texts_only_usage [of cfg prov now "[query]" None t]
  by (auto simp: embed_query_def split: prod.splits)

lemma joined_cong: "chunks s = chunks s' \<Longrightarrow> documents s = documents s' \<Longrightarrow> joined s = joined s'"
  by (simp add: joined_def)

lemma rule_candidates_cong:
  "chunks s = chunks s' \<Longrightarrow> documents s = documents s' \<Longrightarrow> rule_candidates cfg e emb s = rule_candidates cfg e emb s'"
  using joined_cong [of s s'] by (simp add: rule_candidates_def best_similarity_def rows_of_def)

text \<open>Membership of the candidate list, chunk by chunk.\<close>

definition admitted :: "settings \<Rightarrow> engine \<Rightarrow> real list \<Rightarrow> db \<Rightarrow> document \<Rightarrow> bool" where
  "admitted cfg e emb s d \<longleftrightarrow> d_status d = Ready
     \<and> (\<exists>c\<in>set (chunks s). c_doc_id c = d_id d \<and> rule_similarity_floor cfg \<le> 1 - distance_expr cfg e emb (c, d))"

lemma set_rows_of: "d \<in> set (documents s) \<Longrightarrow> set (rows_of s d) = (\<lambda>c. (c, d)) ` {c \<in> set (chunks s). c_doc_id c = d_id d}"
  by (auto simp: rows_of_def joined_def)

lemma best_similarity_ge:
  assumes "rows_of s d \<noteq> []"
  shows "x \<le> best_similarity cfg e emb s d \<longleftrightarrow> (\<exists>r\<in>set (rows_of s d). x \<le> 1 - distance_expr cfg e emb r)"
  using assms by (simp add: best_similarity_def Max_ge_iff)

lemma set_rule_candidates:
  "fst ` set (rule_candidates cfg e emb s) = {d \<in> set (documents s). admitted cfg e emb s d}"
proof -
  have "rows_of s d \<noteq> [] \<and> rule_similarity_floor cfg \<le> best_similarity cfg e emb s d
      \<longleftrightarrow> (\<exists>c\<in>set (chunks s). c_doc_id c = d_id d \<and> rule_similarity_floor cfg \<le> 1 - distance_expr cfg e emb (c, d))"
    if "d \<in> set (documents s)" for d
  proof (cases "rows_of s d = []")
    case True
    then have "{c \<in> set (chunks s). c_doc_id c = d_id d} = {}" using set_rows_of [OF that] by simp
    then show ?thesis using True by blast
  next
    case False
    then show ?thesis unfolding best_similarity_ge [OF False] set_rows_of [OF that] by auto
  qed
  then show ?thesis by (force simp: rule_candidates_def admitted_def)
qed

lemma distinct_rule_candidates:
  assumes "distinct (map d_id (documents s))"
  shows "distinct (map (\<lambda>(d, sim). d_id d) (rule_candidates cfg e emb s))"
proof -
  let ?f = "\<lambda>d. (d, best_similarity cfg e emb s d)"
  have "distinct (map (\<lambda>(d, sim). d_id d) (filter P (map ?f (filter Q (documents s)))))" for P Q
    using assms by (simp add: distinct_map_filter filter_map o_def)
  then show ?thesis unfolding rule_candidates_def by (simp only: distinct_map_sort_desc)
qed

section \<open>Confirming and deleting\<close>

lemma confirm_rule_run:
  assumes "confirm_rule cfg prov e now rid t = (Inr rule', t')"
  obtains rule emb t1 where "get_rule_or_404 (working t) rid = Inr rule" "r_state rule = Draft"
    "embed_query cfg prov now (r_nl_query rule) t = (Inr emb, t1)"
    "rule' = rule\<lparr>r_query_embedding := Some emb, r_state := Confirmed, r_confirmed_at := Some now\<rparr>"
    "t' = commit_db (insert_grants rule' (map (\<lambda>(d, sim). d_id d) (rule_candidates cfg e emb (working t1))) \<circ> set_rule rid (\<lambda>_. rule')) t1"
proof (cases "get_rule_or_404 (working t) rid")
  case (Inl e)
  then show ?thesis using assms by (simp add: confirm_rule_def)
next
  case (Inr rule)
  then have st: "r_state rule \<noteq> Confirmed" using assms by (auto simp: confirm_rule_def)
  then have draft: "r_state rule = Draft" by (cases "r_state rule") simp_all
  obtain res t1 where e: "embed_query cfg prov now (r_nl_query rule) t = (res, t1)" by fastforce
  show ?thesis
  proof (cases res)
    case (Inl e')
    then show ?thesis using assms Inr e st by (simp add: confirm_rule_def)
  next
    case emb: (Inr emb)
    show ?thesis
      by (rule that [OF Inr draft e [unfolded emb]]) (use assms Inr e emb st in \<open>auto simp: confirm_rule_def Let_def\<close>)
  qed
qed

lemma rule_grant_cong: "r_id r = r_id r' \<Longrightarrow> r_group_id r = r_group_id r' \<Longrightarrow> rule_grant d r = rule_grant d r'"
  by (simp add: rule_grant_def)

lemma rule_grant_source [simp]: "a_source (rule_grant d r) = AclRule (r_id r)" "rule_grant d r = rule_grant d' r \<longleftrightarrow> d = d'"
  by (auto simp: rule_grant_def)

lemma confirm_rule_grants:
  assumes run: "confirm_rule cfg prov e now rid t = (Inr rule', t')"
  shows "\<exists>emb. r_query_embedding rule' = Some emb \<and> r_state rule' = Confirmed \<and> r_id rule' = rid
     \<and> get_rule_or_404 (working t') rid = Inr rule' \<and> working t' = committed t'
     \<and> (\<exists>r\<in>set (access_rules (working t)). r_id r = rid \<and> r_group_id r = r_group_id rule')
     \<and> document_acl (committed t') = document_acl (working t) @
         map (\<lambda>d. rule_grant d rule') (filter (\<lambda>d. rule_grant d rule' \<notin> set (document_acl (working t)))
           (map (\<lambda>(d, sim). d_id d) (rule_candidates cfg e emb (working t))))
     \<and> user_groups (committed t') = user_groups (working t) \<and> documents (committed t') = documents (working t)
     \<and> map r_id (access_rules (committed t')) = map r_id (access_rules (working t))"
proof -
  from confirm_rule_run [OF run] obtain rule emb t1 where
    r: "get_rule_or_404 (working t) rid = Inr rule" and e: "embed_query cfg prov now (r_nl_query rule) t = (Inr emb, t1)"
    and rule': "rule' = rule\<lparr>r_query_embedding := Some emb, r_state := Confirmed, r_confirmed_at := Some now\<rparr>"
    and t': "t' = commit_db (insert_grants rule' (map (\<lambda>(d, sim). d_id d) (rule_candidates cfg e emb (working t1))) \<circ> set_rule rid (\<lambda>_. rule')) t1"
    by metis
  note u = only_usage_rows [OF embed_query_usage [OF e]]
  note id = get_rule_id [OF r]
  have c: "rule_candidates cfg e emb (working t1) = rule_candidates cfg e emb (working t)"
    by (rule rule_candidates_cong) (simp_all add: u)
  have "get_rule_or_404 (working t') rid = Inr rule'"
    using r id find_set_rule [of rid "\<lambda>_. rule'" rid "working t1"]
    by (simp add: t' get_rule_or_404_Inr insert_grants_def u rule')
  moreover have "map r_id (access_rules (committed t')) = map r_id (access_rules (working t))"
    using id by (auto simp: t' insert_grants_def set_rule_def u rule')
  moreover have "\<exists>r\<in>set (access_rules (working t)). r_id r = rid \<and> r_group_id r = r_group_id rule'"
    using id by (intro bexI [of _ rule]) (simp_all add: rule')
  ultimately show ?thesis
    using id by (intro exI [of _ emb] conjI) (simp_all add: t' rule' c u insert_grants_def set_rule_def)
qed

text \<open>
  C7. Confirming a rule grants its group exactly the documents that match: afterwards the grants
  tagged with the rule are those from before and one for every ready document with a chunk whose
  similarity to the stored query vector reaches the floor; no such grant is written twice, every
  other grant is untouched, the rule is stored as confirmed with that vector, and confirming it
  again, with whatever provider and distances, is refused and changes nothing.
\<close>

theorem confirm_grants_exactly:
  assumes "distinct (map d_id (documents (working t)))"
    and "confirm_rule cfg prov e now rid t = (Inr rule', t')"
  shows "(\<exists>emb. r_query_embedding rule' = Some emb
       \<and> {a \<in> set (document_acl (committed t')). a_source a = AclRule rid} =
           {a \<in> set (document_acl (working t)). a_source a = AclRule rid}
           \<union> {rule_grant (d_id d) rule' |d. d \<in> set (documents (working t)) \<and> admitted cfg e emb (working t) d})
     \<and> filter (\<lambda>a. a_source a \<noteq> AclRule rid) (document_acl (committed t')) = filter (\<lambda>a. a_source a \<noteq> AclRule rid) (document_acl (working t))
     \<and> distinct (drop (length (document_acl (working t))) (document_acl (committed t')))
     \<and> set (drop (length (document_acl (working t))) (document_acl (committed t'))) \<inter> set (document_acl (working t)) = {}
     \<and> r_state rule' = Confirmed \<and> get_rule_or_404 (committed t') rid = Inr rule'
     \<and> confirm_rule cfg' prov' e' later rid t' = (Inl (HTTPException 400 ''rule already confirmed''), t')"
proof -
  from confirm_rule_grants [OF assms(2)] obtain emb where
    emb: "r_query_embedding rule' = Some emb" and st: "r_state rule' = Confirmed" and id: "r_id rule' = rid"
    and g: "get_rule_or_404 (working t') rid = Inr rule'" and w: "working t' = committed t'"
    and acl: "document_acl (committed t') = document_acl (working t) @
         map (\<lambda>d. rule_grant d rule') (filter (\<lambda>d. rule_grant d rule' \<notin> set (document_acl (working t)))
           (map (\<lambda>(d, sim). d_id d) (rule_candidates cfg e emb (working t))))"
    by blast
  have cand: "set (map (\<lambda>(d, sim). d_id d) (rule_candidates cfg e emb (working t)))
      = d_id ` {d \<in> set (documents (working t)). admitted cfg e emb (working t) d}"
    unfolding set_rule_candidates [symmetric] by (force simp: image_image case_prod_beta)
  have grants: "{a \<in> set (document_acl (committed t')). a_source a = AclRule rid} =
      {a \<in> set (document_acl (working t)). a_source a = AclRule rid}
      \<union> {rule_grant (d_id d) rule' |d. d \<in> set (documents (working t)) \<and> admitted cfg e emb (working t) d}"
    unfolding acl set_append set_map [of "\<lambda>d. rule_grant d rule'"] set_filter cand using id by auto
  have dist: "distinct (map (\<lambda>d. rule_grant d rule') (filter (\<lambda>d. rule_grant d rule' \<notin> set (document_acl (working t)))
      (map (\<lambda>(d, sim). d_id d) (rule_candidates cfg e emb (working t)))))"
    using distinct_rule_candidates [OF assms(1)] by (auto simp: distinct_map inj_on_def)
  have "filter (\<lambda>a. a_source a \<noteq> AclRule rid) (document_acl (committed t')) = filter (\<lambda>a. a_source a \<noteq> AclRule rid) (document_acl (working t))"
    by (simp add: acl id filter_map o_def)
  moreover have "distinct (drop (length (document_acl (working t))) (document_acl (committed t')))"
    using dist by (simp add: acl)
  moreover have "set (drop (length (document_acl (working t))) (document_acl (committed t'))) \<inter> set (document_acl (working t)) = {}"
    by (auto simp: acl)
  moreover have "confirm_rule cfg' prov' e' later rid t' = (Inl (HTTPException 400 ''rule already confirmed''), t')"
    using g st by (simp add: confirm_rule_def)
  ultimately show ?thesis using grants emb st g w by simp
qed


text \<open>
  A preview changes nothing and foretells the confirmation: with the same answers of provider
  and database, confirming a draft rule right after previewing it succeeds and concerns exactly as many
  documents as were announced; the sample lists documents that are then granted, most similar
  first and none below the floor.
\<close>

lemma preview_foretells_confirm:
  assumes "preview_rule cfg prov e now rid t = (Inr pv, tp)"
    and "get_rule_or_404 (working t) rid = Inr rule" and "r_state rule = Draft"
    and "distinct (map d_id (documents (working t)))"
  shows "committed tp = committed t
     \<and> (\<exists>rule' t' emb. confirm_rule cfg prov e now rid t = (Inr rule', t') \<and> r_query_embedding rule' = Some emb
          \<and> pv_count pv = card (d_id ` {d \<in> set (documents (working t)). admitted cfg e emb (working t) d})
          \<and> length (pv_sample pv) = min 10 (pv_count pv)
          \<and> (\<forall>i\<in>set (pv_sample pv). rule_grant (si_doc_id i) rule' \<in> set (document_acl (committed t'))
                \<and> rule_similarity_floor cfg \<le> si_similarity i)
          \<and> sorted_desc si_similarity (pv_sample pv))"
proof -
  obtain res t1 where e: "embed_query cfg prov now (r_nl_query rule) t = (res, t1)" by fastforce
  then obtain emb where "res = Inr emb" using assms(1,2) by (cases res) (simp_all add: preview_rule_def)
  note e = e [unfolded this]
  have pv: "pv = \<lparr>pv_count = length (rule_candidates cfg e emb (working t1)),
                         pv_sample = map (\<lambda>(d, sim). \<lparr>si_doc_id = d_id d, si_filename = d_filename d,
                                                      si_title = d_title d, si_similarity = sim\<rparr>) (take 10 (rule_candidates cfg e emb (working t1))),
                         pv_similarity_floor = rule_similarity_floor cfg\<rparr>" and tp: "tp = t1"
    using assms(1,2) e by (auto simp: preview_rule_def Let_def)
  note u = only_usage_rows [OF embed_query_usage [OF e]]
  let ?rows = "rule_candidates cfg e emb (working t)"
  have c: "rule_candidates cfg e emb (working t1) = ?rows"
    by (rule rule_candidates_cong) (simp_all add: u)
  obtain rule' t' where run: "confirm_rule cfg prov e now rid t = (Inr rule', t')" and q: "r_query_embedding rule' = Some emb"
    using assms(2,3) e by (auto simp: confirm_rule_def Let_def)
  obtain emb' where "r_query_embedding rule' = Some emb'"
    and acl: "document_acl (committed t') = document_acl (working t) @
         map (\<lambda>d. rule_grant d rule') (filter (\<lambda>d. rule_grant d rule' \<notin> set (document_acl (working t)))
           (map (\<lambda>(d, sim). d_id d) (rule_candidates cfg e emb' (working t))))"
    using confirm_rule_grants [OF run] by blast
  then have acl: "set (map (\<lambda>(d, sim). d_id d) ?rows) \<subseteq> {d. rule_grant d rule' \<in> set (document_acl (committed t'))}"
    using q by auto
  have cand: "set (map (\<lambda>(d, sim). d_id d) ?rows) = d_id ` {d \<in> set (documents (working t)). admitted cfg e emb (working t) d}"
    unfolding set_rule_candidates [symmetric] by (force simp: image_image case_prod_beta)
  have n: "pv_count pv = card (d_id ` {d \<in> set (documents (working t)). admitted cfg e emb (working t) d})"
    using distinct_card [OF distinct_rule_candidates [OF assms(4)], of cfg e emb] unfolding cand by (simp add: pv c)
  have m: "length (pv_sample pv) = min 10 (pv_count pv)" by (simp add: pv min_def)
  have g: "rule_grant (si_doc_id i) rule' \<in> set (document_acl (committed t')) \<and> rule_similarity_floor cfg \<le> si_similarity i"
    if i: "i \<in> set (pv_sample pv)" for i
  proof -
    from i obtain d sim where r: "(d, sim) \<in> set ?rows" and i: "si_doc_id i = d_id d" "si_similarity i = sim"
      by (auto simp: pv c dest!: in_set_takeD)
    have "d_id d \<in> set (map (\<lambda>(d, sim). d_id d) ?rows)" using r by force
    moreover have "rule_similarity_floor cfg \<le> sim" using r by (auto simp: rule_candidates_def)
    ultimately show ?thesis using acl i by auto
  qed
  have "sorted_desc snd (take 10 ?rows)"
    unfolding rule_candidates_def by (rule sorted_desc_take [OF sorted_desc_sort_desc])
  then have "sorted_desc si_similarity (pv_sample pv)"
    by (simp add: pv c sorted_desc_def sorted_wrt_map case_prod_beta)
  then show ?thesis using tp u(1) run q n m g by blast
qed

section \<open>Auto-admission and confirmation agree\<close>

text \<open>What pgvector documents of its cosine distance, for vectors that are not zero.\<close>

definition cosine_distance :: "real list \<Rightarrow> real list \<Rightarrow> real" where
  "cosine_distance a b = 1 - dot a b / (sqrt (dot a a) * sqrt (dot b b))"

lemma any_match_exact:
  assumes "\<forall>c\<in>set cs. length (c_embedding c) = length emb \<and> dot (c_embedding c) (c_embedding c) \<noteq> 0" and "dot emb emb \<noteq> 0"
  shows "any_match fl emb cs = Inr (\<exists>c\<in>set cs. fl \<le> 1 - cosine_distance (c_embedding c) emb)"
  using assms
proof (induction cs)
  case (Cons c cs)
  have "cosine_similarity (c_embedding c) emb = Inr (1 - cosine_distance (c_embedding c) emb)"
    using Cons.prems by (simp add: cosine_similarity_def cosine_distance_def Let_def)
  then show ?case using Cons by simp
qed simp


section \<open>Samples\<close>

definition sample_rule :: access_rule where
  "sample_rule = \<lparr>r_id = 9, r_name = ''r'', r_nl_query = ''fire'', r_group_id = 2, r_state = Draft,
     r_query_embedding = None, r_confirmed_at = None\<rparr>"

definition rules_db :: db where
  "rules_db = sample_db\<lparr>access_rules := [sample_rule]\<rparr>"

lemma sample_embed_query: "fst (embed_query default_settings sample_embedder 0 ''fire'' (begin_txn rules_db)) = Inr [4]"
  by (simp add: embed_query_def embed_texts_def sample_embedder_def openrouter_prefix_def py_startswith_def usage_tokens_def Let_def split: prod.split)

lemma sample_confirm:
  "\<exists>rule' t'. confirm_rule default_settings sample_embedder sample_engine 0 9 (begin_txn rules_db) = (Inr rule', t')"
proof -
  obtain t1 where "embed_query default_settings sample_embedder 0 ''fire'' (begin_txn rules_db) = (Inr [4], t1)"
    using sample_embed_query by (metis prod.collapse)
  then show ?thesis by (simp add: confirm_rule_def get_rule_or_404_def rules_db_def sample_rule_def Let_def)
qed

lemma rules_db_rows:
  "distinct (map d_id (documents rules_db))" "document_acl rules_db = [public_grant 5]" "access_rules rules_db = [sample_rule]"
  by (simp_all add: rules_db_def sample_db_def sample_document_def)

theorem confirm_grants_exactly_witness:
  "\<exists>rule' t'. confirm_rule default_settings sample_embedder sample_engine 0 9 (begin_txn rules_db) = (Inr rule', t')
     \<and> get_rule_or_404 (committed t') 9 = Inr rule' \<and> r_state rule' = Confirmed"
proof -
  obtain rule' t' where run: "confirm_rule default_settings sample_embedder sample_engine 0 9 (begin_txn rules_db) = (Inr rule', t')"
    using sample_confirm by blast
  from confirm_grants_exactly [OF _ run] rules_db_rows run show ?thesis by simp
qed


lemma preview_foretells_confirm_witness:
  "\<exists>pv tp. preview_rule default_settings sample_embedder sample_engine 0 9 (begin_txn rules_db) = (Inr pv, tp)
     \<and> committed tp = rules_db \<and> length (pv_sample pv) = min 10 (pv_count pv)"
proof -
  obtain t1 where e: "embed_query default_settings sample_embedder 0 ''fire'' (begin_txn rules_db) = (Inr [4], t1)"
    using sample_embed_query by (metis prod.collapse)
  then obtain pv tp where run: "preview_rule default_settings sample_embedder sample_engine 0 9 (begin_txn rules_db) = (Inr pv, tp)"
    by (simp add: preview_rule_def get_rule_or_404_def rules_db_def sample_rule_def Let_def)
  have "get_rule_or_404 (working (begin_txn rules_db)) 9 = Inr sample_rule" by (simp add: get_rule_or_404_def rules_db_rows sample_rule_def)
  from preview_foretells_confirm [OF run this] rules_db_rows run show ?thesis by (auto simp: sample_rule_def)
qed


end
