(* ===== verification/Admin_People.thy ===== *)
theory Admin_People imports Admin_Rules Cost_Budget begin

text \<open>
  The rest of \<open>prorag/admin/router.py\<close>: the document list and the provenance of its grants, users,
  local groups and their members, what a user can see, and the usage report. The order in which
  joined rows come back is not specified by the code; table order is taken. \<open>created_at\<close> of users
  is the time of insertion.
\<close>

section \<open>Documents\<close>

text \<open>SQL \<open>LIKE\<close> with its wildcards and the backslash as escape character.\<close>

fun sql_like :: "string \<Rightarrow> string \<Rightarrow> bool" where
  "sql_like [] t = (t = [])"
| "sql_like (p # ps) [] = (p = CHR ''%'' \<and> sql_like ps [])"
| "sql_like (p # ps) (c # t) =
     (if p = CHR ''%'' then sql_like ps (c # t) \<or> sql_like (p # ps) t
      else if p = CHR 0x5C then (case ps of [] \<Rightarrow> False | e # es \<Rightarrow> c = e \<and> sql_like es t)
      else (p = CHR ''_'' \<or> p = c) \<and> sql_like ps t)"

definition ilike :: "string \<Rightarrow> string \<Rightarrow> bool" where
  "ilike pat t = sql_like (py_lower pat) (py_lower t)"

primrec status_name :: "doc_status \<Rightarrow> string" where
  "status_name Pending = ''pending''"
| "status_name Processing = ''processing''"
| "status_name Ready = ''ready''"
| "status_name Failed = ''failed''"

text \<open>The group names granted a document, and the connectors it came through.\<close>

definition labels_of :: "db \<Rightarrow> uuid \<Rightarrow> string list" where
  "labels_of s doc = [g_name g. a \<leftarrow> document_acl s, g \<leftarrow> groups s, a_doc_id a = doc \<and> a_principal a = PGroup (g_id g)]"

definition sources_of :: "db \<Rightarrow> uuid \<Rightarrow> string list" where
  "sources_of s doc = [cn_name c. i \<leftarrow> connector_items s, c \<leftarrow> connectors s, i_doc_id i = Some doc \<and> cn_id c = i_connector_id i]"

record doc_filter =
  df_status :: "string option"
  df_collection :: "string option"
  df_label :: "string option"
  df_source :: "string option"
  df_q :: "string option"

text \<open>An absent and an empty parameter filter nothing.\<close>

definition given :: "string option \<Rightarrow> (string \<Rightarrow> bool) \<Rightarrow> bool" where
  "given v p = (case v of None \<Rightarrow> True | Some x \<Rightarrow> x = [] \<or> p x)"

definition doc_matches :: "db \<Rightarrow> doc_filter \<Rightarrow> document \<Rightarrow> bool" where
  "doc_matches s f d \<longleftrightarrow>
     given (df_status f) (\<lambda>x. status_name (d_status d) = x)
   \<and> given (df_collection f) (\<lambda>x. d_collection d = x)
   \<and> given (df_q f) (\<lambda>x. ilike (''%'' @ x @ ''%'') (d_filename d))
   \<and> given (df_label f) (\<lambda>x. x \<in> set (labels_of s (d_id d)))
   \<and> given (df_source f) (\<lambda>x. x \<in> set (sources_of s (d_id d)))"

record doc_item =
  di_document :: document
  di_labels :: "string list"
  di_connector :: "string option"

text \<open>\<open>dict(conn_rows)\<close> keeps the last row of a document.\<close>

definition doc_item_of :: "db \<Rightarrow> document \<Rightarrow> doc_item" where
  "doc_item_of s d =
     \<lparr>di_document = d, di_labels = labels_of s (d_id d),
      di_connector = (if sources_of s (d_id d) = [] then None else Some (last (sources_of s (d_id d))))\<rparr>"

definition newest_first :: "document list \<Rightarrow> document list" where
  "newest_first ds = sort_desc (\<lambda>d. real_of_int (d_created_at d)) ds"

definition page_of :: "int \<Rightarrow> int \<Rightarrow> 'r list \<Rightarrow> 'r list" where
  "page_of page page_size rows = take (nat page_size) (drop (nat ((page - 1) * page_size)) rows)"

definition list_documents :: "db \<Rightarrow> int \<Rightarrow> int \<Rightarrow> doc_filter \<Rightarrow> doc_item paged outcome" where
  "list_documents s page page_size f =
     at_least 1 page (in_range 1 200 page_size
       (let rows = filter (doc_matches s f) (documents s)
        in Inr \<lparr>pg_items = map (doc_item_of s) (page_of page page_size (newest_first rows)), pg_total = length rows\<rparr>))"

record access_item =
  ai_principal :: principal
  ai_principal_name :: "string option"
  ai_source :: acl_source
  ai_rule_name :: "string option"

definition principal_name :: "db \<Rightarrow> principal \<Rightarrow> string option" where
  "principal_name s p =
     (case p of
        PGroup g \<Rightarrow> map_option g_name (find_group s g)
      | PUser u \<Rightarrow> map_option u_email (find_user s u)
      | PPublic \<Rightarrow> None)"

definition rule_name_of :: "db \<Rightarrow> acl_source \<Rightarrow> string option" where
  "rule_name_of s src =
     (case src of AclLocal \<Rightarrow> None | AclRule r \<Rightarrow> map_option r_name (tbl_find r_id r (access_rules s)))"

definition document_access :: "db \<Rightarrow> uuid \<Rightarrow> access_item list outcome" where
  "document_access s doc_id =
     (if find_document s doc_id = None then Inl (HTTPException 404 ''document not found'')
      else Inr (map (\<lambda>a. \<lparr>ai_principal = a_principal a, ai_principal_name = principal_name s (a_principal a),
                          ai_source = a_source a, ai_rule_name = rule_name_of s (a_source a)\<rparr>)
                  (filter (\<lambda>a. a_doc_id a = doc_id) (document_acl s))))"

section \<open>Users\<close>

record user_item =
  ui_user :: user
  ui_groups :: "string list"
  ui_today_spend_usd :: money

definition group_names_of :: "db \<Rightarrow> uuid \<Rightarrow> string list" where
  "group_names_of s uid = [g_name g. ug \<leftarrow> user_groups s, g \<leftarrow> groups s, ug_user_id ug = uid \<and> g_id g = ug_group_id ug]"

definition list_users :: "db \<Rightarrow> datetime \<Rightarrow> int \<Rightarrow> int \<Rightarrow> user_item paged outcome" where
  "list_users s now page page_size =
     at_least 1 page (in_range 1 200 page_size
       (Inr \<lparr>pg_items = map (\<lambda>u. \<lparr>ui_user = u, ui_groups = group_names_of s (u_id u),
                                   ui_today_spend_usd = today_user_cost_usd s (u_id u) now\<rparr>)
                          (page_of page page_size (rev (users s))),
             pg_total = length (users s)\<rparr>))"

text \<open>
  A JSON time stamp with or without an offset. \<open>disabled_at\<close> is mapped as a column without time
  zone, for which the driver refuses a value that has one.
\<close>

datatype stamp = Naive datetime | Aware datetime

record user_patch =
  up_is_admin :: "bool field"
  up_disabled_at :: "stamp field"
  up_daily_cap :: "money field"

definition patch_nullable :: "'a field \<Rightarrow> ('a option \<Rightarrow> 'r \<Rightarrow> 'r) \<Rightarrow> 'r outcome \<Rightarrow> 'r outcome" where
  "patch_nullable fld upd r = (case fld of None \<Rightarrow> r | Some v \<Rightarrow> map_sum id (upd v) r)"

definition patch_stamp :: "stamp field \<Rightarrow> (datetime option \<Rightarrow> 'r \<Rightarrow> 'r) \<Rightarrow> 'r outcome \<Rightarrow> 'r outcome" where
  "patch_stamp fld upd r =
     (case fld of
        Some (Some (Aware t)) \<Rightarrow>
          (case r of Inl e \<Rightarrow> Inl e
           | Inr _ \<Rightarrow> Inl (PyError ''DBAPIError'' ''can't subtract offset-naive and offset-aware datetimes''))
      | Some (Some (Naive t)) \<Rightarrow> map_sum id (upd (Some t)) r
      | Some None \<Rightarrow> map_sum id (upd None) r
      | None \<Rightarrow> r)"

definition set_user :: "uuid \<Rightarrow> (user \<Rightarrow> user) \<Rightarrow> db \<Rightarrow> db" where
  "set_user uid f s = s\<lparr>users := map (\<lambda>u. if u_id u = uid then f u else u) (users s)\<rparr>"

definition update_user :: "uuid \<Rightarrow> user_patch \<Rightarrow> txn \<Rightarrow> user outcome \<times> txn" where
  "update_user uid body t =
     (case find_user (working t) uid of
        None \<Rightarrow> (Inl (HTTPException 404 ''user not found''), t)
      | Some u \<Rightarrow>
          (case patch_nullable (up_daily_cap body) (\<lambda>v u. u\<lparr>u_daily_cap_usd_override := v\<rparr>)
                 (patch_stamp (up_disabled_at body) (\<lambda>v u. u\<lparr>u_disabled_at := v\<rparr>)
                   (patch (up_is_admin body) (\<lambda>v u. u\<lparr>u_is_admin := v\<rparr>) (Inr u))) of
             Inl e \<Rightarrow> (Inl e, t)
           | Inr u' \<Rightarrow> (Inr u', commit_db (set_user uid (\<lambda>_. u')) t)))"

definition visible_documents :: "db \<Rightarrow> user \<Rightarrow> document list" where
  "visible_documents s target =
     filter (\<lambda>d. d_status d = Ready \<and> (case visibility_clause (Some target) of None \<Rightarrow> True | Some p \<Rightarrow> p s (d_id d))) (documents s)"

definition user_visible_docs :: "db \<Rightarrow> uuid \<Rightarrow> int \<Rightarrow> int \<Rightarrow> document paged outcome" where
  "user_visible_docs s uid limit offset =
     in_range 1 200 limit (at_least 0 offset
       (case find_user s uid of
          None \<Rightarrow> Inl (HTTPException 404 ''user not found'')
        | Some target \<Rightarrow>
            (let rows = visible_documents s target
             in Inr \<lparr>pg_items = take (nat limit) (drop (nat offset) (newest_first rows)), pg_total = length rows\<rparr>)))"

section \<open>Groups\<close>

definition create_group :: "uuid \<Rightarrow> string \<Rightarrow> txn \<Rightarrow> group_rec outcome \<times> txn" where
  "create_group new_id name t =
     (if name \<in> g_name ` set (groups (working t)) then (Inl integrity_error, t)
      else
        (let g = \<lparr>g_id = new_id, g_name = name, g_source = SrcLocal, g_external_id = None\<rparr>
         in (Inr g, commit_db (\<lambda>s. s\<lparr>groups := groups s @ [g]\<rparr>) t)))"

text \<open>\<open>ORDER BY name\<close> goes by the collation of the database, the rank \<open>coll\<close> of a name.\<close>

definition list_groups :: "(string \<Rightarrow> real) \<Rightarrow> db \<Rightarrow> group_rec list" where
  "list_groups coll s = sort_key (coll \<circ> g_name) (groups s)"

definition get_local_group_or_404 :: "db \<Rightarrow> uuid \<Rightarrow> group_rec outcome" where
  "get_local_group_or_404 s gid =
     (case find_group s gid of
        None \<Rightarrow> Inl (HTTPException 404 ''group not found'')
      | Some g \<Rightarrow>
          if g_source g \<noteq> SrcLocal
          then Inl (HTTPException 400 ''idp-synced groups are managed by the sync, not this endpoint'')
          else Inr g)"

definition set_group_name :: "uuid \<Rightarrow> string \<Rightarrow> db \<Rightarrow> db" where
  "set_group_name gid name s = s\<lparr>groups := map (\<lambda>g. if g_id g = gid then g\<lparr>g_name := name\<rparr> else g) (groups s)\<rparr>"

definition update_group :: "uuid \<Rightarrow> string \<Rightarrow> txn \<Rightarrow> group_rec outcome \<times> txn" where
  "update_group gid name t =
     (case get_local_group_or_404 (working t) gid of
        Inl e \<Rightarrow> (Inl e, t)
      | Inr g \<Rightarrow>
          if \<exists>x\<in>set (groups (working t)). g_id x \<noteq> gid \<and> g_name x = name then (Inl integrity_error, t)
          else (Inr (g\<lparr>g_name := name\<rparr>), commit_db (set_group_name gid name) t))"

text \<open>
  Memberships go with the group; a rule that names it does not (\<open>access_rules.group_id\<close> has no
  \<open>ON DELETE\<close>), and the grants to it stay (\<open>principal_id\<close> is no foreign key).
\<close>

definition delete_group :: "uuid \<Rightarrow> txn \<Rightarrow> unit outcome \<times> txn" where
  "delete_group gid t =
     (case get_local_group_or_404 (working t) gid of
        Inl e \<Rightarrow> (Inl e, t)
      | Inr g \<Rightarrow>
          if gid \<in> r_group_id ` set (access_rules (working t)) then
            (Inl (PyError ''IntegrityError'' ''update or delete violates foreign key constraint''), t)
          else
            (Inr (), commit_db (\<lambda>s. s\<lparr>groups := tbl_del g_id gid (groups s),
                                     user_groups := filter (\<lambda>ug. ug_group_id ug \<noteq> gid) (user_groups s)\<rparr>) t))"

definition add_group_member :: "uuid \<Rightarrow> uuid \<Rightarrow> txn \<Rightarrow> unit outcome \<times> txn" where
  "add_group_member gid uid t =
     (case get_local_group_or_404 (working t) gid of
        Inl e \<Rightarrow> (Inl e, t)
      | Inr g \<Rightarrow>
          if find_user (working t) uid = None then (Inl (HTTPException 404 ''user not found''), t)
          else if \<lparr>ug_user_id = uid, ug_group_id = gid\<rparr> \<in> set (user_groups (working t)) then (Inr (), t)
          else (Inr (), commit_db (\<lambda>s. s\<lparr>user_groups := user_groups s @ [\<lparr>ug_user_id = uid, ug_group_id = gid\<rparr>]\<rparr>) t))"

definition remove_group_member :: "uuid \<Rightarrow> uuid \<Rightarrow> txn \<Rightarrow> unit outcome \<times> txn" where
  "remove_group_member gid uid t =
     (case get_local_group_or_404 (working t) gid of
        Inl e \<Rightarrow> (Inl e, t)
      | Inr g \<Rightarrow>
          (Inr (), commit_db (\<lambda>s. s\<lparr>user_groups :=
             filter (\<lambda>ug. \<not> (ug_user_id ug = uid \<and> ug_group_id ug = gid)) (user_groups s)\<rparr>) t))"

section \<open>Usage\<close>

text \<open>\<open>^(\d+)d$\<close>, where \<open>$\<close> also matches before a final newline: the number of days.\<close>

definition parse_window :: "string \<Rightarrow> nat option" where
  "parse_window window =
     (let ds = takeWhile is_digit window; rest = dropWhile is_digit window
      in if ds \<noteq> [] \<and> (rest = ''d'' \<or> rest = ''d'' @ [CHR 0x0A]) then Some (int_of_digits ds) else None)"

text \<open>The first instant of year 1, in microseconds before the epoch; earlier times overflow.\<close>

definition datetime_min :: datetime where
  "datetime_min = - 62135596800 * 1000000"

definition utc_day :: "datetime \<Rightarrow> int" where
  "utc_day t = t div day_micros"

record usage_item =
  it_user_id :: "uuid option"
  it_day :: int
  it_model :: string
  it_cost_usd :: money
  it_tokens :: int
  it_calls :: nat

definition usage_key :: "usage \<Rightarrow> uuid option \<times> int \<times> string" where
  "usage_key u = (us_user_id u, utc_day (us_created_at u), us_model u)"

definition usage_group :: "usage list \<Rightarrow> uuid option \<times> int \<times> string \<Rightarrow> usage_item" where
  "usage_group us k =
     (let rows = filter (\<lambda>u. usage_key u = k) us
      in \<lparr>it_user_id = fst k, it_day = fst (snd k), it_model = snd (snd k),
          it_cost_usd = sum_list (map us_cost_usd rows),
          it_tokens = sum_list (map (\<lambda>u. us_prompt_tokens u + us_completion_tokens u) rows),
          it_calls = length rows\<rparr>)"

definition usage_items :: "usage list \<Rightarrow> usage_item list" where
  "usage_items us =
     sort_desc (\<lambda>i. real_of_int (it_day i)) (map (usage_group us) (first_occurrences (map usage_key us)))"

definition today_spend :: "db \<Rightarrow> datetime \<Rightarrow> (uuid \<times> money) list" where
  "today_spend s now =
     map (\<lambda>uid. (uid, today_user_cost_usd s uid now))
       (first_occurrences (map (\<lambda>u. the (us_user_id u))
         (filter (\<lambda>u. us_user_id u \<noteq> None \<and> utc_day_start now \<le> us_created_at u) (usages s))))"

definition effective_cap :: "settings \<Rightarrow> db \<Rightarrow> uuid \<Rightarrow> money" where
  "effective_cap cfg s uid = (case find_user s uid of None \<Rightarrow> user_daily_cap_usd cfg | Some u \<Rightarrow> user_cap cfg u)"

definition warned_users :: "settings \<Rightarrow> db \<Rightarrow> datetime \<Rightarrow> uuid list" where
  "warned_users cfg s now =
     map fst (filter (\<lambda>(uid, spent). effective_cap cfg s uid \<le> spent) (today_spend s now))"

definition usage_report :: "settings \<Rightarrow> db \<Rightarrow> datetime \<Rightarrow> string \<Rightarrow> (usage_item list \<times> uuid list) outcome" where
  "usage_report cfg s now window =
     (case parse_window window of
        None \<Rightarrow> Inl (HTTPException 400 (''window must look like '' @ quoted ''7d''))
      | Some days \<Rightarrow>
          if now - int days * day_micros < datetime_min then Inl (PyError ''OverflowError'' ''date value out of range'')
          else Inr (usage_items (filter (\<lambda>u. now - int days * day_micros \<le> us_created_at u) (usages s)), warned_users cfg s now))"

section \<open>Paging and provenance\<close>

lemma concat_pages: "concat (map (\<lambda>p. take k (drop (p * k) xs)) [0..<n]) = take (n * k) xs"
proof (induction n)
  case (Suc n)
  have "take (n * k + k) xs = take (n * k) xs @ take k (drop (n * k) xs)" by (rule take_add)
  then show ?case using Suc by (simp add: add.commute)
qed simp

lemma concat_page_of:
  assumes "length rows \<le> n * nat ps" and "0 < ps"
  shows "concat (map (\<lambda>p. page_of (int (Suc p)) ps rows) [0..<n]) = rows"
proof -
  have "page_of (int (Suc p)) ps rows = take (nat ps) (drop (p * nat ps) rows)" for p
    using assms(2) by (simp add: page_of_def nat_mult_distrib)
  then show ?thesis using assms(1) by (simp add: concat_pages)
qed

text \<open>
  Paging loses and repeats nothing: whatever the filter and the page size, the pages in
  order are exactly the documents that match, newest first, each with the labels and the connector
  that the label and source filters look at, and the total counts them all; a page or a size out of range
  is refused.
\<close>

lemma document_pages_lossless:
  assumes "1 \<le> page_size" and "page_size \<le> 200" and "length (documents s) \<le> n * nat page_size"
  shows "\<exists>pages. map (\<lambda>p. list_documents s (int (Suc p)) page_size f) [0..<n] = map Inr pages
     \<and> concat (map pg_items pages) = map (doc_item_of s) (newest_first (filter (doc_matches s f) (documents s)))
     \<and> (\<forall>pg\<in>set pages. pg_total pg = length (filter (doc_matches s f) (documents s)))
     \<and> (\<forall>p\<le>0. is_ok (list_documents s p page_size f) = False)"
proof -
  let ?rows = "filter (doc_matches s f) (documents s)"
  let ?page = "\<lambda>p. \<lparr>pg_items = map (doc_item_of s) (page_of (int (Suc p)) page_size (newest_first ?rows)), pg_total = length ?rows\<rparr>"
  have eq: "list_documents s (int (Suc p)) page_size f = Inr (?page p)" for p
    using assms by (simp add: list_documents_def at_least_def in_range_def Let_def)
  have "length (newest_first ?rows) \<le> n * nat page_size"
    using order.trans [OF length_filter_le assms(3)] by (simp add: newest_first_def)
  then have rows: "concat (map (\<lambda>p. page_of (int (Suc p)) page_size (newest_first ?rows)) [0..<n]) = newest_first ?rows"
    using assms(1) by (intro concat_page_of) simp_all
  have "concat (map pg_items (map ?page [0..<n]))
      = map (doc_item_of s) (concat (map (\<lambda>p. page_of (int (Suc p)) page_size (newest_first ?rows)) [0..<n]))"
    by (simp only: map_map o_def paged.select_convs map_concat)
  then have "concat (map pg_items (map ?page [0..<n])) = map (doc_item_of s) (newest_first ?rows)"
    by (simp only: rows)
  moreover have "map (\<lambda>p. list_documents s (int (Suc p)) page_size f) [0..<n] = map Inr (map ?page [0..<n])"
    by (simp only: eq map_map o_def)
  moreover have "\<forall>pg\<in>set (map ?page [0..<n]). pg_total pg = length ?rows" by simp
  moreover have "\<forall>p\<le>0. is_ok (list_documents s p page_size f) = False" by (simp add: list_documents_def at_least_def)
  ultimately show ?thesis by blast
qed

lemma document_pages_lossless_witness:
  "\<exists>pages. map (\<lambda>p. list_documents sample_db (int (Suc p)) 1 \<lparr>df_status = None, df_collection = None, df_label = None, df_source = None, df_q = None\<rparr>) [0..<2]
       = map Inr pages \<and> length (concat (map pg_items pages)) = 2"
proof -
  let ?f = "\<lparr>df_status = None, df_collection = None, df_label = None, df_source = None, df_q = None\<rparr>"
  have "filter (doc_matches sample_db ?f) (documents sample_db) = documents sample_db"
    by (simp add: doc_matches_def given_def)
  then show ?thesis using document_pages_lossless [where page_size = 1 and s = sample_db and n = 2 and f = ?f] by (auto simp: sample_db_def newest_first_def)
qed

text \<open>
  The provenance view is complete: for a document that exists, a user who is no administrator
  sees it exactly when one of the listed grants is public, names him, or names a group he is a
  member of, and every listed grant is shown with the current name of its principal and its rule.
\<close>

lemma access_provenance_complete:
  assumes "find_document s doc \<noteq> None" and "\<not> u_is_admin u"
  shows "\<exists>items. document_access s doc = Inr items
     \<and> (sees s (Some u) doc \<longleftrightarrow> list_ex (\<lambda>i. case ai_principal i of PPublic \<Rightarrow> True | PUser v \<Rightarrow> v = u_id u
            | PGroup g \<Rightarrow> g \<in> set (group_ids_of s (u_id u))) items)
     \<and> list_all (\<lambda>i. ai_principal_name i = principal_name s (ai_principal i) \<and> ai_rule_name i = rule_name_of s (ai_source i)) items
     \<and> map (\<lambda>i. (ai_principal i, ai_source i)) items = map (\<lambda>a. (a_principal a, a_source a)) (filter (\<lambda>a. a_doc_id a = doc) (document_acl s))"
  using assms by (auto simp: document_access_def sees_user acl_grants_def list_ex_iff list_all_iff)

lemma access_provenance_complete_witness:
  "\<exists>items. document_access sample_db 5 = Inr items \<and> map (\<lambda>i. (ai_principal i, ai_source i)) items = [(PPublic, AclLocal)]"
  using access_provenance_complete [where s = sample_db and doc = 5 and u = "sample_user 1"]
  by (auto simp: sample_db_def sample_document_def sample_user_def public_grant_def)

section \<open>What a user can see\<close>



section \<open>The directory of users and groups\<close>

text \<open>Unique names and keys, and memberships and rules that refer to existing rows.\<close>

definition directory_ok :: "db \<Rightarrow> bool" where
  "directory_ok s \<longleftrightarrow>
     distinct (map g_id (groups s)) \<and> distinct (map g_name (groups s)) \<and> distinct (user_groups s)
   \<and> ug_group_id ` set (user_groups s) \<subseteq> g_id ` set (groups s)
   \<and> ug_user_id ` set (user_groups s) \<subseteq> u_id ` set (users s)
   \<and> r_group_id ` set (access_rules s) \<subseteq> g_id ` set (groups s)"

text \<open>Every request of the API that changes groups or memberships, and the seeding at an OIDC login.\<close>

datatype group_req =
    CreateGroup uuid string | RenameGroup uuid string | DeleteGroup uuid
  | AddMember uuid uuid | RemoveMember uuid uuid

fun group_request :: "group_req \<Rightarrow> txn \<Rightarrow> unit outcome \<times> txn" where
  "group_request (CreateGroup i n) t = apfst (map_sum id (\<lambda>_. ())) (create_group i n t)"
| "group_request (RenameGroup i n) t = apfst (map_sum id (\<lambda>_. ())) (update_group i n t)"
| "group_request (DeleteGroup i) t = delete_group i t"
| "group_request (AddMember g u) t = add_group_member g u t"
| "group_request (RemoveMember g u) t = remove_group_member g u t"

fun names_fresh_id :: "group_req \<Rightarrow> db \<Rightarrow> bool" where
  "names_fresh_id (CreateGroup i n) s = (i \<notin> g_id ` set (groups s))"
| "names_fresh_id _ s = True"

lemma local_group: "get_local_group_or_404 s gid = Inr g \<Longrightarrow> g \<in> set (groups s) \<and> g_id g = gid \<and> g_source g = SrcLocal"
  using tbl_find_Some [of g_id gid "groups s" g]
  by (auto simp: get_local_group_or_404_def split: option.splits if_splits)

lemma directory_delete_group:
  assumes ok: "directory_ok s" and free: "gid \<notin> r_group_id ` set (access_rules s)"
  shows "directory_ok (s\<lparr>groups := tbl_del g_id gid (groups s), user_groups := filter (\<lambda>ug. ug_group_id ug \<noteq> gid) (user_groups s)\<rparr>)"
  using assms by (auto simp: directory_ok_def tbl_del_def distinct_map_filter image_filter_neq)

lemma directory_add_group:
  assumes ok: "directory_ok s" and "g_id g \<notin> g_id ` set (groups s)" and "g_name g \<notin> g_name ` set (groups s)"
  shows "directory_ok (s\<lparr>groups := groups s @ [g]\<rparr>)"
  using assms by (simp add: directory_ok_def subset_insertI2)

lemma directory_add_member:
  assumes ok: "directory_ok s" and "gid \<in> g_id ` set (groups s)" and "uid \<in> u_id ` set (users s)"
    and "\<lparr>ug_user_id = uid, ug_group_id = gid\<rparr> \<notin> set (user_groups s)"
  shows "directory_ok (s\<lparr>user_groups := user_groups s @ [\<lparr>ug_user_id = uid, ug_group_id = gid\<rparr>]\<rparr>)"
  using assms by (simp add: directory_ok_def)

lemma directory_fewer_members:
  assumes ok: "directory_ok s"
  shows "directory_ok (s\<lparr>user_groups := filter P (user_groups s)\<rparr>)"
  using assms by (simp add: directory_ok_def) blast

lemma directory_new_groups:
  assumes ok: "directory_ok s" and ids: "map g_id gs = map g_id (groups s)" and names: "distinct (map g_name gs)"
  shows "directory_ok (s\<lparr>groups := gs\<rparr>)"
proof -
  have im: "g_id ` set gs = g_id ` set (groups s)" unfolding set_map [symmetric] ids ..
  show ?thesis using ok names by (simp add: directory_ok_def ids im)
qed

lemma directory_rename_group:
  assumes ok: "directory_ok s" and free: "\<forall>x\<in>set (groups s). g_id x = gid \<or> g_name x \<noteq> name"
  shows "directory_ok (set_group_name gid name s)"
proof -
  let ?f = "\<lambda>g. if g_id g = gid then g\<lparr>g_name := name\<rparr> else g"
  have ids: "map g_id (map ?f gs) = map g_id gs" for gs by (induction gs) auto
  have names: "distinct (map g_id gs) \<Longrightarrow> distinct (map g_name gs) \<Longrightarrow> (\<forall>x\<in>set gs. g_id x = gid \<or> g_name x \<noteq> name)
      \<Longrightarrow> distinct (map g_name (map ?f gs))" for gs
    by (induction gs) (auto simp: image_iff)
  have "distinct (map g_name (map ?f (groups s)))"
    using ok free by (intro names) (simp_all add: directory_ok_def)
  then show ?thesis unfolding set_group_name_def by (rule directory_new_groups [OF ok ids])
qed

lemma group_request_directory:
  assumes ok: "directory_ok (working t)" and fresh: "names_fresh_id req (working t)" and run: "group_request req t = (res, t')"
  shows "case res of Inl e \<Rightarrow> t' = t | Inr _ \<Rightarrow> directory_ok (working t')"
proof (cases req)
  case (CreateGroup i n)
  then show ?thesis using run fresh directory_add_group [OF ok]
    by (auto simp: create_group_def Let_def split: if_splits)
next
  case (RenameGroup i n)
  show ?thesis
  proof (cases "get_local_group_or_404 (working t) i")
    case (Inl e)
    then show ?thesis using run RenameGroup by (auto simp: update_group_def)
  next
    case (Inr g)
    then show ?thesis using run RenameGroup directory_rename_group [OF ok, of i n]
      by (auto simp: update_group_def split: if_splits)
  qed
next
  case (DeleteGroup i)
  then show ?thesis using run directory_delete_group [OF ok, of i]
    by (auto simp: delete_group_def split: sum.splits if_splits)
next
  case (AddMember g u)
  show ?thesis
  proof (cases "get_local_group_or_404 (working t) g")
    case (Inl e)
    then show ?thesis using run AddMember by (auto simp: add_group_member_def)
  next
    case (Inr gr)
    have "g \<in> g_id ` set (groups (working t))" using local_group [OF Inr] by auto
    moreover have "u \<in> u_id ` set (users (working t))" if "find_user (working t) u \<noteq> None"
      using that by (auto dest: tbl_find_Some)
    ultimately show ?thesis using run AddMember ok Inr directory_add_member [OF ok]
      by (auto simp: add_group_member_def split: if_splits)
  qed
next
  case (RemoveMember g u)
  then show ?thesis using run directory_fewer_members [OF ok] by (auto simp: remove_group_member_def split: sum.splits)
qed

lemma seed_loop_directory:
  assumes "directory_ok s" and "uid \<in> u_id ` set (users s)" and "inj fresh"
    and "\<forall>k\<ge>n. fresh k \<notin> g_id ` set (groups s)"
    and "seed_loop fresh uid n exts s = Inr s'"
  shows "directory_ok s'"
  using assms
proof (induction fresh uid n exts s rule: seed_loop.induct)
  case (2 fresh uid n ext exts s)
  show ?case
  proof (cases "find_idp_group s ext")
    case None
    let ?s = "s\<lparr>groups := groups s @ [idp_group (fresh n) ext],
                user_groups := user_groups s @ [\<lparr>ug_user_id = uid, ug_group_id = fresh n\<rparr>]\<rparr>"
    have new: "''idp:'' @ ext \<notin> g_name ` set (groups s)" and run: "seed_loop fresh uid (Suc n) exts ?s = Inr s'"
      using 2(7) None by (auto split: if_splits)
    have "fresh n \<notin> g_id ` set (groups s)" using 2(6) by simp
    moreover have "\<lparr>ug_user_id = uid, ug_group_id = fresh n\<rparr> \<notin> set (user_groups s)"
      using 2(3) \<open>fresh n \<notin> g_id ` set (groups s)\<close> by (force simp: directory_ok_def)
    moreover have "directory_ok (s\<lparr>groups := groups s @ [idp_group (fresh n) ext]\<rparr>)"
      using \<open>fresh n \<notin> g_id ` set (groups s)\<close> new by (intro directory_add_group [OF 2(3)]) (simp_all add: idp_group_def)
    ultimately have ok: "directory_ok ?s"
      using directory_add_member [of "s\<lparr>groups := groups s @ [idp_group (fresh n) ext]\<rparr>" "fresh n" uid] 2(4) by (simp add: idp_group_def)
    have "\<forall>k\<ge>Suc n. fresh k \<notin> g_id ` set (groups ?s)"
      using 2(5,6) by (auto simp: idp_group_def inj_eq)
    then show ?thesis using "2.IH"(1) [OF None new ok] 2(4,5) run by simp
  next
    case (Some g)
    let ?s = "s\<lparr>user_groups := user_groups s @ [\<lparr>ug_user_id = uid, ug_group_id = g_id g\<rparr>]\<rparr>"
    have new: "\<lparr>ug_user_id = uid, ug_group_id = g_id g\<rparr> \<notin> set (user_groups s)" and run: "seed_loop fresh uid n exts ?s = Inr s'"
      using 2(7) Some by (auto split: if_splits)
    have "g \<in> set (groups s)" using Some by (auto simp: find_idp_group_def find_Some_iff)
    then have "directory_ok ?s" using 2(4) new by (intro directory_add_member [OF 2(3)]) simp_all
    then show ?thesis using "2.IH"(2) [OF Some new] 2(4,5,6) run by simp
  qed
qed simp

lemma drop_idp_directory: "directory_ok s \<Longrightarrow> directory_ok (drop_idp_memberships uid s)"
  unfolding drop_idp_memberships_def by (rule directory_fewer_members)

inductive directory_step :: "db \<Rightarrow> db \<Rightarrow> bool" where
  admin_request: "names_fresh_id req s \<Longrightarrow> group_request req (begin_txn s) = (res, t') \<Longrightarrow> directory_step s (committed t')"
| oidc_seeding: "uid \<in> u_id ` set (users s) \<Longrightarrow> inj fresh \<Longrightarrow> \<forall>k. fresh k \<notin> g_id ` set (groups s) \<Longrightarrow>
     seed_idp_groups fresh uid claim s = Inr s' \<Longrightarrow> directory_step s s'"

lemma group_request_settles:
  assumes "group_request req (begin_txn s) = (res, t')"
  shows "committed t' = working t'"
  using assms
  by (cases req) (auto simp: create_group_def update_group_def delete_group_def add_group_member_def remove_group_member_def
      Let_def split: if_splits sum.splits)

lemma directory_step_ok: "directory_step s s' \<Longrightarrow> directory_ok s \<Longrightarrow> directory_ok s'"
proof (induction rule: directory_step.induct)
  case (admin_request req s res t')
  then show ?case
    using group_request_directory [of "begin_txn s" req res t'] group_request_settles [OF admin_request(2)]
    by (cases res) auto
next
  case (oidc_seeding uid s fresh claim s')
  have "uid \<in> u_id ` set (users (drop_idp_memberships uid s))" "\<forall>k\<ge>0. fresh k \<notin> g_id ` set (groups (drop_idp_memberships uid s))"
    using oidc_seeding by (simp_all add: drop_idp_memberships_def)
  then show ?case
    using seed_loop_directory [OF drop_idp_directory [OF oidc_seeding(5)]] oidc_seeding by (auto simp: seed_idp_groups_def)
qed

text \<open>
  The directory stays sound: no sequence of group requests and OIDC logins, refused ones included, ever leaves
  two groups with one name, a membership twice, a membership of a group or user that does not exist, or a rule
  whose group is gone.
\<close>

lemma directory_stays_sound:
  assumes "directory_step\<^sup>*\<^sup>* s s'" and "directory_ok s"
  shows "directory_ok s'"
  using assms by (induction rule: rtranclp_induct) (simp_all add: directory_step_ok)

lemma directory_stays_sound_witness:
  "\<exists>s'. directory_step\<^sup>*\<^sup>* empty_db s' \<and> map g_name (groups s') = [''ops''] \<and> directory_ok s'"
proof -
  let ?t = "snd (create_group 3 ''ops'' (begin_txn empty_db))"
  have "directory_step empty_db (committed ?t)"
    by (rule admin_request [where req = "CreateGroup 3 ''ops''" and res = "Inr ()"])
       (simp_all add: empty_db_def create_group_def Let_def)
  then have "directory_step\<^sup>*\<^sup>* empty_db (committed ?t)" by blast
  moreover have "map g_name (groups (committed ?t)) = [''ops'']" by (simp add: create_group_def empty_db_def Let_def)
  ultimately show ?thesis using directory_stays_sound [of empty_db "committed ?t"] by (auto simp: directory_ok_def empty_db_def)
qed

text \<open>What a local group is not: any of the groups the login seeds, nor named by their memberships.\<close>

lemma local_group_keeps:
  assumes "get_local_group_or_404 s gid = Inr g" and dist: "distinct (map g_id (groups s))"
  shows "gid \<notin> idp_group_ids s"
    and "filter (\<lambda>g. g_source g = SrcIdp) (map (\<lambda>g. if g_id g = gid then g\<lparr>g_name := name\<rparr> else g) (groups s))
           = filter (\<lambda>g. g_source g = SrcIdp) (groups s)"
    and "filter (\<lambda>g. g_source g = SrcIdp) (filter (\<lambda>g. g_id g \<noteq> gid) (groups s)) = filter (\<lambda>g. g_source g = SrcIdp) (groups s)"
    and "filter (\<lambda>ug. ug_group_id ug \<in> idp_group_ids s) (filter (\<lambda>ug. \<not> (P ug \<and> ug_group_id ug = gid)) ugs)
           = filter (\<lambda>ug. ug_group_id ug \<in> idp_group_ids s) ugs"
    and "filter (\<lambda>ug. ug_group_id ug \<in> idp_group_ids s) (filter (\<lambda>ug. ug_group_id ug \<noteq> gid) ugs)
           = filter (\<lambda>ug. ug_group_id ug \<in> idp_group_ids s) ugs"
proof -
  note g = local_group [OF assms(1)]
  have l: "\<forall>x\<in>set (groups s). g_id x = gid \<longrightarrow> g_source x = SrcLocal"
    using g dist by (metis distinct_map inj_onD)
  then show no: "gid \<notin> idp_group_ids s" by (auto simp: idp_group_ids_def)
  have "\<forall>x\<in>set gs. g_id x = gid \<longrightarrow> g_source x = SrcLocal \<Longrightarrow>
      filter (\<lambda>g. g_source g = SrcIdp) (map (\<lambda>g. if g_id g = gid then g\<lparr>g_name := name\<rparr> else g) gs) = filter (\<lambda>g. g_source g = SrcIdp) gs" for gs
    by (induction gs) auto
  then show "filter (\<lambda>g. g_source g = SrcIdp) (map (\<lambda>g. if g_id g = gid then g\<lparr>g_name := name\<rparr> else g) (groups s))
           = filter (\<lambda>g. g_source g = SrcIdp) (groups s)" using l by blast
  show "filter (\<lambda>g. g_source g = SrcIdp) (filter (\<lambda>g. g_id g \<noteq> gid) (groups s)) = filter (\<lambda>g. g_source g = SrcIdp) (groups s)"
    unfolding filter_filter using l by (intro filter_cong) auto
  show "filter (\<lambda>ug. ug_group_id ug \<in> idp_group_ids s) (filter (\<lambda>ug. \<not> (P ug \<and> ug_group_id ug = gid)) ugs)
           = filter (\<lambda>ug. ug_group_id ug \<in> idp_group_ids s) ugs"
    unfolding filter_filter using no by (intro filter_cong) auto
  show "filter (\<lambda>ug. ug_group_id ug \<in> idp_group_ids s) (filter (\<lambda>ug. ug_group_id ug \<noteq> gid) ugs)
           = filter (\<lambda>ug. ug_group_id ug \<in> idp_group_ids s) ugs"
    unfolding filter_filter using no by (intro filter_cong) auto
qed

text \<open>
  Groups that mirror the identity provider are out of reach of the admin endpoints: no group
  request changes such a group or a membership in one, and a request that is refused changes
  nothing at all.
\<close>

lemma idp_groups_out_of_reach:
  assumes "group_request req t = (res, t')" and "distinct (map g_id (groups (working t)))"
  shows "filter (\<lambda>g. g_source g = SrcIdp) (groups (working t')) = filter (\<lambda>g. g_source g = SrcIdp) (groups (working t))
     \<and> filter (\<lambda>ug. ug_group_id ug \<in> idp_group_ids (working t')) (user_groups (working t'))
         = filter (\<lambda>ug. ug_group_id ug \<in> idp_group_ids (working t)) (user_groups (working t))
     \<and> (case res of Inl e \<Rightarrow> t' = t | Inr _ \<Rightarrow> True)"
proof -
  let ?idp = "\<lambda>gs. filter (\<lambda>g. g_source g = SrcIdp) gs"
  have "?idp (groups (working t')) = ?idp (groups (working t))
      \<and> filter (\<lambda>ug. ug_group_id ug \<in> idp_group_ids (working t)) (user_groups (working t'))
         = filter (\<lambda>ug. ug_group_id ug \<in> idp_group_ids (working t)) (user_groups (working t))
      \<and> (case res of Inl e \<Rightarrow> t' = t | Inr _ \<Rightarrow> True)"
  proof (cases req)
    case (CreateGroup i n)
    then show ?thesis using assms(1) by (auto simp: create_group_def Let_def split: if_splits)
  next
    case (RenameGroup i n)
    show ?thesis
    proof (cases "get_local_group_or_404 (working t) i")
      case (Inr g)
      show ?thesis using assms(1) Inr RenameGroup local_group_keeps(2) [OF Inr assms(2)]
        by (auto simp: update_group_def set_group_name_def split: if_splits)
    qed (use assms(1) RenameGroup in \<open>auto simp: update_group_def\<close>)
  next
    case (DeleteGroup i)
    show ?thesis
    proof (cases "get_local_group_or_404 (working t) i")
      case (Inr g)
      show ?thesis using assms(1) Inr DeleteGroup local_group_keeps(3,5) [OF Inr assms(2)]
        by (auto simp: delete_group_def tbl_del_def simp del: filter_filter split: if_splits)
    qed (use assms(1) DeleteGroup in \<open>auto simp: delete_group_def\<close>)
  next
    case (AddMember g u)
    show ?thesis
    proof (cases "get_local_group_or_404 (working t) g")
      case (Inr gr)
      show ?thesis using assms(1) Inr AddMember local_group_keeps(1) [OF Inr assms(2)]
        by (auto simp: add_group_member_def split: if_splits)
    qed (use assms(1) AddMember in \<open>auto simp: add_group_member_def\<close>)
  next
    case (RemoveMember g u)
    show ?thesis
    proof (cases "get_local_group_or_404 (working t) g")
      case (Inr gr)
      show ?thesis using assms(1) Inr RemoveMember local_group_keeps(4) [OF Inr assms(2)]
        by (auto simp: remove_group_member_def simp del: filter_filter)
    qed (use assms(1) RemoveMember in \<open>auto simp: remove_group_member_def\<close>)
  qed
  moreover from this have "idp_group_ids (working t') = idp_group_ids (working t)" by (simp add: idp_group_ids_def)
  ultimately show ?thesis by simp
qed

lemma idp_groups_out_of_reach_witness:
  "let s = empty_db\<lparr>groups := [idp_group 1 ''ops'']\<rparr> in
   fst (group_request (DeleteGroup 1) (begin_txn s)) = Inl (HTTPException 400 ''idp-synced groups are managed by the sync, not this endpoint'')
   \<and> snd (group_request (DeleteGroup 1) (begin_txn s)) = begin_txn s"
proof -
  let ?s = "empty_db\<lparr>groups := [idp_group 1 ''ops'']\<rparr>"
  have run: "group_request (DeleteGroup 1) (begin_txn ?s)
      = (Inl (HTTPException 400 ''idp-synced groups are managed by the sync, not this endpoint''), snd (group_request (DeleteGroup 1) (begin_txn ?s)))"
    by (simp add: delete_group_def get_local_group_or_404_def idp_group_def)
  from idp_groups_out_of_reach [OF this] run show ?thesis by (simp add: Let_def)
qed

section \<open>The usage report\<close>

lemma sum_by_key:
  fixes v :: "'a \<Rightarrow> 'b::comm_monoid_add"
  shows "distinct ks \<Longrightarrow> key ` set us \<subseteq> set ks \<Longrightarrow>
     sum_list (map (\<lambda>k. sum_list (map v (filter (\<lambda>u. key u = k) us))) ks) = sum_list (map v us)"
proof (induction us)
  case (Cons u us)
  have "sum_list (map (\<lambda>k. sum_list (map v (filter (\<lambda>x. key x = k) (u # us)))) ks)
      = sum_list (map (\<lambda>k. (if k = key u then v u else 0) + sum_list (map v (filter (\<lambda>x. key x = k) us))) ks)"
    by (intro arg_cong [where f = sum_list] map_cong) auto
  also have "\<dots> = sum_list (map (\<lambda>k. if k = key u then v u else 0) ks) + sum_list (map v us)"
    using Cons by (simp add: sum_list_addf)
  also have "sum_list (map (\<lambda>k. if k = key u then v u else 0) ks) = v u"
    using Cons.prems by (simp add: sum_list_distinct_conv_sum_set sum.delta)
  finally show ?case by simp
qed simp

lemma usage_items_sum:
  fixes v :: "usage_item \<Rightarrow> 'b::comm_monoid_add"
  assumes "\<And>k. v (usage_group us k) = sum_list (map w (filter (\<lambda>u. usage_key u = k) us))"
  shows "sum_list (map v (usage_items us)) = sum_list (map w us)"
proof -
  have "sum_list (map v (usage_items us)) = sum_list (map v (map (usage_group us) (first_occurrences (map usage_key us))))"
    unfolding sum_mset_sum_list [symmetric] mset_map usage_items_def mset_sort_desc ..
  also have "\<dots> = sum_list (map w us)"
    using sum_by_key [of "first_occurrences (map usage_key us)" usage_key us w] by (simp add: o_def assms)
  finally show ?thesis .
qed

lemma distinct_usage_items: "distinct (map (\<lambda>i. (it_user_id i, it_day i, it_model i)) (usage_items us))"
  unfolding usage_items_def distinct_map_sort_desc by (simp add: o_def usage_group_def Let_def)

text \<open>
  The usage report accounts for every call: over the items of a window the costs, the tokens and
  the calls add up to those of the usage rows since its start, there is one item for
  each user, UTC day and model, and the items go from the latest day to the earliest. A window that is not a
  number of days is refused.
\<close>

lemma usage_report_accounts:
  "case parse_window window of
     None \<Rightarrow> (\<exists>m. usage_report cfg s now window = Inl (HTTPException 400 m))
   | Some days \<Rightarrow>
       (case usage_report cfg s now window of
          Inl e \<Rightarrow> now - int days * day_micros < datetime_min
        | Inr (items, warned) \<Rightarrow>
            (let us = filter (\<lambda>u. now - int days * day_micros \<le> us_created_at u) (usages s)
             in sum_list (map it_cost_usd items) = sum_list (map us_cost_usd us)
              \<and> sum_list (map it_tokens items) = sum_list (map (\<lambda>u. us_prompt_tokens u + us_completion_tokens u) us)
              \<and> sum_list (map it_calls items) = length us
              \<and> distinct (map (\<lambda>i. (it_user_id i, it_day i, it_model i)) items)
              \<and> sorted_desc (\<lambda>i. real_of_int (it_day i)) items))"
proof (cases "parse_window window")
  case (Some days)
  let ?us = "filter (\<lambda>u. now - int days * day_micros \<le> us_created_at u) (usages s)"
  have "sum_list (map it_cost_usd (usage_items ?us)) = sum_list (map us_cost_usd ?us)"
    by (rule usage_items_sum) (simp add: usage_group_def Let_def)
  moreover have "sum_list (map it_tokens (usage_items ?us)) = sum_list (map (\<lambda>u. us_prompt_tokens u + us_completion_tokens u) ?us)"
    by (rule usage_items_sum) (simp add: usage_group_def Let_def)
  moreover have "sum_list (map it_calls (usage_items ?us)) = sum_list (map (\<lambda>u. 1) ?us)"
    by (rule usage_items_sum) (simp add: usage_group_def Let_def sum_list_triv)
  moreover have "sorted_desc (\<lambda>i. real_of_int (it_day i)) (usage_items ?us)"
    unfolding usage_items_def by (rule sorted_desc_sort_desc)
  ultimately show ?thesis using Some distinct_usage_items
    by (simp add: usage_report_def Let_def sum_list_triv)
qed (simp add: usage_report_def)

lemma set_today_spend:
  "(uid, spent) \<in> set (today_spend s now) \<longleftrightarrow> spent = today_user_cost_usd s uid now
     \<and> (\<exists>u\<in>set (usages s). us_user_id u = Some uid \<and> utc_day_start now \<le> us_created_at u)"
  by (force simp: today_spend_def image_iff)

lemma today_user_cost_none:
  assumes "\<not> (\<exists>u\<in>set (usages s). us_user_id u = Some uid \<and> utc_day_start now \<le> us_created_at u)"
  shows "today_user_cost_usd s uid now = 0"
proof -
  have "filter (\<lambda>u. us_user_id u = Some uid \<and> utc_day_start now \<le> us_created_at u) (usages s) = []"
    using assms by (auto simp: filter_empty_conv)
  then show ?thesis by (simp add: today_user_cost_usd_def)
qed

text \<open>
  The list of warned users is the list of those the budget check speaks up for: with a positive cap and
  a hard limit not below it, and while the cap of the installation is not reached, a user is on it
  exactly when a chat request of his at that moment would carry a warning or be refused.
\<close>

lemma warned_users_match_budget:
  assumes "find_user s uid = Some u" and "0 < user_cap cfg u" and "1 \<le> user_hard_cap_multiplier cfg"
    and "today_cost_usd s now < daily_cost_cap_usd cfg"
  shows "uid \<in> set (warned_users cfg s now) \<longleftrightarrow> check_daily_cap cfg s (Some u) now \<noteq> Inr None"
proof -
  let ?spent = "today_user_cost_usd s uid now"
  have id: "u_id u = uid" using assms(1) tbl_find_Some by metis
  have "uid \<in> set (warned_users cfg s now) \<longleftrightarrow> user_cap cfg u \<le> ?spent
      \<and> (\<exists>u\<in>set (usages s). us_user_id u = Some uid \<and> utc_day_start now \<le> us_created_at u)"
    using assms(1) by (force simp: warned_users_def effective_cap_def set_today_spend image_iff)
  then have w: "uid \<in> set (warned_users cfg s now) \<longleftrightarrow> user_cap cfg u \<le> ?spent"
    using today_user_cost_none [of s uid now] assms(2) by (metis not_less)
  have "user_cap cfg u \<le> user_cap cfg u * user_hard_cap_multiplier cfg" using assms(2,3) by simp
  then have "check_daily_cap cfg s (Some u) now \<noteq> Inr None \<longleftrightarrow> user_cap cfg u \<le> ?spent"
    using assms(4) by (auto simp: check_daily_cap_def over_daily_cap_def id Let_def budget_decision_def)
  then show ?thesis using w by simp
qed

lemma warned_users_match_budget_witness:
  "1 \<in> set (warned_users default_settings (empty_db\<lparr>users := [sample_user 1], usages := [(sample_usage 3)\<lparr>us_user_id := Some 1\<rparr>]\<rparr>) 5)"
proof -
  let ?s = "empty_db\<lparr>users := [sample_user 1], usages := [(sample_usage 3)\<lparr>us_user_id := Some 1\<rparr>]\<rparr>"
  have "1 \<in> set (warned_users default_settings ?s 5) \<longleftrightarrow> check_daily_cap default_settings ?s (Some (sample_user 1)) 5 \<noteq> Inr None"
    by (rule warned_users_match_budget)
       (simp_all add: sample_user_def user_cap_def today_cost_usd_def sample_usage_def empty_db_def)
  moreover have "check_daily_cap default_settings ?s (Some (sample_user 1)) 5 \<noteq> Inr None"
    by (simp add: check_daily_cap_def over_daily_cap_def today_cost_usd_def today_user_cost_usd_def sample_usage_def sample_user_def
        user_cap_def budget_decision_def utc_day_start_def day_micros_def empty_db_def)
  ultimately show ?thesis by blast
qed

end
