(* ===== verification/Middleware_Model.thy ===== *)
theory Middleware_Model imports PyStr begin

text \<open>
  \<open>prorag/middleware.py\<close>: the two ASGI middlewares as transformers of the messages an application
  sends. A wrapped \<open>send\<close> is a function from the state of its closure and one message to the next
  state and the messages it passes on. \<open>gzip.compress\<close>, the clock and the formatting of a
  duration are arguments.
\<close>

section \<open>Messages\<close>

type_synonym headers = "(string \<times> string) list"

datatype asgi_message =
    ResponseStart nat headers
  | ResponseBody string bool

datatype scope_type = Http | OtherScope

record scope =
  sc_type :: scope_type
  sc_headers :: headers

text \<open>\<open>next((v for k, v in hs if k == name), b"")\<close>\<close>

definition header_value :: "string \<Rightarrow> headers \<Rightarrow> string" where
  "header_value name hs = (case map_of hs name of None \<Rightarrow> [] | Some v \<Rightarrow> v)"

text \<open>Running a wrapped \<open>send\<close> over what the application sends.\<close>

fun run_send :: "('st \<Rightarrow> 'm \<Rightarrow> 'st \<times> 'm list) \<Rightarrow> 'st \<Rightarrow> 'm list \<Rightarrow> 'm list" where
  "run_send send st [] = []"
| "run_send send st (m # ms) = (case send st m of (st', out) \<Rightarrow> out @ run_send send st' ms)"

section \<open>Gzip\<close>

record gzip_state =
  gz_start :: "(nat \<times> headers) option"
  gz_chunks :: "string list"
  gz_skip :: bool

definition gzip_init :: gzip_state where
  "gzip_init = \<lparr>gz_start = None, gz_chunks = [], gz_skip = False\<rparr>"

text \<open>
  The headers of the answer. When the body comes without a start message the code spreads an empty
  dict; that message has no type, so the server raises, which is no output here.
\<close>

definition gzip_headers :: "(string \<Rightarrow> string) \<Rightarrow> nat \<Rightarrow> headers \<Rightarrow> string \<Rightarrow> headers \<times> string" where
  "gzip_headers compress minimum_size hs body =
     (let kept = filter (\<lambda>(k, v). py_lower k \<noteq> ''content-length'') hs;
          big = minimum_size \<le> length body;
          body' = (if big then compress body else body)
      in (kept @ (if big then [(''content-encoding'', ''gzip'')] else []) @ [(''content-length'', str_of_nat (length body'))], body'))"

fun gzip_send :: "(string \<Rightarrow> string) \<Rightarrow> nat \<Rightarrow> gzip_state \<Rightarrow> asgi_message \<Rightarrow> gzip_state \<times> asgi_message list" where
  "gzip_send compress minimum_size st (ResponseStart status hs) =
     (if py_startswith (header_value ''content-type'' hs) ''text/event-stream''
      then (st\<lparr>gz_skip := True\<rparr>, [ResponseStart status hs])
      else (st\<lparr>gz_start := Some (status, hs)\<rparr>, []))"
| "gzip_send compress minimum_size st (ResponseBody body more_body) =
     (if gz_skip st then (st, [ResponseBody body more_body])
      else
        (let st' = st\<lparr>gz_chunks := gz_chunks st @ [body]\<rparr> in
         if more_body then (st', [])
         else
           (case gz_start st of
              None \<Rightarrow> (st', [])
            | Some (status, hs) \<Rightarrow>
                (case gzip_headers compress minimum_size hs (concat (gz_chunks st')) of
                   (hs', body') \<Rightarrow> (st', [ResponseStart status hs', ResponseBody body' False])))))"

definition gzip_middleware :: "(string \<Rightarrow> string) \<Rightarrow> nat \<Rightarrow> scope \<Rightarrow> asgi_message list \<Rightarrow> asgi_message list" where
  "gzip_middleware compress minimum_size sc out =
     (if sc_type sc \<noteq> Http then out
      else if \<not> py_contains ''gzip'' (header_value ''accept-encoding'' (sc_headers sc)) then out
      else run_send (gzip_send compress minimum_size) gzip_init out)"

section \<open>Request timing\<close>

fun timing_send :: "string \<Rightarrow> unit \<Rightarrow> asgi_message \<Rightarrow> unit \<times> asgi_message list" where
  "timing_send elapsed st (ResponseStart status hs) = (st, [ResponseStart status (hs @ [(''x-response-time-ms'', elapsed)])])"
| "timing_send elapsed st (ResponseBody body more_body) = (st, [ResponseBody body more_body])"

definition timing_middleware :: "string \<Rightarrow> scope \<Rightarrow> asgi_message list \<Rightarrow> asgi_message list" where
  "timing_middleware elapsed sc out =
     (if sc_type sc \<noteq> Http then out else run_send (timing_send elapsed) () out)"

text \<open>\<open>main.py\<close> adds the timing first and gzip last, so gzip is the outer one.\<close>

definition served :: "(string \<Rightarrow> string) \<Rightarrow> string \<Rightarrow> scope \<Rightarrow> asgi_message list \<Rightarrow> asgi_message list" where
  "served compress elapsed sc out = gzip_middleware compress 500 sc (timing_middleware elapsed sc out)"

section \<open>A response as the client reads it\<close>

text \<open>What an application sends for one response: the start, then the body in pieces.\<close>

fun body_messages :: "string list \<Rightarrow> string \<Rightarrow> asgi_message list" where
  "body_messages [] final = [ResponseBody final False]"
| "body_messages (c # cs) final = ResponseBody c True # body_messages cs final"

definition response :: "nat \<Rightarrow> headers \<Rightarrow> string list \<Rightarrow> string \<Rightarrow> asgi_message list" where
  "response status hs cs final = ResponseStart status hs # body_messages cs final"

lemma gzip_body:
  assumes "\<not> gz_skip st" and "gz_start st = Some (status, hs)"
  shows "run_send (gzip_send compress n) st (body_messages cs final)
     = (case gzip_headers compress n hs (concat (gz_chunks st) @ concat cs @ final) of
          (hs', body') \<Rightarrow> [ResponseStart status hs', ResponseBody body' False])"
  using assms by (induction cs arbitrary: st) (simp_all add: Let_def split: prod.split)

lemma gzip_skip: "gz_skip st \<Longrightarrow> run_send (gzip_send compress n) st (body_messages cs final) = body_messages cs final"
  by (induction cs arbitrary: st) simp_all

lemma timing_body: "run_send (timing_send e) () (body_messages cs final) = body_messages cs final"
  by (induction cs) simp_all

lemma timing_response: "sc_type sc = Http \<Longrightarrow>
    timing_middleware e sc (response status hs cs final) = response status (hs @ [(''x-response-time-ms'', e)]) cs final"
  by (simp add: timing_middleware_def response_def timing_body)

lemma header_value_append: "map_of hs name \<noteq> None \<Longrightarrow> header_value name (hs @ hs') = header_value name hs"
  by (auto simp: header_value_def map_add_def split: option.split)



end
