(* ===== verification/Eval_Metrics.thy ===== *)
theory Eval_Metrics imports Chat_Flow begin

text \<open>
  The golden-set evaluation: the metrics and the run of \<open>prorag/eval/runner.py\<close>, the endpoints of
  \<open>prorag/eval/router.py\<close>, and the parameter sweep of \<open>scripts/sweep.py\<close>. The optional \<open>ragas\<close>
  package and whether the run hits its deadline are arguments.
\<close>

section \<open>Metrics\<close>

record golden =
  go_question :: string
  go_contains :: "string list"
  go_doc_ids :: "string list"
  go_titles :: "string list"

definition doc_id_text :: "hit \<Rightarrow> string" where
  "doc_id_text h = (case h_doc_id h of None \<Rightarrow> ''None'' | Some u \<Rightarrow> uuid_text u)"

definition hit_expected :: "golden \<Rightarrow> hit \<Rightarrow> bool" where
  "hit_expected entry h \<longleftrightarrow>
     doc_id_text h \<in> set (go_doc_ids entry)
   \<or> (let title = py_lower (case h_title h of None \<Rightarrow> [] | Some t \<Rightarrow> t)
      in title \<noteq> [] \<and> list_ex (\<lambda>t. py_contains (py_lower t) title) (go_titles entry))"

definition retrieval_hit_rate :: "golden \<Rightarrow> hit list \<Rightarrow> real" where
  "retrieval_hit_rate entry hits =
     (if go_doc_ids entry = [] \<and> go_titles entry = [] then 1
      else if list_ex (hit_expected entry) hits then 1 else 0)"

definition keyword_coverage :: "string \<Rightarrow> string list \<Rightarrow> real" where
  "keyword_coverage ans expected =
     (if expected = [] then 1
      else real (length (filter (\<lambda>kw. py_contains (py_lower kw) (py_lower ans)) expected)) / real (length expected))"

definition citation_validity :: "string \<Rightarrow> nat \<Rightarrow> real" where
  "citation_validity ans num_sources =
     (let cited = extract_cited_indices (normalize_citations ans) in
      if cited = [] then 1
      else real (length (filter (\<lambda>n. 1 \<le> n \<and> n \<le> num_sources) cited)) / real (length cited))"

record question_result =
  qr_question :: string
  qr_answer :: string
  qr_hit_rate :: real
  qr_coverage :: real
  qr_validity :: real

record metrics =
  mt_hit_rate :: real
  mt_coverage :: real
  mt_validity :: real
  mt_n_questions :: nat

definition mean :: "('a \<Rightarrow> real) \<Rightarrow> 'a list \<Rightarrow> real" where
  "mean f xs = sum_list (map f xs) / real (length xs)"

definition aggregate_metrics :: "question_result list \<Rightarrow> metrics" where
  "aggregate_metrics per_question =
     (if per_question = [] then \<lparr>mt_hit_rate = 0, mt_coverage = 0, mt_validity = 0, mt_n_questions = 0\<rparr>
      else \<lparr>mt_hit_rate = mean qr_hit_rate per_question, mt_coverage = mean qr_coverage per_question,
            mt_validity = mean qr_validity per_question, mt_n_questions = length per_question\<rparr>)"

section \<open>A run\<close>

text \<open>\<open>eval_runs\<close> is written in the commit of the run and by nothing else; its key is a serial number.\<close>

record eval_row =
  er_id :: nat
  er_questions :: "question_result list"
  er_aggregate :: metrics
  er_ragas :: "(string \<times> real) list option"

record eval_world =
  ew_txn :: txn
  ew_runs :: "eval_row list"

text \<open>An answer without content fails in the first metric that reads it.\<close>

definition score_question :: "golden \<Rightarrow> hit list \<Rightarrow> string option \<Rightarrow> question_result outcome" where
  "score_question entry hits raw =
     (case raw of
        None \<Rightarrow> Inl (if go_contains entry = [] then PyError ''TypeError'' ''expected string or bytes-like object''
                     else PyError ''AttributeError'' '''NoneType' object has no attribute lower'')
      | Some ans \<Rightarrow>
          Inr \<lparr>qr_question = go_question entry, qr_answer = ans, qr_hit_rate = retrieval_hit_rate entry hits,
               qr_coverage = keyword_coverage ans (go_contains entry), qr_validity = citation_validity ans (length hits)\<rparr>)"

text \<open>What \<open>ragas\<close> is given: question, answer, the texts of the hits and, when a caller has one, the expected answer.\<close>

record ragas_row =
  rr_question :: string
  rr_answer :: string
  rr_contexts :: "string list"
  rr_ground_truth :: "string option"

text \<open>The two lists the loop fills, as one list of pairs.\<close>

fun eval_loop :: "settings \<Rightarrow> backend \<Rightarrow> datetime \<Rightarrow> golden list \<Rightarrow> txn \<Rightarrow> (question_result \<times> ragas_row) list outcome \<times> txn" where
  "eval_loop cfg be now [] t = (Inr [], t)"
| "eval_loop cfg be now (entry # entries) t =
     (case retrieve cfg be now (go_question entry) None t of
        (Inl e, t1) \<Rightarrow> (Inl e, t1)
      | (Inr (hits, cleaned), t1) \<Rightarrow>
          (case apsnd the (answer cfg (be_provider be) now SYSTEM_PROMPT (build_prompt cleaned hits) None None (Some t1)) of
             (Inl e, t2) \<Rightarrow> (Inl e, t2)
           | (Inr raw, t2) \<Rightarrow>
               (case score_question entry hits raw of
                  Inl e \<Rightarrow> (Inl e, t2)
                | Inr q \<Rightarrow>
                    (case eval_loop cfg be now entries t2 of
                       (Inl e, t3) \<Rightarrow> (Inl e, t3)
                     | (Inr qs, t3) \<Rightarrow>
                         (Inr ((q, \<lparr>rr_question = go_question entry, rr_answer = qr_answer q, rr_contexts = map h_text hits,
                                     rr_ground_truth = None\<rparr>) # qs), t3)))))"

text \<open>
  The optional package: \<open>None\<close> when it cannot be imported, else its \<open>evaluate\<close> over the columns question, answer,
  contexts and ground truth of a data set.
\<close>

type_synonym ragas = "((string \<times> string \<times> string list \<times> string) list \<Rightarrow> (string \<times> real) list outcome) option"

definition ragas_available :: "ragas \<Rightarrow> bool" where
  "ragas_available ragas = (ragas \<noteq> None)"

definition compute_ragas_metrics :: "ragas \<Rightarrow> ragas_row list \<Rightarrow> (string \<times> real) list option outcome" where
  "compute_ragas_metrics ragas rows =
     (if \<not> ragas_available ragas then Inr None
      else map_sum id Some (the ragas
        (map (\<lambda>r. (rr_question r, rr_answer r, rr_contexts r, case rr_ground_truth r of None \<Rightarrow> [] | Some g \<Rightarrow> g)) rows)))"

definition run_eval ::
  "settings \<Rightarrow> backend \<Rightarrow> ragas \<Rightarrow> datetime \<Rightarrow> golden list \<Rightarrow> eval_world \<Rightarrow> eval_row outcome \<times> eval_world" where
  "run_eval cfg be ragas now entries w =
     (case eval_loop cfg be now entries (ew_txn w) of
        (Inl e, t') \<Rightarrow> (Inl e, w\<lparr>ew_txn := t'\<rparr>)
      | (Inr qs, t') \<Rightarrow>
          (case compute_ragas_metrics ragas (map snd qs) of
             Inl e \<Rightarrow> (Inl e, w\<lparr>ew_txn := t'\<rparr>)
           | Inr scores \<Rightarrow>
               (let row = \<lparr>er_id = Suc (length (ew_runs w)), er_questions = map fst qs, er_aggregate = aggregate_metrics (map fst qs), er_ragas = scores\<rparr>
                in (Inr row, \<lparr>ew_txn = txn_commit t', ew_runs = ew_runs w @ [row]\<rparr>))))"

text \<open>
  The endpoint. \<open>deadline\<close>: where the time-out strikes the run, after how many questions and whether
  after the retrieval of the next one; the session is then dropped, and of the run only what
  \<open>retrieve\<close> had committed stays.
\<close>

definition interrupted :: "settings \<Rightarrow> backend \<Rightarrow> datetime \<Rightarrow> golden list \<Rightarrow> nat \<times> bool \<Rightarrow> txn \<Rightarrow> exn \<times> txn" where
  "interrupted cfg be now entries pos t =
     (case eval_loop cfg be now (take (fst pos) entries) t of
        (Inl e, t') \<Rightarrow> (e, t')
      | (Inr qs, t') \<Rightarrow>
          (HTTPException 504 ''eval run timed out'',
           if snd pos \<and> fst pos < length entries then snd (retrieve cfg be now (go_question (entries ! fst pos)) None t') else t'))"

definition eval_run ::
  "settings \<Rightarrow> backend \<Rightarrow> ragas \<Rightarrow> datetime \<Rightarrow> golden list \<Rightarrow> (nat \<times> bool) option \<Rightarrow> eval_world \<Rightarrow> eval_row outcome \<times> eval_world" where
  "eval_run cfg be ragas now entries deadline w =
     (case check_daily_cap cfg (working (ew_txn w)) None now of
        Inl e \<Rightarrow> (Inl e, w)
      | Inr _ \<Rightarrow>
          (case deadline of
             Some pos \<Rightarrow>
               (case interrupted cfg be now entries pos (ew_txn w) of
                  (e, t') \<Rightarrow> (Inl e, w\<lparr>ew_txn := txn_rollback t'\<rparr>))
           | None \<Rightarrow>
               (case run_eval cfg be ragas now entries w of
                  (Inl e, w') \<Rightarrow> (Inl e, w'\<lparr>ew_txn := txn_rollback (ew_txn w')\<rparr>)
                | (Inr row, w') \<Rightarrow> (Inr row, w'))))"

definition get_eval_run :: "nat \<Rightarrow> eval_world \<Rightarrow> eval_row outcome" where
  "get_eval_run i w =
     (case tbl_find er_id i (ew_runs w) of None \<Rightarrow> Inl (HTTPException 404 ''eval run not found'') | Some r \<Rightarrow> Inr r)"

section \<open>The parameter sweep\<close>

text \<open>\<open>itertools.product\<close> over the value lists, zipped with the names.\<close>

fun generate_combinations :: "(string \<times> 'v list) list \<Rightarrow> (string \<times> 'v) list list" where
  "generate_combinations [] = [[]]"
| "generate_combinations ((k, vs) # grid) = concat (map (\<lambda>v. map (\<lambda>c. (k, v) # c) (generate_combinations grid)) vs)"

definition sweep_score :: "metrics \<Rightarrow> real" where
  "sweep_score m = (mt_hit_rate m + mt_coverage m + mt_validity m) / 3"

definition rank_rows :: "('c \<times> metrics) list \<Rightarrow> ('c \<times> metrics) list" where
  "rank_rows rows = sort_desc (\<lambda>r. sweep_score (snd r)) rows"

section \<open>Lemmas\<close>

lemma fraction_bounds:
  "xs \<noteq> [] \<Longrightarrow> 0 \<le> real (length (filter P xs)) / real (length xs) \<and> real (length (filter P xs)) / real (length xs) \<le> 1"
  using length_filter_le [of P xs] by (simp add: divide_le_eq)

lemma fraction_one:
  "xs \<noteq> [] \<Longrightarrow> real (length (filter P xs)) / real (length xs) = 1 \<longleftrightarrow> list_all P xs"
  using length_filter_less [of _ xs P] by (auto simp: list_all_iff divide_eq_1_iff) (metis filter_True less_irrefl)

lemma metric_bounds:
  "0 \<le> retrieval_hit_rate entry hits \<and> retrieval_hit_rate entry hits \<le> 1"
  "0 \<le> keyword_coverage ans kws \<and> keyword_coverage ans kws \<le> 1"
  "0 \<le> citation_validity ans n \<and> citation_validity ans n \<le> 1"
  using fraction_bounds by (simp_all add: retrieval_hit_rate_def keyword_coverage_def citation_validity_def Let_def)

lemma mean_bounds:
  assumes "xs \<noteq> []" and "\<forall>x\<in>set xs. 0 \<le> f x \<and> f x \<le> 1"
  shows "0 \<le> mean f xs \<and> mean f xs \<le> 1"
proof -
  have "0 \<le> sum_list (map f xs) \<and> sum_list (map f xs) \<le> real (length xs)"
    using assms(2) by (induction xs) auto
  then show ?thesis using assms(1) by (simp add: mean_def divide_le_eq)
qed

definition scored :: "question_result \<Rightarrow> bool" where
  "scored q \<longleftrightarrow> (0 \<le> qr_hit_rate q \<and> qr_hit_rate q \<le> 1) \<and> (0 \<le> qr_coverage q \<and> qr_coverage q \<le> 1) \<and> (0 \<le> qr_validity q \<and> qr_validity q \<le> 1)"

lemma score_question_scored: "score_question entry hits raw = Inr q \<Longrightarrow> scored q \<and> qr_question q = go_question entry"
  by (auto simp: score_question_def scored_def metric_bounds split: option.splits)

definition usage_grown :: "db \<Rightarrow> db \<Rightarrow> bool" where
  "usage_grown s s' \<longleftrightarrow> (\<exists>us. s' = s\<lparr>usages := usages s @ us\<rparr>)"

lemma usage_grown_refl [simp]: "usage_grown s s"
  unfolding usage_grown_def by (intro exI [of _ "[]"]) simp

lemma usage_grown_trans: "usage_grown a b \<Longrightarrow> usage_grown b c \<Longrightarrow> usage_grown a c"
  by (auto simp: usage_grown_def)

lemma only_usage_grown: "only_usage t t' \<Longrightarrow> usage_grown (working t) (working t') \<and> committed t' = committed t"
  by (auto simp: only_usage_def usage_grown_def)

definition both_grown :: "db \<Rightarrow> txn \<Rightarrow> bool" where
  "both_grown s t \<longleftrightarrow> usage_grown s (committed t) \<and> usage_grown s (working t)"

lemma both_grown_only_usage: "both_grown s t \<Longrightarrow> only_usage t t' \<Longrightarrow> both_grown s t'"
  using only_usage_grown usage_grown_trans unfolding both_grown_def by metis

lemma both_grown_commit: "both_grown s t \<Longrightarrow> both_grown s (txn_commit t)" "both_grown s t \<Longrightarrow> both_grown s (txn_rollback t)"
  by (simp_all add: both_grown_def)

lemma retrieve_grown:
  assumes "both_grown s t" and "retrieve cfg be now message user t = (res, t')"
  shows "both_grown s t'"
proof (cases rule: retrieve_cases [of cfg be now message user t])
  case (fails err t3)
  then show ?thesis using assms both_grown_only_usage by simp
next
  case (ok t3 pr embeddings g cleaned)
  then show ?thesis using assms both_grown_only_usage [OF assms(1) ok(2)] both_grown_commit by simp
qed

lemma answer_grown:
  assumes "both_grown s t" and "apsnd the (answer cfg prov now system user mid uid (Some t)) = (res, t')"
  shows "both_grown s t'"
proof -
  obtain t1 where "snd (complete cfg prov now (answer_model cfg) system user mid uid (Some t)) = Some t1" "only_usage t t1"
    using complete_only_usage by metis
  then show ?thesis using assms both_grown_only_usage
    by (cases "complete cfg prov now (answer_model cfg) system user mid uid (Some t)") (auto simp: answer_def)
qed

lemma eval_loop_grown:
  "both_grown s t \<Longrightarrow> eval_loop cfg be now entries t = (res, t') \<Longrightarrow>
     both_grown s t' \<and> (case res of Inl e \<Rightarrow> True | Inr qs \<Rightarrow> map qr_question (map fst qs) = map go_question entries \<and> (\<forall>q\<in>set (map fst qs). scored q))"
proof (induction entries arbitrary: t res t')
  case (Cons entry entries)
  obtain r1 t1 where r: "retrieve cfg be now (go_question entry) None t = (r1, t1)" by fastforce
  have g1: "both_grown s t1" by (rule retrieve_grown [OF Cons.prems(1) r])
  show ?case
  proof (cases r1)
    case (Inl e)
    then show ?thesis using Cons.prems r g1 by auto
  next
    case (Inr hc)
    obtain hits cleaned where hc: "hc = (hits, cleaned)" by fastforce
    obtain r2 t2 where a: "apsnd the (answer cfg (be_provider be) now SYSTEM_PROMPT (build_prompt cleaned hits) None None (Some t1)) = (r2, t2)"
      by fastforce
    have g2: "both_grown s t2" by (rule answer_grown [OF g1 a])
    show ?thesis
    proof (cases r2)
      case (Inl e)
      then show ?thesis using Cons.prems r Inr hc a g2 by auto
    next
      case raw: (Inr raw)
      obtain r3 t3 where l: "eval_loop cfg be now entries t2 = (r3, t3)" by fastforce
      note IH = Cons.IH [OF g2 l]
      show ?thesis
      proof (cases "score_question entry hits raw")
        case (Inl e)
        then show ?thesis using Cons.prems r Inr hc a raw g2 by auto
      next
        case q: (Inr q)
        then show ?thesis using Cons.prems r Inr hc a raw l IH score_question_scored [OF q] by (auto split: sum.splits)
      qed
    qed
  qed
qed auto

lemma interrupted_grown:
  assumes "both_grown s t" and "interrupted cfg be now entries pos t = (e, t')"
  shows "both_grown s t'"
proof -
  obtain r t1 where l: "eval_loop cfg be now (take (fst pos) entries) t = (r, t1)" by fastforce
  have g: "both_grown s t1" using eval_loop_grown [OF assms(1) l] by blast
  have "both_grown s (snd (retrieve cfg be now m None t1))" for m
    using retrieve_grown [OF g] by (metis prod.collapse)
  then show ?thesis using assms(2) l g by (cases r) (auto simp: interrupted_def split: if_splits)
qed

lemma aggregate_bounds:
  assumes "\<forall>q\<in>set qs. scored q"
  shows "mt_n_questions (aggregate_metrics qs) = length qs"
    and "m = mt_hit_rate (aggregate_metrics qs) \<or> m = mt_coverage (aggregate_metrics qs) \<or> m = mt_validity (aggregate_metrics qs)
      \<Longrightarrow> 0 \<le> m \<and> m \<le> 1"
proof -
  have "0 \<le> mean f qs \<and> mean f qs \<le> 1" if "qs \<noteq> []" "f = qr_hit_rate \<or> f = qr_coverage \<or> f = qr_validity" for f
    using that assms by (intro conjI mean_bounds) (auto simp: scored_def)
  then show "m = mt_hit_rate (aggregate_metrics qs) \<or> m = mt_coverage (aggregate_metrics qs) \<or> m = mt_validity (aggregate_metrics qs)
      \<Longrightarrow> 0 \<le> m \<and> m \<le> 1"
    by (auto simp: aggregate_metrics_def)
qed (simp add: aggregate_metrics_def)

lemma new_run_readable:
  assumes "\<forall>r\<in>set (ew_runs w). er_id r \<le> length (ew_runs w)"
  shows "get_eval_run (Suc (length (ew_runs w))) \<lparr>ew_txn = t, ew_runs = ew_runs w @
      [\<lparr>er_id = Suc (length (ew_runs w)), er_questions = qs, er_aggregate = a, er_ragas = x\<rparr>]\<rparr>
    = Inr \<lparr>er_id = Suc (length (ew_runs w)), er_questions = qs, er_aggregate = a, er_ragas = x\<rparr>"
proof -
  have "tbl_find er_id (Suc (length (ew_runs w))) (ew_runs w) = None"
    using assms by (force simp: tbl_find_None tbl_keys_def)
  then show ?thesis by (simp add: get_eval_run_def)
qed

section \<open>Properties\<close>



lemma metrics_perfect:
  "keyword_coverage ans kws = 1 \<longleftrightarrow> list_all (\<lambda>kw. py_contains (py_lower kw) (py_lower ans)) kws"
  "citation_validity ans n = 1 \<longleftrightarrow> list_all (\<lambda>i. 1 \<le> i \<and> i \<le> n) (extract_cited_indices (normalize_citations ans))"
  using fraction_one by (auto simp: keyword_coverage_def citation_validity_def Let_def)

lemma generate_combinations_exact:
  "set (generate_combinations grid) = {c. map fst c = map fst grid \<and> list_all2 (\<lambda>p g. snd p \<in> set (snd g)) c grid}"
proof (induction grid)
  case (Cons g grid)
  obtain k vs where g: "g = (k, vs)" by fastforce
  show ?case unfolding g generate_combinations.simps set_concat set_map image_image Cons
    by (auto simp: list_all2_Cons2)
qed auto

end
