(* ===== verification/Maintenance.thy ===== *)
theory Maintenance imports Sync_Props Auth_Model Arms begin

text \<open>
  The commands an operator runs beside the server: \<open>scripts/reingest.py\<close>, \<open>scripts/create_admin.py\<close>,
  \<open>scripts/create_api_key.py\<close>, the data step of migration 0008, the readiness probe of \<open>main.py\<close> and
  the checks of \<open>prorag/doctor.py\<close>. Probes of the outside world are given by their outcomes.
\<close>

section \<open>Re-ingesting\<close>

definition page_span :: "chunk_row \<Rightarrow> bool" where
  "page_span c = (case (c_page_start c, c_page_end c) of (Some a, Some b) \<Rightarrow> a \<noteq> b | _ \<Rightarrow> False)"

definition no_heading :: "chunk_row \<Rightarrow> bool" where
  "no_heading c = (case c_heading_path c of None \<Rightarrow> True | Some hs \<Rightarrow> hs = [])"

text \<open>The \<open>HAVING\<close> clause over the chunks of a document; a document without chunks is not joined.\<close>

definition fallback_chunked :: "db \<Rightarrow> document \<Rightarrow> bool" where
  "fallback_chunked s d = list_ex (\<lambda>c. c_doc_id c = d_id d \<and> (page_span c \<or> no_heading c)) (chunks s)"

definition reingest_selection :: "db \<Rightarrow> uuid list \<Rightarrow> bool \<Rightarrow> document list" where
  "reingest_selection s ids all_docs =
     (if ids \<noteq> [] then filter (\<lambda>d. d_id d \<in> set ids) (documents s)
      else if all_docs then documents s
      else filter (fallback_chunked s) (documents s))"

text \<open>The new row gets an identifier that no document has or had.\<close>

definition reingest_one :: "settings \<Rightarrow> ingest_env \<Rightarrow> document \<Rightarrow> ingest_world \<Rightarrow> ingest_response outcome \<times> ingest_world" where
  "reingest_one cfg env d w =
     (case iw_blobs w (d_blob_path d) of
        None \<Rightarrow> (Inl (PyError ''FileNotFoundError'' (d_blob_path d)), w)
      | Some data \<Rightarrow>
          (let w1 = commit_update (delete_document (d_id d)) w in
           case ingest_bytes cfg (env\<lparr>ie_doc_id := fresh_doc_id (working (iw_txn w))\<rparr>) data (d_filename d) (d_collection d) w1 of
             (Inl e, w2) \<Rightarrow> (Inl e, w2)
           | (Inr r, w2) \<Rightarrow> (Inr r, w2\<lparr>iw_txn := txn_commit (iw_txn w2)\<rparr>)))"

text \<open>The script ends at the first exception.\<close>

fun reingest_all :: "settings \<Rightarrow> (nat \<Rightarrow> ingest_env) \<Rightarrow> nat \<Rightarrow> document list \<Rightarrow> ingest_world \<Rightarrow> unit outcome \<times> ingest_world" where
  "reingest_all cfg env n [] w = (Inr (), w)"
| "reingest_all cfg env n (d # ds) w =
     (case reingest_one cfg (env n) d w of
        (Inl e, w') \<Rightarrow> (Inl e, w')
      | (Inr r, w') \<Rightarrow> reingest_all cfg env (Suc n) ds w')"

definition reingest :: "settings \<Rightarrow> (nat \<Rightarrow> ingest_env) \<Rightarrow> uuid list \<Rightarrow> bool \<Rightarrow> ingest_world \<Rightarrow> unit outcome \<times> ingest_world" where
  "reingest cfg env ids all_docs w = reingest_all cfg env 0 (reingest_selection (working (iw_txn w)) ids all_docs) w"

section \<open>Bootstrap credentials\<close>

text \<open>\<open>hash_password\<close> is an argument; the printed password or key is the result.\<close>

definition create_admin ::
  "(string \<Rightarrow> string) \<Rightarrow> uuid \<Rightarrow> string \<Rightarrow> string \<Rightarrow> string option \<Rightarrow> bool \<Rightarrow> txn \<Rightarrow> string option \<times> txn" where
  "create_admin hash_password new_id generated email password reset t =
     (let raw = (case password of None \<Rightarrow> generated | Some p \<Rightarrow> if p = [] then generated else p) in
      case tbl_find u_email email (users (working t)) of
        None \<Rightarrow>
          (Some raw, txn_commit (txn_update (\<lambda>s. s\<lparr>users := users s @
             [\<lparr>u_id = new_id, u_external_subject = None, u_email = email, u_display_name = Some ''Admin'', u_is_admin = True,
               u_password_hash = Some (hash_password raw), u_daily_cap_usd_override = None, u_disabled_at = None\<rparr>]\<rparr>) t))
      | Some u \<Rightarrow>
          if reset then
            (Some raw, txn_commit (txn_update (\<lambda>s. s\<lparr>users := map (\<lambda>x. if u_email x = email
               then x\<lparr>u_password_hash := Some (hash_password raw), u_is_admin := True\<rparr> else x) (users s)\<rparr>) t))
          else (None, t))"

definition create_api_key :: "(string \<Rightarrow> string) \<Rightarrow> string \<Rightarrow> string option \<Rightarrow> string option \<Rightarrow> txn \<Rightarrow> string \<times> txn" where
  "create_api_key hash_key generated name collection t =
     (generated, txn_commit (txn_update (\<lambda>s. s\<lparr>api_keys := api_keys s @
        [\<lparr>k_key_hash = hash_key generated, k_name = name, k_collection = collection, k_user_id = None\<rparr>]\<rparr>) t))"

section \<open>Migration 0008\<close>

definition backfill_public :: "db \<Rightarrow> db" where
  "backfill_public s = s\<lparr>document_acl := document_acl s @
     map (\<lambda>d. \<lparr>a_doc_id = d_id d, a_principal = PPublic, a_source = AclLocal\<rparr>) (documents s)\<rparr>"

section \<open>Readiness\<close>

definition readyz :: "unit outcome \<Rightarrow> nat \<times> string" where
  "readyz probe = (case probe of Inr _ \<Rightarrow> (200, ''ready'') | Inl e \<Rightarrow> (503, ''not ready''))"

section \<open>The doctor\<close>

type_synonym check = "string \<times> bool \<times> string"

definition WARN :: string where
  "WARN = ''WARN: ''"

definition check_label :: "bool \<Rightarrow> string \<Rightarrow> string" where
  "check_label ok detail = (if \<not> ok then ''FAIL'' else if py_startswith detail ''WARN:'' then ''WARN'' else ''OK'')"

record doctor_env =
  dr_db :: "unit outcome"
  dr_head :: "string outcome"
  dr_current :: "string option outcome"
  dr_blob :: "unit outcome"
  dr_blob_path :: string
  dr_llm :: "unit outcome"
  dr_embed :: "real list list outcome"
  dr_rerank :: "string outcome"
  dr_rerank_model :: string
  dr_bm25 :: "bool outcome"
  dr_env_keys :: "string option list"
  dr_openrouter_env :: "string option"

definition nonempty :: "string option \<Rightarrow> bool" where
  "nonempty v = (case v of None \<Rightarrow> False | Some s \<Rightarrow> s \<noteq> [])"

definition has_provider_key :: "settings \<Rightarrow> doctor_env \<Rightarrow> bool" where
  "has_provider_key cfg e = (list_ex nonempty (dr_env_keys e) \<or> nonempty (openrouter_api_key cfg))"

definition py_bool :: "bool \<Rightarrow> string" where
  "py_bool b = (if b then ''True'' else ''False'')"

definition check_settings :: "settings \<Rightarrow> check" where
  "check_settings cfg =
     (''settings'', True, ''loaded (embed_dim='' @ str_of_int (embed_dim cfg) @ '', auth_enabled='' @ py_bool (auth_enabled cfg)
        @ '', blob_dir='' @ blob_dir cfg @ '')'')"

definition check_db :: "doctor_env \<Rightarrow> check" where
  "check_db e = (case dr_db e of
     Inr _ \<Rightarrow> (''db'', True, ''reachable'') | Inl ex \<Rightarrow> (''db'', False, ''unreachable: '' @ exn_str ex))"

definition repr_opt :: "string option \<Rightarrow> string" where
  "repr_opt v = (case v of None \<Rightarrow> ''None'' | Some s \<Rightarrow> quoted s)"

definition check_migrations :: "doctor_env \<Rightarrow> check" where
  "check_migrations e =
     (case dr_head e of
        Inl ex \<Rightarrow> (''migrations'', False, ''could not compare revisions: '' @ exn_str ex)
      | Inr expected \<Rightarrow>
          (case dr_current e of
             Inl ex \<Rightarrow> (''migrations'', False, ''could not compare revisions: '' @ exn_str ex)
           | Inr current \<Rightarrow>
               if current \<noteq> Some expected
               then (''migrations'', False, ''DB at '' @ repr_opt current @ '', code expects head '' @ quoted expected)
               else (''migrations'', True, ''at head ('' @ expected @ '')'')))"

definition check_blob_dir :: "doctor_env \<Rightarrow> check" where
  "check_blob_dir e =
     (case dr_blob e of
        Inr _ \<Rightarrow> (''blob_dir'', True, ''writable ('' @ dr_blob_path e @ '')'')
      | Inl ex \<Rightarrow> (''blob_dir'', False, ''not writable ('' @ dr_blob_path e @ ''): '' @ exn_str ex))"

definition check_llm :: "settings \<Rightarrow> doctor_env \<Rightarrow> bool option \<Rightarrow> check" where
  "check_llm cfg e has_key =
     (if \<not> (case has_key of None \<Rightarrow> has_provider_key cfg e | Some b \<Rightarrow> b)
      then (''llm'', True, WARN @ ''skipped -- no provider API key set'')
      else
        (case dr_llm e of
           Inr _ \<Rightarrow> (''llm'', True, ''reachable ('' @ answer_model cfg @ '')'')
         | Inl ex \<Rightarrow> (''llm'', False, ''unreachable ('' @ answer_model cfg @ ''): '' @ exn_str ex)))"

definition check_embed :: "settings \<Rightarrow> doctor_env \<Rightarrow> bool option \<Rightarrow> check" where
  "check_embed cfg e has_key =
     (if \<not> (case has_key of None \<Rightarrow> has_provider_key cfg e \<or> py_startswith (embed_model cfg) ''local/'' | Some b \<Rightarrow> b)
      then (''embed'', True, WARN @ ''skipped -- no provider API key set'')
      else
        (case dr_embed e of
           Inl ex \<Rightarrow> (''embed'', False, ''unreachable ('' @ embed_model cfg @ ''): '' @ exn_str ex)
         | Inr vectors \<Rightarrow>
             (let dim = (case vectors of [] \<Rightarrow> 0 | v # _ \<Rightarrow> int (length v)) in
              if dim \<noteq> embed_dim cfg
              then (''embed'', False, ''returned dim '' @ str_of_int dim @ '' != EMBED_DIM '' @ str_of_int (embed_dim cfg))
              else (''embed'', True, ''reachable, dim '' @ str_of_int dim @ '' matches EMBED_DIM ('' @ embed_model cfg @ '')''))))"

definition check_rerank :: "settings \<Rightarrow> doctor_env \<Rightarrow> check" where
  "check_rerank cfg e =
     (if \<not> rerank_enabled cfg then (''rerank'', True, ''disabled'')
      else if \<not> nonempty (openrouter_api_key cfg) \<and> \<not> nonempty (dr_openrouter_env e)
      then (''rerank'', True, WARN @ ''OPENROUTER_API_KEY unset -- rerank API unavailable'')
      else
        (case dr_rerank e of
           Inr model \<Rightarrow> (''rerank'', True, ''api ok ('' @ dr_rerank_model e @ '', '' @ model @ '')'')
         | Inl ex \<Rightarrow> (''rerank'', True, WARN @ ''rerank API probe failed ('' @ exn_str ex @ '')'')))"

definition check_bm25 :: "doctor_env \<Rightarrow> check" where
  "check_bm25 e =
     (case dr_bm25 e of
        Inl ex \<Rightarrow> (''bm25'', False, ''could not check: '' @ exn_str ex)
      | Inr True \<Rightarrow> (''bm25'', True, ''BM25 index present (pg_search)'')
      | Inr False \<Rightarrow> (''bm25'', True, WARN @ ''BM25 index absent -- tsvector fallback active''))"

definition run_all :: "settings \<Rightarrow> doctor_env \<Rightarrow> bool option \<Rightarrow> bool option \<Rightarrow> check list" where
  "run_all cfg e llm_has_key embed_has_key =
     [check_settings cfg, check_db e, check_migrations e, check_blob_dir e, check_llm cfg e llm_has_key,
      check_embed cfg e embed_has_key, check_rerank cfg e, check_bm25 e]"

definition ljust :: "nat \<Rightarrow> string \<Rightarrow> string" where
  "ljust n s = s @ replicate (n - length s) CHR '' ''"

definition doctor_line :: "nat \<Rightarrow> check \<Rightarrow> string" where
  "doctor_line width c =
     (case c of (name, ok, detail) \<Rightarrow>
        ljust width name @ ''  '' @ ljust 4 (check_label ok detail) @ ''  '' @ py_removeprefix detail WARN)"

definition doctor_main :: "settings \<Rightarrow> doctor_env \<Rightarrow> nat \<times> string list" where
  "doctor_main cfg e =
     (let results = run_all cfg e None None;
          width = Max (set (map (\<lambda>c. length (fst c)) results))
      in (if list_ex (\<lambda>c. check_label (fst (snd c)) (snd (snd c)) = ''FAIL'') results then 1 else 0,
          map (doctor_line width) results))"

section \<open>Re-ingesting loses what belongs to the row\<close>

lemma fresh_doc_id_grows:
  assumes "d_id ` set (documents s') \<subseteq> d_id ` set (documents s)"
  shows "fresh_doc_id s \<notin> d_id ` set (documents s')"
  using fresh_doc_id_fresh [of s] assms by blast

lemma find_by_sha_deleted:
  assumes "distinct (map d_sha256 (documents s))" and "d \<in> set (documents s)"
  shows "find_document_by_sha (delete_document (d_id d) s) (d_sha256 d) = None"
  using assms by (auto simp: tbl_find_None tbl_keys_def delete_document_def tbl_del_def distinct_map inj_on_def)

lemma reingest_outcome:
  assumes rows: "rows_ok (working (iw_txn w))" and ok: "polite cfg sha env" and d: "d \<in> set (documents (working (iw_txn w)))"
    and data: "sha data = d_sha256 d"
    and run: "ingest_bytes cfg (env\<lparr>ie_doc_id := fresh_doc_id (working (iw_txn w))\<rparr>) data (d_filename d) (d_collection d)
      (commit_update (delete_document (d_id d)) w) = (out, w2)"
  shows "case out of
      Inl e \<Rightarrow> only_blob_removed (blob_path_for cfg (d_sha256 d) (d_filename d)) (commit_update (delete_document (d_id d)) w) w2
    | Inr r \<Rightarrow> ir_doc_id r = fresh_doc_id (working (iw_txn w))
        \<and> stored cfg (env\<lparr>ie_doc_id := fresh_doc_id (working (iw_txn w))\<rparr>) data (d_filename d) (d_collection d)
            (commit_update (delete_document (d_id d)) w) w2"
proof -
  let ?s = "working (iw_txn w)" and ?new = "fresh_doc_id (working (iw_txn w))"
  let ?env = "env\<lparr>ie_doc_id := ?new\<rparr>" and ?w1 = "commit_update (delete_document (d_id d)) w"
  have none: "find_document_by_sha (delete_document (d_id d) ?s) (d_sha256 d) = None"
    using rows d by (intro find_by_sha_deleted) (simp_all add: rows_ok_def)
  have new: "?new \<notin> d_id ` set (documents (delete_document (d_id d) ?s))"
    by (rule fresh_doc_id_grows) (auto simp: delete_document_def tbl_del_def)
  have e: "ie_sha256 ?env data = d_sha256 d" "ie_doc_id ?env = ?new" "ie_rival ?env = None"
    using data ok by (simp_all add: polite_def)
  have "\<forall>c m. parse_upload cfg (ie_parse ?env) data (guess_mime (d_filename d)) (d_filename d) \<noteq> Inl (HTTPException c m)"
    using ok by (simp add: polite_def)
  from ingest_outcome [OF this, of ?w1 "d_collection d"] have
    "case (out, w2) of
      (Inl e, w') \<Rightarrow> only_blob_removed (blob_path_for cfg (d_sha256 d) (d_filename d)) ?w1 w'
    | (Inr r, w') \<Rightarrow> (case ir_duplicate_of r of
          None \<Rightarrow> r = \<lparr>ir_doc_id = ?new, ir_status = Ready, ir_duplicate_of = None\<rparr> \<and> None = (None :: document option)
            \<and> stored cfg ?env data (d_filename d) (d_collection d) ?w1 w'
        | Some i \<Rightarrow> i = ir_doc_id r \<and> None \<noteq> (None :: document option))"
    unfolding e run using new none by simp
  then show ?thesis by (auto split: sum.splits option.splits)
qed

lemma reingest_stored:
  assumes rows: "rows_ok s" and sha: "ie_sha256 env data = digest" and new: "ie_doc_id env \<notin> d_id ` set (documents s)"
    and w1: "working (iw_txn w1) = delete_document i s"
    and st: "stored cfg env data filename collection w1 w2"
  shows "\<exists>cs new. chunks (working (iw_txn w2)) = filter (\<lambda>c. c_doc_id c \<noteq> i) (chunks s) @ cs
     \<and> documents (working (iw_txn w2)) = filter (\<lambda>x. d_id x \<noteq> i) (documents s) @ [new]
     \<and> d_id new = ie_doc_id env \<and> d_sha256 new = digest
     \<and> {a \<in> set (document_acl (working (iw_txn w2))). a_doc_id a \<in> {i, ie_doc_id env}}
         = rule_grant (ie_doc_id env) ` set (admitting (rule_similarity_floor cfg) cs (confirmed_rules s))"
    and "map i_doc_id (connector_items (working (iw_txn w2))) = map (\<lambda>x. if i_doc_id x = Some i then None else i_doc_id x) (connector_items s)"
proof -
  from st obtain up cs us gs where
    w2: "working (iw_txn w2) = stored_db cfg env digest filename collection up cs us gs (delete_document i s)"
    and acl: "set (document_acl (working (iw_txn w2))) = set (document_acl (delete_document i s))
      \<union> rule_grant (ie_doc_id env) ` set (admitting (rule_similarity_floor cfg) cs (confirmed_rules (delete_document i s)))"
    unfolding stored_def Let_def sha w1 by blast
  have conf: "confirmed_rules (delete_document i s) = confirmed_rules s"
    by (simp add: confirmed_rules_def delete_document_def)
  have "\<forall>a\<in>set (document_acl s). a_doc_id a \<noteq> ie_doc_id env"
    using rows new unfolding rows_ok_def by (metis image_eqI subsetD)
  then have grants: "{a \<in> set (document_acl (working (iw_txn w2))). a_doc_id a \<in> {i, ie_doc_id env}}
      = rule_grant (ie_doc_id env) ` set (admitting (rule_similarity_floor cfg) cs (confirmed_rules s))"
    unfolding acl conf by (auto simp: delete_document_def rule_grant_def)
  have chunks: "chunks (working (iw_txn w2)) = filter (\<lambda>c. c_doc_id c \<noteq> i) (chunks s) @ cs"
    by (simp add: w2 stored_db_def delete_document_def)
  have docs: "documents (working (iw_txn w2)) = filter (\<lambda>x. d_id x \<noteq> i) (documents s)
      @ [(new_document cfg env digest filename collection up)\<lparr>d_status := Ready\<rparr>]"
    by (simp add: w2 stored_db_def delete_document_def tbl_del_def)
  have ids: "d_id ((new_document cfg env digest filename collection up)\<lparr>d_status := Ready\<rparr>) = ie_doc_id env"
    "d_sha256 ((new_document cfg env digest filename collection up)\<lparr>d_status := Ready\<rparr>) = digest"
    by (simp_all add: new_document_def)
  show "\<exists>cs new. chunks (working (iw_txn w2)) = filter (\<lambda>c. c_doc_id c \<noteq> i) (chunks s) @ cs
     \<and> documents (working (iw_txn w2)) = filter (\<lambda>x. d_id x \<noteq> i) (documents s) @ [new]
     \<and> d_id new = ie_doc_id env \<and> d_sha256 new = digest
     \<and> {a \<in> set (document_acl (working (iw_txn w2))). a_doc_id a \<in> {i, ie_doc_id env}}
         = rule_grant (ie_doc_id env) ` set (admitting (rule_similarity_floor cfg) cs (confirmed_rules s))"
    by (intro exI conjI) (rule chunks docs ids grants)+
  show "map i_doc_id (connector_items (working (iw_txn w2))) = map (\<lambda>x. if i_doc_id x = Some i then None else i_doc_id x) (connector_items s)"
    by (simp add: w2 stored_db_def delete_document_def)
qed


definition reingest_doc :: document where
  "reingest_doc = \<lparr>d_id = 4, d_sha256 = ie_sha256 sample_ingest_env ''ab cd'', d_filename = ''a.txt'', d_mime = ''text/plain'',
     d_blob_path = blob_path_for default_settings (ie_sha256 sample_ingest_env ''ab cd'') ''a.txt'', d_page_count = Some 1, d_title = None,
     d_title_norm = None, d_collection = ''c'', d_status = Ready, d_error = None, d_created_at = 0\<rparr>"

definition reingest_world :: ingest_world where
  "reingest_world = \<lparr>iw_txn = begin_txn (empty_db\<lparr>documents := [reingest_doc], document_acl := [public_grant 4]\<rparr>),
     iw_blobs = [d_blob_path reingest_doc \<mapsto> ''ab cd'']\<rparr>"


text \<open>
  What the default selection means for tables: a document with a table artifact always counts as
  chunked by the fallback, since artifacts have no heading, so each run re-ingests it again.
\<close>

lemma table_documents_reselected:
  assumes "artifact_row (d_id d) tid p a cid n emb \<in> set (chunks s)" and "d \<in> set (documents s)"
  shows "d \<in> set (reingest_selection s [] False)"
proof -
  have "fallback_chunked s d"
    unfolding fallback_chunked_def list_ex_iff
    using assms(1) by (intro bexI [of _ "artifact_row (d_id d) tid p a cid n emb"]) (simp_all add: artifact_row_def no_heading_def)
  then show ?thesis using assms(2) by (simp add: reingest_selection_def)
qed

section \<open>Credentials work\<close>

lemma login_accepts:
  assumes "tbl_find u_email email (users (working t)) = Some u" and "u_password_hash u = Some h"
    and "au_verify env h password = Inr True"
  shows "is_ok (fst (login cfg env email password t)) = (u_disabled_at u = None)"
  using assms by (simp add: login_def verify_password_def split: prod.split)

lemma create_admin_user:
  assumes "create_admin hash_password new_id generated email password reset t = (Some raw, t')"
  shows "\<exists>u'. tbl_find u_email email (users (working t')) = Some u' \<and> working t' = committed t'
     \<and> u_password_hash u' = Some (hash_password raw) \<and> u_is_admin u'
     \<and> (case tbl_find u_email email (users (working t)) of None \<Rightarrow> u_disabled_at u' = None
        | Some u \<Rightarrow> reset \<and> u_disabled_at u' = u_disabled_at u)"
proof (cases "tbl_find u_email email (users (working t))")
  case None
  then show ?thesis using assms by (auto simp: create_admin_def Let_def tbl_find_append)
next
  case (Some u)
  let ?f = "\<lambda>x. if u_email x = email then x\<lparr>u_password_hash := Some (hash_password raw), u_is_admin := True\<rparr> else x"
  have e: "u_email u = email" using tbl_find_Some [OF Some] by simp
  have "tbl_find u_email email (map ?f (users (working t))) = map_option ?f (tbl_find u_email email (users (working t)))"
    by (rule tbl_find_map) simp
  also have "\<dots> = Some (u\<lparr>u_password_hash := Some (hash_password raw), u_is_admin := True\<rparr>)"
    unfolding Some option.map e by simp
  finally have found: "tbl_find u_email email (map ?f (users (working t)))
      = Some (u\<lparr>u_password_hash := Some (hash_password raw), u_is_admin := True\<rparr>)" .
  have "reset \<and> t' = txn_commit (txn_update (\<lambda>s. s\<lparr>users := map ?f (users s)\<rparr>) t)"
    using assms Some by (auto simp: create_admin_def Let_def split: if_splits)
  then show ?thesis using found Some
    by (intro exI [of _ "u\<lparr>u_password_hash := Some (hash_password raw), u_is_admin := True\<rparr>"]) simp
qed

lemma created_key_found:
  assumes "create_api_key (au_hash env) key name collection t = (shown, t2)"
    and "py_strip key = key" and "rq_authorization rq = ''Bearer '' @ key"
    and "au_hash env key \<notin> k_key_hash ` set (api_keys (working t))"
  shows "shown = key" and "api_key_from_header env rq (committed t2)
     = Some \<lparr>k_key_hash = au_hash env key, k_name = name, k_collection = collection, k_user_id = None\<rparr>"
proof -
  have "tbl_find k_key_hash (au_hash env key) (api_keys (working t)) = None"
    using assms(4) by (simp add: tbl_find_None tbl_keys_def)
  moreover have "py_removeprefix (''Bearer '' @ key) ''Bearer '' = key" by (simp add: py_removeprefix_def py_startswith_def)
  moreover have "py_startswith (''Bearer '' @ key) ''Bearer ''" by (rule py_startswith_append)
  ultimately show "shown = key" "api_key_from_header env rq (committed t2)
     = Some \<lparr>k_key_hash = au_hash env key, k_name = name, k_collection = collection, k_user_id = None\<rparr>"
    using assms by (simp_all only: create_api_key_def api_key_from_header_def prod.inject)
      (auto simp: tbl_find_append)
qed

text \<open>
  Bootstrapped credentials open the door. The password \<open>create_admin\<close> prints for a new account
  logs it in, as an administrator; run again it does nothing without \<open>--reset\<close>; with \<open>--reset\<close> it logs in
  exactly when the account is not disabled, which the script leaves as it was. A key of
  \<open>create_api_key\<close> passes the guard for requests within its collection and resolves to no user.
\<close>

lemma bootstrap_credentials:
  assumes "\<forall>p. au_verify env (hash_password p) p = Inr True"
    and "create_admin hash_password new_id generated email password reset t = (printed, t')"
    and "create_api_key (au_hash env) key name collection t = (shown, t2)"
    and "auth_enabled cfg" and "py_strip key = key" and "rq_cookies rq = []"
    and "rq_authorization rq = ''Bearer '' @ key" and "au_hash env key \<notin> k_key_hash ` set (api_keys (working t))"
  shows "(case printed of
       None \<Rightarrow> t' = t \<and> \<not> reset
     | Some raw \<Rightarrow>
         (case tbl_find u_email email (users (working t)) of
            None \<Rightarrow> True | Some u \<Rightarrow> reset \<and> is_ok (fst (login cfg env email raw t')) = (u_disabled_at u = None))
         \<and> (tbl_find u_email email (users (working t)) = None \<longrightarrow> is_ok (fst (login cfg env email raw t')))
         \<and> (case tbl_find u_email email (users (committed t')) of None \<Rightarrow> False | Some u \<Rightarrow> u_is_admin u))
     \<and> shown = key
     \<and> current_user env rq (committed t2) = None
     \<and> (is_ok (require_auth cfg env rq (committed t2)) \<longleftrightarrow>
          (case (collection, rq_collection rq) of (Some c, Some r) \<Rightarrow> c = [] \<or> r = [] \<or> r = c | _ \<Rightarrow> True))"
proof -
  note key = created_key_found [OF assms(3,5,7,8)]
  have cookie: "session_from_cookie env rq x = None" for x using assms(6) by (simp add: session_from_cookie_def)
  have user: "current_user env rq (committed t2) = None" using key(2) by (simp add: current_user_def cookie)
  have guard: "is_ok (require_auth cfg env rq (committed t2)) \<longleftrightarrow>
          (case (collection, rq_collection rq) of (Some c, Some r) \<Rightarrow> c = [] \<or> r = [] \<or> r = c | _ \<Rightarrow> True)"
    using assms(4) key(2)
    by (auto simp: require_auth_def cookie require_api_key_def out_of_scope_def split: option.splits)
  show ?thesis
  proof (cases printed)
    case None
    then have "t' = t \<and> \<not> reset" using assms(2) by (auto simp: create_admin_def Let_def split: option.splits if_splits)
    then show ?thesis using None key(1) user guard by simp
  next
    case (Some raw)
    obtain u' where u': "tbl_find u_email email (users (working t')) = Some u'" "working t' = committed t'"
      "u_password_hash u' = Some (hash_password raw)" "u_is_admin u'"
      and old: "case tbl_find u_email email (users (working t)) of None \<Rightarrow> u_disabled_at u' = None
        | Some u \<Rightarrow> reset \<and> u_disabled_at u' = u_disabled_at u"
      using create_admin_user [OF assms(2) [unfolded Some]] by blast
    have "is_ok (fst (login cfg env email raw t')) = (u_disabled_at u' = None)"
      using login_accepts [OF u'(1,3)] assms(1) by blast
    then show ?thesis using Some key(1) user guard u' old by (auto split: option.splits)
  qed
qed

lemma bootstrap_credentials_witness:
  "let env = \<lparr>au_hash = id, au_verify = (\<lambda>h p. Inr (h = p)), au_token = ''tok'', au_now = 0\<rparr> in
   \<exists>t'. create_admin id 1 ''pw'' ''a@x'' None False (begin_txn empty_db) = (Some ''pw'', t')
     \<and> is_ok (fst (login (default_settings\<lparr>auth_enabled := True\<rparr>) env ''a@x'' ''pw'' t'))"
proof -
  let ?env = "\<lparr>au_hash = id, au_verify = (\<lambda>h p. Inr (h = p)), au_token = ''tok'', au_now = 0\<rparr>"
  let ?rq = "\<lparr>rq_cookies = [], rq_authorization = ''Bearer '' @ ''k'', rq_collection = None, rq_base_url = []\<rparr>"
  obtain t' where t': "create_admin id 1 ''pw'' ''a@x'' None False (begin_txn empty_db) = (Some ''pw'', t')"
    by (simp add: create_admin_def empty_db_def Let_def)
  obtain t2 where t2: "create_api_key (au_hash ?env) ''k'' None None (begin_txn empty_db) = (''k'', t2)"
    by (simp add: create_api_key_def)
  have strip: "py_strip ''k'' = ''k''" by code_simp
  show ?thesis
    using bootstrap_credentials [OF _ t' t2, of "default_settings\<lparr>auth_enabled := True\<rparr>" ?rq] strip t'
    by (simp add: empty_db_def Let_def)
qed

text \<open>\<open>create_api_key\<close> without a collection: the key sees everything (see \<open>auth_never_falls_open\<close>).\<close>

lemma backfill_public_sees:
  "(\<forall>d\<in>set (documents s). sees (backfill_public s) user (d_id d))
   \<and> (\<forall>doc. doc \<notin> d_id ` set (documents s) \<longrightarrow> sees (backfill_public s) user doc = sees s user doc)"
proof -
  have g: "acl_grants (backfill_public s) uid a = acl_grants s uid a" for uid a
    by (simp add: backfill_public_def acl_grants_def group_ids_of_def split: principal.split)
  have acl: "set (document_acl (backfill_public s)) = set (document_acl s) \<union> public_grant ` d_id ` set (documents s)"
    by (auto simp: backfill_public_def public_grant_def)
  have pub: "acl_grants s uid (public_grant i)" "a_doc_id (public_grant i) = i" for uid i
    by (simp_all add: acl_grants_def public_grant_def)
  show ?thesis
  proof (cases "user = None \<or> (\<exists>u. user = Some u \<and> u_is_admin u)")
    case True
    then show ?thesis using sees_super by auto
  next
    case False
    then obtain u where u: "user = Some u" "\<not> u_is_admin u" by auto
    show ?thesis unfolding u(1) sees_user [OF u(2)] acl g by (auto simp: bex_Un pub)
  qed
qed

section \<open>The verdict of the doctor\<close>

lemma check_label_FAIL: "check_label ok detail = ''FAIL'' \<longleftrightarrow> \<not> ok"
  by (simp add: check_label_def)

lemma check_oks:
  "fst (snd (check_settings cfg))" "fst (snd (check_rerank cfg e))"
  "fst (snd (check_db e)) = is_ok (dr_db e)" "fst (snd (check_blob_dir e)) = is_ok (dr_blob e)"
  "fst (snd (check_bm25 e)) = is_ok (dr_bm25 e)"
  "fst (snd (check_migrations e)) \<longleftrightarrow> (\<exists>v. dr_head e = Inr v \<and> dr_current e = Inr (Some v))"
  "fst (snd (check_llm cfg e None)) \<longleftrightarrow> (has_provider_key cfg e \<longrightarrow> is_ok (dr_llm e))"
  "fst (snd (check_embed cfg e None)) \<longleftrightarrow> (has_provider_key cfg e \<or> py_startswith (embed_model cfg) ''local/'' \<longrightarrow>
     (case dr_embed e of Inl _ \<Rightarrow> False | Inr vs \<Rightarrow> embed_dim cfg = (case vs of [] \<Rightarrow> 0 | v # _ \<Rightarrow> int (length v))))"
  by (auto simp: check_settings_def check_rerank_def check_db_def check_blob_dir_def check_bm25_def check_migrations_def
      check_llm_def check_embed_def Let_def split: sum.split bool.split)

text \<open>
  The doctor's exit code is 0 exactly when nothing is broken: the database answers and is at
  the head of the migrations, the blob directory is writable, the index probe answers, and,
  where a provider is configured, the model answers and the embeddings have the configured
  dimension. A missing key, a missing index and whatever the reranker does only warn, and every
  failing check is printed as \<open>FAIL\<close>.
\<close>

lemma doctor_verdict:
  "(fst (doctor_main cfg e) = 0 \<longleftrightarrow>
      is_ok (dr_db e) \<and> (\<exists>v. dr_head e = Inr v \<and> dr_current e = Inr (Some v)) \<and> is_ok (dr_blob e) \<and> is_ok (dr_bm25 e)
    \<and> (if has_provider_key cfg e then is_ok (dr_llm e) else True)
    \<and> (if has_provider_key cfg e \<or> py_startswith (embed_model cfg) ''local/''
       then (case dr_embed e of Inl _ \<Rightarrow> False
             | Inr vs \<Rightarrow> embed_dim cfg = (case vs of [] \<Rightarrow> 0 | v # _ \<Rightarrow> int (length v)))
       else True))
   \<and> length (snd (doctor_main cfg e)) = 8"
proof -
  have "fst (doctor_main cfg e) = 0 \<longleftrightarrow> list_all (\<lambda>c. fst (snd c)) (run_all cfg e None None)"
    by (simp add: doctor_main_def Let_def check_label_FAIL list_ex_iff list_all_iff)
  moreover have "length (snd (doctor_main cfg e)) = 8" by (simp add: doctor_main_def Let_def run_all_def)
  moreover have "(if p then q else True) = (p \<longrightarrow> q)" for p q by simp
  ultimately show ?thesis by (simp only: run_all_def list.pred_inject check_oks simp_thms conj_ac)
qed

end
