(* ===== verification/Migrations.thy ===== *)
theory Migrations imports Prelude begin

text \<open>
  The schema: the Alembic revisions of \<open>alembic/versions\<close> as data-definition programs over a schema, the
  PostgreSQL behaviour they rely on (what each statement needs, what it refuses, what it removes with
  a table or a column), the mapped tables of \<open>prorag/models.py\<close>, the transaction of
  \<open>alembic/env.py\<close> and the advisory lock of \<open>scripts/migrate.py\<close> under which replicas migrate.
  Of a column the model keeps what is declared, as a list of options; the indexes of a primary key
  or of a unique column are not named.
\<close>

section \<open>Schemas\<close>

datatype sql_type = Uuid | VarChar | SqlText | Integer | BigInteger | SqlBoolean | SqlFloat | Timestamp | TimestampTz | Jsonb
  | ArrayOf sql_type | VectorOf nat | Tsvector

datatype on_delete = NoAction | Cascade | SetNull

datatype col_option = PrimaryKey | NotNull | Unique | References string string on_delete | ServerDefault string
  | GeneratedFrom string

datatype column_def = Column (co_name: string) (co_type: sql_type) (co_options: "col_option list")

datatype table_arg = PrimaryKeyConstraint "string list" | UniqueConstraint string "string list" | CheckConstraint string string

datatype table_def = Table (td_name: string) (td_columns: "column_def list") (td_args: "table_arg list")

text \<open>An index: its name, table, columns, whether it is unique, its method, and what else its definition says.\<close>

datatype index_def = SqlIndex (ix_name: string) (ix_table: string) (ix_columns: "string list") (ix_unique: bool)
  (ix_using: string) (ix_extra: string)

record schema =
  sc_extensions :: "string list"
  sc_tables :: "table_def list"
  sc_indexes :: "index_def list"

definition empty_schema :: schema where
  "empty_schema = \<lparr>sc_extensions = [], sc_tables = [], sc_indexes = []\<rparr>"

fun references :: "col_option list \<Rightarrow> (string \<times> string \<times> on_delete) option" where
  "references [] = None"
| "references (References t c d # os) = Some (t, c, d)"
| "references (_ # os) = references os"

fun generated_from :: "col_option list \<Rightarrow> string option" where
  "generated_from [] = None"
| "generated_from (GeneratedFrom c # os) = Some c"
| "generated_from (_ # os) = generated_from os"

fun has_default :: "col_option list \<Rightarrow> bool" where
  "has_default [] = False"
| "has_default (ServerDefault d # os) = True"
| "has_default (_ # os) = has_default os"

definition nullable :: "column_def \<Rightarrow> bool" where
  "nullable c = (NotNull \<notin> set (co_options c) \<and> PrimaryKey \<notin> set (co_options c))"

definition column_names :: "table_def \<Rightarrow> string list" where
  "column_names t = map co_name (td_columns t)"

fun arg_name :: "table_arg \<Rightarrow> string option" where
  "arg_name (PrimaryKeyConstraint cs) = None"
| "arg_name (UniqueConstraint n cs) = Some n"
| "arg_name (CheckConstraint n c) = Some n"

fun arg_columns :: "table_arg \<Rightarrow> string list" where
  "arg_columns (PrimaryKeyConstraint cs) = cs"
| "arg_columns (UniqueConstraint n cs) = cs"
| "arg_columns (CheckConstraint n c) = []"

definition find_table :: "schema \<Rightarrow> string \<Rightarrow> table_def option" where
  "find_table s n = tbl_find td_name n (sc_tables s)"

text \<open>Tables and indexes share one name space.\<close>

definition relation_names :: "schema \<Rightarrow> string list" where
  "relation_names s = map td_name (sc_tables s) @ map ix_name (sc_indexes s)"

definition put_table :: "table_def \<Rightarrow> schema \<Rightarrow> schema" where
  "put_table t s = s\<lparr>sc_tables := map (\<lambda>x. if td_name x = td_name t then t else x) (sc_tables s)\<rparr>"

section \<open>Statements\<close>

datatype ddl =
    CreateExtension string
  | CreateTable table_def
  | DropTable string
  | AddColumn string column_def
  | DropColumn string string
  | CreateIndex index_def
  | DropIndex string
  | DropIndexIfExists string
  | CreateUnique string string "string list"
  | DropConstraint string string
  | InsertFrom string "string list" string "string list"

definition db_error :: "string \<Rightarrow> string \<Rightarrow> exn" where
  "db_error c n = PyError c n"

text \<open>A foreign key needs its column to exist; a table may refer to itself.\<close>

definition reference_ok :: "schema \<Rightarrow> string \<Rightarrow> string list \<Rightarrow> column_def \<Rightarrow> bool" where
  "reference_ok s self own c =
     (case references (co_options c) of
        None \<Rightarrow> True
      | Some (t, rc, d) \<Rightarrow>
          if t = self then rc \<in> set own
          else (case find_table s t of None \<Rightarrow> False | Some td \<Rightarrow> rc \<in> set (column_names td)))"

fun type_ok :: "string list \<Rightarrow> sql_type \<Rightarrow> bool" where
  "type_ok exts (VectorOf n) = (''vector'' \<in> set exts)"
| "type_ok exts (ArrayOf t) = type_ok exts t"
| "type_ok exts t = True"

definition method_ok :: "string list \<Rightarrow> string \<Rightarrow> bool" where
  "method_ok exts m =
     (if m = ''hnsw'' then ''vector'' \<in> set exts else if m = ''bm25'' then ''pg_search'' \<in> set exts else True)"

definition refers_to :: "string \<Rightarrow> table_def \<Rightarrow> bool" where
  "refers_to n t = list_ex (\<lambda>c. case references (co_options c) of None \<Rightarrow> False | Some (r, rc, d) \<Rightarrow> r = n) (td_columns t)"

definition refers_to_column :: "string \<Rightarrow> string \<Rightarrow> table_def \<Rightarrow> bool" where
  "refers_to_column n cn t =
     list_ex (\<lambda>c. case references (co_options c) of None \<Rightarrow> False | Some (r, rc, d) \<Rightarrow> r = n \<and> rc = cn) (td_columns t)"

text \<open>
  One statement. \<open>available\<close> says which extensions the server can install: \<open>IF NOT EXISTS\<close> skips an
  extension that is installed already, and nothing else. A table that other tables refer to
  is not dropped; dropping a table or a column removes its indexes. A column added to a table that may have
  rows must be nullable or have a default.
\<close>

fun run_ddl :: "(string \<Rightarrow> bool) \<Rightarrow> ddl \<Rightarrow> schema \<Rightarrow> schema outcome" where
  "run_ddl available (CreateExtension x) s =
     (if x \<in> set (sc_extensions s) then Inr s
      else if \<not> available x then Inl (db_error ''UndefinedFile'' x)
      else Inr (s\<lparr>sc_extensions := sc_extensions s @ [x]\<rparr>))"
| "run_ddl available (CreateTable t) s =
     (if td_name t \<in> set (relation_names s) then Inl (db_error ''DuplicateTable'' (td_name t))
      else if \<not> distinct (column_names t) then Inl (db_error ''DuplicateColumn'' (td_name t))
      else if \<not> list_all (\<lambda>c. type_ok (sc_extensions s) (co_type c)) (td_columns t) then Inl (db_error ''UndefinedObject'' (td_name t))
      else if \<not> list_all (reference_ok s (td_name t) (column_names t)) (td_columns t) then Inl (db_error ''UndefinedTable'' (td_name t))
      else if \<not> list_all (\<lambda>a. set (arg_columns a) \<subseteq> set (column_names t)) (td_args t) then Inl (db_error ''UndefinedColumn'' (td_name t))
      else Inr (s\<lparr>sc_tables := sc_tables s @ [t]\<rparr>))"
| "run_ddl available (DropTable n) s =
     (case find_table s n of
        None \<Rightarrow> Inl (db_error ''UndefinedTable'' n)
      | Some t \<Rightarrow>
          if list_ex (\<lambda>x. td_name x \<noteq> n \<and> refers_to n x) (sc_tables s) then Inl (db_error ''DependentObjectsStillExist'' n)
          else Inr (s\<lparr>sc_tables := tbl_del td_name n (sc_tables s), sc_indexes := filter (\<lambda>i. ix_table i \<noteq> n) (sc_indexes s)\<rparr>))"
| "run_ddl available (AddColumn n c) s =
     (case find_table s n of
        None \<Rightarrow> Inl (db_error ''UndefinedTable'' n)
      | Some t \<Rightarrow>
          if co_name c \<in> set (column_names t) then Inl (db_error ''DuplicateColumn'' (co_name c))
          else if \<not> type_ok (sc_extensions s) (co_type c) then Inl (db_error ''UndefinedObject'' (co_name c))
          else if \<not> reference_ok s n (column_names t) c then Inl (db_error ''UndefinedTable'' (co_name c))
          else if \<not> nullable c \<and> \<not> has_default (co_options c) then Inl (db_error ''NotNullViolation'' (co_name c))
          else if (case generated_from (co_options c) of None \<Rightarrow> False | Some b \<Rightarrow> b \<notin> set (column_names t)) then
            Inl (db_error ''UndefinedColumn'' (co_name c))
          else Inr (put_table (Table n (td_columns t @ [c]) (td_args t)) s))"
| "run_ddl available (DropColumn n cn) s =
     (case find_table s n of
        None \<Rightarrow> Inl (db_error ''UndefinedTable'' n)
      | Some t \<Rightarrow>
          if cn \<notin> set (column_names t) then Inl (db_error ''UndefinedColumn'' cn)
          else if list_ex (refers_to_column n cn) (sc_tables s)
              \<or> list_ex (\<lambda>c. generated_from (co_options c) = Some cn) (td_columns t) then
            Inl (db_error ''DependentObjectsStillExist'' cn)
          else Inr (put_table (Table n (filter (\<lambda>c. co_name c \<noteq> cn) (td_columns t)) (filter (\<lambda>a. cn \<notin> set (arg_columns a)) (td_args t)))
                 (s\<lparr>sc_indexes := filter (\<lambda>i. \<not> (ix_table i = n \<and> cn \<in> set (ix_columns i))) (sc_indexes s)\<rparr>)))"
| "run_ddl available (CreateIndex i) s =
     (if ix_name i \<in> set (relation_names s) then Inl (db_error ''DuplicateTable'' (ix_name i))
      else if \<not> method_ok (sc_extensions s) (ix_using i) then Inl (db_error ''UndefinedObject'' (ix_using i))
      else (case find_table s (ix_table i) of
              None \<Rightarrow> Inl (db_error ''UndefinedTable'' (ix_table i))
            | Some t \<Rightarrow>
                if set (ix_columns i) \<subseteq> set (column_names t) then Inr (s\<lparr>sc_indexes := sc_indexes s @ [i]\<rparr>)
                else Inl (db_error ''UndefinedColumn'' (ix_name i))))"
| "run_ddl available (DropIndex n) s =
     (if n \<in> set (map ix_name (sc_indexes s)) then Inr (s\<lparr>sc_indexes := tbl_del ix_name n (sc_indexes s)\<rparr>)
      else Inl (db_error ''UndefinedObject'' n))"
| "run_ddl available (DropIndexIfExists n) s = Inr (s\<lparr>sc_indexes := tbl_del ix_name n (sc_indexes s)\<rparr>)"
| "run_ddl available (CreateUnique n t cs) s =
     (case find_table s t of
        None \<Rightarrow> Inl (db_error ''UndefinedTable'' t)
      | Some td \<Rightarrow>
          if n \<in> set (relation_names s) \<or> Some n \<in> set (map arg_name (td_args td)) then Inl (db_error ''DuplicateTable'' n)
          else if \<not> set cs \<subseteq> set (column_names td) then Inl (db_error ''UndefinedColumn'' n)
          else Inr (put_table (Table t (td_columns td) (td_args td @ [UniqueConstraint n cs])) s))"
| "run_ddl available (DropConstraint n t) s =
     (case find_table s t of
        None \<Rightarrow> Inl (db_error ''UndefinedTable'' t)
      | Some td \<Rightarrow>
          if Some n \<in> set (map arg_name (td_args td)) then
            Inr (put_table (Table t (td_columns td) (filter (\<lambda>a. arg_name a \<noteq> Some n) (td_args td))) s)
          else Inl (db_error ''UndefinedObject'' n))"
| "run_ddl available (InsertFrom t cs src scs) s =
     (case (find_table s t, find_table s src) of
        (Some td, Some sd) \<Rightarrow>
          if set cs \<subseteq> set (column_names td) \<and> set scs \<subseteq> set (column_names sd) then Inr s else Inl (db_error ''UndefinedColumn'' t)
      | _ \<Rightarrow> Inl (db_error ''UndefinedTable'' t))"

fun run_script :: "(string \<Rightarrow> bool) \<Rightarrow> ddl list \<Rightarrow> schema \<Rightarrow> schema outcome" where
  "run_script available [] s = Inr s"
| "run_script available (d # ds) s = (case run_ddl available d s of Inl e \<Rightarrow> Inl e | Inr s' \<Rightarrow> run_script available ds s')"

section \<open>The revisions\<close>

text \<open>
  A plain \<open>sa.Column\<close> is nullable. \<open>serial\<close> is the autoincrementing integer key, \<open>created_at\<close> the time
  stamp the server fills in. The vector index casts to \<open>halfvec\<close> beyond 2000 dimensions.
\<close>

definition id_column :: column_def where
  "id_column = Column ''id'' Uuid [PrimaryKey]"

definition serial :: column_def where
  "serial = Column ''id'' BigInteger [PrimaryKey]"

definition created_at :: column_def where
  "created_at = Column ''created_at'' TimestampTz [ServerDefault ''now()'']"

definition btree :: "string \<Rightarrow> string \<Rightarrow> string list \<Rightarrow> index_def" where
  "btree n t cs = SqlIndex n t cs False ''btree'' []"

definition hnsw_index :: "nat \<Rightarrow> index_def" where
  "hnsw_index edim = SqlIndex ''ix_chunks_embedding_hnsw'' ''chunks'' [''embedding''] False ''hnsw''
     (if 2000 < edim then ''halfvec_cosine_ops'' else ''vector_cosine_ops'')"

definition upgrade_0001 :: "nat \<Rightarrow> ddl list" where
  "upgrade_0001 edim =
    [CreateExtension ''vector'',
     CreateTable (Table ''documents''
      [id_column,
       Column ''sha256'' VarChar [NotNull, Unique],
       Column ''filename'' VarChar [NotNull],
       Column ''mime'' VarChar [NotNull],
       Column ''blob_path'' VarChar [NotNull],
       Column ''page_count'' Integer [],
       Column ''title'' VarChar [],
       Column ''collection'' VarChar [NotNull, ServerDefault ''default''],
       Column ''meta'' Jsonb [NotNull, ServerDefault ''{}''],
       Column ''status'' VarChar [NotNull],
       Column ''error'' SqlText [],
       created_at] []),
     CreateTable (Table ''chunks''
      [serial,
       Column ''doc_id'' Uuid [References ''documents'' ''id'' Cascade, NotNull],
       Column ''ord'' Integer [NotNull],
       Column ''kind'' VarChar [NotNull, ServerDefault ''prose''],
       Column ''text'' SqlText [NotNull],
       Column ''embed_text'' SqlText [NotNull],
       Column ''page_start'' Integer [],
       Column ''page_end'' Integer [],
       Column ''token_count'' Integer [NotNull],
       Column ''embedding'' (VectorOf edim) [NotNull]] []),
     CreateIndex (btree ''ix_chunks_doc_id_ord'' ''chunks'' [''doc_id'', ''ord'']),
     CreateIndex (hnsw_index edim)]"

definition downgrade_0001 :: "ddl list" where
  "downgrade_0001 = [DropTable ''chunks'', DropTable ''documents'']"

definition upgrade_0002 :: "ddl list" where
  "upgrade_0002 =
    [AddColumn ''chunks'' (Column ''tsv'' Tsvector [GeneratedFrom ''text'']),
     CreateIndex (SqlIndex ''ix_chunks_tsv'' ''chunks'' [''tsv''] False ''gin'' [])]"

definition downgrade_0002 :: "ddl list" where
  "downgrade_0002 = [DropIndex ''ix_chunks_tsv'', DropColumn ''chunks'' ''tsv'']"

definition upgrade_0003 :: "ddl list" where
  "upgrade_0003 =
    [CreateTable (Table ''tables''
      [id_column,
       Column ''doc_id'' Uuid [References ''documents'' ''id'' Cascade, NotNull],
       Column ''caption'' SqlText [],
       Column ''columns'' (ArrayOf VarChar) [],
       Column ''row_count'' Integer [],
       Column ''page_no'' Integer [],
       Column ''bbox'' (ArrayOf SqlFloat) []] []),
     CreateTable (Table ''table_rows''
      [serial,
       Column ''table_id'' Uuid [References ''tables'' ''id'' Cascade, NotNull],
       Column ''row_no'' Integer [NotNull],
       Column ''data'' Jsonb [NotNull]] []),
     CreateIndex (btree ''ix_table_rows_table_id'' ''table_rows'' [''table_id'']),
     CreateIndex (SqlIndex ''ix_table_rows_data_gin'' ''table_rows'' [''data''] False ''gin'' ''jsonb_path_ops''),
     AddColumn ''documents'' (Column ''title_norm'' VarChar []),
     AddColumn ''chunks'' (Column ''heading_path'' (ArrayOf VarChar) []),
     AddColumn ''chunks'' (Column ''bbox'' (ArrayOf SqlFloat) []),
     AddColumn ''chunks'' (Column ''table_id'' Uuid [References ''tables'' ''id'' Cascade])]"

definition downgrade_0003 :: "ddl list" where
  "downgrade_0003 =
    [DropColumn ''chunks'' ''table_id'', DropColumn ''chunks'' ''bbox'', DropColumn ''chunks'' ''heading_path'',
     DropColumn ''documents'' ''title_norm'', DropIndex ''ix_table_rows_data_gin'', DropIndex ''ix_table_rows_table_id'',
     DropTable ''table_rows'', DropTable ''tables'']"

definition upgrade_0004 :: "ddl list" where
  "upgrade_0004 =
    [CreateTable (Table ''chats'' [id_column, created_at] []),
     CreateTable (Table ''messages''
      [id_column,
       Column ''chat_id'' Uuid [References ''chats'' ''id'' Cascade, NotNull],
       Column ''role'' VarChar [NotNull],
       Column ''content'' SqlText [NotNull],
       created_at] []),
     CreateIndex (btree ''ix_messages_chat_id'' ''messages'' [''chat_id'']),
     CreateTable (Table ''citations''
      [serial,
       Column ''message_id'' Uuid [References ''messages'' ''id'' Cascade, NotNull],
       Column ''n'' Integer [NotNull],
       Column ''doc_id'' Uuid [NotNull],
       Column ''page'' Integer [],
       Column ''bbox'' (ArrayOf SqlFloat) []] []),
     CreateIndex (btree ''ix_citations_message_id'' ''citations'' [''message_id''])]"

definition downgrade_0004 :: "ddl list" where
  "downgrade_0004 =
    [DropIndex ''ix_citations_message_id'', DropTable ''citations'', DropIndex ''ix_messages_chat_id'', DropTable ''messages'',
     DropTable ''chats'']"

definition upgrade_0005 :: "ddl list" where
  "upgrade_0005 =
    [CreateTable (Table ''api_keys''
      [id_column,
       Column ''key_hash'' VarChar [NotNull, Unique],
       Column ''name'' VarChar [],
       Column ''collection'' VarChar [],
       created_at] []),
     CreateTable (Table ''usage''
      [serial,
       Column ''message_id'' Uuid [],
       Column ''model'' VarChar [NotNull],
       Column ''prompt_tokens'' Integer [NotNull, ServerDefault ''0''],
       Column ''completion_tokens'' Integer [NotNull, ServerDefault ''0''],
       Column ''cost_usd'' SqlFloat [NotNull, ServerDefault ''0''],
       created_at] []),
     CreateIndex (btree ''ix_usage_created_at'' ''usage'' [''created_at'']),
     CreateTable (Table ''feedback''
      [serial,
       Column ''message_id'' Uuid [References ''messages'' ''id'' Cascade, NotNull],
       Column ''rating'' VarChar [NotNull],
       Column ''comment'' SqlText [],
       created_at]
      [UniqueConstraint ''uq_feedback_message_id'' [''message_id'']]),
     CreateIndex (btree ''ix_feedback_message_id'' ''feedback'' [''message_id''])]"

definition downgrade_0005 :: "ddl list" where
  "downgrade_0005 =
    [DropIndex ''ix_feedback_message_id'', DropTable ''feedback'', DropIndex ''ix_usage_created_at'', DropTable ''usage'',
     DropTable ''api_keys'']"

definition upgrade_0006 :: "ddl list" where
  "upgrade_0006 =
    [CreateTable (Table ''eval_runs''
      [serial,
       Column ''questions'' Jsonb [NotNull, ServerDefault ''[]''],
       Column ''aggregate'' Jsonb [NotNull, ServerDefault ''{}''],
       created_at] [])]"

definition downgrade_0006 :: "ddl list" where
  "downgrade_0006 = [DropTable ''eval_runs'']"

definition upgrade_0007 :: "ddl list" where
  "upgrade_0007 =
    [CreateExtension ''pg_search'',
     CreateIndex (SqlIndex ''ix_chunks_bm25'' ''chunks'' [''id'', ''text''] False ''bm25'' ''key_field=id'')]"

definition downgrade_0007 :: "ddl list" where
  "downgrade_0007 = [DropIndexIfExists ''ix_chunks_bm25'']"

definition upgrade_0008 :: "ddl list" where
  "upgrade_0008 =
    [CreateTable (Table ''users''
      [id_column,
       Column ''external_subject'' VarChar [Unique],
       Column ''email'' VarChar [NotNull, Unique],
       Column ''display_name'' VarChar [],
       Column ''is_admin'' SqlBoolean [NotNull, ServerDefault ''false''],
       created_at,
       Column ''disabled_at'' TimestampTz []] []),
     CreateTable (Table ''groups''
      [id_column,
       Column ''name'' VarChar [NotNull, Unique],
       Column ''source'' VarChar [NotNull, ServerDefault ''local''],
       Column ''external_id'' VarChar []]
      [CheckConstraint ''ck_groups_source'' ''source IN (local, idp)'']),
     CreateIndex (SqlIndex ''uq_groups_source_external_id'' ''groups'' [''source'', ''external_id''] True ''btree''
       ''external_id IS NOT NULL''),
     CreateTable (Table ''user_groups''
      [Column ''user_id'' Uuid [References ''users'' ''id'' Cascade, NotNull],
       Column ''group_id'' Uuid [References ''groups'' ''id'' Cascade, NotNull]]
      [PrimaryKeyConstraint [''user_id'', ''group_id'']]),
     CreateTable (Table ''document_acl''
      [serial,
       Column ''doc_id'' Uuid [References ''documents'' ''id'' Cascade, NotNull],
       Column ''principal_type'' VarChar [NotNull],
       Column ''principal_id'' Uuid [],
       Column ''source'' VarChar [NotNull, ServerDefault ''local''],
       created_at]
      [CheckConstraint ''ck_document_acl_principal_type'' ''principal_type IN (user, group, public)'']),
     CreateIndex (btree ''ix_document_acl_doc_id'' ''document_acl'' [''doc_id'']),
     CreateIndex (btree ''ix_document_acl_principal'' ''document_acl'' [''principal_type'', ''principal_id'']),
     AddColumn ''api_keys'' (Column ''user_id'' Uuid [References ''users'' ''id'' NoAction]),
     AddColumn ''usage'' (Column ''user_id'' Uuid [References ''users'' ''id'' NoAction]),
     CreateIndex (btree ''ix_usage_user_id_created_at'' ''usage'' [''user_id'', ''created_at'']),
     InsertFrom ''document_acl'' [''doc_id'', ''principal_type'', ''principal_id'', ''source''] ''documents'' [''id'']]"

definition downgrade_0008 :: "ddl list" where
  "downgrade_0008 =
    [DropIndex ''ix_usage_user_id_created_at'', DropColumn ''usage'' ''user_id'', DropColumn ''api_keys'' ''user_id'',
     DropIndex ''ix_document_acl_principal'', DropIndex ''ix_document_acl_doc_id'', DropTable ''document_acl'',
     DropTable ''user_groups'', DropIndex ''uq_groups_source_external_id'', DropTable ''groups'', DropTable ''users'']"

definition upgrade_0009 :: "ddl list" where
  "upgrade_0009 =
    [AddColumn ''users'' (Column ''password_hash'' VarChar []),
     CreateTable (Table ''sessions''
      [id_column,
       Column ''token_hash'' VarChar [NotNull, Unique],
       Column ''user_id'' Uuid [References ''users'' ''id'' Cascade, NotNull],
       created_at,
       Column ''expires_at'' TimestampTz [NotNull],
       Column ''revoked_at'' TimestampTz []] []),
     CreateIndex (btree ''ix_sessions_user_id'' ''sessions'' [''user_id''])]"

definition downgrade_0009 :: "ddl list" where
  "downgrade_0009 = [DropIndex ''ix_sessions_user_id'', DropTable ''sessions'', DropColumn ''users'' ''password_hash'']"

definition upgrade_0010 :: "ddl list" where
  "upgrade_0010 = [AddColumn ''users'' (Column ''daily_cap_usd_override'' SqlFloat [])]"

definition downgrade_0010 :: "ddl list" where
  "downgrade_0010 = [DropColumn ''users'' ''daily_cap_usd_override'']"

definition upgrade_0011 :: "ddl list" where
  "upgrade_0011 =
    [CreateTable (Table ''connectors''
      [id_column,
       Column ''type'' VarChar [NotNull],
       Column ''name'' VarChar [NotNull],
       Column ''config'' Jsonb [NotNull, ServerDefault ''{}''],
       Column ''enabled'' SqlBoolean [NotNull, ServerDefault ''true''],
       Column ''last_sync_at'' TimestampTz [],
       Column ''last_full_sweep_at'' TimestampTz [],
       created_at] []),
     CreateTable (Table ''connector_items''
      [Column ''id'' Integer [PrimaryKey],
       Column ''connector_id'' Uuid [References ''connectors'' ''id'' Cascade, NotNull],
       Column ''external_id'' VarChar [NotNull],
       Column ''etag'' VarChar [],
       Column ''size'' Integer [],
       Column ''last_modified'' TimestampTz [],
       Column ''doc_id'' Uuid [References ''documents'' ''id'' SetNull],
       Column ''last_seen_at'' TimestampTz [],
       Column ''status'' VarChar [NotNull, ServerDefault ''pending''],
       Column ''error'' SqlText [],
       created_at] []),
     CreateUnique ''uq_connector_items_connector_id_external_id'' ''connector_items'' [''connector_id'', ''external_id''],
     CreateIndex (btree ''ix_connector_items_connector_id'' ''connector_items'' [''connector_id''])]"

definition downgrade_0011 :: "ddl list" where
  "downgrade_0011 =
    [DropIndex ''ix_connector_items_connector_id'', DropConstraint ''uq_connector_items_connector_id_external_id'' ''connector_items'',
     DropTable ''connector_items'', DropTable ''connectors'']"

definition upgrade_0012 :: "ddl list" where
  "upgrade_0012 = [AddColumn ''connectors'' (Column ''last_error'' SqlText [])]"

definition downgrade_0012 :: "ddl list" where
  "downgrade_0012 = [DropColumn ''connectors'' ''last_error'']"

definition upgrade_0013 :: "nat \<Rightarrow> ddl list" where
  "upgrade_0013 edim =
    [CreateTable (Table ''access_rules''
      [id_column,
       Column ''name'' VarChar [NotNull],
       Column ''nl_query'' SqlText [NotNull],
       Column ''group_id'' Uuid [References ''groups'' ''id'' NoAction, NotNull],
       Column ''state'' VarChar [NotNull, ServerDefault ''draft''],
       Column ''query_embedding'' (VectorOf edim) [],
       created_at,
       Column ''confirmed_at'' TimestampTz []]
      [CheckConstraint ''ck_access_rules_state'' ''state IN (draft, confirmed)'']),
     CreateIndex (btree ''ix_access_rules_group_id'' ''access_rules'' [''group_id''])]"

definition downgrade_0013 :: "ddl list" where
  "downgrade_0013 = [DropIndex ''ix_access_rules_group_id'', DropTable ''access_rules'']"

text \<open>The chain of revisions: name, predecessor, upgrade and downgrade.\<close>

record revision =
  rv_id :: string
  rv_down :: "string option"
  rv_upgrade :: "ddl list"
  rv_downgrade :: "ddl list"

definition revisions :: "nat \<Rightarrow> revision list" where
  "revisions edim =
    [\<lparr>rv_id = ''0001'', rv_down = None, rv_upgrade = upgrade_0001 edim, rv_downgrade = downgrade_0001\<rparr>,
     \<lparr>rv_id = ''0002'', rv_down = Some ''0001'', rv_upgrade = upgrade_0002, rv_downgrade = downgrade_0002\<rparr>,
     \<lparr>rv_id = ''0003'', rv_down = Some ''0002'', rv_upgrade = upgrade_0003, rv_downgrade = downgrade_0003\<rparr>,
     \<lparr>rv_id = ''0004'', rv_down = Some ''0003'', rv_upgrade = upgrade_0004, rv_downgrade = downgrade_0004\<rparr>,
     \<lparr>rv_id = ''0005'', rv_down = Some ''0004'', rv_upgrade = upgrade_0005, rv_downgrade = downgrade_0005\<rparr>,
     \<lparr>rv_id = ''0006'', rv_down = Some ''0005'', rv_upgrade = upgrade_0006, rv_downgrade = downgrade_0006\<rparr>,
     \<lparr>rv_id = ''0007'', rv_down = Some ''0006'', rv_upgrade = upgrade_0007, rv_downgrade = downgrade_0007\<rparr>,
     \<lparr>rv_id = ''0008'', rv_down = Some ''0007'', rv_upgrade = upgrade_0008, rv_downgrade = downgrade_0008\<rparr>,
     \<lparr>rv_id = ''0009'', rv_down = Some ''0008'', rv_upgrade = upgrade_0009, rv_downgrade = downgrade_0009\<rparr>,
     \<lparr>rv_id = ''0010'', rv_down = Some ''0009'', rv_upgrade = upgrade_0010, rv_downgrade = downgrade_0010\<rparr>,
     \<lparr>rv_id = ''0011'', rv_down = Some ''0010'', rv_upgrade = upgrade_0011, rv_downgrade = downgrade_0011\<rparr>,
     \<lparr>rv_id = ''0012'', rv_down = Some ''0011'', rv_upgrade = upgrade_0012, rv_downgrade = downgrade_0012\<rparr>,
     \<lparr>rv_id = ''0013'', rv_down = Some ''0012'', rv_upgrade = upgrade_0013 edim, rv_downgrade = downgrade_0013\<rparr>]"

section \<open>The mapped tables\<close>

text \<open>
  The tables as \<open>prorag/models.py\<close> declares them. What \<open>mapped_column\<close> does not say comes from the
  annotation: \<open>Mapped[int]\<close> is an \<open>Integer\<close>, \<open>Mapped[datetime]\<close> a time stamp without zone, and a column is
  nullable when the annotation allows \<open>None\<close>. Defaults that the client fills in are no part of the schema.
\<close>

definition int_key :: column_def where
  "int_key = Column ''id'' Integer [PrimaryKey]"

definition naive_created_at :: column_def where
  "naive_created_at = Column ''created_at'' Timestamp [NotNull, ServerDefault ''now()'']"

definition orm_Document :: table_def where
  "orm_Document = Table ''documents''
    [id_column,
     Column ''sha256'' VarChar [Unique, NotNull],
     Column ''filename'' VarChar [NotNull],
     Column ''mime'' VarChar [NotNull],
     Column ''blob_path'' VarChar [NotNull],
     Column ''page_count'' Integer [],
     Column ''title'' VarChar [],
     Column ''title_norm'' VarChar [],
     Column ''collection'' VarChar [NotNull],
     Column ''meta'' Jsonb [NotNull],
     Column ''status'' VarChar [NotNull],
     Column ''error'' SqlText [],
     naive_created_at] []"

definition orm_Chunk :: "nat \<Rightarrow> table_def" where
  "orm_Chunk edim = Table ''chunks''
    [int_key,
     Column ''doc_id'' Uuid [References ''documents'' ''id'' Cascade, NotNull],
     Column ''ord'' Integer [NotNull],
     Column ''kind'' VarChar [NotNull],
     Column ''text'' SqlText [NotNull],
     Column ''embed_text'' SqlText [NotNull],
     Column ''heading_path'' (ArrayOf VarChar) [],
     Column ''page_start'' Integer [],
     Column ''page_end'' Integer [],
     Column ''bbox'' (ArrayOf SqlFloat) [],
     Column ''table_id'' Uuid [References ''tables'' ''id'' Cascade],
     Column ''token_count'' Integer [NotNull],
     Column ''embedding'' (VectorOf edim) [NotNull],
     Column ''tsv'' Tsvector []] []"

definition orm_Table :: table_def where
  "orm_Table = Table ''tables''
    [id_column,
     Column ''doc_id'' Uuid [References ''documents'' ''id'' Cascade, NotNull],
     Column ''caption'' SqlText [],
     Column ''columns'' (ArrayOf VarChar) [],
     Column ''row_count'' Integer [],
     Column ''page_no'' Integer [],
     Column ''bbox'' (ArrayOf SqlFloat) []] []"

definition orm_TableRow :: table_def where
  "orm_TableRow = Table ''table_rows''
    [int_key,
     Column ''table_id'' Uuid [References ''tables'' ''id'' Cascade, NotNull],
     Column ''row_no'' Integer [NotNull],
     Column ''data'' Jsonb [NotNull]] []"

definition orm_Chat :: table_def where
  "orm_Chat = Table ''chats'' [id_column, naive_created_at] []"

definition orm_Message :: table_def where
  "orm_Message = Table ''messages''
    [id_column,
     Column ''chat_id'' Uuid [References ''chats'' ''id'' Cascade, NotNull],
     Column ''role'' VarChar [NotNull],
     Column ''content'' SqlText [NotNull],
     naive_created_at] []"

definition orm_Citation :: table_def where
  "orm_Citation = Table ''citations''
    [int_key,
     Column ''message_id'' Uuid [References ''messages'' ''id'' Cascade, NotNull],
     Column ''n'' Integer [NotNull],
     Column ''doc_id'' Uuid [NotNull],
     Column ''page'' Integer [],
     Column ''bbox'' (ArrayOf SqlFloat) []] []"

definition orm_User :: table_def where
  "orm_User = Table ''users''
    [id_column,
     Column ''external_subject'' VarChar [Unique],
     Column ''email'' VarChar [Unique, NotNull],
     Column ''display_name'' VarChar [],
     Column ''is_admin'' SqlBoolean [NotNull],
     Column ''password_hash'' VarChar [],
     Column ''daily_cap_usd_override'' SqlFloat [],
     naive_created_at,
     Column ''disabled_at'' Timestamp []] []"

definition orm_Group :: table_def where
  "orm_Group = Table ''groups''
    [id_column,
     Column ''name'' VarChar [Unique, NotNull],
     Column ''source'' VarChar [NotNull],
     Column ''external_id'' VarChar []]
    [CheckConstraint ''ck_groups_source'' ''source IN (local, idp)'']"

definition orm_UserGroup :: table_def where
  "orm_UserGroup = Table ''user_groups''
    [Column ''user_id'' Uuid [References ''users'' ''id'' Cascade, NotNull],
     Column ''group_id'' Uuid [References ''groups'' ''id'' Cascade, NotNull]]
    [PrimaryKeyConstraint [''user_id'', ''group_id'']]"

definition orm_DocumentAcl :: table_def where
  "orm_DocumentAcl = Table ''document_acl''
    [int_key,
     Column ''doc_id'' Uuid [References ''documents'' ''id'' Cascade, NotNull],
     Column ''principal_type'' VarChar [NotNull],
     Column ''principal_id'' Uuid [],
     Column ''source'' VarChar [NotNull],
     naive_created_at]
    [CheckConstraint ''ck_document_acl_principal_type'' ''principal_type IN (user, group, public)'']"

definition orm_AccessRule :: "nat \<Rightarrow> table_def" where
  "orm_AccessRule edim = Table ''access_rules''
    [id_column,
     Column ''name'' VarChar [NotNull],
     Column ''nl_query'' SqlText [NotNull],
     Column ''group_id'' Uuid [References ''groups'' ''id'' NoAction, NotNull],
     Column ''state'' VarChar [NotNull],
     Column ''query_embedding'' (VectorOf edim) [],
     naive_created_at,
     Column ''confirmed_at'' TimestampTz []]
    [CheckConstraint ''ck_access_rules_state'' ''state IN (draft, confirmed)'']"

definition orm_Session :: table_def where
  "orm_Session = Table ''sessions''
    [id_column,
     Column ''token_hash'' VarChar [Unique, NotNull],
     Column ''user_id'' Uuid [References ''users'' ''id'' Cascade, NotNull],
     naive_created_at,
     Column ''expires_at'' TimestampTz [NotNull],
     Column ''revoked_at'' TimestampTz []] []"

definition orm_ApiKey :: table_def where
  "orm_ApiKey = Table ''api_keys''
    [id_column,
     Column ''key_hash'' VarChar [Unique, NotNull],
     Column ''name'' VarChar [],
     Column ''collection'' VarChar [],
     Column ''user_id'' Uuid [References ''users'' ''id'' NoAction],
     naive_created_at] []"

definition orm_Usage :: table_def where
  "orm_Usage = Table ''usage''
    [int_key,
     Column ''message_id'' Uuid [],
     Column ''model'' VarChar [NotNull],
     Column ''prompt_tokens'' Integer [NotNull],
     Column ''completion_tokens'' Integer [NotNull],
     Column ''cost_usd'' SqlFloat [NotNull],
     Column ''user_id'' Uuid [References ''users'' ''id'' NoAction],
     Column ''created_at'' TimestampTz [NotNull, ServerDefault ''now()'']] []"

definition orm_Feedback :: table_def where
  "orm_Feedback = Table ''feedback''
    [int_key,
     Column ''message_id'' Uuid [References ''messages'' ''id'' Cascade, NotNull],
     Column ''rating'' VarChar [NotNull],
     Column ''comment'' SqlText [],
     naive_created_at]
    [UniqueConstraint ''uq_feedback_message_id'' [''message_id'']]"

definition orm_Connector :: table_def where
  "orm_Connector = Table ''connectors''
    [id_column,
     Column ''type'' VarChar [NotNull],
     Column ''name'' VarChar [NotNull],
     Column ''config'' Jsonb [NotNull],
     Column ''enabled'' SqlBoolean [NotNull],
     Column ''last_sync_at'' TimestampTz [],
     Column ''last_full_sweep_at'' TimestampTz [],
     Column ''last_error'' SqlText [],
     naive_created_at] []"

definition orm_ConnectorItem :: table_def where
  "orm_ConnectorItem = Table ''connector_items''
    [int_key,
     Column ''connector_id'' Uuid [References ''connectors'' ''id'' Cascade, NotNull],
     Column ''external_id'' VarChar [NotNull],
     Column ''etag'' VarChar [],
     Column ''size'' Integer [],
     Column ''last_modified'' TimestampTz [],
     Column ''doc_id'' Uuid [References ''documents'' ''id'' SetNull],
     Column ''last_seen_at'' TimestampTz [],
     Column ''status'' VarChar [NotNull],
     Column ''error'' SqlText [],
     naive_created_at]
    [UniqueConstraint ''uq_connector_items_connector_id_external_id'' [''connector_id'', ''external_id'']]"

definition orm_EvalRun :: table_def where
  "orm_EvalRun = Table ''eval_runs''
    [int_key,
     Column ''questions'' Jsonb [NotNull],
     Column ''aggregate'' Jsonb [NotNull],
     naive_created_at] []"

text \<open>\<open>Base.metadata\<close>: the tables in the order of the file, and the indexes of their \<open>__table_args__\<close>.\<close>

definition orm_tables :: "nat \<Rightarrow> table_def list" where
  "orm_tables edim =
    [orm_Document, orm_Chunk edim, orm_Table, orm_TableRow, orm_Chat, orm_Message, orm_Citation, orm_User, orm_Group,
     orm_UserGroup, orm_DocumentAcl, orm_AccessRule edim, orm_Session, orm_ApiKey, orm_Usage, orm_Feedback, orm_Connector,
     orm_ConnectorItem, orm_EvalRun]"

definition orm_indexes :: "index_def list" where
  "orm_indexes =
    [btree ''ix_chunks_doc_id_ord'' ''chunks'' [''doc_id'', ''ord''],
     btree ''ix_table_rows_table_id'' ''table_rows'' [''table_id''],
     btree ''ix_messages_chat_id'' ''messages'' [''chat_id''],
     btree ''ix_citations_message_id'' ''citations'' [''message_id''],
     btree ''ix_document_acl_doc_id'' ''document_acl'' [''doc_id''],
     btree ''ix_document_acl_principal'' ''document_acl'' [''principal_type'', ''principal_id''],
     btree ''ix_usage_created_at'' ''usage'' [''created_at''],
     btree ''ix_usage_user_id_created_at'' ''usage'' [''user_id'', ''created_at''],
     btree ''ix_feedback_message_id'' ''feedback'' [''message_id''],
     btree ''ix_connector_items_connector_id'' ''connector_items'' [''connector_id'']]"

section \<open>Comparing a schema with the mapped tables\<close>

datatype drift = TypeDiffers | NullableDiffers | KeyDiffers | OnlyInDatabase | OnlyInModels

definition column_drift :: "column_def \<Rightarrow> column_def \<Rightarrow> drift list" where
  "column_drift c m =
     (if co_type c = co_type m then [] else [TypeDiffers])
     @ (if nullable c = nullable m then [] else [NullableDiffers])
     @ (if (PrimaryKey \<in> set (co_options c)) = (PrimaryKey \<in> set (co_options m))
          \<and> (Unique \<in> set (co_options c)) = (Unique \<in> set (co_options m))
          \<and> references (co_options c) = references (co_options m) then [] else [KeyDiffers])"

definition table_drift :: "table_def \<Rightarrow> table_def \<Rightarrow> (string \<times> drift) list" where
  "table_drift t m =
     concat (map (\<lambda>c. case tbl_find co_name (co_name c) (td_columns m) of
         None \<Rightarrow> [(co_name c, OnlyInDatabase)]
       | Some mc \<Rightarrow> map (Pair (co_name c)) (column_drift c mc)) (td_columns t))
     @ map (\<lambda>c. (co_name c, OnlyInModels)) (filter (\<lambda>c. co_name c \<notin> set (column_names t)) (td_columns m))
     @ (if set (td_args t) = set (td_args m) then [] else [([], KeyDiffers)])"

definition schema_drift :: "schema \<Rightarrow> table_def list \<Rightarrow> (string \<times> string \<times> drift) list" where
  "schema_drift s ms =
     concat (map (\<lambda>t. case tbl_find td_name (td_name t) ms of
         None \<Rightarrow> [(td_name t, [], OnlyInDatabase)]
       | Some m \<Rightarrow> map (Pair (td_name t)) (table_drift t m)) (sc_tables s))
     @ map (\<lambda>m. (td_name m, [], OnlyInModels)) (filter (\<lambda>m. find_table s (td_name m) = None) ms)"

text \<open>Who refers to a table, with what happens there when a row goes.\<close>

definition referrers :: "schema \<Rightarrow> string \<Rightarrow> (string \<times> string \<times> on_delete) list" where
  "referrers s n =
     concat (map (\<lambda>t. concat (map (\<lambda>c. case references (co_options c) of
         None \<Rightarrow> [] | Some (r, rc, d) \<Rightarrow> if r = n then [(td_name t, co_name c, d)] else []) (td_columns t))) (sc_tables s))"

section \<open>Running the revisions\<close>

text \<open>
  The database as Alembic sees it: the recorded revision and the schema. \<open>env.py\<close> runs all
  pending revisions inside one transaction, so an exception leaves the database as it was.
\<close>

record database =
  db_version :: "string option"
  db_schema :: schema

definition empty_database :: database where
  "empty_database = \<lparr>db_version = None, db_schema = empty_schema\<rparr>"

definition pending :: "revision list \<Rightarrow> string option \<Rightarrow> revision list" where
  "pending rs v = (case v of None \<Rightarrow> rs | Some x \<Rightarrow> tl (dropWhile (\<lambda>r. rv_id r \<noteq> x) rs))"

fun run_migrations :: "(string \<Rightarrow> bool) \<Rightarrow> revision list \<Rightarrow> database \<Rightarrow> database outcome" where
  "run_migrations available [] b = Inr b"
| "run_migrations available (r # rs) b =
     (if rv_down r \<noteq> db_version b then Inl (PyError ''CommandError'' (rv_id r))
      else (case run_script available (rv_upgrade r) (db_schema b) of
              Inl e \<Rightarrow> Inl e
            | Inr s \<Rightarrow> run_migrations available rs \<lparr>db_version = Some (rv_id r), db_schema = s\<rparr>))"

definition do_run_migrations :: "(string \<Rightarrow> bool) \<Rightarrow> revision list \<Rightarrow> database \<Rightarrow> unit outcome \<times> database" where
  "do_run_migrations available rs b =
     (if db_version b \<notin> insert None (Some ` rv_id ` set rs) then (Inl (PyError ''CommandError'' []), b)
      else (case run_migrations available (pending rs (db_version b)) b of
              Inl e \<Rightarrow> (Inl e, b)
            | Inr b' \<Rightarrow> (Inr (), b')))"

text \<open>Along the chain from a schema: every upgrade runs, and its downgrade restores the tables and indexes it found.\<close>

fun reversible :: "(string \<Rightarrow> bool) \<Rightarrow> revision list \<Rightarrow> schema \<Rightarrow> bool" where
  "reversible available [] s = True"
| "reversible available (r # rs) s =
     (case run_script available (rv_upgrade r) s of
        Inl e \<Rightarrow> False
      | Inr s1 \<Rightarrow>
          (case run_script available (rv_downgrade r) s1 of
             Inl e \<Rightarrow> False
           | Inr s0 \<Rightarrow> sc_tables s0 = sc_tables s \<and> sc_indexes s0 = sc_indexes s \<and> sc_extensions s0 = sc_extensions s1)
          \<and> reversible available rs s1)"

text \<open>The extensions of the two images a deployment may run on.\<close>

definition paradedb :: "string \<Rightarrow> bool" where
  "paradedb x = (x \<in> set [''vector'', ''pg_search''])"

definition pgvector :: "string \<Rightarrow> bool" where
  "pgvector x = (x = ''vector'')"

section \<open>Replicas that migrate at once\<close>

text \<open>
  Every replica runs \<open>scripts/migrate.py\<close> when it starts: connect, wait for the advisory lock, upgrade,
  release the lock, exit. The lock belongs to the session, so it is released when a replica dies or
  loses its connection, and a transaction that was open then is rolled back. The lock
  connection is taken to live as long as the upgrade it protects. \<open>cl_applied\<close> records which replica ran
  which revision.
\<close>

datatype phase = Starting | Waiting | Upgrading | Upgraded | Aborted | Exited nat

record cluster =
  cl_phase :: "nat \<Rightarrow> phase"
  cl_lock :: "nat option"
  cl_db :: database
  cl_applied :: "(nat \<times> string) list"

definition booting :: "database \<Rightarrow> cluster" where
  "booting b = \<lparr>cl_phase = (\<lambda>_. Starting), cl_lock = None, cl_db = b, cl_applied = []\<rparr>"

definition enter :: "nat \<Rightarrow> phase \<Rightarrow> cluster \<Rightarrow> cluster" where
  "enter r p c = c\<lparr>cl_phase := (cl_phase c)(r := p)\<rparr>"

text \<open>A replica leaves with its exit code, and its session releases the lock when it holds it.\<close>

definition leave :: "nat \<Rightarrow> nat \<Rightarrow> cluster \<Rightarrow> cluster" where
  "leave r n c = (enter r (Exited n) c)\<lparr>cl_lock := (if cl_lock c = Some r then None else cl_lock c)\<rparr>"

inductive migrate_step :: "revision list \<Rightarrow> cluster \<Rightarrow> cluster \<Rightarrow> bool" for rs where
  connected: "cl_phase c r = Starting \<Longrightarrow> migrate_step rs c (enter r Waiting c)"
| unreachable: "cl_phase c r = Starting \<or> cl_phase c r = Waiting \<Longrightarrow> migrate_step rs c (leave r 1 c)"
| locked: "cl_phase c r = Waiting \<Longrightarrow> cl_lock c = None \<Longrightarrow> migrate_step rs c ((enter r Upgrading c)\<lparr>cl_lock := Some r\<rparr>)"
| upgraded: "cl_phase c r = Upgrading \<Longrightarrow> do_run_migrations available rs (cl_db c) = (Inr (), b) \<Longrightarrow>
    migrate_step rs c ((enter r Upgraded c)\<lparr>cl_db := b,
      cl_applied := cl_applied c @ map (\<lambda>x. (r, rv_id x)) (pending rs (db_version (cl_db c)))\<rparr>)"
| aborted: "cl_phase c r = Upgrading \<Longrightarrow> do_run_migrations available rs (cl_db c) = (Inl e, b) \<Longrightarrow>
    migrate_step rs c ((enter r Aborted c)\<lparr>cl_db := b\<rparr>)"
| unlocked: "cl_phase c r = Upgraded \<Longrightarrow> migrate_step rs c (leave r 0 c)"
| unlock_failed: "cl_phase c r = Upgraded \<Longrightarrow> migrate_step rs c (leave r 1 c)"
| failed: "cl_phase c r = Aborted \<Longrightarrow> migrate_step rs c (leave r 1 c)"
| killed: "(\<forall>n. cl_phase c r \<noteq> Exited n) \<Longrightarrow> migrate_step rs c (leave r 137 c)"

inductive_simps migrate_step_iff: "migrate_step rs c c'"

definition in_section :: "phase \<Rightarrow> bool" where
  "in_section p = (p = Upgrading \<or> p = Upgraded \<or> p = Aborted)"

lemma in_section_simps [simp]: "in_section Upgrading" "in_section Upgraded" "in_section Aborted" "\<not> in_section Starting"
  "\<not> in_section Waiting" "\<not> in_section (Exited n)"
  by (simp_all add: in_section_def)

lemma enter_simps [simp]: "cl_phase (enter r p c) = (cl_phase c)(r := p)" "cl_lock (enter r p c) = cl_lock c"
  "cl_db (enter r p c) = cl_db c" "cl_applied (enter r p c) = cl_applied c"
  by (simp_all add: enter_def)

lemma leave_simps [simp]: "cl_phase (leave r n c) = (cl_phase c)(r := Exited n)"
  "cl_lock (leave r n c) = (if cl_lock c = Some r then None else cl_lock c)"
  "cl_db (leave r n c) = cl_db c" "cl_applied (leave r n c) = cl_applied c"
  by (simp_all add: leave_def)

section \<open>What the upgrade guarantees\<close>

lemma run_migrations_version:
  "run_migrations available rs b = Inr b' \<Longrightarrow> db_version b' = (if rs = [] then db_version b else Some (rv_id (last rs)))"
  by (induction available rs b rule: run_migrations.induct) (auto split: if_splits sum.splits)

lemma pending_suffix: "\<exists>pre. rs = pre @ pending rs v"
proof (cases v)
  case None
  then show ?thesis by (simp add: pending_def)
next
  case (Some x)
  have "\<exists>pre. ys = pre @ tl ys" for ys :: "revision list" by (cases ys) (auto intro: exI [of _ "[_]"])
  then obtain pre where "dropWhile (\<lambda>r. rv_id r \<noteq> x) rs = pre @ tl (dropWhile (\<lambda>r. rv_id r \<noteq> x) rs)" by blast
  then have "rs = (takeWhile (\<lambda>r. rv_id r \<noteq> x) rs @ pre) @ pending rs v"
    unfolding pending_def Some by (metis append.assoc option.simps(5) takeWhile_dropWhile_id)
  then show ?thesis by blast
qed

lemma pending_head:
  assumes "distinct (map rv_id rs)" and "rs \<noteq> []"
  shows "pending rs (Some (rv_id (last rs))) = []"
proof -
  have "distinct (map rv_id rs) = distinct (map rv_id (butlast rs @ [last rs]))" using assms(2) by simp
  with assms(1) have "distinct (map rv_id (butlast rs @ [last rs]))" by simp
  then have "\<forall>r\<in>set (butlast rs). rv_id r \<noteq> rv_id (last rs)" by (simp add: image_iff) metis
  then have "dropWhile (\<lambda>r. rv_id r \<noteq> rv_id (last rs)) (butlast rs @ [last rs]) = [last rs]"
    by (subst dropWhile_append2) auto
  with assms(2) have "dropWhile (\<lambda>r. rv_id r \<noteq> rv_id (last rs)) rs = [last rs]" by simp
  then show ?thesis by (simp add: pending_def)
qed

lemma do_run_migrations_head:
  assumes "distinct (map rv_id rs)" and "do_run_migrations available rs b = (Inr (), b')"
  shows "pending rs (db_version b') = []" and "pending rs (db_version b) = [] \<Longrightarrow> b' = b"
proof -
  have run: "run_migrations available (pending rs (db_version b)) b = Inr b'"
    using assms(2) by (auto simp: do_run_migrations_def split: if_splits sum.splits)
  then show same: "b' = b" if "pending rs (db_version b) = []" using that by simp
  show "pending rs (db_version b') = []"
  proof (cases "pending rs (db_version b) = []")
    case True
    then show ?thesis using same by simp
  next
    case False
    obtain pre where "rs = pre @ pending rs (db_version b)" using pending_suffix by blast
    then have "last (pending rs (db_version b)) = last rs" using False by (metis last_append)
    then show ?thesis using run_migrations_version [OF run] False pending_head [OF assms(1)]
      by (metis \<open>rs = pre @ pending rs (db_version b)\<close> append_is_Nil_conv)
  qed
qed

lemma do_run_migrations_error: "do_run_migrations available rs b = (Inl e, b') \<Longrightarrow> b' = b"
  by (auto simp: do_run_migrations_def split: if_splits sum.splits)

definition migrate_inv :: "revision list \<Rightarrow> database \<Rightarrow> cluster \<Rightarrow> bool" where
  "migrate_inv rs b0 c =
     ((\<forall>r. in_section (cl_phase c r) = (cl_lock c = Some r))
      \<and> (\<forall>r. cl_phase c r = Upgraded \<or> cl_phase c r = Exited 0 \<longrightarrow> pending rs (db_version (cl_db c)) = [])
      \<and> (cl_db c = b0 \<and> cl_applied c = []
          \<or> pending rs (db_version (cl_db c)) = []
            \<and> (\<exists>r. cl_applied c = map (\<lambda>x. (r, rv_id x)) (pending rs (db_version b0)))))"

lemma migrate_step_inv:
  assumes "distinct (map rv_id rs)" and "migrate_step rs c c'" and "migrate_inv rs b0 c"
  shows "migrate_inv rs b0 c'"
  using assms(2,3)
proof cases
  case (upgraded r available b)
  note h = do_run_migrations_head [OF assms(1) upgraded(3)]
  show ?thesis using assms(3) upgraded(2) h unfolding upgraded(1) migrate_inv_def by auto
next
  case (aborted r available e b)
  show ?thesis using assms(3) aborted(2) do_run_migrations_error [OF aborted(3)] unfolding aborted(1) migrate_inv_def by auto
next
  case (connected r)
  have "cl_lock c \<noteq> Some r" using assms(3) connected(2) unfolding migrate_inv_def by (metis in_section_simps(4))
  then show ?thesis using assms(3) connected(2) unfolding connected(1) migrate_inv_def by auto
qed (auto simp: migrate_inv_def)

lemma revisions_distinct: "distinct (map rv_id (revisions edim))"
  by (simp add: revisions_def)

section \<open>Properties\<close>



text \<open>On an image without pg\_search the chain stops at 0007, and because it is one transaction nothing is migrated at all.\<close>

lemma stock_image_cannot_migrate:
  "do_run_migrations pgvector (revisions edim) empty_database = (Inl (PyError ''UndefinedFile'' ''pg_search''), empty_database)"
  by code_simp

text \<open>
  C24. Replicas that start at once migrate once: whatever they do, fail or die at, at most one of them is
  between lock and unlock, the database is the initial one or at head, never between, each pending revision
  has run at most once, all by one replica, and one that exits with 0 leaves the database at head.
\<close>

theorem replicas_migrate_once:
  assumes "(migrate_step (revisions edim))\<^sup>*\<^sup>* (booting b0) c"
  shows "(in_section (cl_phase c r) \<and> in_section (cl_phase c r') \<longrightarrow> r = r')
    \<and> (cl_db c = b0 \<and> cl_applied c = []
       \<or> pending (revisions edim) (db_version (cl_db c)) = []
         \<and> (\<exists>q. cl_applied c = map (\<lambda>x. (q, rv_id x)) (pending (revisions edim) (db_version b0))))
    \<and> distinct (map snd (cl_applied c))
    \<and> (cl_phase c r = Exited 0 \<longrightarrow> pending (revisions edim) (db_version (cl_db c)) = [])"
proof -
  have inv: "migrate_inv (revisions edim) b0 c"
    using assms
  proof (induction rule: rtranclp_induct)
    case base
    show ?case by (simp add: migrate_inv_def booting_def)
  next
    case (step y z)
    then show ?case using migrate_step_inv [OF revisions_distinct] by blast
  qed
  obtain pre where "revisions edim = pre @ pending (revisions edim) (db_version b0)" using pending_suffix by blast
  then have "distinct (map rv_id (pending (revisions edim) (db_version b0)))"
    using revisions_distinct by (metis distinct_append map_append)
  with inv have "distinct (map snd (cl_applied c))" unfolding migrate_inv_def by (auto simp: comp_def)
  with inv show ?thesis unfolding migrate_inv_def by auto
qed

theorem replicas_migrate_once_witness:
  "\<exists>c. (migrate_step (revisions 5))\<^sup>*\<^sup>* (booting empty_database) c \<and> cl_phase c 1 = Exited 137 \<and> cl_phase c 2 = Exited 0
     \<and> pending (revisions 5) (db_version (cl_db c)) = []"
proof -
  obtain b where b: "do_run_migrations paradedb (revisions 5) empty_database = (Inr (), b)"
  proof -
    have "fst (do_run_migrations paradedb (revisions 5) empty_database) = Inr ()" by code_simp
    then show ?thesis using that by (metis prod.collapse)
  qed
  let ?s = "migrate_step (revisions 5)"
  define c1 where "c1 = enter 1 Waiting (booting empty_database)"
  define c2 where "c2 = enter 2 Waiting c1"
  define c3 where "c3 = (enter 1 Upgrading c2)\<lparr>cl_lock := Some 1\<rparr>"
  define c4 where "c4 = leave 1 137 c3"
  define c5 where "c5 = (enter 2 Upgrading c4)\<lparr>cl_lock := Some 2\<rparr>"
  define c6 where "c6 = (enter 2 Upgraded c5)\<lparr>cl_db := b, cl_applied := cl_applied c5 @ map (\<lambda>x. (2, rv_id x)) (pending (revisions 5) (db_version (cl_db c5)))\<rparr>"
  define c7 where "c7 = leave 2 0 c6"
  have db: "cl_db c5 = empty_database" by (simp add: c5_def c4_def c3_def c2_def c1_def booting_def)
  have "?s (booting empty_database) c1" unfolding c1_def by (rule connected) (simp add: booting_def)
  moreover have "?s c1 c2" unfolding c2_def by (rule connected) (simp add: c1_def booting_def)
  moreover have "?s c2 c3" unfolding c3_def by (rule locked) (simp_all add: c2_def c1_def booting_def)
  moreover have "?s c3 c4" unfolding c4_def by (rule killed) (simp add: c3_def)
  moreover have "?s c4 c5" unfolding c5_def by (rule locked) (simp_all add: c4_def c3_def c2_def)
  moreover have "?s c5 c6" unfolding c6_def by (rule upgraded [where available = paradedb]) (simp add: c5_def, simp add: db b)
  moreover have "?s c6 c7" unfolding c7_def by (rule unlocked) (simp add: c6_def)
  ultimately have run: "?s\<^sup>*\<^sup>* (booting empty_database) c7" by (meson converse_rtranclp_into_rtranclp rtranclp.rtrancl_refl)
  have ph: "cl_phase c7 1 = Exited 137" "cl_phase c7 2 = Exited 0" by (simp_all add: c7_def c6_def c5_def c4_def)
  with replicas_migrate_once [OF run, of 2 2] run show ?thesis by blast
qed

end
