(* ===== verification/App_Routes.thy ===== *)
theory App_Routes imports Auth_Model begin

text \<open>
  \<open>prorag/main.py\<close>: the composed application. Every router is the list of its routes with the dependencies
  their decorators name; \<open>include_router\<close> and a router's own dependencies go in front. Which of the
  routes a request takes is the framework's choice, an argument here: the code relies on it taking one whose path
  matches (\<open>sound_routing\<close>); the documented first match is such a choice. The route's dependencies then run in order, and
  after them its endpoint, which the model names. A \<open>{parameter}\<close> matches one non-empty segment; the viewer under \<open>/web\<close> is
  a mount. Redirects of trailing slashes and the methods HEAD and OPTIONS are left out: they run no endpoint.
\<close>

section \<open>Routes\<close>

datatype http_method = GET | POST | PATCH | DELETE

datatype dependency = RequireAuth | RequireAdmin

record route =
  rt_method :: http_method
  rt_path :: string
  rt_deps :: "dependency list"
  rt_mount :: bool
  rt_endpoint :: string

definition api_route :: "http_method \<Rightarrow> string \<Rightarrow> string \<Rightarrow> route" where
  "api_route m p e = \<lparr>rt_method = m, rt_path = p, rt_deps = [], rt_mount = False, rt_endpoint = e\<rparr>"

text \<open>\<open>APIRouter(prefix, dependencies)\<close> and \<open>app.include_router(router, dependencies)\<close>.\<close>

definition router :: "string \<Rightarrow> dependency list \<Rightarrow> route list \<Rightarrow> route list" where
  "router pre deps rs = map (\<lambda>r. r\<lparr>rt_path := pre @ rt_path r, rt_deps := deps @ rt_deps r\<rparr>) rs"

definition include_router :: "route list \<Rightarrow> dependency list \<Rightarrow> route list" where
  "include_router rs deps = router [] deps rs"

definition ingest_router :: "route list" where
  "ingest_router = [api_route POST ''/ingest'' ''ingest'']"

definition chat_router :: "route list" where
  "chat_router =
    [api_route POST ''/chat'' ''chat'',
     api_route POST ''/feedback'' ''feedback'',
     api_route POST ''/chat/stream'' ''chat_stream'']"

definition files_router :: "route list" where
  "files_router =
    [api_route GET ''/stats'' ''stats'',
     api_route GET ''/files/{doc_id}/original'' ''get_original'',
     api_route GET ''/tables/{table_id}/rows'' ''get_table_rows'']"

definition search_router :: "route list" where
  "search_router = [api_route GET ''/search'' ''search'']"

definition eval_router :: "route list" where
  "eval_router =
    [api_route POST ''/eval/run'' ''eval_run'',
     api_route GET ''/eval/runs/{run_id}'' ''get_eval_run'']"

text \<open>The connector routes name the admin check one by one, the admin router once for all.\<close>

definition admin_only :: "route \<Rightarrow> route" where
  "admin_only r = r\<lparr>rt_deps := rt_deps r @ [RequireAdmin]\<rparr>"

definition connectors_router :: "route list" where
  "connectors_router = router ''/connectors'' []
    [admin_only (api_route POST [] ''create_connector''),
     admin_only (api_route GET [] ''list_connectors''),
     admin_only (api_route GET ''/{connector_id}'' ''get_connector''),
     admin_only (api_route PATCH ''/{connector_id}'' ''update_connector''),
     admin_only (api_route DELETE ''/{connector_id}'' ''delete_connector''),
     admin_only (api_route POST ''/{connector_id}/sync'' ''sync_connector'')]"

definition admin_router :: "route list" where
  "admin_router = router ''/admin'' [RequireAdmin]
    [api_route GET ''/documents'' ''list_documents'',
     api_route GET ''/documents/{doc_id}/access'' ''document_access'',
     api_route POST ''/rules'' ''create_rule'',
     api_route GET ''/rules'' ''list_rules'',
     api_route GET ''/rules/{rule_id}'' ''get_rule'',
     api_route PATCH ''/rules/{rule_id}'' ''update_rule'',
     api_route DELETE ''/rules/{rule_id}'' ''delete_rule'',
     api_route POST ''/rules/{rule_id}/preview'' ''preview_rule'',
     api_route POST ''/rules/{rule_id}/confirm'' ''confirm_rule'',
     api_route GET ''/rules/{rule_id}/grants'' ''rule_grants'',
     api_route GET ''/users'' ''list_users'',
     api_route PATCH ''/users/{user_id}'' ''update_user'',
     api_route GET ''/users/{user_id}/visible-docs'' ''user_visible_docs'',
     api_route POST ''/groups'' ''create_group'',
     api_route GET ''/groups'' ''list_groups'',
     api_route PATCH ''/groups/{group_id}'' ''update_group'',
     api_route DELETE ''/groups/{group_id}'' ''delete_group'',
     api_route POST ''/groups/{group_id}/members/{user_id}'' ''add_group_member'',
     api_route DELETE ''/groups/{group_id}/members/{user_id}'' ''remove_group_member'',
     api_route GET ''/usage'' ''usage_report'']"

text \<open>The path of the OIDC callback is a setting.\<close>

definition auth_router :: "string \<Rightarrow> route list" where
  "auth_router oidc_redirect_path =
    [api_route POST ''/auth/login'' ''login'',
     api_route POST ''/auth/logout'' ''logout'',
     api_route GET ''/auth/oidc/login'' ''oidc_login'',
     api_route GET oidc_redirect_path ''oidc_callback'']"

definition web_mount :: route where
  "web_mount = \<lparr>rt_method = GET, rt_path = ''/web'', rt_deps = [], rt_mount = True, rt_endpoint = ''web''\<rparr>"

text \<open>The application: \<open>web_dir\<close> says whether the viewer's directory exists.\<close>

definition app_routes :: "string \<Rightarrow> bool \<Rightarrow> route list" where
  "app_routes oidc_redirect_path web_dir =
     include_router ingest_router [RequireAuth]
     @ include_router chat_router [RequireAuth]
     @ include_router files_router [RequireAuth]
     @ include_router search_router [RequireAuth]
     @ include_router eval_router [RequireAuth]
     @ include_router connectors_router [RequireAuth]
     @ include_router admin_router [RequireAuth]
     @ include_router (auth_router oidc_redirect_path) []
     @ (if web_dir then [web_mount] else [])
     @ [api_route GET ''/healthz'' ''healthz'', api_route GET ''/readyz'' ''readyz'']"

section \<open>Routing\<close>

fun path_split :: "string \<Rightarrow> string \<Rightarrow> string list" where
  "path_split acc [] = [acc]"
| "path_split acc (c # cs) = (if c = CHR ''/'' then acc # path_split [] cs else path_split (acc @ [c]) cs)"

definition segments :: "string \<Rightarrow> string list" where
  "segments p = path_split [] p"

definition is_param :: "string \<Rightarrow> bool" where
  "is_param seg = (case seg of [] \<Rightarrow> False | c # cs \<Rightarrow> c = CHR ''{'')"

definition segment_matches :: "string \<Rightarrow> string \<Rightarrow> bool" where
  "segment_matches pat seg = (if is_param pat then seg \<noteq> [] else pat = seg)"

definition path_matches :: "route \<Rightarrow> string \<Rightarrow> bool" where
  "path_matches r p =
     (if rt_mount r then p = rt_path r \<or> py_startswith p (rt_path r @ ''/'')
      else list_all2 segment_matches (segments (rt_path r)) (segments p))"

definition full_match :: "http_method \<Rightarrow> string \<Rightarrow> route \<Rightarrow> bool" where
  "full_match m p r = (path_matches r p \<and> (rt_mount r \<or> rt_method r = m))"

type_synonym routing = "route list \<Rightarrow> http_method \<Rightarrow> string \<Rightarrow> route outcome"

definition sound_routing :: "routing \<Rightarrow> bool" where
  "sound_routing pick \<longleftrightarrow> (\<forall>rs m p r. pick rs m p = Inr r \<longrightarrow> r \<in> set rs \<and> path_matches r p)"

text \<open>The first route whose path and method match.\<close>

definition route_request :: "route list \<Rightarrow> http_method \<Rightarrow> string \<Rightarrow> route outcome" where
  "route_request rs m p =
     (case find (full_match m p) rs of
        Some r \<Rightarrow> Inr r
      | None \<Rightarrow>
          if list_ex (\<lambda>r. path_matches r p) rs then Inl (HTTPException 405 ''Method Not Allowed'')
          else Inl (HTTPException 404 ''Not Found''))"

fun run_dependencies :: "settings \<Rightarrow> auth_env \<Rightarrow> request \<Rightarrow> db \<Rightarrow> dependency list \<Rightarrow> unit outcome" where
  "run_dependencies cfg env rq s [] = Inr ()"
| "run_dependencies cfg env rq s (RequireAuth # ds) =
     (case require_auth cfg env rq s of Inl e \<Rightarrow> Inl e | Inr key \<Rightarrow> run_dependencies cfg env rq s ds)"
| "run_dependencies cfg env rq s (RequireAdmin # ds) =
     (case require_admin cfg (current_user env rq s) of Inl e \<Rightarrow> Inl e | Inr _ \<Rightarrow> run_dependencies cfg env rq s ds)"

text \<open>The endpoint that a request reaches, or the error that stops it before.\<close>

definition dispatch ::
  "routing \<Rightarrow> settings \<Rightarrow> auth_env \<Rightarrow> route list \<Rightarrow> http_method \<Rightarrow> string \<Rightarrow> request \<Rightarrow> db \<Rightarrow> string outcome" where
  "dispatch pick cfg env rs m p rq s =
     (case pick rs m p of
        Inl e \<Rightarrow> Inl e
      | Inr r \<Rightarrow> (case run_dependencies cfg env rq s (rt_deps r) of Inl e \<Rightarrow> Inl e | Inr _ \<Rightarrow> Inr (rt_endpoint r)))"

section \<open>What the guards guarantee\<close>

definition public_endpoints :: "string list" where
  "public_endpoints = [''login'', ''logout'', ''oidc_login'', ''oidc_callback'', ''web'', ''healthz'', ''readyz'']"

text \<open>A path lies under a prefix when its first segment is that prefix.\<close>

definition first_segment :: "string \<Rightarrow> string option" where
  "first_segment p = (case segments p of a # b # bs \<Rightarrow> if a = [] then Some b else None | _ \<Rightarrow> None)"

abbreviation under :: "string \<Rightarrow> string \<Rightarrow> bool" where
  "under pre p \<equiv> first_segment p = Some pre"

lemma find_in_set: "find P xs = Some x \<Longrightarrow> x \<in> set xs \<and> P x"
  by (auto simp: find_Some_iff)

lemma route_request_Inr: "route_request rs m p = Inr r \<Longrightarrow> r \<in> set rs \<and> path_matches r p"
  by (auto simp: route_request_def full_match_def split: option.splits if_splits dest: find_in_set)

lemma route_request_sound: "sound_routing route_request"
  unfolding sound_routing_def using route_request_Inr by blast

lemma dispatch_Inr:
  assumes "sound_routing pick" and "dispatch pick cfg env rs m p rq s = Inr h"
  obtains r where "r \<in> set rs" and "path_matches r p" and "rt_endpoint r = h"
    and "run_dependencies cfg env rq s (rt_deps r) = Inr ()"
  using assms unfolding sound_routing_def by (fastforce simp: dispatch_def split: sum.splits)

lemma run_dependencies_auth:
  "run_dependencies cfg env rq s ds = Inr () \<Longrightarrow> RequireAuth \<in> set ds \<Longrightarrow> \<exists>key. require_auth cfg env rq s = Inr key"
  by (induction cfg env rq s ds rule: run_dependencies.induct) (auto split: sum.splits)

lemma run_dependencies_admin:
  "run_dependencies cfg env rq s ds = Inr () \<Longrightarrow> RequireAdmin \<in> set ds \<Longrightarrow> require_admin cfg (current_user env rq s) = Inr ()"
  by (induction cfg env rq s ds rule: run_dependencies.induct) (auto split: sum.splits)

text \<open>The routes with a fixed path, which \<open>code_simp\<close> can look at one by one.\<close>

definition guarded_routes :: "route list" where
  "guarded_routes = include_router (ingest_router @ chat_router @ files_router @ search_router @ eval_router @ connectors_router @ admin_router)
     [RequireAuth]"

lemma oidc_callback_public: "''oidc_callback'' \<in> set public_endpoints"
  by (simp add: public_endpoints_def)

lemma router_id: "router [] [] rs = rs"
  by (simp add: router_def)

lemma app_routes_split:
  "app_routes cb web = guarded_routes @ auth_router cb @ (if web then [web_mount] else [])
     @ [api_route GET ''/healthz'' ''healthz'', api_route GET ''/readyz'' ''readyz'']"
  by (simp add: app_routes_def guarded_routes_def include_router_def router_id) (simp add: router_def)

lemma app_routes_cases:
  assumes "r \<in> set (app_routes cb web)"
  shows "r \<in> set guarded_routes \<or> rt_endpoint r = ''oidc_callback'' \<or>
    r \<in> set [api_route POST ''/auth/login'' ''login'', api_route POST ''/auth/logout'' ''logout'',
         api_route GET ''/auth/oidc/login'' ''oidc_login'', web_mount, api_route GET ''/healthz'' ''healthz'', api_route GET ''/readyz'' ''readyz'']"
proof -
  have "rt_endpoint (api_route GET cb ''oidc_callback'') = ''oidc_callback''" by (simp add: api_route_def)
  with assms show ?thesis unfolding app_routes_split auth_router_def by (auto split: if_splits)
qed

lemma guarded_routes_auth: "list_all (\<lambda>r. RequireAuth \<in> set (rt_deps r)) guarded_routes"
  by code_simp

lemma guarded_routes_admin:
  "list_all (\<lambda>r. \<not> rt_mount r \<and>
     (case first_segment (rt_path r) of
        None \<Rightarrow> False
      | Some b \<Rightarrow> \<not> is_param b \<and> (b \<in> set [''admin'', ''connectors''] \<longrightarrow> RequireAdmin \<in> set (rt_deps r)))) guarded_routes"
  by code_simp

lemma public_routes_elsewhere:
  "list_all (\<lambda>r. rt_endpoint r \<in> set public_endpoints \<and>
     (case first_segment (rt_path r) of None \<Rightarrow> False | Some b \<Rightarrow> \<not> is_param b \<and> b \<notin> set [''admin'', ''connectors'']))
   [api_route POST ''/auth/login'' ''login'', api_route POST ''/auth/logout'' ''logout'',
    api_route GET ''/auth/oidc/login'' ''oidc_login'', web_mount, api_route GET ''/healthz'' ''healthz'', api_route GET ''/readyz'' ''readyz'']"
  by code_simp

lemma first_segment_route:
  assumes "path_matches r p" and "\<not> rt_mount r" and "first_segment (rt_path r) = Some b" and "\<not> is_param b"
  shows "first_segment p = Some b"
proof -
  from assms(3) obtain bs where seg: "segments (rt_path r) = [] # b # bs"
    by (auto simp: first_segment_def split: list.splits if_splits)
  have "list_all2 segment_matches ([] # b # bs) (segments p)" using assms(1,2) seg by (simp add: path_matches_def)
  then obtain a' b' bs' where "segments p = a' # b' # bs'" "segment_matches [] a'" "segment_matches b b'"
    by (auto simp: list_all2_Cons1)
  then show ?thesis using assms(4) by (simp add: first_segment_def segment_matches_def is_param_def)
qed

lemma under_web:
  assumes "path_matches web_mount p"
  shows "\<not> under ''admin'' p \<and> \<not> under ''connectors'' p"
proof -
  from assms obtain rest where "p = ''/web'' \<or> p = ''/web/'' @ rest"
    by (auto simp: path_matches_def web_mount_def py_startswith_iff prefix_def)
  then have "\<exists>bs. segments p = [] # ''web'' # bs" by (auto simp: segments_def)
  then show ?thesis by (auto simp: first_segment_def)
qed

lemma require_auth_credentials:
  assumes "auth_enabled cfg" and "require_auth cfg env rq s = Inr k"
  shows "session_from_cookie env rq s \<noteq> None \<or> (\<exists>key. api_key_from_header env rq s = Some key \<and> \<not> out_of_scope key (rq_collection rq))"
  using assms by (auto simp: require_auth_def require_api_key_def split: if_splits option.splits)

lemma require_admin_user:
  assumes "auth_enabled cfg" and "require_admin cfg u = Inr ()"
  shows "\<exists>x. u = Some x \<and> u_is_admin x"
  using assms by (auto simp: require_admin_def split: if_splits option.splits)

lemma admin_route:
  assumes "r \<in> set (app_routes cb web)" and "path_matches r p" and "under ''admin'' p \<or> under ''connectors'' p"
  shows "rt_endpoint r = ''oidc_callback'' \<or> RequireAdmin \<in> set (rt_deps r)"
  using app_routes_cases [OF assms(1)]
proof (elim disjE)
  assume "r \<in> set guarded_routes"
  with guarded_routes_admin obtain b where "\<not> rt_mount r" "first_segment (rt_path r) = Some b" "\<not> is_param b"
    and adm: "b \<in> set [''admin'', ''connectors''] \<Longrightarrow> RequireAdmin \<in> set (rt_deps r)"
    unfolding list_all_iff by (auto split: option.splits)
  from first_segment_route [OF assms(2) this(1-3)] assms(3) adm show ?thesis by auto
next
  let ?rs = "[api_route POST ''/auth/login'' ''login'', api_route POST ''/auth/logout'' ''logout'',
         api_route GET ''/auth/oidc/login'' ''oidc_login'', web_mount, api_route GET ''/healthz'' ''healthz'', api_route GET ''/readyz'' ''readyz'']"
  assume mem: "r \<in> set ?rs"
  with public_routes_elsewhere have "case first_segment (rt_path r) of
      None \<Rightarrow> False | Some b \<Rightarrow> \<not> is_param b \<and> b \<notin> set [''admin'', ''connectors'']"
    unfolding list_all_iff by blast
  then obtain b where seg: "first_segment (rt_path r) = Some b" "\<not> is_param b" and b: "b \<notin> set [''admin'', ''connectors'']"
    by (auto split: option.splits)
  show ?thesis
  proof (cases "rt_mount r")
    case True
    with mem have "r = web_mount" by (auto simp: api_route_def)
    then show ?thesis using under_web assms(2,3) by blast
  next
    case False
    then show ?thesis using first_segment_route [OF assms(2) False seg] assms(3) b by auto
  qed
qed blast

lemma app_routes_auth:
  assumes "r \<in> set (app_routes cb web)"
  shows "RequireAuth \<in> set (rt_deps r) \<or> rt_endpoint r \<in> set public_endpoints"
  using app_routes_cases [OF assms]
proof (elim disjE)
  assume "r \<in> set guarded_routes"
  then show ?thesis using guarded_routes_auth unfolding list_all_iff by blast
next
  assume "rt_endpoint r = ''oidc_callback''"
  then show ?thesis using oidc_callback_public by simp
qed (use public_routes_elsewhere [unfolded list_all_iff] in blast)

text \<open>Every route is reached by its own path: no earlier route of the composed application hides a later one.\<close>

lemma no_route_hidden:
  "list_all (\<lambda>r. route_request (app_routes ''/auth/oidc/callback'' True) (rt_method r) (rt_path r) = Inr r) (app_routes ''/auth/oidc/callback'' True)"
  by code_simp

section \<open>Property\<close>


definition admin_db :: db where
  "admin_db = empty_db\<lparr>users := [(account 1 None)\<lparr>u_is_admin := True\<rparr>], sessions := [session_row default_settings sample_auth_env 1]\<rparr>"


end
