(* ===== verification/Scheduler_Loop.thy ===== *)
theory Scheduler_Loop imports Scheduler begin

text \<open>
  \<open>scheduler_loop\<close> of \<open>prorag/connectors/scheduler.py\<close> and the \<open>lifespan\<close> of \<open>prorag/main.py\<close> that starts and cancels it.
  What one turn of the endless loop meets is a record: the clock, the buckets, the locks that manual runs hold, and
  possibly an exception of the database that ends the tick early. The rounds from the start of the loop until its
  cancellation are a list, so that a statement about every such list is one about every moment of an endless loop.
  Closing the pooled connections at shutdown is left out.
\<close>

section \<open>The loop\<close>

record 'e loop_round =
  lr_now :: datetime
  lr_env :: "uuid \<Rightarrow> 'e sync_env"
  lr_locked :: "uuid \<Rightarrow> bool"
  lr_fault :: "(nat \<times> exn) option"

text \<open>A fault \<open>(n, e)\<close> is raised outside the handler of a run: by the listing or before the run of connector \<open>n\<close>.\<close>

definition tick_round :: "'e ingest_fun \<Rightarrow> settings \<Rightarrow> 'e loop_round \<Rightarrow> ingest_world \<Rightarrow> unit outcome \<times> ingest_world" where
  "tick_round ingest cfg r w =
     (case lr_fault r of
        None \<Rightarrow> (Inr (), tick ingest cfg (lr_env r) (lr_locked r) (lr_now r) w)
      | Some (n, e) \<Rightarrow>
          (Inl e, tick_loop ingest cfg (lr_env r) (lr_locked r) (lr_now r)
                    (take n (map cn_id (filter cn_enabled (connectors (committed (iw_txn w)))))) w))"

definition is_cancelled :: "exn \<Rightarrow> bool" where
  "is_cancelled e = (case e of PyError c m \<Rightarrow> c = ''CancelledError'' | HTTPException c m \<Rightarrow> False)"

definition loop_interval :: "settings \<Rightarrow> int" where
  "loop_interval cfg = min (connector_poll_seconds cfg) 60"

text \<open>The state of the world and the pauses of \<open>asyncio.sleep\<close>; a cancellation is passed on, every other exception only logged.\<close>

fun scheduler_loop ::
  "'e ingest_fun \<Rightarrow> settings \<Rightarrow> 'e loop_round list \<Rightarrow> ingest_world \<times> int list \<Rightarrow> ingest_world \<times> int list" where
  "scheduler_loop ingest cfg [] st = st"
| "scheduler_loop ingest cfg (r # rs) (w, slept) =
     (case tick_round ingest cfg r w of
        (Inl e, w') \<Rightarrow>
          if is_cancelled e then (w', slept) else scheduler_loop ingest cfg rs (w', slept @ [loop_interval cfg])
      | (Inr _, w') \<Rightarrow> scheduler_loop ingest cfg rs (w', slept @ [loop_interval cfg]))"

definition lifespan :: "'e ingest_fun \<Rightarrow> settings \<Rightarrow> 'e loop_round list \<Rightarrow> ingest_world \<Rightarrow> ingest_world" where
  "lifespan ingest cfg rounds w = (if scheduler_enabled cfg then fst (scheduler_loop ingest cfg rounds (w, [])) else w)"

section \<open>What survives a round\<close>

abbreviation connector_ids :: "ingest_world \<Rightarrow> uuid list" where
  "connector_ids w \<equiv> map cn_id (connectors (working (iw_txn w)))"

lemma set_connector_ids:
  "(\<And>c. cn_id (f c) = cn_id c) \<Longrightarrow> map cn_id (connectors (set_connector cid f s)) = map cn_id (connectors s)"
  by (simp add: set_connector_def)

lemma run_one_ids:
  assumes w: "settled w"
  shows "connector_ids (run_one (ingest_fresh icfg) cfg env cid now w) = connector_ids w"
proof (cases "find_connector (working (iw_txn w)) cid")
  case None
  then show ?thesis by (simp add: run_one_def)
next
  case (Some c)
  let ?run = "if due cfg now c = Sweep then full_sweep (ingest_fresh icfg) cfg env c w
              else sync_incremental (ingest_fresh icfg) cfg env c w"
  obtain res w1 where run: "?run = (res, w1)" by fastforce
  have "case res of Inl e \<Rightarrow> w1 = w | Inr _ \<Rightarrow> connector_ids w1 = connector_ids w"
  proof (cases "due cfg now c = Sweep")
    case True
    then have "full_sweep (ingest_fresh icfg) cfg env c w = (res, w1)" using run by simp
    from full_sweep_connectors [OF w this] show ?thesis by (cases res) (simp_all add: set_connector_ids)
  next
    case False
    then have "sync_incremental (ingest_fresh icfg) cfg env c w = (res, w1)" using run by simp
    from sync_incremental_connectors [OF w this] show ?thesis by (cases res) (simp_all add: set_connector_ids)
  qed
  with run w show ?thesis
    by (cases res) (simp_all add: run_one_def Some set_connector_ids settled_def)
qed

lemma tick_loop_ids:
  assumes "settled w"
  shows "settled (tick_loop (ingest_fresh icfg) cfg env locked now cids w)
     \<and> connector_ids (tick_loop (ingest_fresh icfg) cfg env locked now cids w) = connector_ids w"
  using assms
proof (induction cids arbitrary: w)
  case (Cons cid cids)
  then show ?case
    using run_one_row(1) [OF Cons.prems] run_one_ids [OF Cons.prems] Cons.IH
      [of "if locked cid then w else run_one (ingest_fresh icfg) cfg (env cid) cid now w"] by auto
qed simp

text \<open>No run touches the switch of a connector.\<close>

lemma ran_enabled: "ran cfg now env c c' \<Longrightarrow> cn_enabled c' = cn_enabled c"
  by (auto simp: ran_def split: if_splits)

lemma tick_round_keeps:
  fixes r :: "ingest_env loop_round"
  fixes icfg cfg :: settings
  assumes w: "settled w" and d: "distinct (connector_ids w)" and c: "find_connector (working (iw_txn w)) j = Some c"
  defines "w' \<equiv> snd (tick_round (ingest_fresh icfg) cfg r w)"
  shows "settled w'" and "connector_ids w' = connector_ids w"
    and "\<exists>c'. find_connector (working (iw_txn w')) j = Some c' \<and> cn_enabled c' = cn_enabled c"
    and "lr_fault r = None \<Longrightarrow> \<not> lr_locked r j \<Longrightarrow>
      \<exists>c'. find_connector (working (iw_txn w')) j = Some c' \<and> ran cfg (lr_now r) (lr_env r j) c c'"
proof -
  let ?all = "map cn_id (filter cn_enabled (connectors (committed (iw_txn w))))"
  define cids where "cids = (case lr_fault r of None \<Rightarrow> ?all | Some (n, e) \<Rightarrow> take n ?all)"
  have cids: "cids = ?all \<or> (\<exists>n. cids = take n ?all)" and full: "lr_fault r = None \<Longrightarrow> cids = ?all"
    by (auto simp: cids_def split: option.splits)
  have eq: "w' = tick_loop (ingest_fresh icfg) cfg (lr_env r) (lr_locked r) (lr_now r) cids w"
    by (simp add: w'_def tick_round_def tick_def cids_def split: option.split)
  have "distinct ?all" using d w by (simp add: settled_def distinct_map_filter)
  then have dist: "distinct cids" using cids by auto
  show "settled w'" "connector_ids w' = connector_ids w" unfolding eq using tick_loop_ids [OF w] by blast+
  obtain c' where c': "find_connector (working (iw_txn w')) j = Some c'"
    and ran: "if j \<in> set cids \<and> \<not> lr_locked r j then ran cfg (lr_now r) (lr_env r j) c c' else c' = c"
    using tick_loop_rows [OF w dist c] unfolding eq by blast
  then have en: "cn_enabled c' = cn_enabled c" using ran_enabled by (metis (full_types))
  then show "\<exists>c'. find_connector (working (iw_txn w')) j = Some c' \<and> cn_enabled c' = cn_enabled c" using c' by blast
  assume "lr_fault r = None" "\<not> lr_locked r j"
  moreover have "j \<in> set ?all \<longleftrightarrow> cn_enabled c"
  proof -
    have "c \<in> set (connectors (working (iw_txn w)))" "cn_id c = j" using c tbl_find_Some by metis+
    then show ?thesis using d w by (auto simp: settled_def distinct_map inj_on_def)
  qed
  ultimately have "ran cfg (lr_now r) (lr_env r j) c c'" using ran full by (auto simp: ran_def)
  then show "\<exists>c'. find_connector (working (iw_txn w')) j = Some c' \<and> ran cfg (lr_now r) (lr_env r j) c c'" using c' by blast
qed

section \<open>What survives the loop\<close>

definition never_cancelled :: "'e loop_round list \<Rightarrow> bool" where
  "never_cancelled rs = list_all (\<lambda>r. case lr_fault r of None \<Rightarrow> True | Some (n, e) \<Rightarrow> \<not> is_cancelled e) rs"

lemma scheduler_loop_step:
  assumes "never_cancelled [r]"
  shows "scheduler_loop ingest cfg (r # rs) (w, slept)
       = scheduler_loop ingest cfg rs (snd (tick_round ingest cfg r w), slept @ [loop_interval cfg])"
  using assms by (auto simp: never_cancelled_def tick_round_def split: option.splits)

lemma scheduler_loop_append:
  "never_cancelled rs \<Longrightarrow> scheduler_loop ingest cfg (rs @ rs') st = scheduler_loop ingest cfg rs' (scheduler_loop ingest cfg rs st)"
proof (induction rs arbitrary: st)
  case (Cons r rs)
  obtain w slept where st: "st = (w, slept)" by (cases st)
  have r: "never_cancelled [r]" and rs: "never_cancelled rs" using Cons.prems by (simp_all add: never_cancelled_def)
  show ?case unfolding st append_Cons scheduler_loop_step [OF r] by (rule Cons.IH [OF rs])
qed simp

lemma scheduler_loop_slept:
  "never_cancelled rs \<Longrightarrow> snd (scheduler_loop ingest cfg rs (w, slept)) = slept @ replicate (length rs) (loop_interval cfg)"
proof (induction rs arbitrary: w slept)
  case (Cons r rs)
  have r: "never_cancelled [r]" and rs: "never_cancelled rs" using Cons.prems by (simp_all add: never_cancelled_def)
  show ?case unfolding scheduler_loop_step [OF r] using Cons.IH [OF rs] by simp
qed simp

lemma scheduler_loop_keeps:
  fixes icfg cfg :: settings and slept :: "int list"
  assumes "never_cancelled rs" and "settled w" and "distinct (connector_ids w)" and "find_connector (working (iw_txn w)) j = Some c"
  defines "w' \<equiv> fst (scheduler_loop (ingest_fresh icfg) cfg rs (w, slept))"
  shows "settled w' \<and> connector_ids w' = connector_ids w
    \<and> (\<exists>c'. find_connector (working (iw_txn w')) j = Some c' \<and> cn_enabled c' = cn_enabled c)"
  using assms(1-4) unfolding w'_def
proof (induction rs arbitrary: w c slept)
  case (Cons r rs)
  have r: "never_cancelled [r]" and rs: "never_cancelled rs" using Cons.prems(1) by (simp_all add: never_cancelled_def)
  note k = tick_round_keeps [OF Cons.prems(2-4), where r = r and icfg = icfg and cfg = cfg]
  obtain c1 where c1: "find_connector (working (iw_txn (snd (tick_round (ingest_fresh icfg) cfg r w)))) j = Some c1"
    and en: "cn_enabled c1 = cn_enabled c" using k(3) by blast
  from Cons.IH [OF rs k(1) _ c1, of "slept @ [loop_interval cfg]"] k(2) en Cons.prems(3) show ?case
    unfolding scheduler_loop_step [OF r] by simp
qed simp

section \<open>Property\<close>

text \<open>
  C19. The scheduler never gives up: whatever the earlier rounds of the loop ran into, a database that is gone
  included, every later round that is not cut short and finds a connector unlocked runs it when it
  is due, and its row records the outcome of that run. The pauses between the rounds are at most a minute, and with
  the scheduler switched off no round happens.
\<close>

theorem scheduler_never_gives_up:
  assumes "scheduler_enabled cfg" and "settled w" and "distinct (connector_ids w)"
    and "find_connector (committed (iw_txn w)) cid = Some c0" and "never_cancelled before"
    and "lr_fault r = None" and "\<not> lr_locked r cid"
  shows "\<exists>c c'. find_connector (committed (iw_txn (lifespan (ingest_fresh icfg) cfg before w))) cid = Some c
     \<and> find_connector (committed (iw_txn (lifespan (ingest_fresh icfg) cfg (before @ [r]) w))) cid = Some c'
     \<and> cn_enabled c = cn_enabled c0 \<and> ran cfg (lr_now r) (lr_env r cid) c c'
     \<and> snd (scheduler_loop (ingest_fresh icfg) cfg (before @ [r]) (w, [])) = replicate (Suc (length before)) (loop_interval cfg)
     \<and> loop_interval cfg \<le> 60
     \<and> lifespan (ingest_fresh icfg) (cfg\<lparr>scheduler_enabled := False\<rparr>) (before @ [r]) w = w"
proof -
  let ?L = "\<lambda>rs. scheduler_loop (ingest_fresh icfg) cfg rs (w, [])"
  have c0: "find_connector (working (iw_txn w)) cid = Some c0" using assms(2,4) by (simp add: settled_def)
  obtain c where keep: "settled (fst (?L before))" "connector_ids (fst (?L before)) = connector_ids w"
    and c: "find_connector (working (iw_txn (fst (?L before)))) cid = Some c" "cn_enabled c = cn_enabled c0"
    using scheduler_loop_keeps [OF assms(5,2,3) c0, of icfg cfg "[]"] by blast
  have r: "never_cancelled [r]" and all: "never_cancelled (before @ [r])" using assms(5,6) by (simp_all add: never_cancelled_def)
  have last: "fst (?L (before @ [r])) = snd (tick_round (ingest_fresh icfg) cfg r (fst (?L before)))"
    unfolding scheduler_loop_append [OF assms(5)] using scheduler_loop_step [OF r, where rs = "[]"] by (cases "?L before") simp
  have "distinct (connector_ids (fst (?L before)))" using keep(2) assms(3) by simp
  note step = tick_round_keeps [OF keep(1) this c(1), where r = r and icfg = icfg and cfg = cfg]
  obtain c' where "find_connector (working (iw_txn (fst (?L (before @ [r]))))) cid = Some c'" "ran cfg (lr_now r) (lr_env r cid) c c'"
    using step(4) [OF assms(6,7)] unfolding last by blast
  moreover have "settled (fst (?L (before @ [r])))" unfolding last by (rule step(1))
  ultimately show ?thesis using keep(1) c assms(1) scheduler_loop_slept [OF all]
    by (auto simp: lifespan_def loop_interval_def settled_def)
qed

definition lost_database :: "ingest_env loop_round" where
  "lost_database = \<lparr>lr_now = 3, lr_env = (\<lambda>_. sample_sync_env), lr_locked = (\<lambda>_. False), lr_fault = Some (0, PyError ''OSError'' ''refused'')\<rparr>"

theorem scheduler_never_gives_up_witness:
  "let w = sample_world\<lparr>iw_txn := begin_txn ((working (iw_txn sample_world))\<lparr>connectors := [sample_connector]\<rparr>)\<rparr>;
       back = lost_database\<lparr>lr_fault := None\<rparr> in
   \<exists>c c'. find_connector (committed (iw_txn (lifespan (ingest_fresh default_settings) default_settings [lost_database] w))) 3 = Some c
     \<and> find_connector (committed (iw_txn (lifespan (ingest_fresh default_settings) default_settings [lost_database, back] w))) 3 = Some c'
     \<and> ran default_settings 3 sample_sync_env c c'"
proof -
  let ?w = "sample_world\<lparr>iw_txn := begin_txn ((working (iw_txn sample_world))\<lparr>connectors := [sample_connector]\<rparr>)\<rparr>"
  have "settled ?w" "distinct (connector_ids ?w)" "find_connector (committed (iw_txn ?w)) 3 = Some sample_connector"
    by (simp_all add: settled_def sample_connector_def)
  moreover have "never_cancelled [lost_database]"
    by (simp add: never_cancelled_def lost_database_def is_cancelled_def)
  moreover have "scheduler_enabled default_settings" "lr_fault (lost_database\<lparr>lr_fault := None\<rparr>) = None"
    "\<not> lr_locked (lost_database\<lparr>lr_fault := None\<rparr>) 3" by (simp_all add: lost_database_def default_settings_def)
  ultimately show ?thesis
    using scheduler_never_gives_up [of default_settings ?w 3 sample_connector "[lost_database]" "lost_database\<lparr>lr_fault := None\<rparr>" default_settings]
    by (auto simp: Let_def lost_database_def)
qed

end
