(* ===== verification/S3_Client.thy ===== *)
theory S3_Client imports Sync_Engine begin

text \<open>
  The constructor and the pagination of \<open>S3Connector\<close> (\<open>prorag/connectors/s3.py\<close>): what the sync engine sees as one
  \<open>bucket\<close> is a client that is opened from the stored configuration and asked page by page. The object store
  behind boto3 is an argument: whether a client opens, the pages of a listing, and the body of a key.
\<close>

section \<open>The connector object\<close>

record s3_client_args =
  sa_endpoint_url :: "string option"
  sa_access_key_id :: "string option"
  sa_secret_access_key :: "string option"
  sa_region_name :: "string option"

record s3_connector =
  sc_bucket :: string
  sc_prefix :: string
  sc_client :: s3_client_args

text \<open>\<open>x or None\<close>\<close>

definition or_none :: "string option \<Rightarrow> string option" where
  "or_none x = (case x of None \<Rightarrow> None | Some s \<Rightarrow> if s = [] then None else Some s)"

text \<open>The configuration is a dict; a missing bucket raises, everything else has a default.\<close>

definition s3_init :: "(string \<times> string) list \<Rightarrow> s3_connector outcome" where
  "s3_init config =
     (case map_of config ''bucket'' of
        None \<Rightarrow> Inl (PyError ''KeyError'' ''bucket'')
      | Some b \<Rightarrow>
          Inr \<lparr>sc_bucket = b, sc_prefix = (case map_of config ''prefix'' of None \<Rightarrow> [] | Some p \<Rightarrow> p),
               sc_client = \<lparr>sa_endpoint_url = or_none (map_of config ''endpoint_url''), sa_access_key_id = map_of config ''access_key_id'',
                 sa_secret_access_key = map_of config ''secret_access_key'', sa_region_name = or_none (map_of config ''region'')\<rparr>\<rparr>)"

section \<open>The listing\<close>

record object_store =
  os_open :: "s3_client_args \<Rightarrow> exn option"
  os_pages :: "string \<Rightarrow> string \<Rightarrow> remote_object list option outcome list"
  os_body :: "string \<Rightarrow> string \<Rightarrow> string outcome"

text \<open>\<open>_paginate\<close>: a page without \<open>Contents\<close> yields nothing; a page that cannot be fetched ends the listing with its error.\<close>

fun paginate :: "remote_object list option outcome list \<Rightarrow> remote_object list outcome" where
  "paginate [] = Inr []"
| "paginate (page # pages) =
     (case page of
        Inl e \<Rightarrow> Inl e
      | Inr contents \<Rightarrow> map_sum id (\<lambda>rest. (case contents of None \<Rightarrow> [] | Some os \<Rightarrow> os) @ rest) (paginate pages))"

text \<open>The bucket that the sync engine is given.\<close>

definition s3_bucket :: "object_store \<Rightarrow> (string \<times> string) list \<Rightarrow> bucket" where
  "s3_bucket store config =
     (case s3_init config of
        Inl e \<Rightarrow> \<lparr>bk_open = Some e, bk_list = Inl e, bk_get = (\<lambda>k. Inl e)\<rparr>
      | Inr c \<Rightarrow>
          \<lparr>bk_open = os_open store (sc_client c), bk_list = paginate (os_pages store (sc_bucket c) (sc_prefix c)),
           bk_get = os_body store (sc_bucket c)\<rparr>)"

section \<open>Pages do not matter\<close>

definition page_objects :: "remote_object list option outcome \<Rightarrow> remote_object list" where
  "page_objects page = (case page of Inr (Some os) \<Rightarrow> os | _ \<Rightarrow> [])"

lemma paginate_ok: "list_all is_ok pages \<Longrightarrow> paginate pages = Inr (concat (map page_objects pages))"
  by (induction pages) (auto simp: page_objects_def split: sum.splits option.splits)

text \<open>
  However the store cuts its listing into pages, the engine sees the same objects in the same order, and an
  error on any page is an error of the whole listing: no partial listing can make a sweep delete what it did not see.
\<close>

lemma listing_independent_of_pages:
  assumes "s3_init config = Inr c" and "s3_init config' = Inr c'"
    and "list_all is_ok (os_pages store (sc_bucket c) (sc_prefix c))" and "list_all is_ok (os_pages store' (sc_bucket c') (sc_prefix c'))"
    and "concat (map page_objects (os_pages store (sc_bucket c) (sc_prefix c))) = concat (map page_objects (os_pages store' (sc_bucket c') (sc_prefix c')))"
  shows "list_changed (s3_bucket store config) since = list_changed (s3_bucket store' config') since"
    and "list_all_ids (s3_bucket store config) = list_all_ids (s3_bucket store' config')"
  using assms by (simp_all add: s3_bucket_def paginate_ok list_changed_def list_all_ids_def)

lemma no_partial_listing:
  assumes "s3_init config = Inr c" and "Inl e \<in> set (os_pages store (sc_bucket c) (sc_prefix c))"
  shows "\<exists>e'. list_changed (s3_bucket store config) since = Inl e'"
proof -
  have "\<exists>e'. paginate pages = Inl e'" if "Inl e \<in> set pages" for pages
    using that by (induction pages) (auto split: sum.split)
  then show ?thesis using assms by (fastforce simp: s3_bucket_def list_changed_def)
qed

text \<open>A configuration without a bucket passes the creation of a connector and fails every run of it.\<close>

lemma missing_bucket_fails:
  "map_of config ''bucket'' = None \<Longrightarrow> cn_type row = ''s3'' \<Longrightarrow>
     build_connector (s3_bucket store config) row = Inl (PyError ''KeyError'' ''bucket'')"
  by (simp add: build_connector_def s3_bucket_def s3_init_def)

end
