(* ===== verification/Schemas.thy ===== *)
theory Schemas imports Chat_Flow Admin_People Ingest begin

text \<open>
  \<open>prorag/schemas.py\<close>: the request bodies that pydantic validates before a handler runs, and the values its response
  models admit. A body is what JSON gave: texts, or \<open>None\<close> for a field that is null or absent. Every failing
  constraint makes the answer 422 with the names of the fields, and the handler does not run.
  \<open>str_strip_whitespace\<close> strips before the constraints look; parsing a UUID is an argument.
\<close>

section \<open>Constraints\<close>

definition unprocessable :: "string list \<Rightarrow> exn" where
  "unprocessable names = HTTPException 422 (concat names)"

text \<open>The checks of a model with the names of their fields.\<close>

definition validated :: "(string \<times> bool) list \<Rightarrow> 'a \<Rightarrow> 'a outcome" where
  "validated checks x =
     (case map fst (filter (\<lambda>(f, ok). \<not> ok) checks) of [] \<Rightarrow> Inr x | fs \<Rightarrow> Inl (unprocessable fs))"

definition length_within :: "nat \<Rightarrow> nat \<Rightarrow> string \<Rightarrow> bool" where
  "length_within lo hi t = (lo \<le> length t \<and> length t \<le> hi)"

fun optional :: "('a \<Rightarrow> bool) \<Rightarrow> 'a option \<Rightarrow> bool" where
  "optional P None = True"
| "optional P (Some x) = P x"

text \<open>A field of a PATCH body: left out, null, or a value.\<close>

fun optional_field :: "('a \<Rightarrow> bool) \<Rightarrow> 'a field \<Rightarrow> bool" where
  "optional_field P None = True"
| "optional_field P (Some v) = optional P v"

text \<open>\<open>^[A-Za-z0-9_-]+$\<close>; here the dollar sign is the end of the text only.\<close>

definition collection_pattern :: "string \<Rightarrow> bool" where
  "collection_pattern t = (t \<noteq> [] \<and> list_all collection_char t)"

section \<open>Request models\<close>

record chat_body =
  cb_message :: string
  cb_collection :: "string option"
  cb_chat_id :: "string option"

definition chat_request_model :: "(string \<Rightarrow> uuid option) \<Rightarrow> chat_body \<Rightarrow> (chat_request \<times> string option) outcome" where
  "chat_request_model parse_uuid b =
     (let message = py_strip (cb_message b); collection = map_option py_strip (cb_collection b) in
      validated
        [(''message'', length_within 1 8000 message),
         (''collection'', optional (\<lambda>c. length c \<le> 64 \<and> collection_pattern c) collection),
         (''chat_id'', optional (\<lambda>i. parse_uuid i \<noteq> None) (cb_chat_id b))]
        (\<lparr>rq_message = message, rq_chat_id = Option.bind (cb_chat_id b) parse_uuid\<rparr>, collection))"

record feedback_body =
  fb_message_id :: string
  fb_rating :: string
  fb_comment :: "string option"

definition parse_rating :: "string \<Rightarrow> rating option" where
  "parse_rating t = (if t = ''up'' then Some Up else if t = ''down'' then Some Down else None)"

definition feedback_request_model :: "(string \<Rightarrow> uuid option) \<Rightarrow> feedback_body \<Rightarrow> (uuid \<times> rating \<times> string option) outcome" where
  "feedback_request_model parse_uuid b =
     (let rating = py_strip (fb_rating b); comment = map_option py_strip (fb_comment b) in
      case (parse_uuid (fb_message_id b), parse_rating rating) of
        (Some i, Some r) \<Rightarrow> validated [(''comment'', optional (\<lambda>c. length c \<le> 2000) comment)] (i, r, comment)
      | (i, r) \<Rightarrow> Inl (unprocessable ((if i = None then [''message_id''] else []) @ (if r = None then [''rating''] else []))))"

record connector_body =
  nb_type :: string
  nb_name :: string
  nb_collection :: "string option"
  nb_enabled :: "bool option"

definition connector_create_model :: "connector_body \<Rightarrow> (string \<times> string \<times> bool) outcome" where
  "connector_create_model b =
     validated [(''type'', nb_type b = ''s3''), (''name'', length_within 1 255 (nb_name b))]
       (nb_name b, case nb_collection b of None \<Rightarrow> ''default'' | Some c \<Rightarrow> c, case nb_enabled b of None \<Rightarrow> True | Some e \<Rightarrow> e)"

definition connector_update_model :: "connector_update \<Rightarrow> connector_update outcome" where
  "connector_update_model b = validated [(''name'', optional_field (length_within 1 255) (cu_name b))] b"

record rule_body =
  rb_name :: string
  rb_nl_query :: string
  rb_group_id :: string

definition access_rule_create_model :: "(string \<Rightarrow> uuid option) \<Rightarrow> rule_body \<Rightarrow> (string \<times> string \<times> uuid) outcome" where
  "access_rule_create_model parse_uuid b =
     (case parse_uuid (rb_group_id b) of
        None \<Rightarrow> Inl (unprocessable [''group_id''])
      | Some g \<Rightarrow>
          validated [(''name'', length_within 1 255 (rb_name b)), (''nl_query'', length_within 1 2000 (rb_nl_query b))]
            (rb_name b, rb_nl_query b, g))"

definition access_rule_update_model :: "rule_update \<Rightarrow> rule_update outcome" where
  "access_rule_update_model b =
     validated [(''name'', optional_field (length_within 1 255) (ru_name b)), (''nl_query'', optional_field (length_within 1 2000) (ru_nl_query b))] b"

definition group_create_model :: "string \<Rightarrow> string outcome" where
  "group_create_model name = validated [(''name'', length_within 1 255 name)] name"

text \<open>Every value of the three optional fields is admitted, a negative cap too.\<close>

definition user_patch_model :: "user_patch \<Rightarrow> user_patch outcome" where
  "user_patch_model b = validated [] b"

section \<open>Response models\<close>

definition status_text :: "doc_status \<Rightarrow> string" where
  "status_text st = (case st of Pending \<Rightarrow> ''pending'' | Processing \<Rightarrow> ''processing'' | Ready \<Rightarrow> ''ready'' | Failed \<Rightarrow> ''failed'')"

definition ingest_response_ok :: "ingest_response \<Rightarrow> bool" where
  "ingest_response_ok r = (status_text (ir_status r) \<in> set [''pending'', ''processing'', ''ready'', ''failed''])"

definition rule_state_text :: "rule_state \<Rightarrow> string" where
  "rule_state_text st = (case st of Draft \<Rightarrow> ''draft'' | Confirmed \<Rightarrow> ''confirmed'')"

definition access_rule_out_ok :: "access_rule \<Rightarrow> bool" where
  "access_rule_out_ok r = (rule_state_text (r_state r) \<in> set [''draft'', ''confirmed''])"

section \<open>Endpoints with their validation\<close>

text \<open>The body is validated first; a refused one leaves the session untouched.\<close>

definition with_body :: "'b outcome \<Rightarrow> ('b \<Rightarrow> 's \<Rightarrow> 'a outcome \<times> 's) \<Rightarrow> 's \<Rightarrow> 'a outcome \<times> 's" where
  "with_body body handler t = (case body of Inl e \<Rightarrow> (Inl e, t) | Inr b \<Rightarrow> handler b t)"

definition post_chat ::
  "(string \<Rightarrow> uuid option) \<Rightarrow> settings \<Rightarrow> backend \<Rightarrow> fresh_ids \<Rightarrow> datetime \<Rightarrow> chat_body \<Rightarrow> user option \<Rightarrow> txn \<Rightarrow> chat_response outcome \<times> txn" where
  "post_chat parse_uuid cfg be ids now body user =
     with_body (chat_request_model parse_uuid body) (\<lambda>(req, collection). chat cfg be ids now req user)"

definition post_rule :: "(string \<Rightarrow> uuid option) \<Rightarrow> uuid \<Rightarrow> rule_body \<Rightarrow> txn \<Rightarrow> access_rule outcome \<times> txn" where
  "post_rule parse_uuid new_id body =
     with_body (access_rule_create_model parse_uuid body) (\<lambda>(name, nl_query, g). create_rule new_id name nl_query g)"

definition patch_rule :: "uuid \<Rightarrow> rule_update \<Rightarrow> txn \<Rightarrow> access_rule outcome \<times> txn" where
  "patch_rule rid body = with_body (access_rule_update_model body) (update_rule rid)"

definition post_group :: "uuid \<Rightarrow> string \<Rightarrow> txn \<Rightarrow> group_rec outcome \<times> txn" where
  "post_group new_id name = with_body (group_create_model name) (create_group new_id)"

section \<open>What passes\<close>

lemma validated_cases:
  "validated checks x = (if list_all snd checks then Inr x else Inl (unprocessable (map fst (filter (\<lambda>(f, ok). \<not> ok) checks))))"
proof (cases "list_all snd checks")
  case True
  then have "filter (\<lambda>(f, ok). \<not> ok) checks = []" by (induction checks) auto
  with True show ?thesis by (simp add: validated_def)
next
  case False
  then have "filter (\<lambda>(f, ok). \<not> ok) checks \<noteq> []" by (induction checks) auto
  then obtain c cs where "filter (\<lambda>(f, ok). \<not> ok) checks = c # cs" by (cases "filter (\<lambda>(f, ok). \<not> ok) checks") auto
  with False show ?thesis by (simp add: validated_def)
qed

lemma py_strip_id:
  assumes "\<not> is_space (hd t)" and "\<not> is_space (last t)"
  shows "py_strip t = t"
proof (cases t)
  case Nil
  then show ?thesis by (simp add: py_strip_def py_lstrip_def py_rstrip_def)
next
  case (Cons c cs)
  then have l: "py_lstrip t = t" using assms(1) by (simp add: py_lstrip_def)
  have "dropWhile is_space (rev t) = rev t" using assms(2) by (cases t rule: rev_cases) simp_all
  then show ?thesis by (simp add: py_strip_def l py_rstrip_def)
qed

lemma py_strip_idem: "py_strip (py_strip t) = py_strip t"
proof (cases "py_strip t = []")
  case True
  show ?thesis unfolding True by (simp add: py_strip_def py_lstrip_def py_rstrip_def)
next
  case False
  then show ?thesis using py_strip_ends py_strip_id by blast
qed

lemma collection_char_not_newline: "\<not> collection_char (CHR 0x0A)"
  by code_simp

text \<open>A collection that a chat may name is one that an upload may have been given.\<close>

lemma collection_pattern_ok:
  assumes "collection_pattern c" and "length c \<le> 64"
  shows "collection_ok c"
proof -
  have "c \<noteq> []" and chars: "\<forall>x\<in>set c. collection_char x" using assms(1) by (simp_all add: collection_pattern_def list_all_iff)
  then have "last c \<noteq> CHR 0x0A" using collection_char_not_newline last_in_set by metis
  then show ?thesis using assms(2) \<open>c \<noteq> []\<close> chars by (simp add: collection_ok_def Suc_le_eq Let_def list_all_iff)
qed

lemma chat_request_model_Inr:
  assumes "chat_request_model parse_uuid b = Inr (req, coll)"
  shows "rq_message req = py_strip (cb_message b)" and "length_within 1 8000 (rq_message req)"
    and "coll = map_option py_strip (cb_collection b)" and "optional (\<lambda>c. length c \<le> 64 \<and> collection_pattern c) coll"
    and "optional (\<lambda>i. parse_uuid i \<noteq> None) (cb_chat_id b)" and "rq_chat_id req = Option.bind (cb_chat_id b) parse_uuid"
  using assms by (auto simp: chat_request_model_def Let_def validated_cases split: if_splits)

lemma chat_request_model_again:
  assumes "chat_request_model parse_uuid b = Inr (req, coll)"
  shows "chat_request_model parse_uuid (b\<lparr>cb_message := rq_message req, cb_collection := coll\<rparr>) = Inr (req, coll)"
proof -
  note f = chat_request_model_Inr [OF assms]
  have "map_option py_strip coll = coll" unfolding f(3) by (simp add: option.map_comp comp_def py_strip_idem)
  moreover have "py_strip (rq_message req) = rq_message req" unfolding f(1) by (rule py_strip_idem)
  moreover have "req = \<lparr>rq_message = rq_message req, rq_chat_id = Option.bind (cb_chat_id b) parse_uuid\<rparr>" using f(6) by simp
  ultimately show ?thesis using f(2,4,5) by (simp add: chat_request_model_def Let_def validated_cases)
qed

text \<open>
  The constraint that rejects a blank question is missing where a question costs money too: a rule whose
  query is a space is created, and its preview and confirmation embed that space.
\<close>

lemma blank_rule_query_accepted:
  "parse_uuid g = Some i \<Longrightarrow> access_rule_create_model parse_uuid \<lparr>rb_name = ''r'', rb_nl_query = '' '', rb_group_id = g\<rparr> = Inr (''r'', '' '', i)"
  by (simp add: access_rule_create_model_def validated_def length_within_def)

text \<open>What the handlers answer fits the response models: no status or state of the database is outside their sets.\<close>

lemma responses_fit: "ingest_response_ok r" "access_rule_out_ok rule"
  by (cases "ir_status r"; simp add: ingest_response_ok_def status_text_def)
    (cases "r_state rule"; simp add: access_rule_out_ok_def rule_state_text_def)

section \<open>Property\<close>

text \<open>
  C32. A chat request is typed before it costs anything: a body that fails a constraint, a blank question
  included, is answered 422 with the session untouched, so nothing is embedded, asked of a model or stored; a
  body that passes reaches the handler with a question of 1 to 8000 characters without blanks at
  its ends, and with a collection, when it names one, that an upload could have used. Validating
  what was validated changes nothing.
\<close>

theorem chat_request_typed:
  "is_ok (chat_request_model parse_uuid b) =
     (py_strip (cb_message b) \<noteq> [] \<and> length (py_strip (cb_message b)) \<le> 8000
      \<and> optional (\<lambda>c. length (py_strip c) \<le> 64 \<and> collection_pattern (py_strip c)) (cb_collection b)
      \<and> optional (\<lambda>i. parse_uuid i \<noteq> None) (cb_chat_id b))
   \<and> (case chat_request_model parse_uuid b of
        Inl e \<Rightarrow> exn_code e = 422 \<and> post_chat parse_uuid cfg be ids now b user t = (Inl e, t)
      | Inr (req, coll) \<Rightarrow>
          post_chat parse_uuid cfg be ids now b user t = chat cfg be ids now req user t
          \<and> rq_message req \<noteq> [] \<and> length (rq_message req) \<le> 8000
          \<and> \<not> is_space (hd (rq_message req)) \<and> \<not> is_space (last (rq_message req))
          \<and> optional collection_ok coll
          \<and> chat_request_model parse_uuid (b\<lparr>cb_message := rq_message req, cb_collection := coll\<rparr>) = Inr (req, coll))"
proof
  show "is_ok (chat_request_model parse_uuid b) =
     (py_strip (cb_message b) \<noteq> [] \<and> length (py_strip (cb_message b)) \<le> 8000
      \<and> optional (\<lambda>c. length (py_strip c) \<le> 64 \<and> collection_pattern (py_strip c)) (cb_collection b)
      \<and> optional (\<lambda>i. parse_uuid i \<noteq> None) (cb_chat_id b))"
    by (cases "cb_collection b") (auto simp: chat_request_model_def Let_def validated_cases length_within_def Suc_le_eq)
  show "case chat_request_model parse_uuid b of
        Inl e \<Rightarrow> exn_code e = 422 \<and> post_chat parse_uuid cfg be ids now b user t = (Inl e, t)
      | Inr (req, coll) \<Rightarrow>
          post_chat parse_uuid cfg be ids now b user t = chat cfg be ids now req user t
          \<and> rq_message req \<noteq> [] \<and> length (rq_message req) \<le> 8000
          \<and> \<not> is_space (hd (rq_message req)) \<and> \<not> is_space (last (rq_message req))
          \<and> optional collection_ok coll
          \<and> chat_request_model parse_uuid (b\<lparr>cb_message := rq_message req, cb_collection := coll\<rparr>) = Inr (req, coll)"
  proof (cases "chat_request_model parse_uuid b")
    case (Inl e)
    then show ?thesis
      by (auto simp: post_chat_def with_body_def chat_request_model_def Let_def validated_cases unprocessable_def split: if_splits)
  next
    case (Inr p)
    obtain req coll where p: "p = (req, coll)" by (cases p)
    note ok = Inr [unfolded p]
    note f = chat_request_model_Inr [OF ok]
    have m: "rq_message req \<noteq> []" "length (rq_message req) \<le> 8000" using f(2) by (auto simp: length_within_def)
    moreover have "\<not> is_space (hd (rq_message req))" "\<not> is_space (last (rq_message req))"
      using py_strip_ends m(1) unfolding f(1) by blast+
    moreover have "optional collection_ok coll" using f(4) collection_pattern_ok by (cases coll) auto
    moreover have "post_chat parse_uuid cfg be ids now b user t = chat cfg be ids now req user t"
      using ok by (simp add: post_chat_def with_body_def)
    ultimately show ?thesis using ok chat_request_model_again [OF ok] by simp
  qed
qed

end
