(* ===== verification/Bench_Scale.thy ===== *)
theory Bench_Scale imports DataModel "HOL-Library.While_Combinator" begin

text \<open>
  \<open>scripts/bench_scale.py\<close>: filling the library with synthetic documents in resumable tiers, the percentiles
  of the measurements, and the clean-up that is to leave no trace of them. Each statement of the script commits
  on its own. Random texts and vectors, fresh identifiers and the clock are an environment. The queries whose
  latency is measured, and the timing of one upload and of one rerank call, are I/O and left out.
\<close>

section \<open>Inserting a tier\<close>

definition CHUNKS_PER_DOC :: nat where
  "CHUNKS_PER_DOC = 200"

definition COPY_BATCH :: nat where
  "COPY_BATCH = 2000"

definition COLLECTION :: string where
  "COLLECTION = ''bench_scale''"

definition FILENAME_PREFIX :: string where
  "FILENAME_PREFIX = ''bench_''"

text \<open>
  What the script draws: for the \<open>k\<close>-th document an identifier with its text and a hash, for the \<open>i\<close>-th chunk of
  the call a row number, a text of the pool and a vector; \<open>be_elapsed j\<close> is the time since the start when the loop
  looks at the clock for the \<open>j\<close>-th time.
\<close>

record bench_env =
  be_uuid :: "nat \<Rightarrow> uuid"
  be_uuid_text :: "uuid \<Rightarrow> string"
  be_hex :: "nat \<Rightarrow> string"
  be_row_id :: "nat \<Rightarrow> nat"
  be_text :: "nat \<Rightarrow> string"
  be_words :: "string \<Rightarrow> nat"
  be_vector :: "nat \<Rightarrow> real list"
  be_elapsed :: "nat \<Rightarrow> real"
  be_now :: datetime

definition bench_document :: "bench_env \<Rightarrow> nat \<Rightarrow> document" where
  "bench_document env k =
     (let i = be_uuid env k; title = ''bench doc '' @ be_uuid_text env i in
      \<lparr>d_id = i, d_sha256 = be_hex env k, d_filename = FILENAME_PREFIX @ ''doc_'' @ be_uuid_text env i @ ''.txt'',
       d_mime = ''text/plain'', d_blob_path = ''bench'', d_page_count = Some 1, d_title = Some title, d_title_norm = Some title,
       d_collection = COLLECTION, d_status = Ready, d_error = None, d_created_at = be_now env\<rparr>)"

text \<open>The state of the loop; \<open>ti_docs\<close> counts the documents made, \<open>ti_records\<close> is the batch that is being built.\<close>

record tier =
  ti_db :: db
  ti_inserted :: nat
  ti_doc :: "uuid option"
  ti_doc_chunks :: nat
  ti_docs :: nat
  ti_records :: "chunk_row list"
  ti_rounds :: nat

definition start_tier :: "db \<Rightarrow> tier" where
  "start_tier s = \<lparr>ti_db = s, ti_inserted = 0, ti_doc = None, ti_doc_chunks = CHUNKS_PER_DOC, ti_docs = 0, ti_records = [], ti_rounds = 0\<rparr>"

definition new_document_if_full :: "bench_env \<Rightarrow> tier \<Rightarrow> tier" where
  "new_document_if_full env st =
     (if CHUNKS_PER_DOC \<le> ti_doc_chunks st then
        st\<lparr>ti_db := (ti_db st)\<lparr>documents := documents (ti_db st) @ [bench_document env (ti_docs st)]\<rparr>,
           ti_doc := Some (be_uuid env (ti_docs st)), ti_docs := Suc (ti_docs st), ti_doc_chunks := 0\<rparr>
      else st)"

definition bench_record :: "bench_env \<Rightarrow> nat \<Rightarrow> nat \<Rightarrow> uuid \<Rightarrow> nat \<Rightarrow> chunk_row" where
  "bench_record env already i doc n =
     (let text = be_text env i @ '' ref'' @ str_of_nat (already + i) in
      \<lparr>c_id = be_row_id env i, c_doc_id = doc, c_ord = n, c_kind = ''prose'', c_text = text, c_embed_text = text,
       c_heading_path = None, c_page_start = Some 1, c_page_end = Some 1, c_bbox = None, c_table_id = None,
       c_token_count = be_words env text, c_embedding = be_vector env i\<rparr>)"

text \<open>One turn of the inner loop. The first turn always makes a document, so \<open>ti_doc\<close> is set when it is read.\<close>

definition add_record :: "bench_env \<Rightarrow> nat \<Rightarrow> tier \<Rightarrow> tier" where
  "add_record env already st =
     (let st' = new_document_if_full env st; i = ti_inserted st + length (ti_records st) in
      st'\<lparr>ti_records := ti_records st' @
             [bench_record env already i (case ti_doc st' of None \<Rightarrow> 0 | Some d \<Rightarrow> d) (ti_doc_chunks st')],
          ti_doc_chunks := Suc (ti_doc_chunks st')\<rparr>)"

definition copy_records :: "nat \<Rightarrow> tier \<Rightarrow> tier" where
  "copy_records n st =
     st\<lparr>ti_db := (ti_db st)\<lparr>chunks := chunks (ti_db st) @ ti_records st\<rparr>, ti_inserted := ti_inserted st + n, ti_records := [],
        ti_rounds := Suc (ti_rounds st)\<rparr>"

definition insert_batch :: "bench_env \<Rightarrow> nat \<Rightarrow> nat \<Rightarrow> tier \<Rightarrow> tier" where
  "insert_batch env already to_insert st =
     (let n = min COPY_BATCH (to_insert - ti_inserted st) in copy_records n ((add_record env already ^^ n) st))"

text \<open>The loop as it stands; \<open>None\<close> would be a loop that never ends.\<close>

definition insert_tier :: "bench_env \<Rightarrow> real \<Rightarrow> nat \<Rightarrow> nat \<Rightarrow> db \<Rightarrow> tier option" where
  "insert_tier env time_budget target_total_new already s =
     (let to_insert = target_total_new - already in
      while_option (\<lambda>st. ti_inserted st < to_insert \<and> \<not> time_budget < be_elapsed env (ti_rounds st))
        (insert_batch env already to_insert) (start_tier s))"

definition hit_time_budget :: "nat \<Rightarrow> nat \<Rightarrow> tier \<Rightarrow> bool" where
  "hit_time_budget target_total_new already st = (ti_inserted st < target_total_new - already)"

section \<open>Clean-up\<close>

text \<open>SQL's \<open>LIKE\<close>: a percent sign stands for any text, an underscore for any one character.\<close>

fun sql_like :: "string \<Rightarrow> string \<Rightarrow> bool" where
  "sql_like [] s = (s = [])"
| "sql_like (q # qs) [] = (q = CHR ''%'' \<and> sql_like qs [])"
| "sql_like (q # qs) (c # cs) =
     (if q = CHR ''%'' then sql_like qs (c # cs) \<or> sql_like (q # qs) cs
      else (q = CHR ''_'' \<or> q = c) \<and> sql_like qs cs)"

definition is_bench :: "document \<Rightarrow> bool" where
  "is_bench d = sql_like (FILENAME_PREFIX @ ''%'') (d_filename d)"

text \<open>The foreign keys delete what hangs on each document.\<close>

definition cleanup_bench_rows :: "db \<Rightarrow> db" where
  "cleanup_bench_rows s = fold delete_document (map d_id (filter is_bench (documents s))) s"

definition get_baseline_counts :: "db \<Rightarrow> nat \<times> nat" where
  "get_baseline_counts s = (length (documents s), length (chunks s))"

definition get_bench_chunk_count :: "db \<Rightarrow> nat" where
  "get_bench_chunk_count s =
     length (filter (\<lambda>c. list_ex (\<lambda>d. d_id d = c_doc_id c \<and> is_bench d) (documents s)) (chunks s))"

text \<open>The commands: \<open>insert\<close> resumes after the rows of earlier runs, \<open>cleanup\<close> reports the counts around it.\<close>

definition cmd_insert :: "bench_env \<Rightarrow> nat \<Rightarrow> real \<Rightarrow> db \<Rightarrow> tier option" where
  "cmd_insert env add_rows budget s =
     (let already = get_bench_chunk_count s in insert_tier env budget (already + add_rows) already s)"

definition cmd_cleanup :: "db \<Rightarrow> ((nat \<times> nat) \<times> (nat \<times> nat)) \<times> db" where
  "cmd_cleanup s =
     (let s' = cleanup_bench_rows s in ((get_baseline_counts s, get_baseline_counts s'), s'))"

section \<open>Percentiles\<close>

text \<open>
  \<open>statistics.quantiles(data, n=100, method='inclusive')\<close>: linear interpolation between the sorted data; \<open>None\<close> is
  the \<open>nan\<close> of no data.
\<close>

definition quantile :: "real list \<Rightarrow> nat \<Rightarrow> real" where
  "quantile xs i =
     (let ys = sort xs; m = length ys - 1; j = i * m div 100; delta = i * m mod 100 in
      (ys ! j * real (100 - delta) + ys ! Suc j * real delta) / 100)"

definition percentile :: "real list \<Rightarrow> nat \<Rightarrow> real option" where
  "percentile latencies pct =
     (case latencies of [] \<Rightarrow> None | [x] \<Rightarrow> Some x | _ \<Rightarrow> Some (quantile latencies pct))"

text \<open>\<open>fmt_bytes\<close> up to the rendering of the number: the value and its unit.\<close>

fun scale_bytes :: "string list \<Rightarrow> real \<Rightarrow> real \<times> string" where
  "scale_bytes [] n = (n, ''TB'')"
| "scale_bytes (u # us) n = (if \<bar>n\<bar> < 1024 then (n, u) else scale_bytes us (n / 1024))"

definition fmt_bytes :: "real \<Rightarrow> real \<times> string" where
  "fmt_bytes n = scale_bytes [''B'', ''KB'', ''MB'', ''GB''] n"

section \<open>The loop ends, and what it has done then\<close>

definition bench_chunk :: "bench_env \<Rightarrow> nat \<Rightarrow> nat \<Rightarrow> chunk_row" where
  "bench_chunk env already i = bench_record env already i (be_uuid env (i div CHUNKS_PER_DOC)) (i mod CHUNKS_PER_DOC)"

definition docs_needed :: "nat \<Rightarrow> nat" where
  "docs_needed n = (n + (CHUNKS_PER_DOC - 1)) div CHUNKS_PER_DOC"

lemma docs_needed_simps [simp]: "docs_needed 0 = 0" "docs_needed (Suc k) = Suc (k div 200)"
  by (simp_all add: docs_needed_def CHUNKS_PER_DOC_def)

text \<open>After \<open>r\<close> rows, copied or still in the batch.\<close>

definition tier_inv :: "bench_env \<Rightarrow> nat \<Rightarrow> db \<Rightarrow> nat \<Rightarrow> tier \<Rightarrow> bool" where
  "tier_inv env already s r st \<longleftrightarrow>
     ti_db st = s\<lparr>documents := documents s @ map (bench_document env) [0..<docs_needed r],
                  chunks := chunks s @ map (bench_chunk env already) [0..<ti_inserted st]\<rparr>
   \<and> ti_docs st = docs_needed r
   \<and> ti_records st = map (bench_chunk env already) [ti_inserted st..<r] \<and> ti_inserted st \<le> r
   \<and> (case r of 0 \<Rightarrow> ti_doc_chunks st = 200
      | Suc k \<Rightarrow> ti_doc_chunks st = Suc (k mod 200) \<and> ti_doc st = Some (be_uuid env (k div 200)))"

lemma tier_inv_start: "tier_inv env already s 0 (start_tier s)"
  by (simp add: tier_inv_def start_tier_def CHUNKS_PER_DOC_def)

lemma new_document_if_full_eq:
  assumes "tier_inv env already s r st"
  shows "new_document_if_full env st =
    st\<lparr>ti_db := s\<lparr>documents := documents s @ map (bench_document env) [0..<Suc (r div 200)],
                  chunks := chunks s @ map (bench_chunk env already) [0..<ti_inserted st]\<rparr>,
       ti_doc := Some (be_uuid env (r div 200)), ti_docs := Suc (r div 200), ti_doc_chunks := r mod 200\<rparr>"
proof (cases r)
  case 0
  then show ?thesis using assms by (simp add: tier_inv_def new_document_if_full_def CHUNKS_PER_DOC_def)
next
  case (Suc k)
  show ?thesis
  proof (cases "Suc (k mod 200) = 200")
    case True
    then have "r div 200 = Suc (k div 200)" "r mod 200 = 0" using Suc by (simp_all add: div_Suc mod_Suc)
    then show ?thesis using assms Suc True by (simp add: tier_inv_def new_document_if_full_def CHUNKS_PER_DOC_def)
  next
    case False
    moreover have "k mod 200 < 200" by simp
    ultimately have "r div 200 = k div 200" "r mod 200 = Suc (k mod 200)" "Suc (k mod 200) < 200"
      using Suc by (auto simp: div_Suc mod_Suc)
    then show ?thesis using assms Suc by (simp add: tier_inv_def new_document_if_full_def CHUNKS_PER_DOC_def)
  qed
qed

lemma add_record_inv:
  assumes "tier_inv env already s r st"
  shows "tier_inv env already s (Suc r) (add_record env already st)" and "ti_inserted (add_record env already st) = ti_inserted st"
proof -
  have r: "ti_inserted st + length (ti_records st) = r" using assms by (auto simp: tier_inv_def)
  have eq: "add_record env already st =
    st\<lparr>ti_db := s\<lparr>documents := documents s @ map (bench_document env) [0..<Suc (r div 200)],
                  chunks := chunks s @ map (bench_chunk env already) [0..<ti_inserted st]\<rparr>,
       ti_doc := Some (be_uuid env (r div 200)), ti_docs := Suc (r div 200), ti_doc_chunks := Suc (r mod 200),
       ti_records := ti_records st @ [bench_chunk env already r]\<rparr>"
    unfolding add_record_def new_document_if_full_eq [OF assms] r
    by (simp add: Let_def bench_chunk_def CHUNKS_PER_DOC_def)
  show "tier_inv env already s (Suc r) (add_record env already st)"
    using assms unfolding eq by (simp add: tier_inv_def)
  show "ti_inserted (add_record env already st) = ti_inserted st" by (simp add: eq)
qed

lemma add_records_inv:
  "tier_inv env already s r st \<Longrightarrow>
     tier_inv env already s (r + n) ((add_record env already ^^ n) st) \<and> ti_inserted ((add_record env already ^^ n) st) = ti_inserted st"
proof (induction n)
  case (Suc n)
  then show ?case using add_record_inv [of env already s "r + n" "(add_record env already ^^ n) st"] by simp
qed simp

lemma copy_records_inv:
  assumes "tier_inv env already s (ti_inserted st + n) st"
  shows "tier_inv env already s (ti_inserted st + n) (copy_records n st)"
proof -
  have "map (bench_chunk env already) [0..<ti_inserted st] @ map (bench_chunk env already) [ti_inserted st..<ti_inserted st + n]
      = map (bench_chunk env already) [0..<ti_inserted st + n]"
    using upt_add_eq_append [of 0 "ti_inserted st" n] by (simp flip: map_append)
  then show ?thesis using assms by (simp add: tier_inv_def copy_records_def split: nat.splits)
qed

lemma insert_batch_inv:
  assumes "tier_inv env already s (ti_inserted st) st" and "ti_inserted st < to_insert"
  defines "st' \<equiv> insert_batch env already to_insert st"
  shows "tier_inv env already s (ti_inserted st') st'" and "ti_inserted st < ti_inserted st'" and "ti_inserted st' \<le> to_insert"
proof -
  let ?n = "min COPY_BATCH (to_insert - ti_inserted st)" and ?st = "(add_record env already ^^ min COPY_BATCH (to_insert - ti_inserted st)) st"
  have inv: "tier_inv env already s (ti_inserted ?st + ?n) ?st" and same: "ti_inserted ?st = ti_inserted st"
    using add_records_inv [OF assms(1), of ?n] by simp_all
  have st': "st' = copy_records ?n ?st" by (simp add: st'_def insert_batch_def Let_def)
  then have n: "ti_inserted st' = ti_inserted ?st + ?n" by (simp add: copy_records_def)
  show "tier_inv env already s (ti_inserted st') st'" unfolding n unfolding st' by (rule copy_records_inv [OF inv])
  show "ti_inserted st < ti_inserted st'" "ti_inserted st' \<le> to_insert"
    using assms(2) unfolding n same by (auto simp: COPY_BATCH_def)
qed

lemma insert_tier_exact:
  "\<exists>st. insert_tier env time_budget target already s = Some st
     \<and> ti_inserted st \<le> target - already
     \<and> (ti_inserted st = target - already \<or> time_budget < be_elapsed env (ti_rounds st))
     \<and> hit_time_budget target already st = (ti_inserted st \<noteq> target - already)
     \<and> ti_db st = s\<lparr>documents := documents s @ map (bench_document env) [0..<docs_needed (ti_inserted st)],
                    chunks := chunks s @ map (bench_chunk env already) [0..<ti_inserted st]\<rparr>"
proof -
  let ?n = "target - already"
  let ?P = "\<lambda>st. tier_inv env already s (ti_inserted st) st \<and> ti_inserted st \<le> ?n"
  let ?b = "\<lambda>st. ti_inserted st < ?n \<and> \<not> time_budget < be_elapsed env (ti_rounds st)"
  have step: "?P (insert_batch env already ?n st) \<and> ?n - ti_inserted (insert_batch env already ?n st) < ?n - ti_inserted st"
    if "?P st" "?b st" for st
    using insert_batch_inv [of env already s st ?n] that by auto
  have start: "?P (start_tier s)" using tier_inv_start by (simp add: start_tier_def)
  obtain st where run: "while_option ?b (insert_batch env already ?n) (start_tier s) = Some st"
    using measure_while_option_Some [of ?P ?b "insert_batch env already ?n" "\<lambda>st. ?n - ti_inserted st", OF step start] by blast
  have "?P st" using while_option_rule [of ?P ?b "insert_batch env already ?n", OF _ run start] step by blast
  moreover have "\<not> ?b st" by (rule while_option_stop [OF run])
  ultimately show ?thesis using run
    by (intro exI [of _ st]) (auto simp: insert_tier_def Let_def hit_time_budget_def tier_inv_def)
qed

section \<open>What the clean-up takes\<close>

lemma sql_like_any: "sql_like ''%'' t"
  by (induction t) simp_all

lemma sql_like_char: "q \<noteq> CHR ''%'' \<Longrightarrow> q \<noteq> CHR ''_'' \<Longrightarrow> sql_like (q # qs) t \<longleftrightarrow> (\<exists>cs. t = q # cs \<and> sql_like qs cs)"
  by (cases t) auto

lemma sql_like_one: "sql_like (CHR ''_'' # qs) t \<longleftrightarrow> (\<exists>c cs. t = c # cs \<and> sql_like qs cs)"
  by (cases t) auto

lemma is_bench_iff: "is_bench d \<longleftrightarrow> (\<exists>c cs. d_filename d = ''bench'' @ c # cs)"
  by (auto simp: is_bench_def FILENAME_PREFIX_def sql_like_char sql_like_one sql_like_any)

lemma is_bench_document: "is_bench (bench_document env k)"
  by (simp add: is_bench_iff bench_document_def Let_def FILENAME_PREFIX_def)

lemma delete_documents:
  "fold delete_document is s = s\<lparr>
     documents := filter (\<lambda>d. d_id d \<notin> set is) (documents s),
     chunks := filter (\<lambda>c. c_doc_id c \<notin> set is) (chunks s),
     table_rows := filter (\<lambda>r. \<not> (\<exists>t\<in>set (tables s). t_doc_id t \<in> set is \<and> t_id t = tr_table_id r)) (table_rows s),
     tables := filter (\<lambda>t. t_doc_id t \<notin> set is) (tables s),
     document_acl := filter (\<lambda>a. a_doc_id a \<notin> set is) (document_acl s),
     connector_items := map (\<lambda>x. if i_doc_id x \<in> Some ` set is then x\<lparr>i_doc_id := None\<rparr> else x) (connector_items s)\<rparr>"
proof (induction "is" arbitrary: s)
  case (Cons i "is")
  show ?case
    by (subst fold.simps, subst comp_apply, subst Cons.IH)
      (rule db.equality; auto simp: delete_document_def tbl_del_def comp_def intro!: filter_cong)
qed (simp add: filter_True)

text \<open>Nothing that refers to a document refers to one of the identifiers the script draws.\<close>

definition fresh_for :: "bench_env \<Rightarrow> db \<Rightarrow> bool" where
  "fresh_for env s = (\<forall>k. be_uuid env k \<notin> d_id ` set (documents s) \<union> c_doc_id ` set (chunks s) \<union> t_doc_id ` set (tables s)
     \<union> a_doc_id ` set (document_acl s) \<and> Some (be_uuid env k) \<notin> i_doc_id ` set (connector_items s))"

lemma fresh_forD:
  assumes "fresh_for env s"
  shows "d \<in> set (documents s) \<Longrightarrow> d_id d \<noteq> be_uuid env k" and "c \<in> set (chunks s) \<Longrightarrow> c_doc_id c \<noteq> be_uuid env k"
    and "t \<in> set (tables s) \<Longrightarrow> t_doc_id t \<noteq> be_uuid env k" and "a \<in> set (document_acl s) \<Longrightarrow> a_doc_id a \<noteq> be_uuid env k"
    and "x \<in> set (connector_items s) \<Longrightarrow> i_doc_id x \<noteq> Some (be_uuid env k)"
  using assms unfolding fresh_for_def by (metis UnI1 UnI2 imageI)+

text \<open>On a library without such file names the clean-up restores exactly what was there before the tiers were filled.\<close>

lemma cleanup_restores:
  assumes "list_all (\<lambda>d. \<not> is_bench d) (documents s)" and "fresh_for env s" and "insert_tier env budget target already s = Some st"
  shows "cleanup_bench_rows (ti_db st) = s"
proof -
  let ?n = "ti_inserted st"
  have db: "ti_db st = s\<lparr>documents := documents s @ map (bench_document env) [0..<docs_needed ?n],
                    chunks := chunks s @ map (bench_chunk env already) [0..<?n]\<rparr>"
    using insert_tier_exact [of env budget target already s] assms(3) by auto
  have ids: "map d_id (filter is_bench (documents (ti_db st))) = map (be_uuid env) [0..<docs_needed ?n]"
    using assms(1) by (simp add: db list_all_iff is_bench_document filter_empty_conv) (simp add: bench_document_def Let_def)
  have "\<forall>i\<in>{0..<?n}. be_uuid env (i div 200) \<in> be_uuid env ` {0..<docs_needed ?n}"
    by (cases ?n) (auto intro!: imageI simp: div_le_mono less_Suc_eq_le)
  then have new: "c_doc_id (bench_chunk env already i) \<in> be_uuid env ` {0..<docs_needed ?n}" if "i < ?n" for i
    using that by (simp add: bench_chunk_def bench_record_def Let_def CHUNKS_PER_DOC_def)
  show ?thesis unfolding cleanup_bench_rows_def ids unfolding delete_documents
    by (rule db.equality)
      (use new in \<open>auto simp: db fresh_forD [OF assms(2)] filter_empty_conv bench_document_def Let_def intro!: filter_True map_idI\<close>)
qed

text \<open>But the underscore is a wildcard too: a document of a user whose name starts like the prefix goes with it.\<close>

lemma cleanup_takes_lookalikes:
  "d \<in> set (documents s) \<Longrightarrow> d_filename d = ''benchmarks.pdf'' \<Longrightarrow> find_document (cleanup_bench_rows s) (d_id d) = None"
  by (auto simp: cleanup_bench_rows_def delete_documents tbl_find_None tbl_keys_def image_iff is_bench_iff)

text \<open>Counting again after the clean-up finds no bench chunk.\<close>

lemma cleanup_leaves_none:
  "get_bench_chunk_count (cleanup_bench_rows s) = 0"
  by (auto simp: get_bench_chunk_count_def cleanup_bench_rows_def delete_documents list_ex_iff filter_empty_conv)
    (metis (mono_tags, lifting) imageI mem_Collect_eq)

section \<open>Percentiles stay within the data\<close>

lemma quantile_bounds:
  assumes "2 \<le> length xs" and "1 \<le> i" and "i \<le> 99"
  shows "Min (set xs) \<le> quantile xs i" and "quantile xs i \<le> Max (set xs)"
proof -
  let ?ys = "sort xs" let ?m = "length ?ys - 1" let ?j = "i * ?m div 100" let ?d = "i * ?m mod 100"
  have m: "1 \<le> ?m" using assms(1) by simp
  have "i * ?m < 100 * ?m" using assms m by simp
  then have "?j < ?m" by (simp add: less_mult_imp_div_less mult.commute)
  then have "?ys ! ?j \<in> set ?ys" "?ys ! Suc ?j \<in> set ?ys" by (simp_all del: set_sort)
  then have mem: "?ys ! ?j \<in> set xs" "?ys ! Suc ?j \<in> set xs" by simp_all
  have d: "?d \<le> 100" by (simp add: less_imp_le_nat)
  have conv: "quantile xs i = (?ys ! ?j * real (100 - ?d) + ?ys ! Suc ?j * real ?d) / 100"
    by (simp add: quantile_def Let_def)
  have sum: "real (100 - ?d) + real ?d = 100" using d by (simp add: of_nat_diff)
  have "Min (set xs) * real (100 - ?d) + Min (set xs) * real ?d \<le> ?ys ! ?j * real (100 - ?d) + ?ys ! Suc ?j * real ?d"
    using mem by (intro add_mono mult_right_mono) auto
  moreover have "Min (set xs) * real (100 - ?d) + Min (set xs) * real ?d = Min (set xs) * 100" using sum by (metis distrib_left)
  ultimately show "Min (set xs) \<le> quantile xs i" unfolding conv by (simp add: pos_le_divide_eq)
  have "?ys ! ?j * real (100 - ?d) + ?ys ! Suc ?j * real ?d \<le> Max (set xs) * real (100 - ?d) + Max (set xs) * real ?d"
    using mem by (intro add_mono mult_right_mono) auto
  moreover have "Max (set xs) * real (100 - ?d) + Max (set xs) * real ?d = Max (set xs) * 100" using sum by (metis distrib_left)
  ultimately show "quantile xs i \<le> Max (set xs)" unfolding conv by (simp add: pos_divide_le_eq)
qed


end
