(* ===== verification/Bench_Commands.thy ===== *)
theory Bench_Commands imports Bench_Scale Ingest begin

text \<open>
  The commands \<open>measure\<close> and \<open>ingest\<close> of \<open>scripts/bench_scale.py\<close>: the report over the latencies and sizes the database
  answers, and the timed upload with its monkey-patch and clean-up. The rows of the timed queries are thrown away
  by the script, so a query is its latency. Printing is left out; \<open>None\<close> is \<open>nan\<close>.
\<close>

section \<open>measure\<close>

definition N_QUERIES :: nat where
  "N_QUERIES = 20"

text \<open>What the server answers: index names, relation sizes, the lines of \<open>EXPLAIN\<close>, and the time of the \<open>i\<close>-th query of each shape.\<close>

record bench_server =
  sv_indexes :: "string list"
  sv_size :: "string \<Rightarrow> nat"
  sv_plan :: "string list"
  sv_vector :: "nat \<Rightarrow> real"
  sv_cast :: "nat \<Rightarrow> real"
  sv_bm25 :: "nat \<Rightarrow> real"

definition index_sizes :: "bench_server \<Rightarrow> (string \<times> nat) list" where
  "index_sizes sv = map (\<lambda>n. (n, sv_size sv n)) (sv_indexes sv) @ [(''chunks_table'', sv_size sv ''chunks'')]"

fun bench_query :: "(nat \<Rightarrow> real) \<Rightarrow> nat \<Rightarrow> real list" where
  "bench_query time 0 = []"
| "bench_query time (Suc n) = bench_query time n @ [time n]"

definition explain_seq_or_index :: "bench_server \<Rightarrow> string" where
  "explain_seq_or_index sv =
     (let plan = py_join [CHR 0x0A] (sv_plan sv) in
      if py_contains ''Seq Scan'' plan then ''Seq Scan'' else if py_contains ''Index Scan'' plan then ''Index Scan'' else ''?'')"

record tier_result =
  mr_label :: string
  mr_total_chunks :: nat
  mr_bench_chunks :: nat
  mr_sizes :: "(string \<times> nat) list"
  mr_query_plan :: string
  mr_vector_p50 :: "real option"
  mr_vector_p95 :: "real option"
  mr_cast_p50 :: "real option"
  mr_cast_p95 :: "real option"
  mr_bm25_p50 :: "real option"
  mr_bm25_p95 :: "real option"

definition milliseconds :: "real list \<Rightarrow> nat \<Rightarrow> real option" where
  "milliseconds latencies pct = map_option (\<lambda>x. x * 1000) (percentile latencies pct)"

definition cmd_measure :: "bench_server \<Rightarrow> string \<Rightarrow> db \<Rightarrow> tier_result" where
  "cmd_measure sv label s =
     (let vec_lat = bench_query (sv_vector sv) N_QUERIES; vec_lat_cast = bench_query (sv_cast sv) N_QUERIES;
          bm25_lat = bench_query (sv_bm25 sv) N_QUERIES in
      \<lparr>mr_label = label, mr_total_chunks = length (chunks s), mr_bench_chunks = get_bench_chunk_count s,
       mr_sizes = index_sizes sv, mr_query_plan = explain_seq_or_index sv,
       mr_vector_p50 = milliseconds vec_lat 50, mr_vector_p95 = milliseconds vec_lat 95,
       mr_cast_p50 = milliseconds vec_lat_cast 50, mr_cast_p95 = milliseconds vec_lat_cast 95,
       mr_bm25_p50 = milliseconds bm25_lat 50, mr_bm25_p95 = milliseconds bm25_lat 95\<rparr>)"

section \<open>ingest\<close>

text \<open>The names that the module \<open>prorag/ingest/router.py\<close> binds; the command reads one of them before it patches it.\<close>

definition INGEST_ROUTER_NAMES :: "string list" where
  "INGEST_ROUTER_NAMES =
    [''re'', ''APIRouter'', ''Depends'', ''File'', ''Form'', ''HTTPException'', ''UploadFile'', ''AsyncSession'', ''get_session'',
     ''ingest_bytes'', ''IngestResponse'', ''settings'', ''router'', ''ALLOWED_SUFFIXES'', ''_COLLECTION_RE'', ''ingest'']"

record ingest_timing =
  tm_elapsed :: real
  tm_status :: doc_status
  tm_chunks :: nat
  tm_docs_per_hour :: "real option"

text \<open>\<open>finally\<close>: the synthetic rows go, whatever happened; the statement commits on its own.\<close>

definition drop_bench_documents :: "ingest_world \<Rightarrow> ingest_world" where
  "drop_bench_documents w = w\<lparr>iw_txn := begin_txn (cleanup_bench_rows (committed (iw_txn w)))\<rparr>"

definition cmd_ingest ::
  "settings \<Rightarrow> ingest_env \<Rightarrow> string list \<Rightarrow> string \<Rightarrow> real \<Rightarrow> ingest_world \<Rightarrow> ingest_timing outcome \<times> ingest_world" where
  "cmd_ingest cfg env names data elapsed w =
     (if \<not> list_ex (\<lambda>n. n = ''embed_texts_batched'') names then (Inl (PyError ''AttributeError'' ''embed_texts_batched''), w)
      else
        (case ingest_upload cfg env (Some (FILENAME_PREFIX @ ''50page.txt'')) [data] COLLECTION w of
           (Inl e, w1) \<Rightarrow> (Inl e, drop_bench_documents w1)
         | (Inr resp, w1) \<Rightarrow>
             (let s = committed (iw_txn w1);
                  n_chunks = (if find_document s (ir_doc_id resp) = None then 0
                              else length (filter (\<lambda>c. c_doc_id c = ir_doc_id resp) (chunks s))) in
              (Inr \<lparr>tm_elapsed = elapsed, tm_status = ir_status resp, tm_chunks = n_chunks,
                    tm_docs_per_hour = (if 0 < elapsed then Some (3600 / elapsed) else None)\<rparr>,
               drop_bench_documents w1))))"

text \<open>As the router stands the command never gets as far as its \<open>try\<close>, whatever is in the library and whatever is uploaded.\<close>

lemma cmd_ingest_never_runs:
  "cmd_ingest cfg env INGEST_ROUTER_NAMES data elapsed w = (Inl (PyError ''AttributeError'' ''embed_texts_batched''), w)"
  by (simp add: cmd_ingest_def INGEST_ROUTER_NAMES_def)

text \<open>Were the name bound, no outcome of the upload would leave a synthetic document behind.\<close>

lemma cmd_ingest_cleans:
  assumes "''embed_texts_batched'' \<in> set names"
  shows "list_all (\<lambda>d. \<not> is_bench d) (documents (committed (iw_txn (snd (cmd_ingest cfg env names data elapsed w)))))"
proof -
  have "list_ex (\<lambda>n. n = ''embed_texts_batched'') names" using assms by (auto simp: list_ex_iff)
  then have "\<exists>w1. snd (cmd_ingest cfg env names data elapsed w) = drop_bench_documents w1"
    by (auto simp: cmd_ingest_def Let_def split: prod.split sum.split)
  then show ?thesis
    by (auto simp: drop_bench_documents_def cleanup_bench_rows_def delete_documents list_all_iff image_iff)
qed

section \<open>The percentiles of a report are ordered\<close>

lemma quantile_mono:
  assumes "2 \<le> length xs" and "i \<le> k" and "k \<le> 99"
  shows "quantile xs i \<le> quantile xs k"
proof -
  let ?ys = "sort xs" let ?m = "length ?ys - 1"
  let ?y = "\<lambda>n. ?ys ! n" let ?j = "\<lambda>n. n * ?m div 100" let ?d = "\<lambda>n. n * ?m mod 100"
  have m: "1 \<le> ?m" using assms(1) by simp
  have less: "?j n < ?m" if "n \<le> 99" for n
    using that m by (intro less_mult_imp_div_less) (simp add: mult.commute)
  have up: "?y a \<le> ?y b" if "a \<le> b" "b \<le> ?m" for a b
    using that m by (intro sorted_nth_mono) (auto simp: le_diff_conv2)
  have q: "quantile xs n = ?y (?j n) + (?y (Suc (?j n)) - ?y (?j n)) * real (?d n) / 100" for n
  proof -
    have "?d n \<le> 100" by (simp add: less_imp_le_nat)
    then show ?thesis by (simp add: quantile_def Let_def of_nat_diff field_simps)
  qed
  show ?thesis
  proof (cases "?j i = ?j k")
    case True
    have "i * ?m \<le> k * ?m" using assms(2) by (rule mult_le_mono1)
    then have "?d i \<le> ?d k" using True by (metis add_le_cancel_left div_mult_mod_eq mult.commute)
    moreover have "0 \<le> ?y (Suc (?j i)) - ?y (?j i)" using up [of "?j i" "Suc (?j i)"] less [of i] assms(2,3) by simp
    ultimately show ?thesis unfolding q True by (simp add: divide_right_mono mult_left_mono)
  next
    case False
    have "?j i \<le> ?j k" using assms(2) by (simp add: div_le_mono)
    with False have lt: "Suc (?j i) \<le> ?j k" by simp
    have frac: "0 \<le> real (?d n) / 100" "real (?d n) / 100 \<le> 1" for n by (simp_all add: less_imp_le_nat)
    have "?y (Suc (?j i)) - ?y (?j i) \<ge> 0" using up [of "?j i" "Suc (?j i)"] less [of i] assms(2,3) by simp
    then have "quantile xs i \<le> ?y (Suc (?j i))"
      using mult_left_le [OF frac(2) [of i], of "?y (Suc (?j i)) - ?y (?j i)"] unfolding q by simp
    also have "\<dots> \<le> ?y (?j k)" using up [OF lt] less [of k] assms(3) by simp
    also have "\<dots> \<le> quantile xs k"
    proof -
      have "0 \<le> ?y (Suc (?j k)) - ?y (?j k)" using up [of "?j k" "Suc (?j k)"] less [of k] assms(3) by simp
      then show ?thesis unfolding q by simp
    qed
    finally show ?thesis .
  qed
qed

lemma bench_query_eq: "bench_query time n = map time [0..<n]"
  by (induction n) simp_all

lemma measured_percentiles_ordered:
  "\<exists>a b. mr_vector_p50 (cmd_measure sv label s) = Some a \<and> mr_vector_p95 (cmd_measure sv label s) = Some b \<and> a \<le> b"
proof -
  let ?l = "bench_query (sv_vector sv) N_QUERIES"
  have len: "2 \<le> length ?l" by (simp add: bench_query_eq N_QUERIES_def)
  then have "percentile ?l pct = Some (quantile ?l pct)" for pct by (cases ?l rule: remdups_adj.cases) (simp_all add: percentile_def)
  then show ?thesis using quantile_mono [OF len, of 50 95] by (simp add: cmd_measure_def milliseconds_def Let_def)
qed

end
