(* ===== verification/Bench_Rerank.thy ===== *)
theory Bench_Rerank imports Bench_Commands begin

text \<open>
  The command \<open>rerank\<close> of \<open>scripts/bench_scale.py\<close> and the texts the benchmark writes: paragraphs of random words. The
  generator of random numbers is a function from the number of a draw to a number; the HTTP client and the clock are parameters.
\<close>

section \<open>Random texts\<close>

definition BENCH_VOCAB :: "string list" where
  "BENCH_VOCAB = py_split (
    ''vessel ship crew bridge deck engine cargo hold ballast anchor mooring lifeboat '' @
    ''extinguisher alarm emergency checklist audit compliance standard code annex chapter '' @
    ''section clause fire drill muster station requirement frequency training certificate '' @
    ''inspection maintenance procedure regulation SOLAS ISM safety officer master watchkeeping '' @
    ''navigation weather route port harbour pilot tug berth cargo manifest survey class '' @
    ''notation flag state port state control deficiency corrective action non-conformity '' @
    ''risk assessment permit work hot cold enclosed space entry gas free ventilation '' @
    ''life jacket immersion suit rescue boat davit winch hoist load test rigging '' @
    ''communication radio distress signal SART EPIRB GMDSS log book record retention '' @
    ''review approval revision amendment manual policy objective target indicator'')"

text \<open>\<open>rng.choices(_VOCAB, k=n_words)\<close>\<close>

definition bench_choices :: "(nat \<Rightarrow> nat) \<Rightarrow> nat \<Rightarrow> string list" where
  "bench_choices rng n_words = map (\<lambda>i. BENCH_VOCAB ! (rng i mod length BENCH_VOCAB)) [0..<n_words]"

definition random_paragraph :: "(nat \<Rightarrow> nat) \<Rightarrow> nat \<Rightarrow> string" where
  "random_paragraph rng n_words = py_join '' '' (bench_choices rng n_words)"

text \<open>\<open>rng.randint(150, 300)\<close> includes both ends.\<close>

definition build_text_pool :: "nat \<Rightarrow> (nat \<Rightarrow> nat) \<Rightarrow> (nat \<Rightarrow> nat \<Rightarrow> nat) \<Rightarrow> string list" where
  "build_text_pool n lengths rng = map (\<lambda>j. random_paragraph (rng j) (150 + lengths j mod 151)) [0..<n]"

lemma bench_vocab_words: "w \<in> set BENCH_VOCAB \<Longrightarrow> is_token w" "BENCH_VOCAB \<noteq> []"
proof -
  show "w \<in> set BENCH_VOCAB \<Longrightarrow> is_token w" unfolding BENCH_VOCAB_def by (rule py_split_tokens)
  have "py_split (c # cs) \<noteq> []" if "\<not> is_space c" for c cs using that by (subst py_split.simps) (simp add: Let_def)
  moreover have "\<not> is_space (CHR ''v'')" by code_simp
  ultimately show "BENCH_VOCAB \<noteq> []" unfolding BENCH_VOCAB_def append_Cons by blast
qed

text \<open>A text of the pool is 150 to 300 words of the vocabulary, one blank between them.\<close>

lemma pool_texts:
  assumes "t \<in> set (build_text_pool n lengths rng)"
  shows "set (py_split t) \<subseteq> set BENCH_VOCAB" and "length (py_split t) \<in> {150..300}"
proof -
  obtain j where t: "t = random_paragraph (rng j) (150 + lengths j mod 151)" using assms by (auto simp: build_text_pool_def)
  have words: "set (bench_choices rng k) \<subseteq> set BENCH_VOCAB" for rng k
    using bench_vocab_words(2) by (auto simp: bench_choices_def)
  have "py_split t = bench_choices (rng j) (150 + lengths j mod 151)"
    unfolding t random_paragraph_def using words bench_vocab_words(1) by (intro py_split_join) blast
  moreover have "lengths j mod 151 \<le> 150" using mod_less_divisor [of 151 "lengths j"] by linarith
  ultimately show "set (py_split t) \<subseteq> set BENCH_VOCAB" "length (py_split t) \<in> {150..300}"
    using words by (simp_all add: bench_choices_def)
qed

section \<open>The timed call\<close>

definition TOP_K :: nat where
  "TOP_K = 40"

record rerank_post =
  rp_url :: string
  rp_authorization :: string
  rp_model :: string
  rp_query :: string
  rp_documents :: "string list"

record 'u rerank_reply =
  ry_status :: nat
  ry_usage :: "'u option"

record 'u rerank_timing =
  rt_loaded :: bool
  rt_seconds :: real
  rt_usage :: "'u option"

text \<open>
  \<open>settings.openrouter_api_key or os.environ.get(...)\<close> in a script that never imports \<open>os\<close>.
\<close>

definition bench_key :: "settings \<Rightarrow> string outcome" where
  "bench_key cfg =
     (case openrouter_api_key cfg of
        Some k \<Rightarrow> if k \<noteq> [] then Inr k else Inl (PyError ''NameError'' ''name os is not defined'')
      | None \<Rightarrow> Inl (PyError ''NameError'' ''name os is not defined''))"

text \<open>\<open>None\<close> is the message that the command skips; a usage of \<open>None\<close> is the empty object.\<close>

definition cmd_rerank ::
  "settings \<Rightarrow> string \<Rightarrow> (rerank_post \<Rightarrow> 'u rerank_reply outcome) \<Rightarrow> real \<Rightarrow> (nat \<Rightarrow> nat \<Rightarrow> nat) \<Rightarrow> 'u rerank_timing option outcome" where
  "cmd_rerank cfg rerank_model http seconds rng =
     (case bench_key cfg of
        Inl e \<Rightarrow> Inl e
      | Inr api_key \<Rightarrow>
          if api_key = [] then Inr None
          else
            (let texts = map (\<lambda>j. random_paragraph (rng j) 200) [0..<TOP_K] in
             case http \<lparr>rp_url = ''https://openrouter.ai/api/v1/rerank'', rp_authorization = ''Bearer '' @ api_key, rp_model = rerank_model,
                        rp_query = ''fire drill frequency requirement'', rp_documents = texts\<rparr> of
               Inl e \<Rightarrow> Inl e
             | Inr r \<Rightarrow>
                 if 200 \<le> ry_status r \<and> ry_status r < 300
                 then Inr (Some \<lparr>rt_loaded = True, rt_seconds = seconds, rt_usage = ry_usage r\<rparr>)
                 else Inl (PyError ''HTTPStatusError'' (str_of_nat (ry_status r)))))"

text \<open>The branch that skips is out of reach: without a key the command fails instead.\<close>

lemma cmd_rerank_never_skips:
  "cmd_rerank cfg rerank_model http seconds rng \<noteq> Inr None"
  "openrouter_api_key cfg \<in> {None, Some []} \<Longrightarrow>
     cmd_rerank cfg rerank_model http seconds rng = Inl (PyError ''NameError'' ''name os is not defined'')"
  by (auto simp: cmd_rerank_def bench_key_def Let_def split: option.split sum.split if_splits)

end
