(* ===== verification/Page_Images.thy ===== *)
theory Page_Images imports Parsing begin

text \<open>
  The rest of \<open>prorag/ingest/parse.py\<close>: rendering a page for the vision model (\<open>_render_png\<close>), the request and the
  reply of \<open>ocr_pages\<close>, and the Docling converter, built once with fixed options. PyMuPDF, Pillow and
  the HTTP client are parameters; with them \<open>pe_render\<close> and \<open>pe_vision\<close> of Parsing become the code's own functions.
\<close>

section \<open>Rendering\<close>

text \<open>An opened PDF is a value of type \<open>'d\<close>; its open handles are counted, since \<open>finally: doc.close()\<close> is what gives them back.\<close>

record raster =
  ra_mode :: string
  ra_data :: string

record 'd imaging =
  im_open :: "string \<Rightarrow> 'd outcome"
  im_pixmap :: "'d \<Rightarrow> int \<Rightarrow> nat \<Rightarrow> string outcome"
  im_image :: "string \<Rightarrow> raster outcome"
  im_load :: "raster \<Rightarrow> raster outcome"
  im_convert :: "string \<Rightarrow> raster \<Rightarrow> raster outcome"
  im_save_png :: "raster \<Rightarrow> string outcome"

definition RENDER_DPI :: nat where
  "RENDER_DPI = 200"

text \<open>The image formats the vision request can carry as they are.\<close>

definition plain_modes :: "string list" where
  "plain_modes = [''RGB'', ''L'']"

definition render_image :: "'d imaging \<Rightarrow> string \<Rightarrow> string outcome" where
  "render_image im data =
     (case im_image im data of
        Inl e \<Rightarrow> Inl e
      | Inr img \<Rightarrow>
          (case im_load im img of
             Inl e \<Rightarrow> Inl e
           | Inr img \<Rightarrow>
               (case (if ra_mode img \<in> set plain_modes then Inr img else im_convert im ''RGB'' img) of
                  Inl e \<Rightarrow> Inl e
                | Inr img \<Rightarrow> im_save_png im img)))"

definition render_png :: "'d imaging \<Rightarrow> string \<Rightarrow> string \<Rightarrow> nat \<Rightarrow> nat \<Rightarrow> string outcome \<times> nat" where
  "render_png im data mime page_no opened =
     (if mime = mime_pdf then
        (case im_open im data of
           Inl e \<Rightarrow> (Inl e, opened)
         | Inr doc \<Rightarrow>
             (let opened = opened + 1; png = im_pixmap im doc (int page_no - 1) RENDER_DPI in (png, opened - 1)))
      else (render_image im data, opened))"

lemma render_png_closes: "snd (render_png im data mime page_no opened) = opened"
  by (simp add: render_png_def split: sum.split)

text \<open>Only RGB and grey images are saved, when a conversion to RGB gives an RGB image.\<close>

lemma render_image_plain:
  assumes "render_image im data = Inr png" and "\<And>img img'. im_convert im ''RGB'' img = Inr img' \<Longrightarrow> ra_mode img' = ''RGB''"
  shows "\<exists>img. ra_mode img \<in> set plain_modes \<and> im_save_png im img = Inr png"
  using assms by (auto simp: render_image_def plain_modes_def split: sum.splits if_splits)

section \<open>Base64\<close>

definition b64_alphabet :: string where
  "b64_alphabet = ''ABCDEFGHIJKLMNOPQRSTUVWXYZabcdefghijklmnopqrstuvwxyz0123456789+/''"

definition b64_char :: "nat \<Rightarrow> char" where
  "b64_char n = b64_alphabet ! n"

text \<open>\<open>base64.b64encode\<close>: three bytes become four characters, and the rest is padded.\<close>

fun b64encode :: "nat list \<Rightarrow> string" where
  "b64encode (a # b # c # rest) =
     b64_char (a div 4) # b64_char (a mod 4 * 16 + b div 16) # b64_char (b mod 16 * 4 + c div 64) # b64_char (c mod 64) # b64encode rest"
| "b64encode [a, b] = [b64_char (a div 4), b64_char (a mod 4 * 16 + b div 16), b64_char (b mod 16 * 4), CHR ''='']"
| "b64encode [a] = [b64_char (a div 4), b64_char (a mod 4 * 16), CHR ''='', CHR ''='']"
| "b64encode [] = []"

definition bytes_of :: "string \<Rightarrow> nat list" where
  "bytes_of = map of_char"

text \<open>The receiver's side, to say that nothing is lost.\<close>

fun b64_value :: "string \<Rightarrow> char \<Rightarrow> nat" where
  "b64_value [] c = 0"
| "b64_value (x # xs) c = (if x = c then 0 else Suc (b64_value xs c))"

fun b64decode :: "nat list \<Rightarrow> nat list" where
  "b64decode (w # x # y # z # rest) = (w * 4 + x div 16) # (x mod 16 * 16 + y div 4) # (y mod 4 * 64 + z) # b64decode rest"
| "b64decode [w, x, y] = [w * 4 + x div 16, x mod 16 * 16 + y div 4]"
| "b64decode [w, x] = [w * 4 + x div 16]"
| "b64decode _ = []"

definition b64_read :: "string \<Rightarrow> nat list" where
  "b64_read s = b64decode (map (b64_value b64_alphabet) (filter (\<lambda>c. c \<noteq> CHR ''='') s))"

lemma b64_value_char: "n < 64 \<Longrightarrow> b64_value b64_alphabet (b64_char n) = n" "n < 64 \<Longrightarrow> b64_char n \<noteq> CHR ''=''"
proof -
  have "list_all (\<lambda>n. b64_value b64_alphabet (b64_char n) = n \<and> b64_char n \<noteq> CHR ''='') [0..<64]" by code_simp
  then show "n < 64 \<Longrightarrow> b64_value b64_alphabet (b64_char n) = n" "n < 64 \<Longrightarrow> b64_char n \<noteq> CHR ''=''"
    by (simp_all add: list_all_iff)
qed

lemma b64_parts:
  fixes a :: nat
  assumes "a < 256"
  shows "a div 4 < 64" "a div 16 < 16" "a div 64 < 4"
  using assms by (simp_all add: div_less_iff_less_mult)

lemma split_digits: "(y::nat) < k \<Longrightarrow> (x * k + y) div k = x" "(y::nat) < k \<Longrightarrow> (x * k + y) mod k = y"
  by simp_all

lemma b64_bounds:
  fixes a b c :: nat
  assumes "b < 256" and "c < 256"
  shows "a mod 4 * 16 + b div 16 < 64" "b mod 16 * 4 + c div 64 < 64" "c mod 64 < 64" "b mod 16 * 4 < 64" "a mod 4 * 16 < 64"
proof -
  have "a mod 4 < 4" "b mod 16 < 16" "c mod 64 < 64" by simp_all
  then show "a mod 4 * 16 + b div 16 < 64" "b mod 16 * 4 + c div 64 < 64" "c mod 64 < 64" "b mod 16 * 4 < 64" "a mod 4 * 16 < 64"
    using b64_parts(2) [OF assms(1)] b64_parts(3) [OF assms(2)] by linarith+
qed

lemma b64_triple:
  fixes a b c :: nat
  assumes "b < 256" and "c < 256"
  shows "a div 4 * 4 + (a mod 4 * 16 + b div 16) div 16 = a" "(a mod 4 * 16 + b div 16) mod 16 * 16 + (b mod 16 * 4 + c div 64) div 4 = b"
    "(b mod 16 * 4 + c div 64) mod 4 * 64 + c mod 64 = c"
  using split_digits [OF b64_parts(2) [OF assms(1)]] split_digits [OF b64_parts(3) [OF assms(2)]] by simp_all

lemma b64_pair:
  fixes a b :: nat
  assumes "b < 256"
  shows "a div 4 * 4 + (a mod 4 * 16 + b div 16) div 16 = a" "(a mod 4 * 16 + b div 16) mod 16 * 16 + b mod 16 * 4 div 4 = b"
    "a div 4 * 4 + a mod 4 * 16 div 16 = a"
  using b64_triple [OF assms, of 0] by simp_all

lemma b64_read_quad:
  assumes "list_all (\<lambda>n. n < 64) [w, x, y, z]"
  shows "b64_read (b64_char w # b64_char x # b64_char y # b64_char z # rest)
       = (w * 4 + x div 16) # (x mod 16 * 16 + y div 4) # (y mod 4 * 64 + z) # b64_read rest"
  using assms by (simp add: b64_read_def b64_value_char)

lemma b64_read_short:
  assumes "list_all (\<lambda>n. n < 64) [w, x]"
  shows "b64_read [b64_char w, b64_char x, CHR ''='', CHR ''=''] = [w * 4 + x div 16]"
    and "y < 64 \<Longrightarrow> b64_read [b64_char w, b64_char x, b64_char y, CHR ''=''] = [w * 4 + x div 16, x mod 16 * 16 + y div 4]"
  using assms by (simp_all add: b64_read_def b64_value_char)

lemma b64_roundtrip: "list_all (\<lambda>b. b < 256) bs \<Longrightarrow> b64_read (b64encode bs) = bs"
proof (induction bs rule: b64encode.induct)
  case (1 a b c rest)
  then have "a < 256" "b < 256" "c < 256" by simp_all
  then have "list_all (\<lambda>n. n < 64) [a div 4, a mod 4 * 16 + b div 16, b mod 16 * 4 + c div 64, c mod 64]"
    using b64_parts(1) b64_bounds by simp
  then show ?case using 1 \<open>b < 256\<close> \<open>c < 256\<close> unfolding b64encode.simps by (simp only: b64_read_quad b64_triple list.pred_inject(2) simp_thms)
next
  case (2 a b)
  then have "a < 256" "b < 256" by simp_all
  then have "list_all (\<lambda>n. n < 64) [a div 4, a mod 4 * 16 + b div 16]" "b mod 16 * 4 < 64"
    using b64_parts(1) b64_bounds [of b 0] by simp_all
  then show ?case using b64_pair [OF \<open>b < 256\<close>, of a] unfolding b64encode.simps by (simp only: b64_read_short)
next
  case (3 a)
  then have "list_all (\<lambda>n. n < 64) [a div 4, a mod 4 * 16]" using b64_parts(1) b64_bounds [of 0 0] by simp
  then show ?case using b64_pair [of 0 a] unfolding b64encode.simps by (simp only: b64_read_short)
qed (simp add: b64_read_def)

section \<open>The vision request\<close>

definition OCR_PROMPT :: string where
  "OCR_PROMPT = ''Transcribe ALL text in this image exactly as written. Preserve line breaks and section order. '' @
     ''Output only the transcribed text, no commentary.''"

record vision_request =
  vr_url :: string
  vr_authorization :: string
  vr_model :: string
  vr_text :: string
  vr_image_url :: string

definition data_url_prefix :: string where
  "data_url_prefix = ''data:image/png;base64,''"

definition ocr_request :: "string \<Rightarrow> string \<Rightarrow> string \<Rightarrow> vision_request" where
  "ocr_request ocr_model api_key png =
     \<lparr>vr_url = ''https://openrouter.ai/api/v1/chat/completions'', vr_authorization = ''Bearer '' @ api_key,
      vr_model = ocr_model, vr_text = OCR_PROMPT, vr_image_url = data_url_prefix @ b64encode (bytes_of png)\<rparr>"

text \<open>
  A reply: its status, and the content of the first choice as the JSON body gives it: an error when a key is missing, \<open>None\<close> for \<open>null\<close>.
\<close>

record vision_reply =
  vp_status :: nat
  vp_content :: "string option outcome"

definition vision_call ::
  "(vision_request \<Rightarrow> vision_reply outcome) \<Rightarrow> string \<Rightarrow> string \<Rightarrow> string \<Rightarrow> string option outcome" where
  "vision_call http ocr_model api_key png =
     (case http (ocr_request ocr_model api_key png) of
        Inl e \<Rightarrow> Inl e
      | Inr r \<Rightarrow> if 200 \<le> vp_status r \<and> vp_status r < 300 then vp_content r
                 else Inl (PyError ''HTTPStatusError'' (str_of_nat (vp_status r))))"

definition with_imaging ::
  "'d imaging \<Rightarrow> (vision_request \<Rightarrow> vision_reply outcome) \<Rightarrow> string \<Rightarrow> string \<Rightarrow> parse_env \<Rightarrow> parse_env" where
  "with_imaging im http ocr_model api_key env =
     env\<lparr>pe_render := (\<lambda>data mime page_no. fst (render_png im data mime page_no 0)), pe_vision := vision_call http ocr_model api_key\<rparr>"

lemma collect_pages: "collect xs = Inr ys \<Longrightarrow> length ys = length xs \<and> (\<forall>i<length xs. xs ! i = Inr (ys ! i))"
proof (induction xs arbitrary: ys)
  case (Cons x xs)
  then obtain y zs where "x = Inr y" "collect xs = Inr zs" "ys = y # zs" by (cases x; cases "collect xs") auto
  then show ?case using Cons.IH by (auto simp: less_Suc_eq_0_disj)
qed simp

text \<open>
  OCR is all or nothing: when it returns, every page from the first to the last was rendered, its exact bytes were
  sent with the key of the settings, the reply was a success, and its text, empty for \<open>null\<close>, is the text of that page.
\<close>

lemma ocr_sends_every_page:
  assumes "ocr_pages cfg (with_imaging im http ocr_model api_key env) data mime n = Inr texts"
    and "ocr_key cfg = Inr api_key" and "page_no \<in> {1..n}"
  shows "length texts = n \<and> (\<exists>png r c. fst (render_png im data mime page_no 0) = Inr png
     \<and> http (ocr_request ocr_model api_key png) = Inr r \<and> 200 \<le> vp_status r \<and> vp_status r < 300 \<and> vp_content r = Inr c
     \<and> texts ! (page_no - 1) = (case c of None \<Rightarrow> [] | Some t \<Rightarrow> t)
     \<and> b64_read (drop (length data_url_prefix) (vr_image_url (ocr_request ocr_model api_key png))) = bytes_of png)"
proof -
  let ?env = "with_imaging im http ocr_model api_key env"
  have col: "collect (map (ocr_page ?env data mime) [1..<Suc n]) = Inr texts" using assms(1,2) by (simp add: ocr_pages_def del: upt_Suc)
  have p: "page_no - 1 < length (map (ocr_page ?env data mime) [1..<Suc n])" using assms(3) by auto
  have "map (ocr_page ?env data mime) [1..<Suc n] ! (page_no - 1) = Inr (texts ! (page_no - 1))"
    using collect_pages [OF col] p by blast
  then have page: "ocr_page ?env data mime page_no = Inr (texts ! (page_no - 1))"
    using p assms(3) nth_upt [of 1 "page_no - 1" "Suc n"] by (simp only: length_map nth_map) simp
  have "b64_read (b64encode (bytes_of png)) = bytes_of png" for png
    by (intro b64_roundtrip) (simp add: bytes_of_def list_all_iff)
  then show ?thesis
    using page collect_pages [OF col] by (auto simp: ocr_page_def with_imaging_def vision_call_def ocr_request_def split: sum.splits if_splits option.splits)
qed

section \<open>The Docling converter\<close>

text \<open>The options that bound its memory; every other option keeps the library's default.\<close>

record docling_options =
  do_ocr_batch :: nat
  do_layout_batch :: nat
  do_table_batch :: nat
  do_num_threads :: nat
  do_device :: string
  do_do_ocr :: bool
  do_images_scale :: real
  do_page_images :: bool
  do_picture_images :: bool
  do_table_images :: bool

text \<open>The converter: the pipeline and the options per input format, handed to the constructor of the library.\<close>

definition make_docling_converter :: "((string \<times> string \<times> docling_options) list \<Rightarrow> 'c outcome) \<Rightarrow> 'c outcome" where
  "make_docling_converter document_converter =
     document_converter [(''PDF'', ''ThreadedStandardPdfPipeline'',
       \<lparr>do_ocr_batch = 1, do_layout_batch = 1, do_table_batch = 1, do_num_threads = 1, do_device = ''cpu'',
        do_do_ocr = False, do_images_scale = 1.0, do_page_images = False, do_picture_images = False, do_table_images = False\<rparr>)]"

text \<open>The module variable \<open>_docling_converter\<close> is the last argument and the second result.\<close>

definition get_docling_converter ::
  "bool \<Rightarrow> ((string \<times> string \<times> docling_options) list \<Rightarrow> 'c outcome) \<Rightarrow> 'c option \<Rightarrow> 'c outcome \<times> 'c option" where
  "get_docling_converter available document_converter cached =
     (case cached of
        Some c \<Rightarrow> (Inr c, Some c)
      | None \<Rightarrow>
          if \<not> available then (Inl (PyError ''ImportError'' ''docling not installed; PyMuPDF fallback is active''), None)
          else (case make_docling_converter document_converter of Inl e \<Rightarrow> (Inl e, None) | Inr c \<Rightarrow> (Inr c, Some c)))"

text \<open>A sequence of requests for the converter; each attempt of the constructor may end differently.\<close>

fun converters :: "bool \<Rightarrow> ((string \<times> string \<times> docling_options) list \<Rightarrow> 'c outcome) list \<Rightarrow> 'c option \<Rightarrow> 'c outcome list" where
  "converters available [] cached = []"
| "converters available (builder # builders) cached =
     (case get_docling_converter available builder cached of (res, cached) \<Rightarrow> res # converters available builders cached)"

lemma converters_cached: "converters available builders (Some c) = map (\<lambda>_. Inr c) builders"
  by (induction builders) (simp_all add: get_docling_converter_def)

text \<open>The weights are loaded once: after the first construction that succeeds, nobody constructs again.\<close>

lemma converter_built_once:
  "make_docling_converter builder = Inr c \<Longrightarrow> list_all (\<lambda>m. \<exists>e. make_docling_converter m = Inl e) failing \<Longrightarrow>
     converters True (failing @ builder # builders) None
       = map make_docling_converter failing @ Inr c # map (\<lambda>_. Inr c) builders"
  by (induction failing) (auto simp: get_docling_converter_def converters_cached)

end
