(* ===== verification/Sweep.thy ===== *)
theory Sweep imports Eval_Metrics begin

text \<open>
  \<open>scripts/sweep.py\<close>: running the golden set once for every combination of four tunables and ranking
  the combinations. The overrides are written into the one process-wide settings object and taken back in a
  \<open>finally\<close>, so the settings are a state that is passed along. Numbers are reals; the integer tunables are integral.
  The printed table is left out.
\<close>

section \<open>Overriding settings\<close>

definition SWEEP_GRID :: "(string \<times> real list) list" where
  "SWEEP_GRID =
    [(''rerank_top_n'', [20, 40]), (''crop_score_floor'', [1/100, 2/100, 5/100]), (''crop_max_docs'', [8, 12]),
     (''structured_weight'', [1, 12/10])]"

text \<open>\<open>getattr\<close> and \<open>setattr\<close> for the attributes a grid names.\<close>

definition get_tunable :: "string \<Rightarrow> settings \<Rightarrow> real outcome" where
  "get_tunable k cfg =
     (if k = ''rerank_top_n'' then Inr (real_of_int (rerank_top_n cfg))
      else if k = ''crop_score_floor'' then Inr (crop_score_floor cfg)
      else if k = ''crop_max_docs'' then Inr (real_of_int (crop_max_docs cfg))
      else if k = ''structured_weight'' then Inr (structured_weight cfg)
      else Inl (PyError ''AttributeError'' k))"

definition set_tunable :: "string \<times> real \<Rightarrow> settings \<Rightarrow> settings" where
  "set_tunable kv cfg =
     (let k = fst kv; v = snd kv in
      if k = ''rerank_top_n'' then cfg\<lparr>rerank_top_n := \<lfloor>v\<rfloor>\<rparr>
      else if k = ''crop_score_floor'' then cfg\<lparr>crop_score_floor := v\<rparr>
      else if k = ''crop_max_docs'' then cfg\<lparr>crop_max_docs := \<lfloor>v\<rfloor>\<rparr>
      else if k = ''structured_weight'' then cfg\<lparr>structured_weight := v\<rparr>
      else cfg)"

fun read_originals :: "(string \<times> real) list \<Rightarrow> settings \<Rightarrow> (string \<times> real) list outcome" where
  "read_originals [] cfg = Inr []"
| "read_originals ((k, v) # kvs) cfg =
     (case get_tunable k cfg of
        Inl e \<Rightarrow> Inl e
      | Inr x \<Rightarrow> map_sum id (\<lambda>r. (k, x) # r) (read_originals kvs cfg))"

section \<open>The sweep\<close>

text \<open>A run opens a session of its own and closes it, whether the evaluation returns or raises.\<close>

definition sweep_one ::
  "(settings \<Rightarrow> eval_world \<Rightarrow> eval_row outcome \<times> eval_world) \<Rightarrow> (string \<times> real) list \<Rightarrow> settings \<Rightarrow> eval_world
     \<Rightarrow> metrics outcome \<times> settings \<times> eval_world" where
  "sweep_one run overrides cfg w =
     (case read_originals overrides cfg of
        Inl e \<Rightarrow> (Inl e, cfg, w)
      | Inr originals \<Rightarrow>
          (let cfg1 = fold set_tunable overrides cfg;
               (r, w1) = run cfg1 (w\<lparr>ew_txn := begin_txn (committed (ew_txn w))\<rparr>)
           in (map_sum id er_aggregate r, fold set_tunable originals cfg1, w1\<lparr>ew_txn := txn_rollback (ew_txn w1)\<rparr>)))"

fun sweep_all ::
  "(settings \<Rightarrow> eval_world \<Rightarrow> eval_row outcome \<times> eval_world) \<Rightarrow> (string \<times> real) list list \<Rightarrow> settings \<Rightarrow> eval_world
     \<Rightarrow> ((string \<times> real) list \<times> metrics) list outcome \<times> settings \<times> eval_world" where
  "sweep_all run [] cfg w = (Inr [], cfg, w)"
| "sweep_all run (combo # combos) cfg w =
     (case sweep_one run combo cfg w of
        (Inl e, cfg1, w1) \<Rightarrow> (Inl e, cfg1, w1)
      | (Inr m, cfg1, w1) \<Rightarrow>
          (case sweep_all run combos cfg1 w1 of
             (Inl e, cfg2, w2) \<Rightarrow> (Inl e, cfg2, w2)
           | (Inr rows, cfg2, w2) \<Rightarrow> (Inr ((combo, m) # rows), cfg2, w2)))"

definition sweep_main ::
  "(settings \<Rightarrow> eval_world \<Rightarrow> eval_row outcome \<times> eval_world) \<Rightarrow> settings \<Rightarrow> eval_world
     \<Rightarrow> ((string \<times> real) list \<times> metrics) list outcome \<times> settings \<times> eval_world" where
  "sweep_main run cfg w =
     (case sweep_all run (generate_combinations SWEEP_GRID) cfg w of
        (Inl e, cfg', w') \<Rightarrow> (Inl e, cfg', w')
      | (Inr rows, cfg', w') \<Rightarrow> (Inr (rank_rows rows), cfg', w'))"

section \<open>The settings come back\<close>

text \<open>Two settings that agree outside the tunables named in a list.\<close>

definition agree_off :: "string set \<Rightarrow> settings \<Rightarrow> settings \<Rightarrow> bool" where
  "agree_off ks c c' \<longleftrightarrow>
     c' = c\<lparr>rerank_top_n := rerank_top_n c', crop_score_floor := crop_score_floor c', crop_max_docs := crop_max_docs c',
            structured_weight := structured_weight c'\<rparr>
   \<and> (''rerank_top_n'' \<notin> ks \<longrightarrow> rerank_top_n c' = rerank_top_n c)
   \<and> (''crop_score_floor'' \<notin> ks \<longrightarrow> crop_score_floor c' = crop_score_floor c)
   \<and> (''crop_max_docs'' \<notin> ks \<longrightarrow> crop_max_docs c' = crop_max_docs c)
   \<and> (''structured_weight'' \<notin> ks \<longrightarrow> structured_weight c' = structured_weight c)"

lemma tunable_cases:
  obtains "k = ''rerank_top_n''" | "k = ''crop_score_floor''" | "k = ''crop_max_docs''" | "k = ''structured_weight''"
  | "k \<noteq> ''rerank_top_n''" "k \<noteq> ''crop_score_floor''" "k \<noteq> ''crop_max_docs''" "k \<noteq> ''structured_weight''"
  by blast

lemma set_tunable_simps:
  "set_tunable (''rerank_top_n'', v) cfg = cfg\<lparr>rerank_top_n := \<lfloor>v\<rfloor>\<rparr>"
  "set_tunable (''crop_score_floor'', v) cfg = cfg\<lparr>crop_score_floor := v\<rparr>"
  "set_tunable (''crop_max_docs'', v) cfg = cfg\<lparr>crop_max_docs := \<lfloor>v\<rfloor>\<rparr>"
  "set_tunable (''structured_weight'', v) cfg = cfg\<lparr>structured_weight := v\<rparr>"
  by (simp_all add: set_tunable_def)

lemma get_tunable_simps:
  "get_tunable ''rerank_top_n'' cfg = Inr (real_of_int (rerank_top_n cfg))"
  "get_tunable ''crop_score_floor'' cfg = Inr (crop_score_floor cfg)"
  "get_tunable ''crop_max_docs'' cfg = Inr (real_of_int (crop_max_docs cfg))"
  "get_tunable ''structured_weight'' cfg = Inr (structured_weight cfg)"
  by (simp_all add: get_tunable_def)

lemma agree_off_refl: "agree_off ks c c"
  by (simp add: agree_off_def)

lemma agree_off_set: "agree_off ks c c' \<Longrightarrow> agree_off (insert k ks) c (set_tunable (k, v) c')"
proof (cases k rule: tunable_cases)
  case 5
  then have "set_tunable (k, v) c' = c'" by (simp add: set_tunable_def)
  then show "agree_off ks c c' \<Longrightarrow> ?thesis" by (simp add: agree_off_def)
qed (cases c; cases c'; simp add: agree_off_def set_tunable_simps)+

lemma agree_off_fold: "agree_off ks c c' \<Longrightarrow> agree_off (fst ` set kvs \<union> ks) c (fold set_tunable kvs c')"
proof (induction kvs arbitrary: ks c')
  case (Cons kv kvs)
  obtain k v where kv: "kv = (k, v)" by (cases kv)
  from Cons.IH [OF agree_off_set [OF Cons.prems]] show ?case by (simp add: kv)
qed simp

lemma agree_off_empty: "agree_off {} c c' \<Longrightarrow> c' = c"
  by (cases c; cases c'; simp add: agree_off_def)

text \<open>Writing an original back takes its key out of the difference.\<close>

lemma agree_off_restore:
  assumes "agree_off ks c c'" and "get_tunable k c = Inr x"
  shows "agree_off (ks - {k}) c (set_tunable (k, x) c')"
proof (cases k rule: tunable_cases)
  case 5
  then show ?thesis using assms(2) by (simp add: get_tunable_def)
qed (use assms in \<open>cases c; cases c'; auto simp: agree_off_def set_tunable_simps get_tunable_simps\<close>)+

lemma read_originals_restore:
  "read_originals kvs c = Inr os \<Longrightarrow> agree_off ks c c' \<Longrightarrow> agree_off (ks - fst ` set kvs) c (fold set_tunable os c')"
proof (induction kvs c arbitrary: os ks c' rule: read_originals.induct)
  case (2 k v kvs cfg)
  then obtain x os' where x: "get_tunable k cfg = Inr x" and os': "read_originals kvs cfg = Inr os'" and os: "os = (k, x) # os'"
    by (cases "get_tunable k cfg"; cases "read_originals kvs cfg") auto
  have "ks - {k} - fst ` set kvs = ks - fst ` set ((k, v) # kvs)" by auto
  with "2.IH" [OF x os' agree_off_restore [OF "2.prems"(2) x]] show ?case by (simp only: os fold.simps o_def)
qed simp

lemma sweep_one_settings: "sweep_one run overrides cfg w = (r, cfg', w') \<Longrightarrow> cfg' = cfg"
proof -
  assume run: "sweep_one run overrides cfg w = (r, cfg', w')"
  show "cfg' = cfg"
  proof (cases "read_originals overrides cfg")
    case (Inr os)
    have "agree_off (fst ` set overrides) cfg (fold set_tunable overrides cfg)"
      using agree_off_fold [OF agree_off_refl, of overrides "{}" cfg] by simp
    from agree_off_empty [OF read_originals_restore [OF Inr this, simplified]] show ?thesis
      using run Inr by (simp add: sweep_one_def Let_def split: prod.splits)
  qed (use run in \<open>simp add: sweep_one_def\<close>)
qed

text \<open>The whole sweep leaves the settings as it found them, also when a run raises and the sweep stops there.\<close>

lemma sweep_all_settings: "sweep_all run combos cfg w = (r, cfg', w') \<Longrightarrow> cfg' = cfg"
proof (induction combos arbitrary: cfg w r cfg' w')
  case (Cons combo combos)
  obtain m cfg1 w1 where one: "sweep_one run combo cfg w = (m, cfg1, w1)" by (rule prod_cases3)
  obtain rows cfg2 w2 where rest: "sweep_all run combos cfg1 w1 = (rows, cfg2, w2)" by (rule prod_cases3)
  from sweep_one_settings [OF one] Cons.IH [OF rest] one rest Cons.prems show ?case
    by (cases m; cases rows) simp_all
qed simp

lemma sweep_all_combos: "sweep_all run combos cfg w = (Inr rows, cfg', w') \<Longrightarrow> map fst rows = combos"
proof (induction combos arbitrary: cfg w rows cfg' w')
  case (Cons combo combos)
  obtain m cfg1 w1 where one: "sweep_one run combo cfg w = (m, cfg1, w1)" by (rule prod_cases3)
  obtain rs cfg2 w2 where rest: "sweep_all run combos cfg1 w1 = (rs, cfg2, w2)" by (rule prod_cases3)
  from Cons.IH [of cfg1 w1] one rest Cons.prems show ?case by (cases m; cases rs) auto
qed simp

lemma sweep_main_settings: "sweep_main run cfg w = (r, cfg', w') \<Longrightarrow> cfg' = cfg"
proof -
  assume main: "sweep_main run cfg w = (r, cfg', w')"
  obtain rows cfg1 w1 where all: "sweep_all run (generate_combinations SWEEP_GRID) cfg w = (rows, cfg1, w1)" by (rule prod_cases3)
  with main sweep_all_settings [OF all] show "cfg' = cfg" by (cases rows) (simp_all add: sweep_main_def)
qed

text \<open>All twenty-four combinations of the grid are run, each once.\<close>

lemma sweep_grid_size: "length (generate_combinations SWEEP_GRID) = 24 \<and> distinct (generate_combinations SWEEP_GRID)"
  by (simp add: SWEEP_GRID_def)

end
