(* ===== verification/Smoke.thy ===== *)
theory Smoke imports App_Routes begin

text \<open>
  \<open>scripts/smoke.py\<close>: the end-to-end check of a running server, as a sequence of requests over an HTTP client that is
  an argument. A reply is its status and the fields of its body that the script reads. Printing is left out, apart from
  the exit: 0 at the end, 1 after the usage line, an exception otherwise.
\<close>

section \<open>The script\<close>

datatype smoke_request = Healthz | PostIngest string string | PostChat string | GetOriginal string

record smoke_reply =
  sr_status :: nat
  sr_doc_id :: "string option"
  sr_answer :: "string option"
  sr_sources :: "string option"

text \<open>\<open>raise_for_status\<close> lets only the statuses of success pass.\<close>

definition raise_for_status :: "smoke_reply \<Rightarrow> smoke_reply outcome" where
  "raise_for_status r =
     (if 200 \<le> sr_status r \<and> sr_status r < 300 then Inr r else Inl (PyError ''HTTPStatusError'' (str_of_nat (sr_status r))))"

definition body_field :: "string \<Rightarrow> string option \<Rightarrow> string outcome" where
  "body_field name v = (case v of None \<Rightarrow> Inl (PyError ''KeyError'' name) | Some x \<Rightarrow> Inr x)"

definition and_then :: "'a outcome \<times> 'w \<Rightarrow> ('a \<Rightarrow> 'w \<Rightarrow> 'b outcome \<times> 'w) \<Rightarrow> 'b outcome \<times> 'w" where
  "and_then p f = (case p of (Inl e, w) \<Rightarrow> (Inl e, w) | (Inr x, w) \<Rightarrow> f x w)"

definition send_checked :: "(smoke_request \<Rightarrow> 'w \<Rightarrow> smoke_reply outcome \<times> 'w) \<Rightarrow> smoke_request \<Rightarrow> 'w \<Rightarrow> smoke_reply outcome \<times> 'w" where
  "send_checked client rq w = and_then (client rq w) (\<lambda>r w. (raise_for_status r, w))"

definition smoke_main ::
  "(smoke_request \<Rightarrow> 'w \<Rightarrow> smoke_reply outcome \<times> 'w) \<Rightarrow> (string \<Rightarrow> string option) \<Rightarrow> string list \<Rightarrow> 'w \<Rightarrow> nat outcome \<times> 'w" where
  "smoke_main client files argv w =
     (case argv of
        (_ # path # question # _) \<Rightarrow>
          and_then (send_checked client Healthz w) (\<lambda>_ w.
            (case files path of
               None \<Rightarrow> (Inl (PyError ''FileNotFoundError'' path), w)
             | Some data \<Rightarrow>
                 and_then (send_checked client (PostIngest path data) w) (\<lambda>r w.
                 and_then (body_field ''doc_id'' (sr_doc_id r), w) (\<lambda>doc_id w.
                 and_then (send_checked client (PostChat question) w) (\<lambda>c w.
                 and_then (body_field ''answer'' (sr_answer c), w) (\<lambda>_ w.
                 and_then (body_field ''sources'' (sr_sources c), w) (\<lambda>_ w.
                 and_then (send_checked client (GetOriginal doc_id) w) (\<lambda>_ w. (Inr 0, w)))))))))
      | _ \<Rightarrow> (Inr 1, w))"

section \<open>What its verdict means\<close>

lemma and_then_Inr: "and_then p f = (Inr y, w') \<longleftrightarrow> (\<exists>x w. p = (Inr x, w) \<and> f x w = (Inr y, w'))"
  by (auto simp: and_then_def split: prod.splits sum.splits)

lemma send_checked_Inr: "send_checked client rq w = (Inr r, w') \<longleftrightarrow> client rq w = (Inr r, w') \<and> 200 \<le> sr_status r \<and> sr_status r < 300"
  by (auto simp: send_checked_def and_then_def raise_for_status_def split: prod.splits sum.splits if_splits)

lemma body_field_Inr: "body_field n v = Inr x \<longleftrightarrow> v = Some x"
  by (simp add: body_field_def split: option.split)

text \<open>\<open>SMOKE OK\<close> is printed exactly when all four requests succeed in order and the bodies carry what is read from them.\<close>

lemma smoke_ok_iff:
  "smoke_main client files (prog # path # question # rest) w = (Inr 0, w4) \<longleftrightarrow>
     (\<exists>data doc_id r1 w1 r2 w2 r3 w3 r4. files path = Some data
        \<and> client Healthz w = (Inr r1, w1) \<and> client (PostIngest path data) w1 = (Inr r2, w2)
        \<and> client (PostChat question) w2 = (Inr r3, w3) \<and> client (GetOriginal doc_id) w3 = (Inr r4, w4)
        \<and> sr_doc_id r2 = Some doc_id \<and> sr_answer r3 \<noteq> None \<and> sr_sources r3 \<noteq> None
        \<and> list_all (\<lambda>r. 200 \<le> sr_status r \<and> sr_status r < 300) [r1, r2, r3, r4])"
  by (cases "files path") (auto simp: smoke_main_def and_then_Inr send_checked_Inr body_field_Inr)

section \<open>Against the application\<close>

text \<open>A request of the script carries no cookie and no key; a guard that stops it answers with the status of its error.\<close>

definition smoke_http :: "smoke_request \<Rightarrow> http_method \<times> string" where
  "smoke_http rq =
     (case rq of
        Healthz \<Rightarrow> (GET, ''/healthz'')
      | PostIngest path data \<Rightarrow> (POST, ''/ingest'')
      | PostChat question \<Rightarrow> (POST, ''/chat'')
      | GetOriginal doc_id \<Rightarrow> (GET, ''/files/'' @ doc_id @ ''/original''))"

definition bare_request :: "string \<Rightarrow> request" where
  "bare_request base = \<lparr>rq_cookies = [], rq_authorization = [], rq_collection = None, rq_base_url = base\<rparr>"

definition refusal :: "settings \<Rightarrow> auth_env \<Rightarrow> string \<Rightarrow> string \<Rightarrow> smoke_request \<Rightarrow> db \<Rightarrow> nat option" where
  "refusal cfg env cb base rq s =
     (case smoke_http rq of
        (m, p) \<Rightarrow>
          (case dispatch route_request cfg env (app_routes cb True) m p (bare_request base) s of
             Inl e \<Rightarrow> Some (exn_code e)
           | Inr _ \<Rightarrow> None))"

text \<open>The script tests a server without authentication only: with it switched on, the upload is refused.\<close>

lemma upload_refused:
  assumes "auth_enabled cfg"
  shows "refusal cfg env cb base (PostIngest path data) s = Some 401"
proof -
  have r: "route_request (app_routes cb True) POST ''/ingest'' = Inr ((api_route POST ''/ingest'' ''ingest'')\<lparr>rt_deps := [RequireAuth]\<rparr>)"
    unfolding route_request_def app_routes_def
    by (simp add: ingest_router_def include_router_def router_def full_match_def path_matches_def api_route_def segments_def segment_matches_def is_param_def)
  have "session_from_cookie env (bare_request base) s = None" "api_key_from_header env (bare_request base) s = None"
    by (simp_all add: session_from_cookie_def api_key_from_header_def bare_request_def py_startswith_def)
  then show ?thesis using assms
    by (simp add: refusal_def smoke_http_def dispatch_def r require_auth_def require_api_key_def)
qed

lemma smoke_fails_behind_auth:
  assumes "auth_enabled cfg" and "files path = Some data"
    and "\<And>rq w n. refusal cfg env cb base rq s = Some n \<Longrightarrow> \<exists>r w'. client rq w = (Inr r, w') \<and> sr_status r = n"
  shows "smoke_main client files (prog # path # question # rest) w \<noteq> (Inr 0, w')"
proof
  assume "smoke_main client files (prog # path # question # rest) w = (Inr 0, w')"
  then obtain r2 w1 w2 where "client (PostIngest path data) w1 = (Inr r2, w2)" "sr_status r2 < 300"
    using assms(2) by (auto simp: smoke_ok_iff)
  moreover obtain r w'' where "client (PostIngest path data) w1 = (Inr r, w'')" "sr_status r = 401"
    using assms(3) [OF upload_refused [OF assms(1)]] by blast
  ultimately show False by simp
qed

end
