(* ===== verification/System_Model.thy ===== *)
theory System_Model imports Admin_People Eval_Metrics Maintenance Scheduler_Loop App_Routes begin

text \<open>
  The application as one state machine. Its state is what survives a request: the committed database, the blob
  store and the evaluation runs. A step is a request to one of the state-changing endpoints, which passes the dependencies of its
  route before its handler runs on a session of its own (\<open>get_session\<close> of \<open>prorag/db.py\<close>), one round of the scheduler, or
  one of the operator's scripts. Steps are taken one at a time; what happens between the commits of a single
  handler when several are in flight is the subject of \<open>Cost_Budget\<close>, \<open>Scheduler\<close> and the rival upload of \<open>Ingest\<close>.
\<close>

section \<open>State and sessions\<close>

record app_state =
  as_db :: db
  as_blobs :: blob_store
  as_runs :: "eval_row list"

definition fresh_install :: app_state where
  "fresh_install = \<lparr>as_db = empty_db, as_blobs = (\<lambda>_. None), as_runs = []\<rparr>"

text \<open>
  \<open>async with SessionLocal() as session: yield session\<close>: a session begins on the committed state, and what the handler
  has not committed when it ends, normally or with an exception, is lost. A blob is written at once.
\<close>

definition get_session :: "app_state \<Rightarrow> ingest_world" where
  "get_session st = \<lparr>iw_txn = begin_txn (as_db st), iw_blobs = as_blobs st\<rparr>"

definition close_session :: "app_state \<Rightarrow> ingest_world \<Rightarrow> app_state" where
  "close_session st w = st\<lparr>as_db := committed (iw_txn w), as_blobs := iw_blobs w\<rparr>"

text \<open>A handler that works on the world, one that works on the session alone, and what is left of its answer.\<close>

definition in_world :: "(ingest_world \<Rightarrow> 'a outcome \<times> ingest_world) \<Rightarrow> app_state \<Rightarrow> unit outcome \<times> app_state" where
  "in_world handler st = (case handler (get_session st) of (res, w) \<Rightarrow> (map_sum id (\<lambda>_. ()) res, close_session st w))"

definition in_txn :: "(txn \<Rightarrow> 'a outcome \<times> txn) \<Rightarrow> app_state \<Rightarrow> unit outcome \<times> app_state" where
  "in_txn handler st =
     (case handler (iw_txn (get_session st)) of
        (res, t) \<Rightarrow> (map_sum id (\<lambda>_. ()) res, close_session st ((get_session st)\<lparr>iw_txn := t\<rparr>)))"

section \<open>Requests\<close>

text \<open>
  The calls that can change the state, each with the parameters of its handler and with what the handler meets outside:
  the providers, the clock, the buckets and the identifiers drawn for new rows. The calls of the group endpoints are
  those of \<open>group_req\<close>. A document's own identifier is drawn when it is stored.
\<close>

datatype api_call =
    Ingest ingest_env "string option" "string list" string
  | Chat backend fresh_ids datetime chat_request
  | ChatStream backend "string \<Rightarrow> string \<Rightarrow> arrival list" fresh_ids datetime chat_request
  | Feedback uuid rating "string option"
  | Search backend datetime string int
  | EvalRun backend ragas datetime "golden list" "(nat \<times> bool) option"
  | CreateConnector uuid string string bool
  | UpdateConnector uuid connector_update
  | DeleteConnector uuid
  | SyncConnector "ingest_env sync_env" "uuid \<Rightarrow> bool" uuid bool
  | CreateRule uuid string string uuid
  | UpdateRule uuid rule_update
  | DeleteRule uuid
  | PreviewRule provider engine datetime uuid
  | ConfirmRule provider engine datetime uuid
  | UpdateUser uuid user_patch
  | GroupCall group_req
  | Login string string
  | Logout
  | OidcCallback oidc_env string "string option" "string option"

text \<open>The endpoint of a call, as the route table names it.\<close>

fun group_endpoint :: "group_req \<Rightarrow> string" where
  "group_endpoint (CreateGroup i n) = ''create_group''"
| "group_endpoint (RenameGroup i n) = ''update_group''"
| "group_endpoint (DeleteGroup i) = ''delete_group''"
| "group_endpoint (AddMember g u) = ''add_group_member''"
| "group_endpoint (RemoveMember g u) = ''remove_group_member''"

fun endpoint_of :: "api_call \<Rightarrow> string" where
  "endpoint_of (Ingest env name pieces collection) = ''ingest''"
| "endpoint_of (Chat be ids now req) = ''chat''"
| "endpoint_of (ChatStream be src ids now req) = ''chat_stream''"
| "endpoint_of (Feedback mid r c) = ''feedback''"
| "endpoint_of (Search be now q k) = ''search''"
| "endpoint_of (EvalRun be ragas now entries deadline) = ''eval_run''"
| "endpoint_of (CreateConnector i n c e) = ''create_connector''"
| "endpoint_of (UpdateConnector i body) = ''update_connector''"
| "endpoint_of (DeleteConnector i) = ''delete_connector''"
| "endpoint_of (SyncConnector env locked i full) = ''sync_connector''"
| "endpoint_of (CreateRule i n q g) = ''create_rule''"
| "endpoint_of (UpdateRule i body) = ''update_rule''"
| "endpoint_of (DeleteRule i) = ''delete_rule''"
| "endpoint_of (PreviewRule prov e now i) = ''preview_rule''"
| "endpoint_of (ConfirmRule prov e now i) = ''confirm_rule''"
| "endpoint_of (UpdateUser i body) = ''update_user''"
| "endpoint_of (GroupCall req) = group_endpoint req"
| "endpoint_of (Login email password) = ''login''"
| "endpoint_of Logout = ''logout''"
| "endpoint_of (OidcCallback oi path code_param state) = ''oidc_callback''"

definition deps_of :: "string \<Rightarrow> dependency list" where
  "deps_of endpoint =
     (case find (\<lambda>r. rt_endpoint r = endpoint) (app_routes ''/auth/oidc/callback'' False) of
        Some r \<Rightarrow> rt_deps r | None \<Rightarrow> [])"

text \<open>Every call is that of exactly one route.\<close>

lemma calls_routed: "length (filter (\<lambda>r. rt_endpoint r = endpoint_of c) (app_routes ''/auth/oidc/callback'' False)) = 1"
proof -
  have "list_all (\<lambda>e. length (filter (\<lambda>r. rt_endpoint r = e) (app_routes ''/auth/oidc/callback'' False)) = 1)
     [''ingest'', ''chat'', ''chat_stream'', ''feedback'', ''search'', ''eval_run'', ''create_connector'', ''update_connector'',
      ''delete_connector'', ''sync_connector'', ''create_rule'', ''update_rule'', ''delete_rule'', ''preview_rule'', ''confirm_rule'',
      ''update_user'', ''create_group'', ''update_group'', ''delete_group'', ''add_group_member'', ''remove_group_member'',
      ''login'', ''logout'', ''oidc_callback'']"
    by code_simp
  then show ?thesis
  proof (cases c)
    case (GroupCall req)
    then show ?thesis using \<open>list_all _ _\<close> by (cases req) simp_all
  qed simp_all
qed

text \<open>The handlers. \<open>user\<close> is the resolved identity, the web request \<open>rq\<close> what login and logout read.\<close>

definition with_fresh_id :: "(ingest_env \<Rightarrow> ingest_world \<Rightarrow> 'a) \<Rightarrow> ingest_env \<Rightarrow> ingest_world \<Rightarrow> 'a" where
  "with_fresh_id f env w = f (env\<lparr>ie_doc_id := fresh_doc_id (working (iw_txn w))\<rparr>) w"

definition eval_endpoint ::
  "settings \<Rightarrow> backend \<Rightarrow> ragas \<Rightarrow> datetime \<Rightarrow> golden list \<Rightarrow> (nat \<times> bool) option \<Rightarrow> app_state \<Rightarrow> unit outcome \<times> app_state" where
  "eval_endpoint cfg be ragas now entries deadline st =
     (case eval_run cfg be ragas now entries deadline \<lparr>ew_txn = begin_txn (as_db st), ew_runs = as_runs st\<rparr> of
        (res, w) \<Rightarrow> (map_sum id (\<lambda>_. ()) res, st\<lparr>as_db := committed (ew_txn w), as_runs := ew_runs w\<rparr>))"

fun handle ::
  "settings \<Rightarrow> auth_env \<Rightarrow> request \<Rightarrow> user option \<Rightarrow> api_call \<Rightarrow> app_state \<Rightarrow> unit outcome \<times> app_state" where
  "handle cfg env rq user (Ingest ie name pieces collection) =
     in_world (with_fresh_id (\<lambda>ie. ingest_upload cfg ie name pieces collection) ie)"
| "handle cfg env rq user (Chat be ids now req) = in_txn (chat cfg be ids now req user)"
| "handle cfg env rq user (ChatStream be src ids now req) = in_txn (chat_stream cfg be src ids now req user)"
| "handle cfg env rq user (Feedback mid r c) = in_txn (feedback_toggle mid r c)"
| "handle cfg env rq user (Search be now q k) = in_txn (search cfg be now q k user)"
| "handle cfg env rq user (EvalRun be ragas now entries deadline) = eval_endpoint cfg be ragas now entries deadline"
| "handle cfg env rq user (CreateConnector i n c e) = in_world (apfst Inr \<circ> create_connector i n c e)"
| "handle cfg env rq user (UpdateConnector i body) = in_world (update_connector i body)"
| "handle cfg env rq user (DeleteConnector i) = in_world (delete_connector i)"
| "handle cfg env rq user (SyncConnector se locked i full) = in_world (sync_connector (ingest_fresh cfg) cfg se locked i full)"
| "handle cfg env rq user (CreateRule i n q g) = in_txn (create_rule i n q g)"
| "handle cfg env rq user (UpdateRule i body) = in_txn (update_rule i body)"
| "handle cfg env rq user (DeleteRule i) = in_txn (delete_rule i)"
| "handle cfg env rq user (PreviewRule prov e now i) = in_txn (preview_rule cfg prov e now i)"
| "handle cfg env rq user (ConfirmRule prov e now i) = in_txn (confirm_rule cfg prov e now i)"
| "handle cfg env rq user (UpdateUser i body) = in_txn (update_user i body)"
| "handle cfg env rq user (GroupCall req) = in_txn (group_request req)"
| "handle cfg env rq user (Login email password) = in_txn (login cfg env email password)"
| "handle cfg env rq user Logout = in_txn (apfst Inr \<circ> logout env rq)"
| "handle cfg env rq user (OidcCallback oi path code_param state) = in_txn (oidc_callback cfg env oi path rq code_param state)"

text \<open>A request: the dependencies of its route, then its handler for the identity of the request.\<close>

definition serve :: "settings \<Rightarrow> auth_env \<Rightarrow> request \<Rightarrow> api_call \<Rightarrow> app_state \<Rightarrow> unit outcome \<times> app_state" where
  "serve cfg env rq c st =
     (case run_dependencies cfg env rq (as_db st) (deps_of (endpoint_of c)) of
        Inl e \<Rightarrow> (Inl e, st)
      | Inr _ \<Rightarrow> handle cfg env rq (current_user env rq (as_db st)) c st)"

section \<open>Steps\<close>

datatype app_event =
    Request auth_env request api_call
  | Round "ingest_env loop_round"
  | Reingest "nat \<Rightarrow> ingest_env" "uuid list" bool
  | CreateAdmin "string \<Rightarrow> string" uuid string string "string option" bool
  | CreateApiKey "string \<Rightarrow> string" string "string option" "string option"

fun happens :: "settings \<Rightarrow> app_event \<Rightarrow> app_state \<Rightarrow> app_state" where
  "happens cfg (Request env rq c) st = snd (serve cfg env rq c st)"
| "happens cfg (Round r) st = close_session st (snd (tick_round (ingest_fresh cfg) cfg r (get_session st)))"
| "happens cfg (Reingest envs ids all_docs) st = close_session st (snd (reingest cfg envs ids all_docs (get_session st)))"
| "happens cfg (CreateAdmin hash i generated email password reset) st =
     snd (in_txn (apfst Inr \<circ> create_admin hash i generated email password reset) st)"
| "happens cfg (CreateApiKey hash generated name collection) st =
     snd (in_txn (apfst Inr \<circ> create_api_key hash generated name collection) st)"

text \<open>
  What the code relies on: identifiers drawn for new rows are new, SHA-256 is one function, no rival process stores the same upload,
  and no parser raises an HTTP error of its own (\<open>polite\<close>).
\<close>

definition fresh_exchange :: "fresh_ids \<Rightarrow> db \<Rightarrow> bool" where
  "fresh_exchange ids s \<longleftrightarrow>
     id_chat ids \<notin> set (chats s) \<and> id_user_message ids \<noteq> id_assistant_message ids
   \<and> {id_user_message ids, id_assistant_message ids} \<inter> m_id ` set (messages s) = {}"

fun call_ok :: "settings \<Rightarrow> (string \<Rightarrow> string) \<Rightarrow> api_call \<Rightarrow> db \<Rightarrow> bool" where
  "call_ok cfg sha (Ingest ie name pieces collection) s = polite cfg sha ie"
| "call_ok cfg sha (Chat be ids now req) s = fresh_exchange ids s"
| "call_ok cfg sha (ChatStream be src ids now req) s = fresh_exchange ids s"
| "call_ok cfg sha (CreateConnector i n c e) s = (i \<notin> cn_id ` set (connectors s))"
| "call_ok cfg sha (SyncConnector se locked i full) s = (\<forall>k. polite cfg sha (sy_ingest se k))"
| "call_ok cfg sha (CreateRule i n q g) s = (i \<notin> r_id ` set (access_rules s))"
| "call_ok cfg sha (GroupCall req) s = names_fresh_id req s"
| "call_ok cfg sha (OidcCallback oi path code_param state) s =
     (oi_user_id oi \<notin> u_id ` set (users s) \<and> inj (oi_group_id oi) \<and> range (oi_group_id oi) \<inter> g_id ` set (groups s) = {})"
| "call_ok cfg sha _ s = True"

fun event_ok :: "settings \<Rightarrow> (string \<Rightarrow> string) \<Rightarrow> app_event \<Rightarrow> db \<Rightarrow> bool" where
  "event_ok cfg sha (Request env rq c) s = call_ok cfg sha c s"
| "event_ok cfg sha (Round r) s = (\<forall>cid k. polite cfg sha (sy_ingest (lr_env r cid) k))"
| "event_ok cfg sha (Reingest envs ids all_docs) s = (\<forall>k. polite cfg sha (envs k))"
| "event_ok cfg sha (CreateAdmin hash i generated email password reset) s = (i \<notin> u_id ` set (users s))"
| "event_ok cfg sha (CreateApiKey hash generated name collection) s = True"

inductive app_step :: "settings \<Rightarrow> (string \<Rightarrow> string) \<Rightarrow> app_state \<Rightarrow> app_state \<Rightarrow> bool"
  for cfg :: settings and sha :: "string \<Rightarrow> string" where
  event: "event_ok cfg sha ev (as_db st) \<Longrightarrow> app_step cfg sha st (happens cfg ev st)"

inductive_cases app_step_elim: "app_step cfg sha st st'"

end
