(* ===== verification/System_Props.thy ===== *)
theory System_Props imports System_Model begin

text \<open>
  What every state of the application guarantees, whatever requests, scheduler rounds and scripts led to it: all rows
  fit together, and a document is seen only through a confirmed rule; and who can change what decides about access.
  The ingest pipeline is the provider of the sync engine's interface \<open>ingest_service\<close> a second time, now for the
  invariant of the whole database.
\<close>

section \<open>The invariant\<close>

text \<open>Accounts: unique keys and addresses, and sessions and keys of users that exist.\<close>

definition accounts_ok :: "db \<Rightarrow> bool" where
  "accounts_ok s \<longleftrightarrow>
     distinct (map u_id (users s)) \<and> distinct (map u_email (users s))
   \<and> s_user_id ` set (sessions s) \<subseteq> u_id ` set (users s)
   \<and> (\<forall>k\<in>set (api_keys s). \<forall>i. k_user_id k = Some i \<longrightarrow> i \<in> u_id ` set (users s))"

text \<open>Conversations: messages of chats, citations and feedback of messages that exist, one feedback each.\<close>

definition chats_ok :: "db \<Rightarrow> bool" where
  "chats_ok s \<longleftrightarrow>
     distinct (chats s) \<and> distinct (map m_id (messages s)) \<and> m_chat_id ` set (messages s) \<subseteq> set (chats s)
   \<and> ci_message_id ` set (citations s) \<subseteq> m_id ` set (messages s)
   \<and> f_message_id ` set (feedbacks s) \<subseteq> m_id ` set (messages s) \<and> distinct (map f_message_id (feedbacks s))"

text \<open>Every grant is one of the local grants \<open>L\<close> of the start, or comes from a confirmed rule that still exists.\<close>

definition backed :: "acl set \<Rightarrow> db \<Rightarrow> acl \<Rightarrow> bool" where
  "backed L s a \<longleftrightarrow> (a_source a = AclLocal \<and> a \<in> L)
     \<or> (\<exists>r\<in>set (access_rules s). r_state r = Confirmed \<and> a = rule_grant (a_doc_id a) r)"

definition rules_ok :: "acl set \<Rightarrow> db \<Rightarrow> bool" where
  "rules_ok L s \<longleftrightarrow> distinct (map r_id (access_rules s)) \<and> (\<forall>a\<in>set (document_acl s). backed L s a)"

definition core_ok :: "settings \<Rightarrow> (string \<Rightarrow> string) \<Rightarrow> acl set \<Rightarrow> db \<Rightarrow> blob_store \<Rightarrow> bool" where
  "core_ok cfg sha L s b \<longleftrightarrow> library_ok cfg sha s b \<and> directory_ok s \<and> accounts_ok s \<and> chats_ok s \<and> rules_ok L s"

definition db_ok :: "settings \<Rightarrow> (string \<Rightarrow> string) \<Rightarrow> acl set \<Rightarrow> db \<Rightarrow> blob_store \<Rightarrow> bool" where
  "db_ok cfg sha L s b \<longleftrightarrow> core_ok cfg sha L s b \<and> distinct (map cn_id (connectors s))"

definition system_ok :: "settings \<Rightarrow> (string \<Rightarrow> string) \<Rightarrow> acl set \<Rightarrow> app_state \<Rightarrow> bool" where
  "system_ok cfg sha L st \<longleftrightarrow> db_ok cfg sha L (as_db st) (as_blobs st)"

lemmas part_defs = library_ok_def rows_ok_def blobs_ok_def directory_ok_def accounts_ok_def chats_ok_def rules_ok_def backed_def

text \<open>Tables a part does not speak of.\<close>

lemma core_ok_frame [simp]:
  "core_ok cfg sha L (s\<lparr>usages := us\<rparr>) b = core_ok cfg sha L s b"
  "core_ok cfg sha L (s\<lparr>connectors := cs\<rparr>) b = core_ok cfg sha L s b"
  "core_ok cfg sha L (s\<lparr>connector_items := its\<rparr>) b = core_ok cfg sha L s b"
  by (simp_all add: core_ok_def part_defs)

lemma library_ok_frame [simp]:
  "library_ok cfg sha (s\<lparr>users := us\<rparr>) b = library_ok cfg sha s b"
  "library_ok cfg sha (s\<lparr>groups := gs\<rparr>) b = library_ok cfg sha s b"
  "library_ok cfg sha (s\<lparr>user_groups := ugs\<rparr>) b = library_ok cfg sha s b"
  "library_ok cfg sha (s\<lparr>sessions := ss\<rparr>) b = library_ok cfg sha s b"
  "library_ok cfg sha (s\<lparr>api_keys := ks\<rparr>) b = library_ok cfg sha s b"
  "library_ok cfg sha (s\<lparr>chats := ch\<rparr>) b = library_ok cfg sha s b"
  "library_ok cfg sha (s\<lparr>messages := ms\<rparr>) b = library_ok cfg sha s b"
  "library_ok cfg sha (s\<lparr>citations := cit\<rparr>) b = library_ok cfg sha s b"
  "library_ok cfg sha (s\<lparr>feedbacks := fs\<rparr>) b = library_ok cfg sha s b"
  "library_ok cfg sha (s\<lparr>access_rules := rs\<rparr>) b = library_ok cfg sha s b"
  by (simp_all add: library_ok_def rows_ok_def blobs_ok_def)

section \<open>Ingesting\<close>

text \<open>What an ingest, a script's or a request's, makes of a settled world.\<close>

lemma ingest_effect:
  assumes w: "settled w" and ok: "polite cfg sha env" and new: "ie_doc_id env \<notin> d_id ` set (documents (working (iw_txn w)))"
    and run: "ingest_bytes cfg env data filename collection w = (out, w')"
  shows "settled w' \<and> (working (iw_txn w') = working (iw_txn w)
     \<or> (\<exists>digest up cs us gs.
          working (iw_txn w') = stored_db cfg env digest filename collection up cs us gs (working (iw_txn w))
        \<and> set (document_acl (working (iw_txn w'))) = set (document_acl (working (iw_txn w)))
            \<union> rule_grant (ie_doc_id env) ` set (admitting (rule_similarity_floor cfg) cs (confirmed_rules (working (iw_txn w))))))"
proof -
  have s': "settled w'" using ingest_bytes_frame [OF w, of cfg env data filename collection] run by simp
  have c: "committed (iw_txn w) = working (iw_txn w)" and c': "committed (iw_txn w') = working (iw_txn w')"
    using w s' by (simp_all add: settled_def)
  show ?thesis
  proof (cases "find_document_by_sha (working (iw_txn w)) (ie_sha256 env data)")
    case (Some d)
    then show ?thesis using run w by (simp add: ingest_bytes_def Let_def)
  next
    case None
    have "\<forall>c m. parse_upload cfg (ie_parse env) data (guess_mime filename) filename \<noteq> Inl (HTTPException c m)"
      using ok by (simp add: polite_def)
    note o = ingest_outcome [OF this new None [folded c] None, of collection, unfolded run]
    show ?thesis
    proof (cases out)
      case (Inl e)
      then show ?thesis using o s' c c' by (simp add: only_blob_removed_def)
    next
      case (Inr r)
      then have "stored cfg env data filename collection w w'" using o ok by (auto simp: polite_def split: option.splits)
      then show ?thesis using s' unfolding stored_def Let_def by blast
    qed
  qed
qed

lemma ingest_core:
  assumes w: "settled w" and ok: "polite cfg sha env" and new: "ie_doc_id env \<notin> d_id ` set (documents (working (iw_txn w)))"
    and inv: "core_ok cfg sha L (working (iw_txn w)) (iw_blobs w)"
    and run: "ingest_bytes cfg env data filename collection w = (out, w')"
  shows "settled w' \<and> core_ok cfg sha L (working (iw_txn w')) (iw_blobs w')"
proof -
  let ?s = "working (iw_txn w)" and ?s' = "working (iw_txn w')"
  note eff = ingest_effect [OF w ok new run]
  have "iw_txn w = begin_txn ?s" using w by (cases "iw_txn w") (simp add: settled_def begin_txn_def)
  then have "library_ok cfg sha (committed (iw_txn w')) (iw_blobs w')"
    using ingest_library [of cfg env ?s w data filename collection] ok inv run new by (simp add: polite_def core_ok_def)
  then have lib: "library_ok cfg sha ?s' (iw_blobs w')" using eff by (simp add: settled_def)
  from eff have "directory_ok ?s' \<and> accounts_ok ?s' \<and> chats_ok ?s' \<and> rules_ok L ?s'"
  proof (elim conjE disjE exE)
    assume "?s' = ?s"
    then show ?thesis using inv by (simp add: core_ok_def)
  next
    fix digest up cs us gs
    assume s': "?s' = stored_db cfg env digest filename collection up cs us gs ?s"
      and acl: "set (document_acl ?s') = set (document_acl ?s)
            \<union> rule_grant (ie_doc_id env) ` set (admitting (rule_similarity_floor cfg) cs (confirmed_rules ?s))"
    have rules: "access_rules ?s' = access_rules ?s" unfolding s' by (simp add: stored_db_def)
    have "backed L ?s' a" if a_in: "a \<in> set (document_acl ?s')" for a
    proof (cases "a \<in> set (document_acl ?s)")
      case True
      then have "backed L ?s a" using inv by (simp add: core_ok_def rules_ok_def)
      then show ?thesis unfolding backed_def rules .
    next
      case False
      then obtain r where r: "r \<in> set (admitting (rule_similarity_floor cfg) cs (confirmed_rules ?s))" and a: "a = rule_grant (ie_doc_id env) r"
        using a_in unfolding acl by blast
      have "a_doc_id a = ie_doc_id env" by (simp add: a rule_grant_def)
      then show ?thesis using admitting_confirmed [OF r] a unfolding backed_def rules by auto
    qed
    moreover have "distinct (map r_id (access_rules ?s'))" unfolding rules using inv by (simp add: core_ok_def rules_ok_def)
    ultimately have "rules_ok L ?s'" by (simp add: rules_ok_def)
    moreover have "directory_ok ?s' \<and> accounts_ok ?s' \<and> chats_ok ?s'"
      using inv unfolding s' by (simp add: core_ok_def stored_db_def directory_ok_def accounts_ok_def chats_ok_def)
    ultimately show ?thesis by blast
  qed
  then show ?thesis using lib eff by (simp add: core_ok_def)
qed

lemma rules_ok_delete: "rules_ok L s \<Longrightarrow> rules_ok L (delete_document i s)"
  by (auto simp: rules_ok_def backed_def delete_document_def)

lemma core_ok_delete: "core_ok cfg sha L s b \<Longrightarrow> core_ok cfg sha L (delete_document i s) b"
  using library_ok_delete [of cfg sha s b i] rules_ok_delete [of L s i]
  by (simp add: core_ok_def directory_ok_def accounts_ok_def chats_ok_def)
     (simp add: delete_document_def)

interpretation app: ingest_service "ingest_fresh cfg" "polite cfg sha" "core_ok cfg sha L" for cfg sha L
proof (unfold_locales, goal_cases)
  case (3 e w data filename collection)
  then show ?case using ingest_core [of w cfg sha "e\<lparr>ie_doc_id := fresh_doc_id (working (iw_txn w))\<rparr>" L data filename collection]
    fresh_doc_id_fresh by (simp add: ingest_fresh_def polite_def) (metis prod.collapse)
qed (use ingest_bytes_frame in \<open>auto simp: ingest_fresh_def core_ok_delete\<close>)

section \<open>Conversations\<close>

lemma usage_grown_ok: "usage_grown s s' \<Longrightarrow> db_ok cfg sha L s' b = db_ok cfg sha L s b"
  by (auto simp: usage_grown_def db_ok_def)

lemma usage_grown_fresh: "usage_grown s s' \<Longrightarrow> fresh_exchange ids s' = fresh_exchange ids s"
  by (auto simp: usage_grown_def fresh_exchange_def)

text \<open>What a conversation makes of the database: usage rows, and at most one exchange.\<close>

definition talked :: "fresh_ids \<Rightarrow> db \<Rightarrow> db \<Rightarrow> bool" where
  "talked ids s s' \<longleftrightarrow> usage_grown s s'
     \<or> (\<exists>chat_id q a srcs t t' cid mid. usage_grown s (working t)
          \<and> persist_exchange ids chat_id q a srcs t = (Inr (cid, mid), t') \<and> s' = committed t')"

lemma persist_db:
  assumes "persist_exchange ids chat_id q a srcs t = (Inr (cid, mid), t')"
  defines "ch \<equiv> case chat_id of None \<Rightarrow> [id_chat ids] | Some c \<Rightarrow> []"
  shows "committed t' = (working t)\<lparr>chats := chats (working t) @ ch, messages := messages (working t) @ exchange_rows ids cid q a,
     citations := citations (working t) @ citation_rows ids srcs\<rparr>" and "cid \<in> set (chats (working t) @ ch)"
  using assms(1) by (auto simp: ch_def persist_exchange_def Let_def exchange_rows_def citation_rows_def split: option.splits if_splits)

lemma persist_ok:
  assumes ok: "db_ok cfg sha L (working t) b" and new: "fresh_exchange ids (working t)"
    and run: "persist_exchange ids chat_id q a srcs t = (Inr (cid, mid), t')"
  shows "db_ok cfg sha L (committed t') b"
proof -
  let ?s = "working t"
  let ?ch = "case chat_id of None \<Rightarrow> [id_chat ids] | Some c \<Rightarrow> []"
  let ?s' = "?s\<lparr>chats := chats ?s @ ?ch, messages := messages ?s @ exchange_rows ids cid q a,
     citations := citations ?s @ citation_rows ids srcs\<rparr>"
  note t' = persist_db(1) [OF run] and cid = persist_db(2) [OF run]
  have "chats_ok ?s'"
    unfolding chats_ok_def
  proof (intro conjI)
    have c: "chats_ok ?s" using ok by (simp add: db_ok_def core_ok_def)
    show "distinct (chats ?s')" using c new by (auto simp: chats_ok_def fresh_exchange_def split: option.split)
    show "distinct (map m_id (messages ?s'))" using c new by (auto simp: chats_ok_def fresh_exchange_def exchange_rows_def)
    show "m_chat_id ` set (messages ?s') \<subseteq> set (chats ?s')" using c cid by (auto simp: chats_ok_def exchange_rows_def)
    show "ci_message_id ` set (citations ?s') \<subseteq> m_id ` set (messages ?s')"
      using c by (auto simp: chats_ok_def exchange_rows_def citation_rows_def)
    show "f_message_id ` set (feedbacks ?s') \<subseteq> m_id ` set (messages ?s')" using c by (auto simp: chats_ok_def)
    show "distinct (map f_message_id (feedbacks ?s'))" using c by (simp add: chats_ok_def)
  qed
  then show ?thesis
    using ok unfolding t' by (simp add: db_ok_def core_ok_def directory_ok_def accounts_ok_def rules_ok_def backed_def)
qed

lemma talked_ok:
  assumes "talked ids s s'" and ok: "db_ok cfg sha L s b" and new: "fresh_exchange ids s"
  shows "db_ok cfg sha L s' b"
  using assms(1) unfolding talked_def
proof (elim disjE exE conjE)
  assume "usage_grown s s'"
  then show ?thesis using ok usage_grown_ok by blast
next
  fix chat_id q a srcs t t' cid mid
  assume "usage_grown s (working t)" and run: "persist_exchange ids chat_id q a srcs t = (Inr (cid, mid), t')" and s': "s' = committed t'"
  then show ?thesis using persist_ok [OF _ _ run] ok new usage_grown_ok usage_grown_fresh by metis
qed

lemma talked_frame:
  assumes "talked ids s s'"
  shows "\<exists>us ch ms cit. s' = s\<lparr>usages := us, chats := ch, messages := ms, citations := cit\<rparr>"
  using assms unfolding talked_def
proof (elim disjE exE conjE)
  assume "usage_grown s s'"
  then obtain us where "s' = s\<lparr>usages := usages s @ us, chats := chats s, messages := messages s, citations := citations s\<rparr>"
    by (auto simp: usage_grown_def)
  then show ?thesis by blast
next
  fix chat_id q a srcs t t' cid mid
  assume "usage_grown s (working t)" "persist_exchange ids chat_id q a srcs t = (Inr (cid, mid), t')" "s' = committed t'"
  then show ?thesis using persist_db(1) by (fastforce simp: usage_grown_def)
qed

lemma both_grown_begin [simp]: "both_grown s (begin_txn s)"
  by (simp add: both_grown_def)

lemma talked_usage: "both_grown s t \<Longrightarrow> talked ids s (committed t)"
  by (simp add: both_grown_def talked_def)

lemma talked_persist:
  "both_grown s t \<Longrightarrow> only_usage t t1 \<Longrightarrow> persist_exchange ids chat_id q a srcs t1 = (Inr (cid, mid), t') \<Longrightarrow> talked ids s (committed t')"
  using both_grown_only_usage [of s t t1] unfolding both_grown_def talked_def by blast

lemma chat_talked: "talked ids s (committed (snd (chat cfg be ids now req user (begin_txn s))))"
proof (cases "check_daily_cap cfg s user now")
  case (Inl e)
  then show ?thesis using talked_usage [OF both_grown_begin] by (simp add: chat_def)
next
  case gate: (Inr w)
  obtain res t1 where r: "retrieve cfg be now (rq_message req) user (begin_txn s) = (res, t1)" by fastforce
  note g = retrieve_grown [OF both_grown_begin r]
  show ?thesis
  proof (cases res)
    case (Inl e)
    then show ?thesis using gate r talked_usage [OF g] by (simp add: chat_def)
  next
    case (Inr p)
    obtain hits cleaned where p: "p = (hits, cleaned)" by fastforce
    show ?thesis
    proof (cases rule: chat_answer_cases [of cfg be ids now req user w hits cleaned t1])
      case (fails e t')
      then show ?thesis using gate r Inr p talked_usage [OF g] by (simp add: chat_def)
    next
      case (ok raw sources t2 t3 cid)
      then show ?thesis using gate r Inr p talked_persist [OF g ok(4,3)] by (simp add: chat_def)
    qed
  qed
qed

lemma chat_stream_talked: "talked ids s (committed (snd (chat_stream cfg be src ids now req user (begin_txn s))))"
proof (cases "check_daily_cap cfg s user now")
  case (Inl e)
  then show ?thesis using talked_usage [OF both_grown_begin] by (simp add: chat_stream_def)
next
  case gate: (Inr w)
  obtain res t1 where r: "retrieve cfg be now (rq_message req) user (begin_txn s) = (res, t1)" by fastforce
  note g = retrieve_grown [OF both_grown_begin r]
  have fin: "talked ids s (committed (snd (snd (stream_finish cfg be ids now req user srcs prompt st t1))))" for srcs prompt st
  proof (cases rule: stream_finish_cases [of cfg be ids now req user srcs prompt st t1])
    case (fails e t' tail)
    then show ?thesis using talked_usage [OF g] by simp
  next
    case (ok t2 t3 cid tail)
    then show ?thesis using talked_persist [OF g ok(4,3)] by simp
  qed
  have "talked ids s (committed (snd (snd (stream_frames cfg be src ids now req user w (begin_txn s)))))"
    using r talked_usage [OF g] fin by (auto simp: stream_frames_def Let_def split: sum.split prod.split)
  then show ?thesis using gate by (auto simp: chat_stream_def split: prod.split sum.split)
qed

lemmas chat_ok = talked_ok [OF chat_talked] and chat_stream_ok = talked_ok [OF chat_stream_talked]

lemma feedback_ok:
  assumes ok: "db_ok cfg sha L s b"
  shows "db_ok cfg sha L (committed (snd (feedback_toggle mid r c (begin_txn s)))) b"
proof -
  have frame: "db_ok cfg sha L (s\<lparr>feedbacks := fs\<rparr>) b"
    if "f_message_id ` set fs \<subseteq> m_id ` set (messages s)" "distinct (map f_message_id fs)" for fs
    using ok that by (simp add: db_ok_def core_ok_def chats_ok_def directory_ok_def accounts_ok_def rules_ok_def backed_def)
  have c: "f_message_id ` set (feedbacks s) \<subseteq> m_id ` set (messages s)" "distinct (map f_message_id (feedbacks s))"
    using ok by (simp_all add: db_ok_def core_ok_def chats_ok_def)
  show ?thesis
  proof (cases "tbl_find f_message_id mid (feedbacks s)")
    case None
    then have "mid \<notin> f_message_id ` set (feedbacks s)" by (simp add: tbl_find_None tbl_keys_def)
    then show ?thesis using None ok c by (auto simp: feedback_toggle_def image_subset_iff intro!: frame)
  next
    case (Some f)
    have f: "f \<in> set (feedbacks s)" "f_message_id f = mid" using tbl_find_Some [OF Some] by simp_all
    let ?put = "tbl_put f_message_id (f\<lparr>f_rating := r, f_comment := c\<rparr>) (feedbacks s)"
    have "f_message_id ` set ?put \<subseteq> insert mid (f_message_id ` set (feedbacks s))"
      using set_tbl_put [of f_message_id "f\<lparr>f_rating := r, f_comment := c\<rparr>" "feedbacks s"] f by auto
    then have "db_ok cfg sha L (s\<lparr>feedbacks := ?put\<rparr>) b" using c f by (intro frame distinct_tbl_put) auto
    moreover have "db_ok cfg sha L (s\<lparr>feedbacks := tbl_del f_message_id mid (feedbacks s)\<rparr>) b"
      using c by (intro frame distinct_tbl_del) (auto simp: tbl_del_def)
    ultimately show ?thesis using Some by (simp add: feedback_toggle_def)
  qed
qed

section \<open>Retrieval and evaluation\<close>

lemma search_ok: "db_ok cfg sha L s b \<Longrightarrow> db_ok cfg sha L (committed (snd (search ccfg be now q k user (begin_txn s)))) b"
  using search_only_visible [where t = "begin_txn s"] by simp

lemma eval_run_grown:
  assumes run: "eval_run cfg be ragas now entries deadline \<lparr>ew_txn = begin_txn s, ew_runs = rs\<rparr> = (res, w)"
  shows "usage_grown s (committed (ew_txn w))"
proof (cases "check_daily_cap cfg s None now")
  case (Inl e)
  then show ?thesis using run by (auto simp: eval_run_def)
next
  case pass: (Inr warning)
  show ?thesis
  proof (cases deadline)
    case (Some k)
    obtain e t' where i: "interrupted cfg be now entries k (begin_txn s) = (e, t')" by fastforce
    show ?thesis using interrupted_grown [OF both_grown_begin i] pass Some i run by (auto simp: eval_run_def both_grown_def)
  next
    case None
    obtain r t' where l: "eval_loop cfg be now entries (begin_txn s) = (r, t')" by fastforce
    have "both_grown s t'" using eval_loop_grown [OF both_grown_begin l] by blast
    then show ?thesis using pass None l run
      by (auto simp: eval_run_def run_eval_def both_grown_def Let_def split: sum.splits)
  qed
qed

lemma eval_ok:
  assumes ok: "db_ok cfg sha L s b"
  shows "db_ok cfg sha L (committed (ew_txn (snd (eval_run ccfg be ragas now entries deadline \<lparr>ew_txn = begin_txn s, ew_runs = rs\<rparr>)))) b"
proof -
  obtain res w where run: "eval_run ccfg be ragas now entries deadline \<lparr>ew_txn = begin_txn s, ew_runs = rs\<rparr> = (res, w)" by fastforce
  have "usage_grown s (committed (ew_txn w))" by (rule eval_run_grown [OF run])
  then show ?thesis using usage_grown_ok ok run by simp
qed

section \<open>Rules\<close>

text \<open>Grants stay backed while the confirmed rules they come from stay.\<close>

lemma rules_ok_step:
  assumes "rules_ok L s" and "distinct (map r_id (access_rules s'))"
    and "\<And>a r. a \<in> set (document_acl s') \<Longrightarrow> a \<in> set (document_acl s) \<Longrightarrow> r \<in> set (access_rules s) \<Longrightarrow>
           r_state r = Confirmed \<Longrightarrow> a = rule_grant (a_doc_id a) r \<Longrightarrow> r \<in> set (access_rules s')"
    and "\<And>a. a \<in> set (document_acl s') \<Longrightarrow> a \<notin> set (document_acl s) \<Longrightarrow> backed L s' a"
  shows "rules_ok L s'"
proof -
  have "backed L s' a" if a: "a \<in> set (document_acl s')" for a
  proof (cases "a \<in> set (document_acl s)")
    case True
    then have "backed L s a" using assms(1) by (simp add: rules_ok_def)
    then show ?thesis using assms(3) [OF a True] unfolding backed_def by blast
  qed (rule assms(4) [OF a])
  then show ?thesis using assms(2) by (simp add: rules_ok_def)
qed

lemma db_ok_rules:
  assumes ok: "db_ok cfg sha L s b" and dir: "r_group_id ` set rs \<subseteq> g_id ` set (groups s)"
    and acl: "a_doc_id ` set acls \<subseteq> d_id ` set (documents s)" and rules: "rules_ok L (s\<lparr>access_rules := rs, document_acl := acls\<rparr>)"
  shows "db_ok cfg sha L (s\<lparr>access_rules := rs, document_acl := acls\<rparr>) b"
  using assms by (simp add: db_ok_def core_ok_def library_ok_def rows_ok_def blobs_ok_def directory_ok_def accounts_ok_def chats_ok_def)

lemma db_ok_parts:
  assumes "db_ok cfg sha L s b"
  shows "library_ok cfg sha s b" "directory_ok s" "accounts_ok s" "chats_ok s" "rules_ok L s" "distinct (map cn_id (connectors s))"
    "distinct (map r_id (access_rules s))" "r_group_id ` set (access_rules s) \<subseteq> g_id ` set (groups s)"
    "a_doc_id ` set (document_acl s) \<subseteq> d_id ` set (documents s)"
  using assms by (simp_all add: db_ok_def core_ok_def rules_ok_def directory_ok_def library_ok_def rows_ok_def)

lemma find_group_id: "find_group s g \<noteq> None \<Longrightarrow> g \<in> g_id ` set (groups s)"
  by (auto dest: tbl_find_Some)

lemma create_rule_ok:
  assumes ok: "db_ok cfg sha L s b" and new: "i \<notin> r_id ` set (access_rules s)"
  shows "db_ok cfg sha L (committed (snd (create_rule i name q g (begin_txn s)))) b"
proof (cases "find_group s g = None")
  case True
  then show ?thesis using ok by (simp add: create_rule_def)
next
  case False
  note p = db_ok_parts [OF ok]
  let ?rule = "\<lparr>r_id = i, r_name = name, r_nl_query = q, r_group_id = g, r_state = Draft, r_query_embedding = None, r_confirmed_at = None\<rparr>"
  have "rules_ok L (s\<lparr>access_rules := access_rules s @ [?rule], document_acl := document_acl s\<rparr>)"
    by (rule rules_ok_step [OF p(5)]) (use new p(7) in auto)
  then have "db_ok cfg sha L (s\<lparr>access_rules := access_rules s @ [?rule], document_acl := document_acl s\<rparr>) b"
    using p(8,9) find_group_id [OF False] by (intro db_ok_rules [OF ok]) auto
  moreover have "snd (create_rule i name q g (begin_txn s)) = commit_db (\<lambda>s. s\<lparr>access_rules := access_rules s @ [?rule]\<rparr>) (begin_txn s)"
    unfolding create_rule_def Let_def using False by auto
  ultimately show ?thesis by simp
qed

text \<open>What a patch leaves of a rule.\<close>

lemma patched_rule:
  assumes "patch (ru_group_id body) (\<lambda>v r. r\<lparr>r_group_id := v\<rparr>)
      (patch (ru_nl_query body) (\<lambda>v r. r\<lparr>r_nl_query := v\<rparr>)
        (patch (ru_name body) (\<lambda>v r. r\<lparr>r_name := v\<rparr>) (Inr rule))) = Inr rule'"
  shows "r_id rule' = r_id rule \<and> r_state rule' = r_state rule
     \<and> (r_group_id rule' = r_group_id rule \<or> ru_group_id body = Some (Some (r_group_id rule')))"
  using assms by (auto simp: patch_def split: option.splits sum.splits)

lemma set_rule_rows:
  assumes "distinct (map r_id (access_rules s))" and "rule \<in> set (access_rules s)" and "r_id rule = rid" and "r_id rule' = rid"
  shows "map r_id (access_rules (set_rule rid (\<lambda>_. rule') s)) = map r_id (access_rules s)"
    and "set (access_rules (set_rule rid (\<lambda>_. rule') s)) = insert rule' (set (access_rules s) - {rule})"
proof -
  show "map r_id (access_rules (set_rule rid (\<lambda>_. rule') s)) = map r_id (access_rules s)"
    using assms(4) by (simp add: set_rule_def)
  have "r_id x = rid \<longleftrightarrow> x = rule" if "x \<in> set (access_rules s)" for x
    using that assms(1-3) by (metis distinct_map inj_onD)
  then have "(\<lambda>x. if r_id x = rid then rule' else x) ` set (access_rules s) = (\<lambda>x. if x = rule then rule' else x) ` set (access_rules s)"
    by (intro image_cong) auto
  also have "\<dots> = insert rule' (set (access_rules s) - {rule})" using assms(2) by auto
  finally show "set (access_rules (set_rule rid (\<lambda>_. rule') s)) = insert rule' (set (access_rules s) - {rule})"
    by (simp add: set_rule_def)
qed

text \<open>A draft is replaced: nothing is backed by it yet.\<close>

lemma rules_ok_replaced:
  assumes ok: "rules_ok L s" and ids: "map r_id rs = map r_id (access_rules s)"
    and rs: "set rs = insert rule' (set (access_rules s) - {rule})" and draft: "r_state rule = Draft"
    and acls: "\<And>a. a \<in> set acls \<Longrightarrow> a \<in> set (document_acl s) \<or> a = rule_grant (a_doc_id a) rule' \<and> r_state rule' = Confirmed"
  shows "rules_ok L (s\<lparr>access_rules := rs, document_acl := acls\<rparr>)"
proof (rule rules_ok_step [OF ok], goal_cases)
  case 1
  then show ?case using ok by (simp add: ids rules_ok_def)
next
  case (2 a r)
  then have "r \<noteq> rule" using draft by auto
  then show ?case using 2 by (simp add: rs)
next
  case (3 a)
  then have "a = rule_grant (a_doc_id a) rule'" "r_state rule' = Confirmed" using acls [of a] by auto
  then show ?case unfolding backed_def by (auto simp: rs)
qed

lemma set_rule_eq: "set_rule rid f s = s\<lparr>access_rules := access_rules (set_rule rid f s), document_acl := document_acl s\<rparr>"
  by (simp add: set_rule_def)

lemma update_rule_ok:
  assumes ok: "db_ok cfg sha L s b"
  shows "db_ok cfg sha L (committed (snd (update_rule rid body (begin_txn s)))) b"
proof (cases "\<exists>rule'. fst (update_rule rid body (begin_txn s)) = Inr rule'")
  case False
  then have "snd (update_rule rid body (begin_txn s)) = begin_txn s"
    by (auto simp: update_rule_def split: sum.splits if_splits)
  then show ?thesis using ok by simp
next
  case True
  then obtain rule' where res: "fst (update_rule rid body (begin_txn s)) = Inr rule'" by blast
  then obtain rule where get: "get_rule_or_404 s rid = Inr rule" by (auto simp: update_rule_def split: sum.splits)
  have draft: "r_state rule = Draft" using res get by (auto simp: update_rule_def split: if_splits)
  have g: "\<not> (case ru_group_id body of Some (Some g) \<Rightarrow> find_group s g = None | _ \<Rightarrow> False)"
  proof
    assume "case ru_group_id body of Some (Some g) \<Rightarrow> find_group s g = None | _ \<Rightarrow> False"
    then show False using res unfolding update_rule_def txn_simps get sum.case by (simp only: draft if_True simp_thms) simp
  qed
  let ?patched = "patch (ru_group_id body) (\<lambda>v r. r\<lparr>r_group_id := v\<rparr>)
      (patch (ru_nl_query body) (\<lambda>v r. r\<lparr>r_nl_query := v\<rparr>)
        (patch (ru_name body) (\<lambda>v r. r\<lparr>r_name := v\<rparr>) (Inr rule)))"
  have eq: "update_rule rid body (begin_txn s) = (case ?patched of Inl e \<Rightarrow> (Inl e, begin_txn s)
      | Inr rule' \<Rightarrow> (Inr rule', commit_db (set_rule rid (\<lambda>_. rule')) (begin_txn s)))"
    unfolding update_rule_def txn_simps get sum.case draft using g by (simp only: if_False simp_thms)
  have patched: "?patched = Inr rule'" using res unfolding eq by (cases ?patched) simp_all
  have new: "committed (snd (update_rule rid body (begin_txn s))) = set_rule rid (\<lambda>_. rule') s"
    unfolding eq patched by simp
  note r = get_rule_id [OF get] and f = patched_rule [OF patched] and p = db_ok_parts [OF ok]
  have rule': "r_id rule' = rid" using r f by simp
  note rows = set_rule_rows [OF p(7) conjunct2 [OF r] conjunct1 [OF r] rule']
  let ?s = "set_rule rid (\<lambda>_. rule') s"
  have "r_group_id rule' \<in> g_id ` set (groups s)"
    using f g p(8) r find_group_id [where g = "r_group_id rule'" and s = s] by auto
  then have grp: "r_group_id ` set (access_rules ?s) \<subseteq> g_id ` set (groups s)" using rows(2) r f p(8) by auto
  have "db_ok cfg sha L (s\<lparr>access_rules := access_rules ?s, document_acl := document_acl s\<rparr>) b"
    by (rule db_ok_rules [OF ok grp p(9) rules_ok_replaced [OF p(5) rows draft]]) simp
  then show ?thesis unfolding new set_rule_eq [of rid "\<lambda>_. rule'" s, symmetric] .
qed

lemma delete_rule_ok:
  assumes ok: "db_ok cfg sha L s b"
  shows "db_ok cfg sha L (committed (snd (delete_rule rid (begin_txn s)))) b"
proof (cases "get_rule_or_404 s rid")
  case (Inl e)
  then show ?thesis using ok by (simp add: delete_rule_def)
next
  case (Inr rule)
  note r = get_rule_id [OF Inr] and p = db_ok_parts [OF ok]
  let ?rs = "tbl_del r_id rid (access_rules s)" and ?acl = "filter (\<lambda>a. a_source a \<noteq> AclRule rid) (document_acl s)"
  have "rules_ok L (s\<lparr>access_rules := ?rs, document_acl := ?acl\<rparr>)"
    by (rule rules_ok_step [OF p(5)]) (use p(7) in \<open>auto simp: tbl_del_def distinct_map_filter rule_grant_def dest: arg_cong [where f = a_source]\<close>)
  moreover have "r_group_id ` set ?rs \<subseteq> g_id ` set (groups s)" using p(8) by (auto simp: tbl_del_def)
  moreover have "a_doc_id ` set ?acl \<subseteq> d_id ` set (documents s)" using p(9) by auto
  ultimately have "db_ok cfg sha L (s\<lparr>access_rules := ?rs, document_acl := ?acl\<rparr>) b" by (intro db_ok_rules [OF ok])
  moreover have "committed (snd (delete_rule rid (begin_txn s))) = s\<lparr>access_rules := ?rs, document_acl := ?acl\<rparr>"
    using Inr r by (simp add: delete_rule_def)
  ultimately show ?thesis by simp
qed

lemma preview_rule_ok:
  assumes ok: "db_ok cfg sha L s b"
  shows "db_ok cfg sha L (committed (snd (preview_rule ccfg prov e now rid (begin_txn s)))) b"
proof (cases "get_rule_or_404 s rid")
  case (Inr rule)
  obtain res t1 where e: "embed_query ccfg prov now (r_nl_query rule) (begin_txn s) = (res, t1)" by fastforce
  have "committed (snd (preview_rule ccfg prov e now rid (begin_txn s))) = committed t1"
    using Inr e by (cases res) (simp_all add: preview_rule_def Let_def)
  then show ?thesis using ok only_usage_rows(1) [OF embed_query_usage [OF e]] by simp
qed (use ok in \<open>simp add: preview_rule_def\<close>)

lemma confirm_rule_ok:
  assumes ok: "db_ok cfg sha L s b"
  shows "db_ok cfg sha L (committed (snd (confirm_rule ccfg prov e now rid (begin_txn s)))) b"
proof (cases "fst (confirm_rule ccfg prov e now rid (begin_txn s))")
  case (Inl ex)
  have "committed (snd (confirm_rule ccfg prov e now rid (begin_txn s))) = s"
  proof (cases "get_rule_or_404 s rid")
    case (Inr rule)
    obtain res t1 where e: "embed_query ccfg prov now (r_nl_query rule) (begin_txn s) = (res, t1)" by fastforce
    then show ?thesis using Inl Inr only_usage_rows(1) [OF embed_query_usage [OF e]]
      by (cases res) (auto simp: confirm_rule_def Let_def split: if_splits)
  qed (simp add: confirm_rule_def)
  then show ?thesis using ok by simp
next
  case (Inr rule')
  obtain t' where run: "confirm_rule ccfg prov e now rid (begin_txn s) = (Inr rule', t')" using Inr by (metis prod.collapse)
  from confirm_rule_run [OF run] obtain rule emb t1 where get: "get_rule_or_404 s rid = Inr rule" and draft: "r_state rule = Draft"
    and emb: "embed_query ccfg prov now (r_nl_query rule) (begin_txn s) = (Inr emb, t1)"
    and rule': "rule' = rule\<lparr>r_query_embedding := Some emb, r_state := Confirmed, r_confirmed_at := Some now\<rparr>"
    and t': "t' = commit_db (insert_grants rule' (map (\<lambda>(d, sim). d_id d) (rule_candidates ccfg e emb (working t1))) \<circ> set_rule rid (\<lambda>_. rule')) t1"
    by (metis txn_simps(2))
  let ?s = "working t1" let ?ids = "map (\<lambda>(d, sim). d_id d) (rule_candidates ccfg e emb ?s)"
  have ok1: "db_ok cfg sha L ?s b"
    using only_usage_grown [OF embed_query_usage [OF emb]] usage_grown_ok ok by (metis txn_simps(2))
  have get1: "get_rule_or_404 ?s rid = Inr rule"
    using get only_usage_rows(5) [OF embed_query_usage [OF emb]] by (simp add: get_rule_or_404_def)
  note r = get_rule_id [OF get1] and p = db_ok_parts [OF ok1]
  have "r_id rule' = rid" using r rule' by simp
  note rows = set_rule_rows [OF p(7) conjunct2 [OF r] conjunct1 [OF r] this]
  let ?rs = "access_rules (set_rule rid (\<lambda>_. rule') ?s)"
  let ?acl = "document_acl ?s @ map (\<lambda>d. rule_grant d rule') (filter (\<lambda>d. rule_grant d rule' \<notin> set (document_acl ?s)) ?ids)"
  have new: "committed t' = ?s\<lparr>access_rules := ?rs, document_acl := ?acl\<rparr>"
    by (simp add: t' insert_grants_def set_rule_def)
  have "set ?ids \<subseteq> d_id ` set (documents ?s)"
    using set_rule_candidates [of ccfg e emb ?s] by (force simp: case_prod_beta)
  then have docs: "a_doc_id ` set ?acl \<subseteq> d_id ` set (documents ?s)" using p(9) by (auto simp: rule_grant_def)
  have grp: "r_group_id ` set ?rs \<subseteq> g_id ` set (groups ?s)" using rows(2) p(8) r rule' by auto
  have "rules_ok L (?s\<lparr>access_rules := ?rs, document_acl := ?acl\<rparr>)"
    by (rule rules_ok_replaced [OF p(5) rows draft]) (auto simp: rule_grant_def rule')
  then have "db_ok cfg sha L (committed t') b" unfolding new by (rule db_ok_rules [OF ok1 grp docs])
  then show ?thesis using run by simp
qed

end
