(* ===== verification/System_Reach.thy ===== *)
theory System_Reach imports System_Props begin

text \<open>
  The remaining steps keep the invariant of \<open>System_Props\<close>: accounts, groups and logins, connectors and syncs, scheduler
  rounds and scripts. So it holds in every reachable state, and with it that documents are seen through
  confirmed rules only; and a request of anyone but an administrator leaves alone what decides about access.
\<close>

section \<open>Accounts and groups\<close>

lemma db_ok_people:
  assumes ok: "db_ok cfg sha L s b" and "accounts_ok (s\<lparr>users := us, sessions := ss, api_keys := ks\<rparr>)"
    and "u_id ` set (users s) \<subseteq> u_id ` set us"
  shows "db_ok cfg sha L (s\<lparr>users := us, sessions := ss, api_keys := ks\<rparr>) b"
  using assms subset_trans [OF _ assms(3)] by (simp add: db_ok_def core_ok_def directory_ok_def chats_ok_def rules_ok_def backed_def)

lemma db_ok_directory:
  assumes ok: "db_ok cfg sha L s b" and dir: "directory_ok (s\<lparr>groups := gs, user_groups := ugs\<rparr>)"
  shows "db_ok cfg sha L (s\<lparr>groups := gs, user_groups := ugs\<rparr>) b"
  using assms by (simp add: db_ok_def core_ok_def accounts_ok_def chats_ok_def rules_ok_def backed_def)

lemma map_users_ok:
  assumes ok: "db_ok cfg sha L s b" and ids: "\<And>u. u_id (f u) = u_id u" and mails: "distinct (map (u_email \<circ> f) (users s))"
  shows "db_ok cfg sha L (s\<lparr>users := map f (users s)\<rparr>) b"
proof -
  have "accounts_ok (s\<lparr>users := map f (users s), sessions := sessions s, api_keys := api_keys s\<rparr>)"
    using db_ok_parts(3) [OF ok] mails ids by (simp add: accounts_ok_def o_def image_image)
  then have "db_ok cfg sha L (s\<lparr>users := map f (users s), sessions := sessions s, api_keys := api_keys s\<rparr>) b"
    using ids by (intro db_ok_people [OF ok]) (simp_all add: image_image)
  then show ?thesis by simp
qed

lemma new_user_ok:
  assumes ok: "db_ok cfg sha L s b" and "u_id u \<notin> u_id ` set (users s)" and "u_email u \<notin> u_email ` set (users s)"
  shows "db_ok cfg sha L (s\<lparr>users := users s @ [u]\<rparr>) b"
proof -
  have "db_ok cfg sha L (s\<lparr>users := users s @ [u], sessions := sessions s, api_keys := api_keys s\<rparr>) b"
    using db_ok_parts(3) [OF ok] assms(2,3) by (intro db_ok_people [OF ok]) (auto simp: accounts_ok_def)
  then show ?thesis by simp
qed

lemma update_user_ok:
  assumes ok: "db_ok cfg sha L s b"
  shows "db_ok cfg sha L (committed (snd (update_user uid body (begin_txn s)))) b"
proof (cases "find_user s uid")
  case None
  then show ?thesis using ok by (simp add: update_user_def)
next
  case (Some u)
  let ?patched = "patch_nullable (up_daily_cap body) (\<lambda>v u. u\<lparr>u_daily_cap_usd_override := v\<rparr>)
                 (patch_stamp (up_disabled_at body) (\<lambda>v u. u\<lparr>u_disabled_at := v\<rparr>)
                   (patch (up_is_admin body) (\<lambda>v u. u\<lparr>u_is_admin := v\<rparr>) (Inr u)))"
  show ?thesis
  proof (cases ?patched)
    case (Inl e)
    then show ?thesis using ok Some by (simp add: update_user_def)
  next
    case (Inr u')
    have u: "u_id u = uid" "u \<in> set (users s)" using tbl_find_Some [OF Some] by simp_all
    have u': "u_id u' = u_id u \<and> u_email u' = u_email u"
      using Inr by (auto simp: patch_nullable_def patch_stamp_def patch_def split: option.splits sum.splits stamp.splits)
    have "u_email (if u_id x = uid then u' else x) = u_email x" if "x \<in> set (users s)" for x
    proof (cases "u_id x = uid")
      case True
      then have "x = u" using that u db_ok_parts(3) [OF ok] by (metis accounts_ok_def distinct_map inj_onD)
      then show ?thesis using u' by simp
    qed simp
    then have "map (u_email \<circ> (\<lambda>x. if u_id x = uid then u' else x)) (users s) = map u_email (users s)" by simp
    then have "db_ok cfg sha L (s\<lparr>users := map (\<lambda>x. if u_id x = uid then u' else x) (users s)\<rparr>) b"
      using db_ok_parts(3) [OF ok] u u' by (intro map_users_ok [OF ok]) (simp_all only: accounts_ok_def, auto)
    moreover have "snd (update_user uid body (begin_txn s)) = commit_db (set_user uid (\<lambda>_. u')) (begin_txn s)"
      using Some Inr by (simp add: update_user_def)
    ultimately show ?thesis by (simp add: set_user_def)
  qed
qed

text \<open>A group request touches groups and memberships only.\<close>

lemma group_request_frame:
  "\<exists>gs ugs. working (snd (group_request req t)) = (working t)\<lparr>groups := gs, user_groups := ugs\<rparr>"
proof -
  have same: "\<exists>gs ugs. s = s\<lparr>groups := gs, user_groups := ugs\<rparr>" "\<exists>gs ugs. s\<lparr>groups := x\<rparr> = s\<lparr>groups := gs, user_groups := ugs\<rparr>"
    "\<exists>gs ugs. s\<lparr>user_groups := y\<rparr> = s\<lparr>groups := gs, user_groups := ugs\<rparr>"
    "\<exists>gs ugs. s\<lparr>groups := x, user_groups := y\<rparr> = s\<lparr>groups := gs, user_groups := ugs\<rparr>" for s :: db and x y
    by (rule exI [of _ "groups s"], rule exI [of _ "user_groups s"], simp,
        rule exI [of _ x], rule exI [of _ "user_groups s"], simp,
        rule exI [of _ "groups s"], rule exI [of _ y], simp, blast)
  show ?thesis
    by (cases req) (auto simp: create_group_def update_group_def set_group_name_def delete_group_def add_group_member_def
        remove_group_member_def Let_def same split: sum.split)
qed

lemma group_request_ok:
  assumes ok: "db_ok cfg sha L s b" and new: "names_fresh_id req s"
  shows "db_ok cfg sha L (committed (snd (group_request req (begin_txn s)))) b"
proof -
  obtain res t' where run: "group_request req (begin_txn s) = (res, t')" by fastforce
  have c: "committed t' = working t'" by (rule group_request_settles [OF run])
  have d: "case res of Inl e \<Rightarrow> t' = begin_txn s | Inr _ \<Rightarrow> directory_ok (working t')"
    using group_request_directory [of "begin_txn s" req res t'] db_ok_parts(2) [OF ok] new run by simp
  obtain gs ugs where f: "working t' = s\<lparr>groups := gs, user_groups := ugs\<rparr>"
    using group_request_frame [of req "begin_txn s"] run by auto
  show ?thesis
  proof (cases res)
    case (Inl e)
    then show ?thesis using d ok run by simp
  next
    case (Inr x)
    then show ?thesis using d run c f db_ok_directory [OF ok] by simp
  qed
qed

section \<open>Logins\<close>

lemma new_session_ok:
  assumes ok: "db_ok cfg sha L s b" and "uid \<in> u_id ` set (users s)"
  shows "db_ok cfg sha L (s\<lparr>sessions := sessions s @ [session_row ccfg env uid]\<rparr>) b"
proof -
  have "db_ok cfg sha L (s\<lparr>users := users s, sessions := sessions s @ [session_row ccfg env uid], api_keys := api_keys s\<rparr>) b"
    using db_ok_parts(3) [OF ok] assms(2) by (intro db_ok_people [OF ok]) (auto simp: accounts_ok_def session_row_def)
  then show ?thesis by simp
qed

lemma login_ok:
  assumes ok: "db_ok cfg sha L s b"
  shows "db_ok cfg sha L (committed (snd (login ccfg env email password (begin_txn s)))) b"
  using login_sound [where t = "begin_txn s" and cfg = ccfg and env = env and email = email and password = password] ok new_session_ok [OF ok]
  by (cases "login ccfg env email password (begin_txn s)") (auto split: sum.splits)

lemma logout_ok:
  assumes ok: "db_ok cfg sha L s b"
  shows "db_ok cfg sha L (committed (snd (logout env rq (begin_txn s)))) b"
proof -
  have "s_user_id (if p r then r\<lparr>s_revoked_at := Some now\<rparr> else r) = s_user_id r" for p :: "auth_session \<Rightarrow> bool" and r now by simp
  then have "db_ok cfg sha L (s\<lparr>users := users s, sessions := sessions (revoke h now s), api_keys := api_keys s\<rparr>) b" for h now
    using db_ok_parts(3) [OF ok] by (intro db_ok_people [OF ok]) (auto simp: accounts_ok_def revoke_def)
  then have "db_ok cfg sha L (revoke h now s) b" for h now by (simp add: revoke_def)
  then show ?thesis using ok by (auto simp: logout_def Let_def split: option.split)
qed

lemma upsert_ok:
  assumes ok: "db_ok cfg sha L s b" and new: "oi_user_id oi \<notin> u_id ` set (users s)"
    and up: "upsert_oidc_user oi sub email name s = Inr (uid, s1)"
  shows "db_ok cfg sha L s1 b \<and> uid \<in> u_id ` set (users s1) \<and> groups s1 = groups s"
proof (cases "tbl_find u_external_subject (Some sub) (users s)")
  case None
  then show ?thesis using up new by (auto simp: upsert_oidc_user_def split: if_splits intro!: new_user_ok [OF ok])
next
  case (Some u)
  let ?f = "\<lambda>x. if u_id x = u_id u then x\<lparr>u_email := email, u_display_name := (if Auth_Model.truthy_str name then name else u_display_name x)\<rparr> else x"
  have free: "\<not> (\<exists>x\<in>set (users s). u_id x \<noteq> u_id u \<and> u_email x = email)" and uid: "uid = u_id u"
    and s1: "s1 = s\<lparr>users := map ?f (users s)\<rparr>"
    using up Some by (auto simp: upsert_oidc_user_def split: if_splits)
  have mails: "distinct (map u_id us) \<Longrightarrow> distinct (map u_email us) \<Longrightarrow> \<forall>x\<in>set us. u_id x = u_id u \<or> u_email x \<noteq> email \<Longrightarrow>
      distinct (map (u_email \<circ> ?f) us)" for us
    by (induction us) (auto simp: image_iff)
  have "distinct (map (u_email \<circ> ?f) (users s))"
    by (rule mails) (use free db_ok_parts(3) [OF ok] in \<open>auto simp: accounts_ok_def\<close>)
  then have "db_ok cfg sha L s1 b" unfolding s1 by (intro map_users_ok [OF ok]) simp_all
  moreover have "map u_id (users s1) = map u_id (users s)" by (simp add: s1)
  then have "u_id ` set (users s1) = u_id ` set (users s)" by (metis set_map)
  then have "uid \<in> u_id ` set (users s1)" using tbl_find_Some [OF Some] by (simp add: uid)
  ultimately show ?thesis by (simp add: s1)
qed

lemma seed_loop_frame:
  "seed_loop fresh uid n exts s = Inr s' \<Longrightarrow> \<exists>gs ugs. s' = s\<lparr>groups := gs, user_groups := ugs\<rparr>"
proof (induction fresh uid n exts s rule: seed_loop.induct)
  case (1 fresh uid n s)
  then show ?case by (intro exI [of _ "groups s"] exI [of _ "user_groups s"]) simp
next
  case (2 fresh uid n ext exts s)
  show ?case
  proof (cases "find_idp_group s ext")
    case None
    then show ?thesis using 2(1) [OF None] 2(3) by (auto split: if_splits)
  next
    case (Some g)
    then show ?thesis using 2(2) [OF Some] 2(3) by (auto split: if_splits)
  qed
qed

lemma oidc_ok:
  assumes ok: "db_ok cfg sha L s b" and new: "oi_user_id oi \<notin> u_id ` set (users s)"
    and groups: "inj (oi_group_id oi)" "range (oi_group_id oi) \<inter> g_id ` set (groups s) = {}"
  shows "db_ok cfg sha L (committed (snd (oidc_callback ccfg env oi path rq code_param state (begin_txn s)))) b"
proof (cases "\<exists>resp. fst (oidc_callback ccfg env oi path rq code_param state (begin_txn s)) = Inr resp")
  case False
  then have "snd (oidc_callback ccfg env oi path rq code_param state (begin_txn s)) = begin_txn s"
    by (auto simp: oidc_callback_def create_session_def split: sum.splits prod.splits option.splits if_splits)
  then show ?thesis using ok by simp
next
  case True
  then obtain cl where cl: "oidc_login_claims ccfg oi path rq code_param state = Inr cl"
    by (auto simp: oidc_callback_def split: sum.splits)
  then obtain uid s1 where up: "upsert_oidc_user oi (the (cl_sub cl)) (the (cl_email cl)) (cl_name cl) s = Inr (uid, s1)"
    using True by (auto simp: oidc_callback_def split: sum.splits if_splits)
  then obtain s2 where seed: "(case cl_groups cl of None \<Rightarrow> Inr s1 | Some gs \<Rightarrow> seed_idp_groups (oi_group_id oi) uid gs s1) = Inr s2"
    using True cl by (cases "case cl_groups cl of None \<Rightarrow> Inr s1 | Some gs \<Rightarrow> seed_idp_groups (oi_group_id oi) uid gs s1")
      (auto simp: oidc_callback_def split: if_splits)
  have new: "committed (snd (oidc_callback ccfg env oi path rq code_param state (begin_txn s)))
      = s2\<lparr>sessions := sessions s2 @ [session_row ccfg env uid]\<rparr>"
    using True cl up seed by (auto simp: oidc_callback_def create_session_def split: if_splits)
  note u = upsert_ok [OF ok assms(2) up]
  have "db_ok cfg sha L s2 b \<and> users s2 = users s1"
  proof (cases "cl_groups cl")
    case None
    then show ?thesis using seed u by simp
  next
    case (Some gs)
    then have run: "seed_loop (oi_group_id oi) uid 0 gs (drop_idp_memberships uid s1) = Inr s2"
      using seed by (simp add: seed_idp_groups_def)
    have "\<forall>k\<ge>0. oi_group_id oi k \<notin> g_id ` set (groups (drop_idp_memberships uid s1))"
      using groups(2) u by (auto simp: drop_idp_memberships_def)
    then have d: "directory_ok s2"
      using u by (intro seed_loop_directory [OF drop_idp_directory [OF db_ok_parts(2)] _ groups(1) _ run])
        (auto simp: drop_idp_memberships_def)
    obtain gs' ugs where "s2 = s1\<lparr>groups := gs', user_groups := ugs\<rparr>"
      using seed_loop_frame [OF run] by (auto simp: drop_idp_memberships_def)
    then show ?thesis using d db_ok_directory [of cfg sha L s1 b] u by simp
  qed
  then show ?thesis using new_session_ok [of cfg sha L s2 b uid ccfg env] u new by simp
qed

section \<open>Scripts for credentials\<close>

lemma create_admin_ok:
  assumes ok: "db_ok cfg sha L s b" and new: "i \<notin> u_id ` set (users s)"
  shows "db_ok cfg sha L (committed (snd (create_admin hash i generated email password reset (begin_txn s)))) b"
proof (cases "tbl_find u_email email (users s)")
  case None
  then have "email \<notin> u_email ` set (users s)" by (simp add: tbl_find_None tbl_keys_def)
  then show ?thesis using None new by (simp add: create_admin_def Let_def new_user_ok [OF ok])
next
  case (Some u)
  let ?f = "\<lambda>h x. if u_email x = email then x\<lparr>u_password_hash := Some h, u_is_admin := True\<rparr> else x"
  have "map (u_email \<circ> ?f h) (users s) = map u_email (users s)" for h by simp
  then have "db_ok cfg sha L (s\<lparr>users := map (?f h) (users s)\<rparr>) b" for h
    using db_ok_parts(3) [OF ok] by (intro map_users_ok [OF ok]) (simp_all only: accounts_ok_def, simp)
  then show ?thesis using Some ok by (simp add: create_admin_def Let_def)
qed

lemma create_api_key_ok:
  assumes ok: "db_ok cfg sha L s b"
  shows "db_ok cfg sha L (committed (snd (create_api_key hash generated name collection (begin_txn s)))) b"
proof -
  have "db_ok cfg sha L (s\<lparr>users := users s, sessions := sessions s, api_keys := api_keys s @
      [\<lparr>k_key_hash = hash generated, k_name = name, k_collection = collection, k_user_id = None\<rparr>]\<rparr>) b"
    using db_ok_parts(3) [OF ok] by (intro db_ok_people [OF ok]) (auto simp: accounts_ok_def)
  then show ?thesis by (simp add: create_api_key_def)
qed

section \<open>Connectors, syncs and uploads\<close>

abbreviation world_ok :: "settings \<Rightarrow> (string \<Rightarrow> string) \<Rightarrow> acl set \<Rightarrow> ingest_world \<Rightarrow> bool" where
  "world_ok cfg sha L w \<equiv> settled w \<and> db_ok cfg sha L (working (iw_txn w)) (iw_blobs w)"

lemma get_session_ok: "system_ok cfg sha L st \<Longrightarrow> world_ok cfg sha L (get_session st)"
  by (simp add: system_ok_def get_session_def settled_def)

lemma close_session_ok: "world_ok cfg sha L w \<Longrightarrow> system_ok cfg sha L (close_session st w)"
  by (simp add: system_ok_def close_session_def settled_def)

lemma in_world_ok: "world_ok cfg sha L (snd (handler (get_session st))) \<Longrightarrow> system_ok cfg sha L (snd (in_world handler st))"
  using close_session_ok by (auto simp: in_world_def split: prod.split)

lemma db_ok_connectors:
  "db_ok cfg sha L s b \<Longrightarrow> distinct (map cn_id cs) \<Longrightarrow> db_ok cfg sha L (s\<lparr>connectors := cs\<rparr>) b"
  "db_ok cfg sha L s b \<Longrightarrow> distinct (map cn_id cs) \<Longrightarrow> db_ok cfg sha L (s\<lparr>connectors := cs, connector_items := its\<rparr>) b"
  by (simp_all add: db_ok_def)

lemma set_connector_ok:
  assumes "world_ok cfg sha L w" and "\<And>c. cn_id c = cid \<Longrightarrow> cn_id (f c) = cid"
  shows "world_ok cfg sha L (commit_update (set_connector cid f) w)"
proof -
  have "map cn_id (map (\<lambda>c. if cn_id c = cid then f c else c) cs) = map cn_id cs" for cs using assms(2) by simp
  then have "distinct (map cn_id (map (\<lambda>c. if cn_id c = cid then f c else c) (connectors (working (iw_txn w)))))"
    using assms(1) by (simp only: db_ok_def)
  then show ?thesis using assms(1) db_ok_connectors(1) by (simp add: set_connector_def)
qed

lemma create_connector_ok:
  assumes w: "world_ok cfg sha L w" and "i \<notin> cn_id ` set (connectors (working (iw_txn w)))"
  shows "world_ok cfg sha L (snd (create_connector i name collection enabled w))"
  using assms by (auto simp: create_connector_def Let_def db_ok_def)

lemma update_connector_ok:
  assumes w: "world_ok cfg sha L w"
  shows "world_ok cfg sha L (snd (update_connector cid body w))"
proof (cases "get_or_404 (working (iw_txn w)) cid")
  case (Inl e)
  then show ?thesis using w by (simp add: update_connector_def)
next
  case (Inr row)
  then have id: "cn_id row = cid" using tbl_find_Some by (fastforce simp: get_or_404_def split: option.splits)
  let ?patched = "patch (cu_enabled body) (\<lambda>v c. c\<lparr>cn_enabled := v\<rparr>)
                 (patch (cu_collection body) (\<lambda>v c. c\<lparr>cn_collection := v\<rparr>)
                   (patch (cu_name body) (\<lambda>v c. c\<lparr>cn_name := v\<rparr>) (Inr row)))"
  show ?thesis
  proof (cases ?patched)
    case err: (Inl e)
    then show ?thesis using w Inr by (simp add: update_connector_def)
  next
    case new: (Inr row')
    then have "cn_id row' = cid" using id by (auto simp: patch_def split: option.splits sum.splits)
    then show ?thesis using set_connector_ok [OF w, of cid "\<lambda>_. row'"] Inr new by (simp add: update_connector_def)
  qed
qed

lemma delete_connector_ok:
  assumes w: "world_ok cfg sha L w"
  shows "world_ok cfg sha L (snd (delete_connector cid w))"
proof (cases "get_or_404 (working (iw_txn w)) cid")
  case (Inr row)
  have "distinct (map cn_id (tbl_del cn_id cid (connectors (working (iw_txn w)))))"
    using w by (simp add: db_ok_def distinct_tbl_del)
  then show ?thesis using w Inr db_ok_connectors(2) by (simp add: delete_connector_def)
qed (use w in \<open>simp add: delete_connector_def\<close>)

lemma full_sweep_settled:
  assumes "settled w"
  shows "settled (snd (full_sweep (ingest_fresh icfg) cfg env row w))"
proof (cases "full_sweep (ingest_fresh icfg) cfg env row w")
  case (Pair r w1)
  show ?thesis
  proof (cases r)
    case (Inl e)
    then show ?thesis using full_sweep_connectors [OF assms Pair] Pair assms by simp
  next
    case (Inr rep)
    then show ?thesis using full_sweep_run [OF Pair [unfolded Inr]] Pair by (metis commit_update_simps(4) snd_conv)
  qed
qed

lemma sync_incremental_settled:
  assumes "settled w"
  shows "settled (snd (sync_incremental (ingest_fresh icfg) cfg env row w))"
  using assms by (auto simp: sync_incremental_def split: sum.split prod.split)

lemma sync_ok:
  assumes w: "world_ok cfg sha L w" and ok: "\<forall>k. polite cfg sha (sy_ingest env k)"
  shows "world_ok cfg sha L (snd (full_sweep (ingest_fresh cfg) cfg env row w))"
    and "world_ok cfg sha L (snd (sync_incremental (ingest_fresh cfg) cfg env row w))"
proof -
  have s: "settled w" and c: "core_ok cfg sha L (working (iw_txn w)) (iw_blobs w)" and d: "distinct (connector_ids w)"
    using w by (simp_all add: db_ok_def)
  obtain r1 w1 where 1: "full_sweep (ingest_fresh cfg) cfg env row w = (r1, w1)" by fastforce
  obtain r2 w2 where 2: "sync_incremental (ingest_fresh cfg) cfg env row w = (r2, w2)" by fastforce
  have "settled w1" using full_sweep_settled [OF s, of cfg cfg env row] 1 by simp
  moreover have "connector_ids w1 = connector_ids w"
    by (cases r1) (use full_sweep_connectors [OF s 1] set_connector_ids in \<open>auto simp: set_connector_def\<close>)
  ultimately show "world_ok cfg sha L (snd (full_sweep (ingest_fresh cfg) cfg env row w))"
    using app.full_sweep_inv [OF s ok c, of cfg row] d by (simp add: 1 db_ok_def)
  have "settled w2" using sync_incremental_settled [OF s, of cfg cfg env row] 2 by simp
  moreover have "connector_ids w2 = connector_ids w"
    by (cases r2) (use sync_incremental_connectors [OF s 2] set_connector_ids in \<open>auto simp: set_connector_def\<close>)
  ultimately show "world_ok cfg sha L (snd (sync_incremental (ingest_fresh cfg) cfg env row w))"
    using app.sync_incremental_inv [OF s ok c, of cfg row] d by (simp add: 2 db_ok_def)
qed

lemma sync_connector_ok:
  assumes w: "world_ok cfg sha L w" and ok: "\<forall>k. polite cfg sha (sy_ingest env k)"
  shows "world_ok cfg sha L (snd (sync_connector (ingest_fresh cfg) cfg env locked cid full w))"
proof (cases "get_or_404 (working (iw_txn w)) cid")
  case (Inl e)
  then show ?thesis using w by (simp add: sync_connector_def)
next
  case (Inr row)
  show ?thesis
  proof (cases "locked cid")
    case True
    then show ?thesis using w Inr by (simp add: sync_connector_def)
  next
    case False
    let ?run = "if full then full_sweep (ingest_fresh cfg) cfg env row w else sync_incremental (ingest_fresh cfg) cfg env row w"
    have "world_ok cfg sha L (snd ?run)" using sync_ok [OF w ok] by simp
    moreover have "snd (sync_connector (ingest_fresh cfg) cfg env locked cid full w) = snd ?run"
      unfolding sync_connector_def Inr sum.case if_not_P [OF False]
      by (cases ?run) (auto split: sum.split exn.split simp del: if_split)
    ultimately show ?thesis by simp
  qed
qed

lemma run_one_ok:
  assumes w: "world_ok cfg sha L w" and ok: "\<forall>k. polite cfg sha (sy_ingest env k)"
  shows "world_ok cfg sha L (run_one (ingest_fresh cfg) cfg env cid now w)"
proof (cases "find_connector (working (iw_txn w)) cid")
  case None
  then show ?thesis using w by (simp add: run_one_def)
next
  case (Some row)
  show ?thesis
  proof (cases "\<not> cn_enabled row \<or> due cfg now row = Wait")
    case True
    then show ?thesis using w Some by (auto simp: run_one_def)
  next
    case False
    let ?run = "if due cfg now row = Sweep then full_sweep (ingest_fresh cfg) cfg env row w else sync_incremental (ingest_fresh cfg) cfg env row w"
    obtain res w1 where run: "?run = (res, w1)" by fastforce
    then have w1: "world_ok cfg sha L w1" using sync_ok [OF w ok, of row] by (cases "due cfg now row = Sweep") simp_all
    then have "w1\<lparr>iw_txn := txn_rollback (iw_txn w1)\<rparr> = w1"
      by (cases w1; cases "iw_txn w1") (simp add: settled_def txn_rollback_def)
    then have "run_one (ingest_fresh cfg) cfg env cid now w = commit_update (set_connector cid
        (\<lambda>c. c\<lparr>cn_last_error := (case res of Inl e \<Rightarrow> Some (exn_str e) | Inr _ \<Rightarrow> None)\<rparr>)) w1"
      unfolding run_one_def Some option.case if_not_P [OF False] run by (cases res) simp_all
    moreover have "world_ok cfg sha L (commit_update (set_connector cid
        (\<lambda>c. c\<lparr>cn_last_error := (case res of Inl e \<Rightarrow> Some (exn_str e) | Inr _ \<Rightarrow> None)\<rparr>)) w1)"
      by (rule set_connector_ok [OF w1]) simp
    ultimately show ?thesis by (simp only:)
  qed
qed

lemma tick_loop_ok:
  "world_ok cfg sha L w \<Longrightarrow> \<forall>cid k. polite cfg sha (sy_ingest (env cid) k) \<Longrightarrow>
     world_ok cfg sha L (tick_loop (ingest_fresh cfg) cfg env locked now cids w)"
proof (induction cids arbitrary: w)
  case (Cons cid cids)
  have "world_ok cfg sha L (if locked cid then w else run_one (ingest_fresh cfg) cfg (env cid) cid now w)"
    using Cons.prems(1) run_one_ok [OF Cons.prems(1) spec [OF Cons.prems(2)]] by (cases "locked cid") (simp_all only: if_True if_False)
  from Cons.IH [OF this Cons.prems(2)] show ?case by simp
qed simp

lemma tick_round_ok:
  assumes "world_ok cfg sha L w" and "\<forall>cid k. polite cfg sha (sy_ingest (lr_env r cid) k)"
  shows "world_ok cfg sha L (snd (tick_round (ingest_fresh cfg) cfg r w))"
  using tick_loop_ok [OF assms] by (auto simp: tick_round_def tick_def split: option.split)

lemma ingest_ok:
  assumes w: "world_ok cfg sha L w" and ok: "polite cfg sha env" and new: "ie_doc_id env \<notin> d_id ` set (documents (working (iw_txn w)))"
    and run: "ingest_bytes cfg env data filename collection w = (out, w')"
  shows "world_ok cfg sha L w'"
proof -
  have s: "settled w" and c: "core_ok cfg sha L (working (iw_txn w)) (iw_blobs w)" using w by (simp_all add: db_ok_def)
  have "connectors (working (iw_txn w')) = connectors (working (iw_txn w))"
    using ingest_bytes_frame [OF s, of cfg env data filename collection] run by simp
  then show ?thesis using ingest_core [OF s ok new c run] w by (simp add: db_ok_def)
qed

lemma upload_ok:
  assumes w: "world_ok cfg sha L w" and ok: "polite cfg sha env"
  shows "world_ok cfg sha L (snd (with_fresh_id (\<lambda>ie. ingest_upload cfg ie name pieces collection) env w))"
proof -
  let ?env = "env\<lparr>ie_doc_id := fresh_doc_id (working (iw_txn w))\<rparr>"
  have "world_ok cfg sha L (snd (ingest_bytes cfg ?env data filename collection w))" for data filename
    using ingest_ok [OF w, of ?env] ok fresh_doc_id_fresh by (simp add: polite_def) (metis prod.collapse)
  then show ?thesis using w by (auto simp: with_fresh_id_def ingest_upload_def Let_def split: sum.split)
qed

lemma delete_document_ok:
  assumes "world_ok cfg sha L w"
  shows "world_ok cfg sha L (commit_update (delete_document i) w)"
proof -
  have "connectors (delete_document i s) = connectors s" for s by (simp add: delete_document_def)
  then show ?thesis using assms core_ok_delete by (simp add: db_ok_def)
qed

lemma reingest_one_ok:
  assumes w: "world_ok cfg sha L w" and ok: "polite cfg sha env"
  shows "world_ok cfg sha L (snd (reingest_one cfg env d w))"
proof (cases "iw_blobs w (d_blob_path d)")
  case None
  then show ?thesis using w by (simp add: reingest_one_def)
next
  case (Some data)
  let ?env = "env\<lparr>ie_doc_id := fresh_doc_id (working (iw_txn w))\<rparr>" and ?w1 = "commit_update (delete_document (d_id d)) w"
  obtain res w2 where run: "ingest_bytes cfg ?env data (d_filename d) (d_collection d) ?w1 = (res, w2)" by fastforce
  have "fresh_doc_id (working (iw_txn w)) \<notin> d_id ` set (documents (delete_document (d_id d) (working (iw_txn w))))"
    by (rule fresh_doc_id_grows) (auto simp: delete_document_def tbl_del_def)
  then have w2: "world_ok cfg sha L w2"
    using ok by (intro ingest_ok [OF delete_document_ok [OF w] _ _ run]) (simp_all add: polite_def)
  then have "w2\<lparr>iw_txn := txn_commit (iw_txn w2)\<rparr> = w2"
    by (cases w2; cases "iw_txn w2") (simp add: settled_def txn_commit_def)
  then show ?thesis using w2 Some run by (cases res) (simp_all add: reingest_one_def Let_def)
qed

lemma reingest_all_ok:
  "world_ok cfg sha L w \<Longrightarrow> \<forall>k. polite cfg sha (envs k) \<Longrightarrow> world_ok cfg sha L (snd (reingest_all cfg envs n ds w))"
proof (induction cfg envs n ds w rule: reingest_all.induct)
  case (2 cfg envs n d ds w)
  obtain res w1 where run: "reingest_one cfg (envs n) d w = (res, w1)" by fastforce
  have w1: "world_ok cfg sha L w1" using reingest_one_ok [OF 2(2), of "envs n" d] 2(3) run by simp
  then show ?case using 2(1) [OF run [symmetric]] 2(3) run by (cases res) simp_all
qed simp

section \<open>Every step keeps the invariant\<close>

lemma in_txn_ok:
  assumes "system_ok cfg sha L st" and "db_ok cfg sha L (committed (snd (handler (begin_txn (as_db st))))) (as_blobs st)"
  shows "system_ok cfg sha L (snd (in_txn handler st))"
  using assms by (auto simp: in_txn_def get_session_def close_session_def system_ok_def split: prod.split)

lemmas txn_call_ok = chat_ok chat_stream_ok feedback_ok search_ok create_rule_ok update_rule_ok delete_rule_ok preview_rule_ok
  confirm_rule_ok update_user_ok group_request_ok login_ok oidc_ok

lemmas world_call_ok = update_connector_ok delete_connector_ok sync_connector_ok upload_ok

lemma handle_ok:
  assumes st: "system_ok cfg sha L st" and ok: "call_ok cfg sha c (as_db st)"
  shows "system_ok cfg sha L (snd (handle cfg env rq user c st))"
proof -
  have s: "db_ok cfg sha L (as_db st) (as_blobs st)" using st by (simp add: system_ok_def)
  have w: "world_ok cfg sha L (get_session st)" by (rule get_session_ok [OF st])
  note txn = in_txn_ok [OF st] txn_call_ok [OF s] and wrld = in_world_ok world_call_ok [OF w]
  show ?thesis
  proof (cases c)
    case (EvalRun be ragas now entries deadline)
    then show ?thesis using eval_ok [OF s, of cfg be ragas now entries deadline "as_runs st"]
      by (auto simp: eval_endpoint_def system_ok_def split: prod.split)
  next
    case (CreateConnector i n coll e)
    then show ?thesis using ok create_connector_ok [OF w, of i n coll e] by (auto simp: get_session_def intro!: in_world_ok)
  next
    case Logout
    then show ?thesis using logout_ok [OF s] by (auto intro!: in_txn_ok [OF st])
  qed (use ok in \<open>simp_all add: txn wrld\<close>)
qed

lemma happens_ok:
  assumes st: "system_ok cfg sha L st" and ok: "event_ok cfg sha ev (as_db st)"
  shows "system_ok cfg sha L (happens cfg ev st)"
proof -
  have s: "db_ok cfg sha L (as_db st) (as_blobs st)" using st by (simp add: system_ok_def)
  note w = get_session_ok [OF st]
  show ?thesis
  proof (cases ev)
    case (Request env rq c)
    then show ?thesis using st ok handle_ok [OF st, of c env rq] by (auto simp: serve_def split: sum.split)
  next
    case (Round r)
    then show ?thesis using ok close_session_ok [OF tick_round_ok [OF w]] by simp
  next
    case (Reingest envs ids all_docs)
    then show ?thesis using ok close_session_ok [OF reingest_all_ok [OF w]] by (simp add: reingest_def)
  next
    case (CreateAdmin hash i generated email password reset)
    then show ?thesis using ok create_admin_ok [OF s] by (auto intro!: in_txn_ok [OF st])
  next
    case (CreateApiKey hash generated name collection)
    then show ?thesis using create_api_key_ok [OF s] by (auto intro!: in_txn_ok [OF st])
  qed
qed

lemma app_step_ok: "app_step cfg sha st st' \<Longrightarrow> system_ok cfg sha L st \<Longrightarrow> system_ok cfg sha L st'"
  by (elim app_step_elim) (simp add: happens_ok)

lemma reachable_ok: "(app_step cfg sha)\<^sup>*\<^sup>* st st' \<Longrightarrow> system_ok cfg sha L st \<Longrightarrow> system_ok cfg sha L st'"
  by (induction rule: rtranclp_induct) (simp_all add: app_step_ok)

lemma fresh_install_ok: "system_ok cfg sha L fresh_install"
  by (simp add: system_ok_def fresh_install_def empty_db_def db_ok_def core_ok_def part_defs)

end
