(* ===== verification/System_Access.thy ===== *)
theory System_Access imports System_Reach begin

text \<open>
  The properties of the composed application: its invariant, what lets a user see a document, and who can change that.
\<close>

section \<open>The invariant\<close>


section \<open>Who sees what\<close>

text \<open>A rule gives a user a document: it is confirmed, names a group of the user's, and the document is in its audit feed.\<close>

definition granted_by_rule :: "db \<Rightarrow> user \<Rightarrow> uuid \<Rightarrow> bool" where
  "granted_by_rule s u doc \<longleftrightarrow>
     (\<exists>r\<in>set (access_rules s). r_state r = Confirmed \<and> r_group_id r \<in> set (group_ids_of s (u_id u))
        \<and> rule_grant doc r \<in> set (document_acl s))"

definition granted_locally :: "acl set \<Rightarrow> db \<Rightarrow> user \<Rightarrow> uuid \<Rightarrow> bool" where
  "granted_locally L s u doc \<longleftrightarrow>
     (\<exists>a\<in>L. a \<in> set (document_acl s) \<and> a_source a = AclLocal \<and> a_doc_id a = doc \<and> acl_grants s (u_id u) a)"

lemma sees_granted:
  assumes ok: "rules_ok L s" and user: "\<not> u_is_admin u"
  shows "sees s (Some u) doc \<longleftrightarrow> granted_by_rule s u doc \<or> granted_locally L s u doc"
proof
  assume "sees s (Some u) doc"
  then obtain a where a: "a \<in> set (document_acl s)" "a_doc_id a = doc" "acl_grants s (u_id u) a"
    unfolding sees_user [OF user] by blast
  then have "backed L s a" using ok by (simp add: rules_ok_def)
  then show "granted_by_rule s u doc \<or> granted_locally L s u doc"
    unfolding backed_def
  proof (elim disjE conjE bexE)
    fix r assume r: "r \<in> set (access_rules s)" "r_state r = Confirmed" "a = rule_grant (a_doc_id a) r"
    then have "rule_grant doc r \<in> set (document_acl s)" "acl_grants s (u_id u) (rule_grant doc r)" using a by simp_all
    moreover from this have "r_group_id r \<in> set (group_ids_of s (u_id u))" by (simp add: acl_grants_def rule_grant_def)
    ultimately show ?thesis using r unfolding granted_by_rule_def by blast
  qed (use a in \<open>auto simp: granted_locally_def\<close>)
next
  assume "granted_by_rule s u doc \<or> granted_locally L s u doc"
  then show "sees s (Some u) doc"
    unfolding sees_user [OF user] granted_by_rule_def granted_locally_def
    by (force simp: acl_grants_def rule_grant_def)
qed

lemma retrieved_granted:
  assumes ok: "rules_ok L s" and user: "\<not> u_is_admin u"
  shows "case fst (retrieve cfg be now question (Some u) (begin_txn s)) of
      Inl e \<Rightarrow> True
    | Inr (hits, cleaned) \<Rightarrow>
        list_all (\<lambda>h. case h_doc_id h of None \<Rightarrow> False | Some doc \<Rightarrow> granted_by_rule s u doc \<or> granted_locally L s u doc) hits"
proof (cases "retrieve cfg be now question (Some u) (begin_txn s)")
  case (Pair res t)
  show ?thesis
  proof (cases res)
    case (Inr p)
    obtain hits cleaned where p: "p = (hits, cleaned)" by fastforce
    have "list_all (legal_hit s (Some u)) hits" using retrieve_legal(1) [OF Pair [unfolded Inr p]] by simp
    then have "list_all (\<lambda>h. case h_doc_id h of None \<Rightarrow> False | Some doc \<Rightarrow> granted_by_rule s u doc \<or> granted_locally L s u doc) hits"
      by (auto simp: list_all_iff list_ex_iff legal_hit_def sees_granted [OF ok user] dest!: bspec)
    then show ?thesis using Pair Inr p by simp
  qed (simp add: Pair)
qed

text \<open>
  C2. Access comes from rules only: in every reachable state, a user who is no administrator sees a document exactly
  when a confirmed rule that still exists and names one of his groups has granted it, or one of the local grants of the
  start does; the group of every such rule exists; and whatever a question of his retrieves, for an answer, a
  stream or a citation, comes from such documents.
\<close>

theorem access_only_through_rules:
  assumes "(app_step cfg sha)\<^sup>*\<^sup>* st st'" and "system_ok cfg sha L st" and "\<not> u_is_admin u"
  shows "(sees (as_db st') (Some u) doc \<longleftrightarrow> granted_by_rule (as_db st') u doc \<or> granted_locally L (as_db st') u doc)
     \<and> r_group_id ` set (access_rules (as_db st')) \<subseteq> g_id ` set (groups (as_db st'))
     \<and> (case fst (retrieve cfg be now question (Some u) (begin_txn (as_db st'))) of
          Inl e \<Rightarrow> True
        | Inr (hits, cleaned) \<Rightarrow>
            list_all (\<lambda>h. case h_doc_id h of None \<Rightarrow> False
              | Some doc \<Rightarrow> granted_by_rule (as_db st') u doc \<or> granted_locally L (as_db st') u doc) hits)"
proof -
  have "db_ok cfg sha L (as_db st') (as_blobs st')" using reachable_ok [OF assms(1,2)] by (simp add: system_ok_def)
  note p = db_ok_parts(5,8) [OF this]
  show ?thesis using sees_granted [OF p(1) assms(3)] p(2) retrieved_granted [OF p(1) assms(3)] by blast
qed

section \<open>Who changes what\<close>

definition admin_endpoints :: "string list" where
  "admin_endpoints =
     [''create_connector'', ''update_connector'', ''delete_connector'', ''sync_connector'',
      ''create_rule'', ''update_rule'', ''delete_rule'', ''preview_rule'', ''confirm_rule'', ''update_user'',
      ''create_group'', ''update_group'', ''delete_group'', ''add_group_member'', ''remove_group_member'']"

lemma admin_endpoints_guarded: "list_all (\<lambda>e. RequireAdmin \<in> set (deps_of e)) admin_endpoints"
  by code_simp

definition nobody_or_user :: "user option \<Rightarrow> bool" where
  "nobody_or_user u = (case u of None \<Rightarrow> True | Some x \<Rightarrow> \<not> u_is_admin x)"

lemma refused_without_admin:
  assumes "auth_enabled cfg" and "nobody_or_user (current_user env rq (as_db st))" and "endpoint_of c \<in> set admin_endpoints"
  shows "snd (serve cfg env rq c st) = st"
proof -
  have "require_admin cfg (current_user env rq (as_db st)) \<noteq> Inr ()"
    using assms(1,2) by (auto simp: require_admin_def nobody_or_user_def split: option.splits)
  moreover have "RequireAdmin \<in> set (deps_of (endpoint_of c))" using admin_endpoints_guarded assms(3) by (simp add: list_all_iff)
  ultimately have "run_dependencies cfg env rq (as_db st) (deps_of (endpoint_of c)) \<noteq> Inr ()"
    using run_dependencies_admin by blast
  then show ?thesis by (cases "run_dependencies cfg env rq (as_db st) (deps_of (endpoint_of c))") (simp_all add: serve_def)
qed

text \<open>What decides about access: rules, connectors, keys, administrators, local groups and their members, and the grants of the documents at hand.\<close>

definition local_groups :: "db \<Rightarrow> group_rec list" where
  "local_groups s = filter (\<lambda>g. g_source g = SrcLocal) (groups s)"

definition local_members :: "db \<Rightarrow> user_group set" where
  "local_members s = {ug \<in> set (user_groups s). ug_group_id ug \<notin> idp_group_ids s}"

definition admin_ids :: "db \<Rightarrow> uuid set" where
  "admin_ids s = u_id ` {u \<in> set (users s). u_is_admin u}"

definition access_kept :: "db \<Rightarrow> db \<Rightarrow> bool" where
  "access_kept s s' \<longleftrightarrow>
     access_rules s' = access_rules s \<and> connectors s' = connectors s \<and> connector_items s' = connector_items s \<and> api_keys s' = api_keys s
   \<and> admin_ids s' = admin_ids s \<and> local_groups s' = local_groups s \<and> local_members s' = local_members s
   \<and> set (documents s) \<subseteq> set (documents s')
   \<and> {a \<in> set (document_acl s'). a_doc_id a \<in> d_id ` set (documents s)} = set (document_acl s)"

lemma access_kept_refl: "a_doc_id ` set (document_acl s) \<subseteq> d_id ` set (documents s) \<Longrightarrow> access_kept s s"
  by (auto simp: access_kept_def)

text \<open>Tables that do not decide about access.\<close>

lemma access_kept_frame [simp]:
  "access_kept s (x\<lparr>usages := us\<rparr>) = access_kept s x" "access_kept s (x\<lparr>chats := ch\<rparr>) = access_kept s x"
  "access_kept s (x\<lparr>messages := ms\<rparr>) = access_kept s x" "access_kept s (x\<lparr>citations := cit\<rparr>) = access_kept s x"
  "access_kept s (x\<lparr>feedbacks := fs\<rparr>) = access_kept s x" "access_kept s (x\<lparr>sessions := ss\<rparr>) = access_kept s x"
  by (simp_all add: access_kept_def admin_ids_def local_groups_def local_members_def idp_group_ids_def)

lemma access_kept_usage: "usage_grown s s' \<Longrightarrow> access_kept s s \<Longrightarrow> access_kept s s'"
  by (auto simp: usage_grown_def)

lemma access_kept_talked: "talked ids s s' \<Longrightarrow> access_kept s s \<Longrightarrow> access_kept s s'"
  using talked_frame by fastforce

lemma access_kept_feedback:
  "access_kept s s \<Longrightarrow> access_kept s (committed (snd (feedback_toggle mid r c (begin_txn s))))"
  by (auto simp: feedback_toggle_def split: option.split)

lemma access_kept_ingest:
  assumes ok: "db_ok cfg sha L s b" and w: "settled w" "working (iw_txn w) = s" and env: "polite cfg sha env"
    and new: "ie_doc_id env \<notin> d_id ` set (documents s)" and run: "ingest_bytes cfg env data filename collection w = (out, w')"
  shows "access_kept s (working (iw_txn w'))"
proof -
  have acl: "a_doc_id ` set (document_acl s) \<subseteq> d_id ` set (documents s)" by (rule db_ok_parts(9) [OF ok])
  note eff = ingest_effect [OF w(1) env _ run, unfolded w(2), OF new]
  have side: "side (working (iw_txn w')) = side s" using ingest_bytes_frame [OF w(1), of cfg env data filename collection] run w(2) by simp
  from eff show ?thesis
  proof (elim conjE disjE exE)
    assume "working (iw_txn w') = s"
    then show ?thesis using access_kept_refl [OF acl] by simp
  next
    fix digest up cs us gs
    assume s': "working (iw_txn w') = stored_db cfg env digest filename collection up cs us gs s"
      and grants: "set (document_acl (working (iw_txn w'))) = set (document_acl s)
            \<union> rule_grant (ie_doc_id env) ` set (admitting (rule_similarity_floor cfg) cs (confirmed_rules s))"
    have "{a \<in> set (document_acl (working (iw_txn w'))). a_doc_id a \<in> d_id ` set (documents s)} = set (document_acl s)"
      unfolding grants using acl new by (auto simp: rule_grant_def)
    then show ?thesis
      by (simp add: access_kept_def s') (auto simp: stored_db_def admin_ids_def local_groups_def local_members_def idp_group_ids_def)
  qed
qed

lemma access_kept_upload:
  assumes ok: "db_ok cfg sha L s b" and w: "settled w" "working (iw_txn w) = s" and env: "polite cfg sha env"
  shows "access_kept s (working (iw_txn (snd (with_fresh_id (\<lambda>ie. ingest_upload cfg ie name pieces collection) env w))))"
proof -
  let ?env = "env\<lparr>ie_doc_id := fresh_doc_id (working (iw_txn w))\<rparr>"
  have "access_kept s (working (iw_txn (snd (ingest_bytes cfg ?env data filename collection w))))" for data filename
    using access_kept_ingest [OF ok w, of ?env] env fresh_doc_id_fresh w(2) by (simp add: polite_def) (metis prod.collapse)
  then show ?thesis using access_kept_refl [OF db_ok_parts(9) [OF ok]] w(2)
    by (auto simp: with_fresh_id_def ingest_upload_def Let_def split: sum.split)
qed

text \<open>Seeding groups at a login stays within the groups of the identity provider.\<close>

lemma local_members_cong: "user_groups s' = user_groups s \<Longrightarrow> groups s' = groups s \<Longrightarrow> local_members s' = local_members s"
  by (simp add: local_members_def idp_group_ids_def)

lemma idp_group_ids_add: "idp_group_ids (s\<lparr>groups := groups s @ [idp_group i ext], user_groups := x\<rparr>) = insert i (idp_group_ids s)"
  by (auto simp: idp_group_ids_def idp_group_def)

lemma seed_loop_local:
  "seed_loop fresh uid n exts s = Inr s' \<Longrightarrow> inj fresh \<Longrightarrow> \<forall>k\<ge>n. fresh k \<notin> g_id ` set (groups s) \<Longrightarrow>
     ug_group_id ` set (user_groups s) \<subseteq> g_id ` set (groups s) \<Longrightarrow>
     local_groups s' = local_groups s \<and> local_members s' = local_members s"
proof (induction fresh uid n exts s rule: seed_loop.induct)
  case (2 fresh uid n ext exts s)
  show ?case
  proof (cases "find_idp_group s ext")
    case None
    let ?s = "s\<lparr>groups := groups s @ [idp_group (fresh n) ext], user_groups := user_groups s @ [\<lparr>ug_user_id = uid, ug_group_id = fresh n\<rparr>]\<rparr>"
    have new: "''idp:'' @ ext \<notin> g_name ` set (groups s)" and run: "seed_loop fresh uid (Suc n) exts ?s = Inr s'"
      using 2(3) None by (auto split: if_splits)
    have free: "fresh n \<notin> g_id ` set (groups s)" using 2(5) by simp
    have "\<forall>k\<ge>Suc n. fresh k \<notin> g_id ` set (groups ?s)" using 2(4,5) by (auto simp: idp_group_def inj_eq)
    moreover have "ug_group_id ` set (user_groups ?s) \<subseteq> g_id ` set (groups ?s)" using 2(6) by (auto simp: idp_group_def)
    ultimately have "local_groups s' = local_groups ?s \<and> local_members s' = local_members ?s"
      using 2(1) [OF None new run 2(4)] by blast
    moreover have "local_groups ?s = local_groups s" by (simp add: local_groups_def idp_group_def)
    moreover have "ug_group_id ug \<noteq> fresh n" if "ug \<in> set (user_groups s)" for ug
      using that 2(6) free by (metis imageI subsetD)
    then have "local_members ?s = local_members s" unfolding local_members_def idp_group_ids_add by auto
    ultimately show ?thesis by simp
  next
    case (Some g)
    let ?s = "s\<lparr>user_groups := user_groups s @ [\<lparr>ug_user_id = uid, ug_group_id = g_id g\<rparr>]\<rparr>"
    have new: "\<lparr>ug_user_id = uid, ug_group_id = g_id g\<rparr> \<notin> set (user_groups s)" and run: "seed_loop fresh uid n exts ?s = Inr s'"
      using 2(3) Some by (auto split: if_splits)
    have g: "g \<in> set (groups s)" "g_source g = SrcIdp" using Some by (auto simp: find_idp_group_def find_Some_iff)
    have "local_groups s' = local_groups ?s \<and> local_members s' = local_members ?s"
      using 2(2) [OF Some new run 2(4)] 2(5,6) g(1) by simp
    moreover have "g_id g \<in> idp_group_ids s" using g by (auto simp: idp_group_ids_def)
    then have "local_members ?s = local_members s" by (auto simp: local_members_def idp_group_ids_def)
    ultimately show ?thesis by (simp add: local_groups_def)
  qed
qed simp

lemma access_kept_login:
  assumes "access_kept s s"
  shows "access_kept s (committed (snd (login cfg env email password (begin_txn s))))"
    and "access_kept s (committed (snd (logout env rq (begin_txn s))))"
proof -
  show "access_kept s (committed (snd (login cfg env email password (begin_txn s))))"
    using login_sound [where t = "begin_txn s" and cfg = cfg and env = env and email = email and password = password] assms
    by (cases "login cfg env email password (begin_txn s)") (auto split: sum.splits)
  show "access_kept s (committed (snd (logout env rq (begin_txn s))))"
    using assms by (auto simp: logout_def Let_def revoke_def split: option.split)
qed

lemma admins_map:
  assumes "\<And>u. u_id (f u) = u_id u" and "\<And>u. u_is_admin (f u) = u_is_admin u"
  shows "u_id ` {u \<in> set (map f us). u_is_admin u} = u_id ` {u \<in> set us. u_is_admin u}"
  using assms by (force simp: image_iff)

lemma upsert_keeps:
  assumes up: "upsert_oidc_user oi sub email name s = Inr (uid, s1)"
  shows "\<exists>us. s1 = s\<lparr>users := us\<rparr> \<and> u_id ` {u \<in> set us. u_is_admin u} = admin_ids s"
proof (cases "tbl_find u_external_subject (Some sub) (users s)")
  case None
  then show ?thesis using up
    by (intro exI [of _ "users s1"]) (auto simp: upsert_oidc_user_def admin_ids_def split: if_splits)
next
  case (Some u)
  let ?f = "\<lambda>x. if u_id x = u_id u then x\<lparr>u_email := email, u_display_name := (if Auth_Model.truthy_str name then name else u_display_name x)\<rparr> else x"
  have s1: "s1 = s\<lparr>users := map ?f (users s)\<rparr>" using up Some by (auto simp: upsert_oidc_user_def split: if_splits)
  have "u_id ` {u \<in> set (map ?f (users s)). u_is_admin u} = u_id ` {u \<in> set (users s). u_is_admin u}"
    by (rule admins_map) simp_all
  then show ?thesis unfolding s1 admin_ids_def by blast
qed

lemma access_kept_oidc:
  assumes ok: "db_ok cfg sha L s b" and groups: "inj (oi_group_id oi)" "range (oi_group_id oi) \<inter> g_id ` set (groups s) = {}"
  shows "access_kept s (committed (snd (oidc_callback ccfg env oi path rq code_param state (begin_txn s))))"
proof -
  have refl: "access_kept s s" by (rule access_kept_refl [OF db_ok_parts(9) [OF ok]])
  have mem: "ug_group_id ` set (user_groups s) \<subseteq> g_id ` set (groups s)" using db_ok_parts(2) [OF ok] by (simp add: directory_ok_def)
  have step: "access_kept s s2"
    if up: "upsert_oidc_user oi sub email name s = Inr (uid, s1)"
      and seed: "(case gs of None \<Rightarrow> Inr s1 | Some gs \<Rightarrow> seed_idp_groups (oi_group_id oi) uid gs s1) = Inr s2" for sub email name gs uid s1 s2
  proof -
    obtain us where s1: "s1 = s\<lparr>users := us\<rparr>" and admins: "u_id ` {u \<in> set us. u_is_admin u} = admin_ids s"
      using upsert_keeps [OF up] by blast
    have 1: "access_kept s s1"
      using refl admins by (simp add: s1 access_kept_def) (simp add: admin_ids_def local_groups_def local_members_def idp_group_ids_def)
    show ?thesis
    proof (cases gs)
      case None
      then show ?thesis using seed 1 by simp
    next
      case (Some claim)
      let ?s = "drop_idp_memberships uid s1"
      have run: "seed_loop (oi_group_id oi) uid 0 claim ?s = Inr s2" using seed Some by (simp add: seed_idp_groups_def)
      have g: "groups ?s = groups s" "set (user_groups ?s) \<subseteq> set (user_groups s)" by (auto simp: drop_idp_memberships_def s1)
      have "local_groups s2 = local_groups ?s \<and> local_members s2 = local_members ?s"
        using g(1) groups subset_trans [OF image_mono [OF g(2)] mem] by (intro seed_loop_local [OF run groups(1)]) auto
      moreover have "local_groups ?s = local_groups s1" "local_members ?s = local_members s1"
        by (auto simp: local_groups_def local_members_def drop_idp_memberships_def idp_group_ids_def)
      moreover obtain gs' ugs where "s2 = s1\<lparr>groups := gs', user_groups := ugs\<rparr>"
        using seed_loop_frame [OF run] by (auto simp: drop_idp_memberships_def)
      ultimately show ?thesis using 1 by (simp add: access_kept_def) (simp add: admin_ids_def)
    qed
  qed
  show ?thesis
    using refl step
    by (auto simp: oidc_callback_def create_session_def split: sum.split prod.split)
qed

lemma handle_keeps_access:
  assumes st: "system_ok cfg sha L st" and ok: "call_ok cfg sha c (as_db st)" and open_to_all: "endpoint_of c \<notin> set admin_endpoints"
  shows "access_kept (as_db st) (as_db (snd (handle cfg env rq user c st)))"
proof -
  have s: "db_ok cfg sha L (as_db st) (as_blobs st)" using st by (simp add: system_ok_def)
  have refl: "access_kept (as_db st) (as_db st)" by (rule access_kept_refl [OF db_ok_parts(9) [OF s]])
  have txn: "access_kept (as_db st) (as_db (snd (in_txn handler st)))"
    if "access_kept (as_db st) (committed (snd (handler (begin_txn (as_db st)))))" for handler :: "txn \<Rightarrow> 'a outcome \<times> txn"
    using that by (auto simp: in_txn_def get_session_def close_session_def split: prod.split)
  show ?thesis
  proof (cases c)
    case (Ingest ie name pieces collection)
    have w: "settled (get_session st)" "working (iw_txn (get_session st)) = as_db st" by (simp_all add: get_session_def settled_def)
    have env: "polite cfg sha ie" using ok Ingest by simp
    have "settled (snd (with_fresh_id (\<lambda>ie. ingest_upload cfg ie name pieces collection) ie (get_session st)))"
      using upload_ok [OF get_session_ok [OF st] env] by blast
    then show ?thesis using access_kept_upload [OF s w env, of name pieces collection] Ingest
      by (auto simp: in_world_def close_session_def settled_def split: prod.split)
  next
    case (EvalRun be ragas now entries deadline)
    then show ?thesis using access_kept_usage [OF eval_run_grown refl] by (auto simp: eval_endpoint_def split: prod.split)
  next
    case (GroupCall req)
    then show ?thesis using open_to_all by (cases req) (simp_all add: admin_endpoints_def)
  qed (use open_to_all refl ok access_kept_talked [OF chat_talked refl] access_kept_talked [OF chat_stream_talked refl]
      access_kept_feedback [OF refl] search_only_visible [where t = "begin_txn (as_db st)"] access_kept_login [OF refl]
      access_kept_oidc [OF s] in \<open>auto simp: admin_endpoints_def intro!: txn\<close>)
qed

text \<open>
  C11. Only administrators decide about access: with authentication on, a request that is anonymous or comes from a user who is no
  administrator, to whatever endpoint and with whatever outcome, leaves every rule, connector, API key, local group and
  membership in one, the set of administrators, and every document at hand with exactly its grants. (Documents can be added; the
  groups of the identity provider follow its claims.)
\<close>

theorem only_admins_decide_access:
  assumes "auth_enabled cfg" and "nobody_or_user (current_user env rq (as_db st))"
    and "system_ok cfg sha L st" and "call_ok cfg sha c (as_db st)"
  shows "access_kept (as_db st) (as_db (snd (serve cfg env rq c st)))"
proof (cases "endpoint_of c \<in> set admin_endpoints")
  case True
  have "db_ok cfg sha L (as_db st) (as_blobs st)" using assms(3) by (simp add: system_ok_def)
  then show ?thesis using refused_without_admin [OF assms(1,2) True] access_kept_refl [OF db_ok_parts(9)] by simp
next
  case False
  have "db_ok cfg sha L (as_db st) (as_blobs st)" using assms(3) by (simp add: system_ok_def)
  then show ?thesis using handle_keeps_access [OF assms(3,4) False] access_kept_refl [OF db_ok_parts(9)]
    by (auto simp: serve_def split: sum.split)
qed

section \<open>Samples\<close>

definition sample_upload_call :: api_call where
  "sample_upload_call = Ingest sample_ingest_env (Some ''a.txt'') [''ab cd''] ''c''"

definition uploaded :: app_state where
  "uploaded = happens default_settings (Request sample_auth_env sample_request sample_upload_call) fresh_install"

lemma sample_deps: "deps_of ''ingest'' = [RequireAuth]" "deps_of ''create_group'' = [RequireAuth, RequireAdmin]"
  by code_simp+

lemma sample_checks: "ends_with_any (py_lower (upload_filename (Some ''a.txt''))) ALLOWED_SUFFIXES" "collection_ok ''c''"
  "upload_filename (Some ''a.txt'') = ''a.txt''"
  by code_simp+

lemma sample_ingest_renamed:
  "fst (ingest_bytes default_settings (sample_ingest_env\<lparr>ie_doc_id := i\<rparr>) ''ab cd'' ''a.txt'' ''c'' sample_world)
     = Inr \<lparr>ir_doc_id = i, ir_status = Ready, ir_duplicate_of = None\<rparr>"
  by (simp add: ingest_bytes_def sample_world_def empty_db_def sample_mime sample_ingest_env_def sample_upload insert_document_def
     store_body_def embed_with_retry_def numeral_3_eq_3 sample_embedding embed_inputs_def prose_embed_text_def build_chunks_def
     pending_rows_def Let_def split: prod.split)

lemma uploaded_reachable: "(app_step default_settings (ie_sha256 sample_ingest_env))\<^sup>*\<^sup>* fresh_install uploaded"
proof -
  have "app_step default_settings (ie_sha256 sample_ingest_env) fresh_install uploaded"
    unfolding uploaded_def by (rule app_step.event) (simp add: sample_upload_call_def sample_polite)
  then show ?thesis by blast
qed

lemma uploaded_documents: "documents (as_db uploaded) \<noteq> []"
proof -
  let ?env = "sample_ingest_env\<lparr>ie_doc_id := fresh_doc_id empty_db\<rparr>"
  have w: "get_session fresh_install = sample_world"
    by (simp add: get_session_def fresh_install_def sample_world_def)
  obtain w' where run: "ingest_bytes default_settings ?env ''ab cd'' ''a.txt'' ''c'' sample_world
      = (Inr \<lparr>ir_doc_id = fresh_doc_id empty_db, ir_status = Ready, ir_duplicate_of = None\<rparr>, w')"
    using sample_ingest_renamed by (metis prod.collapse)
  have read: "read_upload (max_upload_bytes default_settings) [] [''ab cd''] = Inr ''ab cd''" by code_simp
  have "with_fresh_id (\<lambda>ie. ingest_upload default_settings ie (Some ''a.txt'') [''ab cd''] ''c'') sample_ingest_env sample_world
      = (Inr \<lparr>ir_doc_id = fresh_doc_id empty_db, ir_status = Ready, ir_duplicate_of = None\<rparr>, w')"
    using run sample_checks read by (simp add: with_fresh_id_def ingest_upload_def Let_def) (simp add: sample_world_def)
  then have u: "as_db uploaded = committed (iw_txn w')"
    by (simp add: uploaded_def sample_upload_call_def serve_def sample_deps require_auth_def in_world_def w close_session_def)
  have "settled sample_world" by (simp add: settled_def sample_world_def)
  then have "settled w'" using ingest_bytes_frame [of sample_world default_settings ?env "''ab cd''" "''a.txt''" "''c''"] run by simp
  moreover obtain d where "find_document_by_sha (working (iw_txn w')) (ie_sha256 ?env ''ab cd'') = Some d"
    using ingest_found [OF run] by blast
  ultimately show ?thesis unfolding u by (auto simp: settled_def)
qed


theorem access_only_through_rules_witness:
  "documents (as_db uploaded) \<noteq> []
   \<and> (sees (as_db uploaded) (Some (sample_user 1)) 1 \<longleftrightarrow> granted_by_rule (as_db uploaded) (sample_user 1) 1)"
  using access_only_through_rules [OF uploaded_reachable fresh_install_ok [of _ _ "{}"], of "sample_user 1" 1] uploaded_documents
  by (simp add: sample_user_def granted_locally_def)

theorem only_admins_decide_access_witness:
  "local_groups (as_db (snd (serve (default_settings\<lparr>auth_enabled := True\<rparr>) sample_auth_env sample_request
     (GroupCall (CreateGroup 3 ''ops'')) fresh_install))) = []"
proof -
  let ?cfg = "default_settings\<lparr>auth_enabled := True\<rparr>"
  have "nobody_or_user (current_user sample_auth_env sample_request (as_db fresh_install))"
    by (simp add: nobody_or_user_def current_user_def session_from_cookie_def resolve_session_token_def api_key_from_header_def
        sample_request_def fresh_install_def empty_db_def SESSION_COOKIE_NAME_def py_startswith_def)
  then have "access_kept (as_db fresh_install) (as_db (snd (serve ?cfg sample_auth_env sample_request (GroupCall (CreateGroup 3 ''ops'')) fresh_install)))"
    by (rule only_admins_decide_access [rotated, OF _ fresh_install_ok]) (simp_all add: fresh_install_def empty_db_def)
  then show ?thesis by (simp add: access_kept_def fresh_install_def empty_db_def local_groups_def)
qed

end
