(* ===== verification/Noninterference.thy ===== *)
theory Noninterference imports Chat_Flow begin

text \<open>
  Hidden documents and the whole pipeline: two databases that look alike to a user give him the same answer, stream and
  search result. The relation \<open>twins\<close> says what looks alike means; every step from the planner to the stored exchange maps
  related sessions to related sessions with the same result, so a document he may not see could as well not exist.
\<close>

section \<open>Databases that look alike\<close>

text \<open>The rows of tables that some reachable chunk belongs to.\<close>

definition reachable_rows :: "db \<Rightarrow> user option \<Rightarrow> table_row list" where
  "reachable_rows s user = filter (\<lambda>tr. Some (tr_table_id tr) \<in> (c_table_id \<circ> fst) ` set (candidates s user)) (table_rows s)"

definition twins :: "user option \<Rightarrow> db \<Rightarrow> db \<Rightarrow> bool" where
  "twins user s s' \<longleftrightarrow>
     candidates s user = candidates s' user \<and> reachable_rows s user = reachable_rows s' user
   \<and> usages s = usages s' \<and> chats s = chats s'"

definition twin_txn :: "user option \<Rightarrow> txn \<Rightarrow> txn \<Rightarrow> bool" where
  "twin_txn user t t' \<longleftrightarrow> twins user (working t) (working t') \<and> twins user (committed t) (committed t')"

text \<open>BM25 is off, or its scores do not depend on the corpus around a chunk.\<close>

definition corpus_free :: "engine \<Rightarrow> bool" where
  "corpus_free e \<longleftrightarrow> \<not> eng_bm25_available e \<or> (\<forall>cs cs' q c. eng_bm25_score e cs q c = eng_bm25_score e cs' q c)"

lemma sees_cong: "document_acl s = document_acl s' \<Longrightarrow> user_groups s = user_groups s' \<Longrightarrow> sees s user doc = sees s' user doc"
proof -
  assume acl: "document_acl s = document_acl s'" and "user_groups s = user_groups s'"
  then have "acl_grants s = acl_grants s'" by (intro ext) (simp add: acl_grants_def group_ids_of_def split: principal.split)
  then show ?thesis using acl by (simp add: sees_def visibility_clause_def split: option.split)
qed

lemma candidates_cong:
  assumes "chunks s = chunks s'" and "documents s = documents s'" and "document_acl s = document_acl s'" and "user_groups s = user_groups s'"
  shows "candidates s user = candidates s' user"
  using sees_cong [OF assms(3,4)] assms(1,2) by (simp add: candidates_def joined_def)

lemma candidates_frame [simp]:
  "candidates (s\<lparr>usages := us\<rparr>) user = candidates s user" "candidates (s\<lparr>chats := ch\<rparr>) user = candidates s user"
  by (rule candidates_cong; simp)+

lemma reachable_rows_frame [simp]:
  "reachable_rows (s\<lparr>usages := us\<rparr>) user = reachable_rows s user" "reachable_rows (s\<lparr>chats := ch\<rparr>) user = reachable_rows s user"
  by (simp_all add: reachable_rows_def)

lemma twins_usage: "twins user s s' \<Longrightarrow> twins user (s\<lparr>usages := usages s @ us\<rparr>) (s'\<lparr>usages := usages s' @ us\<rparr>)"
  by (simp add: twins_def)

lemma twins_chats: "twins user s s' \<Longrightarrow> twins user (s\<lparr>chats := chats s @ ch\<rparr>) (s'\<lparr>chats := chats s' @ ch\<rparr>)"
  by (simp add: twins_def)

lemma twin_txn_steps:
  assumes "twin_txn user t t'"
  shows "twin_txn user (txn_update (\<lambda>s. s\<lparr>usages := usages s @ us\<rparr>) t) (txn_update (\<lambda>s. s\<lparr>usages := usages s @ us\<rparr>) t')"
    and "twin_txn user (txn_update (\<lambda>s. s\<lparr>chats := chats s @ ch\<rparr>) t) (txn_update (\<lambda>s. s\<lparr>chats := chats s @ ch\<rparr>) t')"
    and "twin_txn user (txn_commit t) (txn_commit t')" and "twin_txn user (txn_rollback t) (txn_rollback t')"
  using assms twins_usage twins_chats by (simp_all add: twin_txn_def)

section \<open>The arms\<close>

lemma structured_twins:
  assumes "twins user s s'"
  shows "build_structured_query e query fs s user = build_structured_query e query fs s' user"
proof -
  have "list_ex (\<lambda>tr. c_table_id c = Some (tr_table_id tr) \<and> row_conditions e query fs tr) (table_rows x)
      = list_ex (\<lambda>tr. c_table_id c = Some (tr_table_id tr) \<and> row_conditions e query fs tr) (reachable_rows x user)"
    if "(c, d) \<in> set (candidates x user)" for c d x
    using that by (force simp: list_ex_iff reachable_rows_def)
  then have q: "build_structured_query e query fs x user = filter (\<lambda>(c, d). c_kind c \<in> set table_kinds
        \<and> list_ex (\<lambda>tr. c_table_id c = Some (tr_table_id tr) \<and> row_conditions e query fs tr) (reachable_rows x user)) (candidates x user)" for x
    unfolding build_structured_query_def by (intro filter_cong) auto
  show ?thesis using assms unfolding q by (simp add: twins_def)
qed

lemma bm25_twins:
  assumes "twins user s s'" and "\<forall>cs cs' q c. eng_bm25_score e cs q c = eng_bm25_score e cs' q c"
  shows "bm25_search e query s user k cn = bm25_search e query s' user k cn"
proof -
  have score: "eng_bm25_score e (chunks s) = eng_bm25_score e (chunks s')" using assms(2) by (intro ext) blast
  have cand: "candidates s user = candidates s' user" using assms(1) by (simp add: twins_def)
  show ?thesis unfolding bm25_search_eq bm25_rows_hits_def score cand ..
qed

lemma arms_twins:
  assumes t: "twins user s s'" and e: "corpus_free e"
  shows "vector_search cfg e emb s user k cn = vector_search cfg e emb s' user k cn"
    and "keyword_search e query s user k cn = keyword_search e query s' user k cn"
    and "structured_search e query fs s user k cn = structured_search e query fs s' user k cn"
proof -
  show "vector_search cfg e emb s user k cn = vector_search cfg e emb s' user k cn"
    using t by (simp add: twins_def vector_search_def)
  have f: "fts_search e query s user k c = fts_search e query s' user k c" for c
    using t by (simp add: twins_def fts_search_def)
  show "keyword_search e query s user k cn = keyword_search e query s' user k cn"
    using e bm25_twins [OF t, of e] unfolding keyword_search_def f corpus_free_def by auto
  show "structured_search e query fs s user k cn = structured_search e query fs s' user k cn"
    unfolding structured_search_def structured_twins [OF t] ..
qed

lemma gather_twins:
  assumes "twins user s s'" and "corpus_free e"
  shows "gather_hits cfg e s user pr embeddings cn = gather_hits cfg e s' user pr embeddings cn"
  unfolding gather_hits_def arms_twins [OF assms] ..

section \<open>The providers\<close>

text \<open>A step of related sessions: one result, related sessions after it.\<close>

definition alike :: "user option \<Rightarrow> 'a \<times> txn \<Rightarrow> 'a \<times> txn \<Rightarrow> bool" where
  "alike user p p' \<longleftrightarrow> fst p = fst p' \<and> twin_txn user (snd p) (snd p')"

lemma alikeE:
  assumes "alike user p p'"
  obtains r t t' where "p = (r, t)" and "p' = (r, t')" and "twin_txn user t t'"
  using assms by (cases p; cases p') (simp add: alike_def)

lemma alike_pair: "alike user (r, t) (r', t') \<longleftrightarrow> r = r' \<and> twin_txn user t t'"
  by (simp add: alike_def)

lemma complete_twins:
  assumes "twin_txn user t t'"
  shows "alike user (apsnd the (complete cfg prov now model sys q mid uid (Some t))) (apsnd the (complete cfg prov now model sys q mid uid (Some t')))"
  using assms twin_txn_steps(1) by (auto simp: complete_def Let_def track_usage_def alike_def case_prod_beta split: sum.split)

lemma embed_twins:
  assumes "twin_txn user t t'"
  shows "alike user (apsnd the (embed_texts cfg prov now texts uid (Some t))) (apsnd the (embed_texts cfg prov now texts uid (Some t')))"
  using assms twin_txn_steps(1)
  by (auto simp: embed_texts_def Let_def track_usage_def alike_def case_prod_beta split: sum.split option.split)

lemma plan_twins:
  assumes "twin_txn user t t'"
  shows "alike user (apsnd the (plan cfg prov env now q uid (Some t))) (apsnd the (plan cfg prov env now q uid (Some t')))"
  using complete_twins [OF assms, of cfg prov now "planner_model cfg" "pe_plan_prompt env" q None uid]
  by (cases "complete cfg prov now (planner_model cfg) (pe_plan_prompt env) q None uid (Some t)";
      cases "complete cfg prov now (planner_model cfg) (pe_plan_prompt env) q None uid (Some t')")
     (auto simp: plan_def plan_completion_def alike_def split: sum.split)

lemma prefill_twins:
  assumes "twin_txn user t t'"
  shows "alike user (apsnd the (prefill cfg prov env now q uid (Some t))) (apsnd the (prefill cfg prov env now q uid (Some t')))"
  using complete_twins [OF assms, of cfg prov now "prefill_model cfg" "pe_prefill_prompt env" q None uid] assms
  by (cases "complete cfg prov now (prefill_model cfg) (pe_prefill_prompt env) q None uid (Some t)";
      cases "complete cfg prov now (prefill_model cfg) (pe_prefill_prompt env) q None uid (Some t')")
     (auto simp: prefill_def prefill_completion_def alike_def split: sum.split option.split)

section \<open>Retrieval\<close>

lemma retrieve_planned_twins:
  assumes t: "twin_txn user t t'" and e: "corpus_free (be_engine be)"
  shows "alike user (retrieve_planned cfg be now user cleaned pr t) (retrieve_planned cfg be now user cleaned pr t')"
  using embed_twins [OF t, of cfg "be_provider be" now "pr_queries pr" "map_option u_id user"]
proof (cases rule: alikeE)
  case (1 r t1 t1')
  show ?thesis
  proof (cases r)
    case (Inl err)
    then show ?thesis using 1 by (simp add: retrieve_planned_def alike_pair)
  next
    case (Inr embeddings)
    have "gather_hits cfg (be_engine be) (working t1) user pr embeddings Live = gather_hits cfg (be_engine be) (working t1') user pr embeddings Live"
      using 1(3) by (intro gather_twins [OF _ e]) (simp add: twin_txn_def)
    then show ?thesis using 1 Inr twin_txn_steps(3) [OF 1(3)]
      by (auto simp: retrieve_planned_def alike_pair split: sum.split)
  qed
qed

lemma retrieve_twins:
  assumes t: "twin_txn user t t'" and e: "corpus_free (be_engine be)"
  shows "alike user (retrieve cfg be now message user t) (retrieve cfg be now message user t')"
proof -
  let ?prov = "be_provider be" and ?env = "be_env be" and ?uid = "map_option u_id user"
  let ?pre = "\<lambda>t. if prefill_enabled cfg then apsnd the (prefill cfg ?prov ?env now message ?uid (Some t)) else (message, t)"
  have "alike user (?pre t) (?pre t')" using prefill_twins [OF t] t by (simp add: alike_pair)
  then obtain cleaned t1 t1' where 1: "?pre t = (cleaned, t1)" "?pre t' = (cleaned, t1')" "twin_txn user t1 t1'"
    by (rule alikeE)
  obtain planned t2 t2' where 2: "apsnd the (plan cfg ?prov ?env now cleaned ?uid (Some t1)) = (planned, t2)"
    "apsnd the (plan cfg ?prov ?env now cleaned ?uid (Some t1')) = (planned, t2')" "twin_txn user t2 t2'"
    using plan_twins [OF 1(3)] by (rule alikeE)
  show ?thesis
    using retrieve_planned_twins [OF 2(3) e] 2(3)
    by (cases planned) (simp_all add: retrieve_def 1(1,2) 2(1,2) alike_pair)
qed

lemma search_twins:
  assumes t: "twin_txn user t t'" and e: "corpus_free (be_engine be)"
  shows "fst (search cfg be now q k user t) = fst (search cfg be now q k user t')"
proof -
  let ?prov = "be_provider be"
  obtain planned t1 t1' where 1: "apsnd the (plan cfg ?prov (be_env be) now q None (Some t)) = (planned, t1)"
    "apsnd the (plan cfg ?prov (be_env be) now q None (Some t')) = (planned, t1')" "twin_txn user t1 t1'"
    using plan_twins [OF t] by (rule alikeE)
  show ?thesis
  proof (cases planned)
    case (Inl err)
    then show ?thesis by (simp add: search_def 1(1,2))
  next
    case (Inr pr)
    obtain r t2 t2' where 2: "apsnd the (embed_texts cfg ?prov now (pr_queries pr) None (Some t1)) = (r, t2)"
      "apsnd the (embed_texts cfg ?prov now (pr_queries pr) None (Some t1')) = (r, t2')" "twin_txn user t2 t2'"
      using embed_twins [OF 1(3)] by (rule alikeE)
    have "gather_hits cfg (be_engine be) (working t2) user pr embeddings Live = gather_hits cfg (be_engine be) (working t2') user pr embeddings Live"
      for embeddings
      using 2(3) by (intro gather_twins [OF _ e]) (simp add: twin_txn_def)
    then show ?thesis by (cases r) (simp_all add: search_def 1(1,2) Inr 2(1,2) Let_def split: sum.split prod.split)
  qed
qed

section \<open>Answers and streams\<close>

lemma persist_twins:
  assumes "twin_txn user t t'"
  shows "fst (persist_exchange ids chat_id q a srcs t) = fst (persist_exchange ids chat_id q a srcs t')"
  using assms by (auto simp: persist_exchange_def Let_def twin_txn_def twins_def split: option.split)

lemma chat_answer_twins:
  assumes t: "twin_txn user t t'"
  shows "fst (chat_answer cfg be ids now req user w hits cleaned t) = fst (chat_answer cfg be ids now req user w hits cleaned t')"
proof -
  obtain raw t1 t1' where 1:
    "apsnd the (answer cfg (be_provider be) now SYSTEM_PROMPT (build_prompt cleaned hits) None (map_option u_id user) (Some t)) = (raw, t1)"
    "apsnd the (answer cfg (be_provider be) now SYSTEM_PROMPT (build_prompt cleaned hits) None (map_option u_id user) (Some t')) = (raw, t1')"
    "twin_txn user t1 t1'"
    using complete_twins [OF t] unfolding answer_def by (rule alikeE)
  have p: "fst (persist_exchange ids chat_id q a srcs t1) = fst (persist_exchange ids chat_id q a srcs t1')" for chat_id q a srcs
    by (rule persist_twins [OF 1(3)])
  have step: "fst (case persist_exchange ids c q a srcs t1 of (Inl e, x) \<Rightarrow> (Inl e, x) | (Inr (cid, mid), x) \<Rightarrow> (Inr (F mid), x))
      = fst (case persist_exchange ids c q a srcs t1' of (Inl e, x) \<Rightarrow> (Inl e, x) | (Inr (cid, mid), x) \<Rightarrow> (Inr (F mid), x))"
    for c q a srcs and F :: "uuid \<Rightarrow> chat_response"
    using p [of c q a srcs] by (cases "persist_exchange ids c q a srcs t1"; cases "persist_exchange ids c q a srcs t1'") (auto split: sum.split)
  show ?thesis
    unfolding chat_answer_def 1(1,2) Let_def prod.case
    by (cases raw) (auto simp: step split: option.split sum.split)
qed

lemma gate_twins:
  assumes "usages s = usages s'"
  shows "check_daily_cap cfg s user now = check_daily_cap cfg s' user now"
proof -
  have "today_cost_usd s = today_cost_usd s'" "today_user_cost_usd s = today_user_cost_usd s'"
    using assms by (intro ext, simp add: today_cost_usd_def today_user_cost_usd_def)+
  then show ?thesis by (simp only: check_daily_cap_def)
qed

lemma chat_twins:
  assumes t: "twin_txn user t t'" and e: "corpus_free (be_engine be)"
  shows "fst (chat cfg be ids now req user t) = fst (chat cfg be ids now req user t')"
proof -
  have gate: "check_daily_cap cfg (working t) user now = check_daily_cap cfg (working t') user now"
    using t by (intro gate_twins) (simp add: twin_txn_def twins_def)
  show ?thesis
    using retrieve_twins [OF t e, of cfg now "rq_message req"]
  proof (cases rule: alikeE)
    case (1 r t1 t1')
    then show ?thesis using chat_answer_twins [OF 1(3)] unfolding chat_def gate 1(1,2) by (auto split: sum.split)
  qed
qed

lemma stream_finish_twins:
  assumes t: "twin_txn user t t'"
  shows "fst (stream_finish cfg be ids now req user srcs prompt st t) = fst (stream_finish cfg be ids now req user srcs prompt st t')
    \<and> fst (snd (stream_finish cfg be ids now req user srcs prompt st t)) = fst (snd (stream_finish cfg be ids now req user srcs prompt st t'))"
proof -
  obtain p c where pc: "(case ss_usage st of
                      Some u \<Rightarrow> u
                    | None \<Rightarrow> (estimate_tokens (be_provider be) (answer_model cfg) (SYSTEM_PROMPT @ prompt),
                              estimate_tokens (be_provider be) (answer_model cfg) (ss_raw st))) = (p, c)"
    by (metis surj_pair)
  define track where "track = (\<lambda>t. the (snd (track_usage cfg (p_prices (be_provider be)) now (Some t) (answer_model cfg) p c None (map_option u_id user))))"
  have tw: "twin_txn user (track t) (track t')" unfolding track_def track_usage_session using twin_txn_steps(1) [OF t] by simp
  have r: "stream_finish cfg be ids now req user srcs prompt st x =
     (case persist_exchange ids (rq_chat_id req) (rq_message req) (normalize_citations (ss_raw st))
             (filter (\<lambda>so. so_n so \<in> set (ss_cited st)) srcs) (track x) of
        (Inl e, t2) \<Rightarrow> (token_frame (fst (flush (ss_guard st))), Inl e, t2)
      | (Inr (cid, mid), t2) \<Rightarrow> (token_frame (fst (flush (ss_guard st))) @ [FMeta mid cid (ss_cited st), FDone], Inr (), t2))" for x
    unfolding stream_finish_def pc Let_def prod.case track_def ..
  show ?thesis
    using persist_twins [OF tw, of ids "rq_chat_id req" "rq_message req" "normalize_citations (ss_raw st)"
        "filter (\<lambda>so. so_n so \<in> set (ss_cited st)) srcs"]
    unfolding r
    by (cases "persist_exchange ids (rq_chat_id req) (rq_message req) (normalize_citations (ss_raw st))
             (filter (\<lambda>so. so_n so \<in> set (ss_cited st)) srcs) (track t)";
        cases "persist_exchange ids (rq_chat_id req) (rq_message req) (normalize_citations (ss_raw st))
             (filter (\<lambda>so. so_n so \<in> set (ss_cited st)) srcs) (track t')")
      (auto split: sum.split)
qed

lemma chat_stream_twins:
  assumes t: "twin_txn user t t'" and e: "corpus_free (be_engine be)"
  shows "fst (chat_stream cfg be src ids now req user t) = fst (chat_stream cfg be src ids now req user t')"
proof -
  have gate: "check_daily_cap cfg (working t) user now = check_daily_cap cfg (working t') user now"
    using t by (intro gate_twins) (simp add: twin_txn_def twins_def)
  have "fst (stream_frames cfg be src ids now req user w t) = fst (stream_frames cfg be src ids now req user w t')
      \<and> fst (snd (stream_frames cfg be src ids now req user w t)) = fst (snd (stream_frames cfg be src ids now req user w t'))" for w
    using retrieve_twins [OF t e, of cfg now "rq_message req"]
  proof (cases rule: alikeE)
    case (1 r t1 t1')
    then show ?thesis using stream_finish_twins [OF 1(3)]
      unfolding stream_frames_def 1(1,2) by (auto simp: Let_def split: sum.split prod.split)
  qed
  then have frames: "\<exists>fs u x x'. stream_frames cfg be src ids now req user w t = (fs, u, x) \<and> stream_frames cfg be src ids now req user w t' = (fs, u, x')" for w
    by (metis prod.collapse)
  show ?thesis
  proof (cases "check_daily_cap cfg (working t) user now")
    case (Inr w)
    obtain fs u x x' where "stream_frames cfg be src ids now req user w t = (fs, u, x)" "stream_frames cfg be src ids now req user w t' = (fs, u, x')"
      using frames by blast
    moreover have "check_daily_cap cfg (working t') user now = Inr w" using gate Inr by simp
    ultimately show ?thesis using Inr by (cases u) (simp_all add: chat_stream_def)
  qed (use gate in \<open>simp add: chat_stream_def\<close>)
qed

section \<open>A hidden document\<close>

text \<open>A chunk of a table belongs to the document of the table.\<close>

definition tables_owned :: "db \<Rightarrow> bool" where
  "tables_owned s \<longleftrightarrow> (\<forall>c\<in>set (chunks s). \<forall>t\<in>set (tables s). c_table_id c = Some (t_id t) \<longrightarrow> c_doc_id c = t_doc_id t)"

lemma sees_delete: "i \<noteq> doc \<Longrightarrow> sees (delete_document doc s) user i = sees s user i"
proof -
  assume "i \<noteq> doc"
  moreover have "acl_grants (delete_document doc s) uid a = acl_grants s uid a" for uid a
    by (simp add: acl_grants_def group_ids_of_def delete_document_def split: principal.split)
  ultimately show ?thesis
    by (auto simp: sees_def visibility_clause_def list_ex_iff delete_document_acl split: option.split)
qed

lemma candidates_delete:
  assumes "\<not> sees s user doc"
  shows "candidates (delete_document doc s) user = candidates s user"
proof -
  have j: "joined (delete_document doc s) = filter (\<lambda>(c, d). d_id d \<noteq> doc) (joined s)"
  proof -
    have "concat (map (\<lambda>c. map (Pair c) (filter (\<lambda>d. c_doc_id c = d_id d) (tbl_del d_id doc ds))) (filter (\<lambda>c. c_doc_id c \<noteq> doc) cs))
        = filter (\<lambda>(c, d). d_id d \<noteq> doc) (concat (map (\<lambda>c. map (Pair c) (filter (\<lambda>d. c_doc_id c = d_id d) ds)) cs))" for cs ds
    proof (induction cs)
      case (Cons c cs)
      have "filter (\<lambda>d. c_doc_id c = d_id d) (tbl_del d_id doc ds) = (if c_doc_id c = doc then [] else filter (\<lambda>d. c_doc_id c = d_id d) ds)"
        by (induction ds) (auto simp: tbl_del_def)
      moreover have "filter (\<lambda>(c, d). d_id d \<noteq> doc) (map (Pair c) (filter (\<lambda>d. c_doc_id c = d_id d) ds))
          = (if c_doc_id c = doc then [] else map (Pair c) (filter (\<lambda>d. c_doc_id c = d_id d) ds))"
        by (induction ds) auto
      ultimately show ?case using Cons by simp
    qed simp
    moreover have "joined x = concat (map (\<lambda>c. map (Pair c) (filter (\<lambda>d. c_doc_id c = d_id d) (documents x))) (chunks x))" for x
    proof -
      have "concat (map (\<lambda>d. if P d then [(c, d)] else []) ds) = map (Pair c) (filter P ds)" for c :: chunk_row and P and ds :: "document list"
        by (induction ds) auto
      then show ?thesis by (simp add: joined_def)
    qed
    ultimately show ?thesis by (simp add: delete_document_def)
  qed
  show ?thesis
    unfolding candidates_def j filter_filter
  proof (intro filter_cong refl)
    fix x :: "chunk_row \<times> document"
    obtain c d where x: "x = (c, d)" by (cases x)
    show "((case x of (c, d) \<Rightarrow> d_id d \<noteq> doc) \<and> (case x of (c, d) \<Rightarrow> d_status d = Ready \<and> sees (delete_document doc s) user (d_id d)))
        = (case x of (c, d) \<Rightarrow> d_status d = Ready \<and> sees s user (d_id d))"
      using assms sees_delete [of "d_id d" doc s user] unfolding x by (cases "d_id d = doc") auto
  qed
qed

lemma twins_delete:
  assumes hidden: "\<not> sees s user doc" and owned: "tables_owned s"
  shows "twins user s (delete_document doc s)"
proof -
  have "reachable_rows (delete_document doc s) user = reachable_rows s user"
  proof -
    have "\<not> (\<exists>t\<in>set (tables s). t_doc_id t = doc \<and> t_id t = tr_table_id tr)"
      if tr: "Some (tr_table_id tr) \<in> (c_table_id \<circ> fst) ` set (candidates s user)" for tr
    proof
      assume "\<exists>t\<in>set (tables s). t_doc_id t = doc \<and> t_id t = tr_table_id tr"
      then obtain t where t: "t \<in> set (tables s)" "t_doc_id t = doc" "t_id t = tr_table_id tr" by blast
      from tr obtain c d where c: "(c, d) \<in> set (candidates s user)" "c_table_id c = Some (t_id t)" using t(3) by force
      then have "c \<in> set (chunks s)" "c_doc_id c = d_id d" "sees s user (d_id d)" by (auto simp: candidates_def joined_def)
      then show False using owned t c(2) hidden by (auto simp: tables_owned_def)
    qed
    then show ?thesis
      unfolding reachable_rows_def candidates_delete [OF hidden]
      by (auto simp: delete_document_def intro!: filter_cong)
  qed
  then show ?thesis using candidates_delete [OF hidden] by (simp add: twins_def) (simp add: delete_document_def)
qed

lemma twins_begin: "twins user s s' \<Longrightarrow> twin_txn user (begin_txn s) (begin_txn s')"
  by (simp add: twin_txn_def begin_txn_def)

text \<open>
  The hypothesis on BM25 is needed: an index whose scores use corpus statistics tells a caller about chunks he may not see.
\<close>

definition counting_engine :: engine where
  "counting_engine = sample_engine\<lparr>eng_bm25_score := (\<lambda>cs q c. real (length cs))\<rparr>"

lemma bm25_statistics_leak:
  "\<not> corpus_free counting_engine"
  "\<not> sees sample_db (Some (sample_user 1)) 4
   \<and> keyword_search counting_engine ''fire'' sample_db (Some (sample_user 1)) 5 Live
     \<noteq> keyword_search counting_engine ''fire'' (delete_document 4 sample_db) (Some (sample_user 1)) 5 Live"
proof -
  show "\<not> corpus_free counting_engine"
  proof
    assume "corpus_free counting_engine"
    moreover have "eng_bm25_available counting_engine" by (simp add: counting_engine_def sample_engine_def)
    ultimately have "eng_bm25_score counting_engine [] q c = eng_bm25_score counting_engine [sample_chunk 1 4] q c" for q c
      unfolding corpus_free_def by blast
    then show False by (simp add: counting_engine_def)
  qed
  show "\<not> sees sample_db (Some (sample_user 1)) 4
   \<and> keyword_search counting_engine ''fire'' sample_db (Some (sample_user 1)) 5 Live
     \<noteq> keyword_search counting_engine ''fire'' (delete_document 4 sample_db) (Some (sample_user 1)) 5 Live"
    by (simp add: counting_engine_def sample_engine_def sample_db_def keyword_search_def bm25_search_eq bm25_rows_hits_def candidates_def
        joined_def sees_def visibility_clause_def sample_user_def sample_document_def sample_chunk_def public_grant_def acl_grants_def
        empty_db_def delete_document_def tbl_del_def visit_def sort_desc_def row_hit_def)
qed



end
