(* ===== verification/Spec2Isabelle.thy ===== *)
theory Spec2Isabelle imports Chat_Flow Sync_Props Scheduler Admin_People Middleware_Model Eval_Metrics Maintenance Migrations
  App_Routes Scheduler_Loop S3_Client Schemas Bench_Rerank Page_Images Sweep Smoke System_Access Noninterference begin

text \<open>
  Verification development for ProRag, a retrieval-augmented question answering service
  (Python, FastAPI, PostgreSQL with pgvector and ParadeDB, language models behind HTTP).

  \<^bold>\<open>The program.\<close> Files reach the library by upload, by a connector that mirrors an S3 bucket, or by a
  maintenance script; \<open>ingest_bytes\<close> parses, chunks, embeds and stores each of them with its access
  grants. A question is planned, searched in three arms, fused, reranked and cropped, and answered
  by a model whose citations are resolved to the sources shown. Users, groups and access rules
  decide which documents a question may touch; usage rows and a daily gate bound its cost.

  \<^bold>\<open>Effects.\<close> The database is a record of tables (\<open>db\<close> in DataModel); a SQLAlchemy session is a pair of
  its committed and its working state (\<open>txn\<close>), so that commit, rollback and a session closed without
  a commit are visible. Blobs are a map from paths to contents. A Python exception is the left
  side of \<open>outcome\<close> (type \<open>exn\<close> of Prelude, HTTP errors with their status). Strings are lists of code
  points below 256; time stamps are integers in seconds; amounts and scores are reals. Everything the code
  asks of the outside is an argument: the SQL engine's ranking and vector distances (\<open>engine\<close>), the
  model and embedding providers (\<open>provider\<close>, \<open>backend\<close>), parsers, OCR and hashes (\<open>parse_env\<close>,
  \<open>ingest_env\<close>), the object store, the bucket and the clock of a sync (\<open>object_store\<close>, \<open>sync_env\<close>), what the
  endless loop of the scheduler meets in each round (\<open>loop_round\<close>), the framework's choice of a route (\<open>routing\<close>), tokens, password hashes and the
  identity provider (\<open>auth_env\<close>, \<open>oidc_env\<close>), gzip, and the probes of the doctor. What a theorem needs of them is a
  hypothesis of it, with a witness over a concrete instance.

  \<^bold>\<open>Theories.\<close>
  \<^item> Prelude: outcomes, Python slices, the stable descending sort, first occurrences, keyed tables.
  \<^item> PyStr, Regex: \<open>str\<close> methods and a backtracking matcher for the constructs of \<open>re\<close> the source uses.
  \<^item> DataModel (\<open>prorag/models.py\<close>), Settings\_Model (\<open>prorag/settings.py\<close>).
  \<^item> Visibility (\<open>retrieve/visibility.py\<close>, \<open>files/router.py\<close>): the access predicate, its raw-SQL twin and
    the single-document guard; the twins agree, and a hidden document cannot be told from none.
  \<^item> Arms, Fusion, Rerank, Crop (\<open>retrieve/arms.py\<close>, \<open>fuse.py\<close>, \<open>rerank.py\<close>, \<open>crop.py\<close>): each stage of the
    search. Arms return visible ready documents only and do not depend on hidden ones; fusion is exactly the sum
    of weighted reciprocal ranks; reranking and cropping select, bounded, never invent.
  \<^item> Cost\_Budget, Llm, Planning (\<open>cost.py\<close>, \<open>operations/budget.py\<close>, \<open>llm.py\<close>, \<open>retrieve/plan.py\<close>, \<open>prefill.py\<close>).
  \<^item> Retrieval (\<open>operations/retrieval.py\<close>, \<open>retrieve/router.py\<close>): the pipeline composed; access control end to end.
  \<^item> Token\_Guard, Citations, Chat\_Flow (\<open>chat/stream.py\<close>, \<open>citations.py\<close>, \<open>router.py\<close>, \<open>operations/chat.py\<close>): the
    streaming guard character by character, citation round trips, both chat endpoints with their
    error, heartbeat and persistence paths, feedback.
  \<^item> Chunking, Table\_Artifacts, Parsing, Page\_Images, Ingest (\<open>ingest/*.py\<close>), Ingest\_Props: the two chunkers, the parse
    routes with rendering and the vision request,
    \<open>ingest_bytes\<close> with every clean-up; a document is stored whole or not at all, keeps the library
    invariant \<open>library_ok\<close> and starts visible to nobody a rule does not admit.
  \<^item> Sync\_Engine, S3\_Client, Sync\_Props, Scheduler, Scheduler\_Loop (\<open>connectors/*.py\<close>, the lifespan of \<open>main.py\<close>):
    the client with its pages, listing, classification, item bookkeeping, sweep, tick, the endless loop, connector
    endpoints; convergence, propagation of deletions, a loop that survives every fault, and the lock that manual and
    scheduled runs share as a step relation.
  \<^item> Auth\_Model (\<open>auth.py\<close>, \<open>auth_routes.py\<close>), Admin\_Rules, Admin\_People (\<open>admin/router.py\<close>): sessions, keys,
    logins, OIDC group seeding; access rules from draft to deletion; users, groups, provenance, usage.
  \<^item> App\_Routes (\<open>main.py\<close> and the decorators of every router), Schemas (\<open>schemas.py\<close>): the composed application, in
    which no route escapes its guard, and the typing of request bodies in front of the handlers.
  \<^item> Middleware\_Model (\<open>middleware.py\<close>), Eval\_Metrics (\<open>eval/*.py\<close>), Sweep (\<open>scripts/sweep.py\<close>: the settings it
    overrides come back whatever a run does), Bench\_Scale, Bench\_Commands, Bench\_Rerank (\<open>scripts/bench_scale.py\<close>: filling a tier
    ends and is exact, its clean-up, the percentiles), Smoke (\<open>scripts/smoke.py\<close>), Maintenance
    (\<open>scripts/reingest.py\<close>, \<open>create_admin.py\<close>, \<open>create_api_key.py\<close>, \<open>doctor.py\<close>, the readiness probe of \<open>main.py\<close>).
  \<^item> Migrations (\<open>alembic/versions/*.py\<close>, \<open>alembic/env.py\<close>, \<open>scripts/migrate.py\<close>): the revisions as statements over a schema,
    their reversal, the comparison of the result with the mapped tables, and replicas that migrate under
    the advisory lock as a step relation.

  \<^item> Noninterference: the pipeline as a whole over two databases that look alike to a caller; every stage from the planner to
    the stored exchange relates them, so a document he may not see changes nothing in an answer, a stream or a search.
  \<^item> System\_Model, System\_Props, System\_Reach, System\_Access (\<open>db.py\<close> and the composition of all of the above): the application
    as one state machine. Its state is the committed database, the blob store and the evaluation runs; a step is a request that passes
    the dependencies of its route and then its handler on a session of its own (\<open>serve\<close>, \<open>handle\<close>), a round of the scheduler, or a
    script. \<open>system_ok\<close> collects the invariants of the components and every event keeps it, refused and failing ones included;
    from it follows who sees what in every reachable state, and that only administrators change it.

  \<^bold>\<open>Interfaces.\<close> Locales state what one component needs of another; each is interpreted on the model's
  own definitions where they are provided: \<open>retrieval_arm\<close> (an arm's hits come from visible ready rows;
  interpreted for every arm), \<open>hit_stage\<close> and \<open>hit_pipeline\<close> (a stage keeps a sub-collection of its
  hits; interpreted for slicing, reranking, cropping and their composition), \<open>bracket_matcher\<close> and
  \<open>deviation_matcher\<close> (what a citation pattern recognises; one instance per pattern), \<open>ingest_service\<close>
  (what the sync loop needs of an ingest; interpreted on \<open>ingest_bytes\<close> with fresh identifiers,
  for the invariant of the library and for that of the whole application).

  \<^bold>\<open>Recursion.\<close> Every loop is a total function, apart from the insertion loop of the benchmark: it is a
  \<open>while_option\<close> whose result is proved to be a value. The window loop of the chunkers terminates because its step
  is at least one; the matcher recurses on the expression, with one round per input character for stars.
  The event loop of the scheduler and the migrating replicas are step relations without a bound; the rounds of the
  scheduler until its cancellation are a list of any length.

  \<^bold>\<open>Not modelled.\<close> The configuration of the connection pool (\<open>db.py\<close>), the wording of the prompts of planner and prefill
  (arguments; the texts have characters beyond code point 255), the parsing of JSON, UUIDs and command lines, the random
  vectors and the SQL of the benchmark's timed queries, logging and printing, clients that disconnect, statements of different
  requests interleaving inside one handler (the connector lock, the migration lock and the race of two equal uploads apart; the steps
  of System\_Model are whole requests, rounds and scripts), references from connector items to documents in the invariant of
  the application, and rounding of floating-point numbers.
\<close>

end
